(* ===== verification/Prelude.thy ===== *)
theory Prelude
  imports Main "HOL-Library.Word" "HOL-Library.Monad_Syntax"
begin

text \<open>
  Shared vocabulary of the development: how a run of a C function of eSalsa-MPI is
  represented, the error codes of \<^verbatim>\<open>include/empi-constants.h\<close> and
  \<^verbatim>\<open>src/backend/empi.h\<close>, the maxima and the process-id macros of
  \<^verbatim>\<open>src/shared/settings.h\<close>, static arrays as tables, and the scan for a free slot that
  four registries of the backend share.

  A run yields \<open>Some r\<close> when the function returns and \<open>None\<close> when the process stops
  (the fatal logging macros store through a null pointer) or when the C code has no defined
  behaviour (a read outside an array, a null or dangling pointer).
\<close>

unbundle bit_operations_syntax

named_theorems const_defs \<open>the constants of the headers, unfolded to their values\<close>

type_synonym 'a run = "'a option"
type_synonym addr = nat
type_synonym u16 = "16 word"
type_synonym u32 = "32 word"
type_synonym u64 = "64 word"
type_synonym 'a table = "int \<Rightarrow> 'a option"

section \<open>Logging macros\<close>

text \<open>
  \<^verbatim>\<open>src/shared/logging.h\<close>: \<open>ERROR\<close> passes the build option \<^verbatim>\<open>ERRORS_ARE_FATAL\<close> on to
  \<open>XERROR\<close>, which then stops the process; with the option off the code goes on with the
  lines after the macro. The option is the argument \<open>ef\<close> of every model function that can
  reach an \<open>ERROR\<close>. \<open>FATAL\<close> and \<open>IERROR\<close> stop the process whatever the option.
  \<open>WARN\<close>, \<open>INFO\<close> and \<open>DEBUG\<close> have no effect on the state.
\<close>

definition XERROR :: "bool \<Rightarrow> 'a run \<Rightarrow> 'a run" where
  "XERROR fatal k = (if fatal then None else k)"

definition ERROR :: "bool \<Rightarrow> 'a run \<Rightarrow> 'a run" where
  "ERROR ef k = XERROR ef k"

definition IERROR :: "'a run \<Rightarrow> 'a run" where
  "IERROR k = XERROR True k"

definition FATAL :: "'a run \<Rightarrow> 'a run" where
  "FATAL k = XERROR True k"

lemma XERROR_simps [simp]: "XERROR True k = None" "XERROR False k = k"
  by (simp_all add: XERROR_def)

lemma ERROR_simps [simp]: "ERROR True k = None" "ERROR False k = k"
  by (simp_all add: ERROR_def)

lemma fatal_simps [simp]: "IERROR k = None" "FATAL k = None"
  by (simp_all add: IERROR_def FATAL_def)

lemma ERROR_Some_iff [simp]: "ERROR ef k = Some r \<longleftrightarrow> \<not> ef \<and> k = Some r"
  by (cases ef) simp_all

section \<open>Constants\<close>

abbreviation (input) EMPI_SUCCESS :: int where "EMPI_SUCCESS \<equiv> 0"
abbreviation (input) EMPI_ERR_TYPE :: int where "EMPI_ERR_TYPE \<equiv> 3"
abbreviation (input) EMPI_ERR_COMM :: int where "EMPI_ERR_COMM \<equiv> 5"
abbreviation (input) EMPI_ERR_RANK :: int where "EMPI_ERR_RANK \<equiv> 6"
abbreviation (input) EMPI_ERR_REQUEST :: int where "EMPI_ERR_REQUEST \<equiv> 7"
abbreviation (input) EMPI_ERR_GROUP :: int where "EMPI_ERR_GROUP \<equiv> 9"
abbreviation (input) EMPI_ERR_OP :: int where "EMPI_ERR_OP \<equiv> 10"
abbreviation (input) EMPI_ERR_ARG :: int where "EMPI_ERR_ARG \<equiv> 13"
abbreviation (input) EMPI_ERR_INTERN :: int where "EMPI_ERR_INTERN \<equiv> 17"
abbreviation (input) EMPI_ANY_SOURCE :: int where "EMPI_ANY_SOURCE \<equiv> -1"
abbreviation (input) EMPI_ANY_TAG :: int where "EMPI_ANY_TAG \<equiv> -1"
abbreviation (input) EMPI_UNDEFINED :: int where "EMPI_UNDEFINED \<equiv> -32766"

text \<open>The values of an \<^verbatim>\<open>int\<close>; arithmetic that leaves them is not defined.\<close>

definition int_ok :: "int \<Rightarrow> bool" where
  "int_ok i \<longleftrightarrow> - (2 ^ 31) \<le> i \<and> i < 2 ^ 31"

section \<open>Process identifiers\<close>

text \<open>
  A PID packs the rank of a cluster into the top 8 bits and the rank of a process in its
  cluster into the lower 24.
\<close>

definition MAX_CLUSTERS :: nat where [const_defs]: "MAX_CLUSTERS = 256"
definition MAX_PROCESSES_PER_CLUSTER :: nat where [const_defs]: "MAX_PROCESSES_PER_CLUSTER = 16777216"

definition GET_CLUSTER_RANK :: "u32 \<Rightarrow> u32" where
  "GET_CLUSTER_RANK x = drop_bit 24 (x AND 0xFF000000)"

definition GET_PROCESS_RANK :: "u32 \<Rightarrow> u32" where
  "GET_PROCESS_RANK x = x AND 0x00FFFFFF"

definition SET_PID :: "u32 \<Rightarrow> u32 \<Rightarrow> u32" where
  "SET_PID x y = push_bit 24 (x AND 0xFF) OR (y AND 0xFFFFFF)"

definition server_pid :: u32 where "server_pid = 0xFFFFFFFF"

lemma mask_literals:
  "(0xFF :: u32) = mask 8" "(0xFFFFFF :: u32) = mask 24"
  "(0xFF000000 :: u32) = push_bit 24 (mask 8)"
  by (simp_all add: mask_eq_exp_minus_1 push_bit_eq_mult)

lemma cluster_of_SET_PID: "GET_CLUSTER_RANK (SET_PID c p) = take_bit 8 c"
  unfolding GET_CLUSTER_RANK_def SET_PID_def mask_literals
  by (rule bit_word_eqI)
     (auto simp: bit_simps take_bit_eq_mask [symmetric] simp flip: take_bit_eq_mask)

lemma process_of_SET_PID: "GET_PROCESS_RANK (SET_PID c p) = take_bit 24 p"
  unfolding GET_PROCESS_RANK_def SET_PID_def mask_literals
  by (rule bit_word_eqI) (auto simp: bit_simps)

lemma SET_PID_of_parts: "SET_PID (GET_CLUSTER_RANK x) (GET_PROCESS_RANK x) = x"
  unfolding GET_CLUSTER_RANK_def GET_PROCESS_RANK_def SET_PID_def mask_literals
  by (rule bit_word_eqI) (auto simp: bit_simps)

section \<open>Lists\<close>

text \<open>The list without its first element that satisfies \<open>P\<close>.\<close>

fun remove_first :: "('a \<Rightarrow> bool) \<Rightarrow> 'a list \<Rightarrow> 'a list" where
  "remove_first P [] = []"
| "remove_first P (x # xs) = (if P x then xs else x # remove_first P xs)"

lemma remove_first_none [simp]: "\<forall>x \<in> set xs. \<not> P x \<Longrightarrow> remove_first P xs = xs"
  by (induction xs) auto

lemma remove_first_split: "\<forall>x \<in> set us. \<not> P x \<Longrightarrow> P y \<Longrightarrow> remove_first P (us @ y # vs) = us @ vs"
  by (induction us) auto

lemma find_split: "\<forall>x \<in> set us. \<not> P x \<Longrightarrow> P y \<Longrightarrow> find P (us @ y # vs) = Some y"
  by (induction us) auto

lemma find_none [simp]: "\<forall>x \<in> set xs. \<not> P x \<Longrightarrow> find P xs = None"
  by (induction xs) auto

lemma first_match_cases:
  obtains (none) "\<forall>x \<in> set xs. \<not> P x"
  | (some) us y vs where "xs = us @ y # vs" "\<forall>x \<in> set us. \<not> P x" "P y"
  using split_list_first_prop [of xs P] by blast

section \<open>Arrays\<close>

text \<open>
  Elements of a malloc'ed array, by a C index; outside the array the code has no defined
  behaviour. A null array pointer is the empty list.
\<close>

definition arr_read :: "'a list \<Rightarrow> int \<Rightarrow> 'a run" where
  "arr_read xs i = (if 0 \<le> i \<and> i < int (length xs) then Some (xs ! nat i) else None)"

definition arr_write :: "'a list \<Rightarrow> int \<Rightarrow> 'a \<Rightarrow> 'a list run" where
  "arr_write xs i v = (if 0 \<le> i \<and> i < int (length xs) then Some (xs[nat i := v]) else None)"

lemma arr_read_nat [simp]: "i < length xs \<Longrightarrow> arr_read xs (int i) = Some (xs ! i)"
  by (simp add: arr_read_def)

lemma arr_read_Some_iff:
  "arr_read xs i = Some v \<longleftrightarrow> 0 \<le> i \<and> i < int (length xs) \<and> v = xs ! nat i"
  by (auto simp: arr_read_def)

text \<open>The loop \<^verbatim>\<open>for (i=k;i<k+n;i++) a[i] = f(i)\<close>.\<close>

fun arr_fill :: "(int \<Rightarrow> 'a run) \<Rightarrow> nat \<Rightarrow> int \<Rightarrow> 'a list \<Rightarrow> 'a list run" where
  "arr_fill f 0 i a = Some a"
| "arr_fill f (Suc n) i a = do { v \<leftarrow> f i; a' \<leftarrow> arr_write a i v; arr_fill f n (i + 1) a' }"

lemma arr_fill_from:
  assumes "length a = k + n" "\<And>i. i < n \<Longrightarrow> f (int (k + i)) = Some (g (k + i))"
  shows "arr_fill f n (int k) a = Some (take k a @ map g [k ..< k + n])"
  using assms
proof (induction n arbitrary: a k)
  case 0
  then show ?case by simp
next
  case (Suc n)
  let ?a = "a[k := g k]"
  have "f (int k) = Some (g k)" using Suc.prems(2) [of 0] by simp
  moreover have "arr_write a (int k) (g k) = Some ?a"
    using Suc.prems(1) by (simp add: arr_write_def)
  moreover have "f (int (Suc k + i)) = Some (g (Suc k + i))" if "i < n" for i
    using Suc.prems(2) [of "Suc i"] that by simp
  then have "arr_fill f n (int (Suc k)) ?a = Some (take (Suc k) ?a @ map g [Suc k ..< Suc k + n])"
    using Suc.prems(1) by (intro Suc.IH) auto
  moreover have "take (Suc k) ?a = take k a @ [g k]"
    using Suc.prems(1) by (simp add: take_Suc_conv_app_nth)
  moreover have "[k ..< k + Suc n] = k # [Suc k ..< Suc k + n]"
    by (simp add: upt_conv_Cons)
  ultimately show ?case by (simp add: add.commute)
qed

lemma arr_fill_all:
  assumes "length a = n" "\<And>i. i < n \<Longrightarrow> f (int i) = Some (g i)"
  shows "arr_fill f n 0 a = Some (map g [0 ..< n])"
  using arr_fill_from [of a 0 n f g] assms by simp

end
