(* ===== verification/Handles.thy ===== *)
theory Handles
  imports Prelude
begin

text \<open>
  The registries of the backend. Every MPI object the library hands to an application (a
  request, a datatype, an operation, a group, a communicator, a file, an info object) is a
  malloc'ed structure that a static array of pointers makes reachable through a small
  integer, the handle: \<^verbatim>\<open>static request *reqs[MAX_REQUESTS]\<close> and its siblings. This theory
  models such an array together with the structures it points to, states the interface that
  the rest of the library relies on as three locales, and proves the clients' lemmas in
  them. The theories of the registries interpret the locales on the code's own operations.
\<close>

section \<open>Arrays of pointers and the structures behind them\<close>

record 'a reg =
  heap :: "addr \<Rightarrow> 'a option"
  slots :: "addr table"

text \<open>Reading and writing an element of a static array of \<open>n\<close> elements.\<close>

definition tbl_read :: "int \<Rightarrow> 'b table \<Rightarrow> int \<Rightarrow> 'b option run" where
  "tbl_read n t i = (if 0 \<le> i \<and> i < n then Some (t i) else None)"

definition tbl_write :: "int \<Rightarrow> 'b table \<Rightarrow> int \<Rightarrow> 'b option \<Rightarrow> 'b table run" where
  "tbl_write n t i v = (if 0 \<le> i \<and> i < n then Some (t(i := v)) else None)"

lemma tbl_read_in [simp]: "0 \<le> i \<Longrightarrow> i < n \<Longrightarrow> tbl_read n t i = Some (t i)"
  by (simp add: tbl_read_def)

lemma tbl_read_Some_iff: "tbl_read n t i = Some v \<longleftrightarrow> 0 \<le> i \<and> i < n \<and> v = t i"
  by (auto simp: tbl_read_def)

lemma tbl_write_in [simp]: "0 \<le> i \<Longrightarrow> i < n \<Longrightarrow> tbl_write n t i v = Some (t(i := v))"
  by (simp add: tbl_write_def)

lemma tbl_write_Some_iff:
  "tbl_write n t i v = Some t' \<longleftrightarrow> 0 \<le> i \<and> i < n \<and> t' = t(i := v)"
  by (auto simp: tbl_write_def)

text \<open>
  The loop \<^verbatim>\<open>for (i=lo;i<MAX;i++) if (table[i] == NULL) ...\<close> that looks for a free slot.
\<close>

function first_free :: "'b table \<Rightarrow> int \<Rightarrow> int \<Rightarrow> int option" where
  "first_free t i n = (if i < n then if t i = None then Some i else first_free t (i + 1) n else None)"
  by pat_completeness auto
termination
  by (relation "measure (\<lambda>(t, i, n). nat (n - i))") auto

declare first_free.simps [simp del]

lemma first_free_Some:
  "first_free t i n = Some j \<Longrightarrow> i \<le> j \<and> j < n \<and> t j = None \<and> (\<forall>k. i \<le> k \<and> k < j \<longrightarrow> t k \<noteq> None)"
proof (induction t i n rule: first_free.induct)
  case (1 t i n)
  show ?case
  proof (cases "i < n \<and> t i \<noteq> None")
    case True
    then have eq: "first_free t i n = first_free t (i + 1) n"
      by (auto simp: first_free.simps [of t i n])
    from "1.IH" True "1.prems" have
      IH: "i + 1 \<le> j \<and> j < n \<and> t j = None \<and> (\<forall>k. i + 1 \<le> k \<and> k < j \<longrightarrow> t k \<noteq> None)"
      unfolding eq by simp
    have "t k \<noteq> None" if "i \<le> k" "k < j" for k
      using IH True that by (cases "k = i") auto
    with IH show ?thesis by auto
  next
    case False
    with "1.prems" show ?thesis
      by (subst (asm) first_free.simps) (auto split: if_splits)
  qed
qed

lemma first_free_None: "first_free t i n = None \<longleftrightarrow> (\<forall>k. i \<le> k \<and> k < n \<longrightarrow> t k \<noteq> None)"
proof (induction t i n rule: first_free.induct)
  case (1 t i n)
  show ?case
  proof (cases "i < n \<and> t i \<noteq> None")
    case True
    then have eq: "first_free t i n = first_free t (i + 1) n"
      by (auto simp: first_free.simps [of t i n])
    have "(\<forall>k. i \<le> k \<and> k < n \<longrightarrow> t k \<noteq> None) \<longleftrightarrow> (\<forall>k. i + 1 \<le> k \<and> k < n \<longrightarrow> t k \<noteq> None)"
      using True by (metis add1_zle_eq order_le_less zle_add1_eq_le)
    with "1.IH" True show ?thesis unfolding eq by simp
  next
    case False
    then show ?thesis by (subst first_free.simps) auto
  qed
qed

section \<open>Well-formed registries\<close>

text \<open>
  Every used slot lies inside the array, points to a live structure, and from slot \<open>lo\<close> on
  that structure's own handle field is the slot's index. (Only the group registry has
  \<open>lo > 0\<close>: its two predefined slots carry no handle.)
\<close>

definition reg_inv :: "('a \<Rightarrow> int) \<Rightarrow> int \<Rightarrow> int \<Rightarrow> ('a, 'z) reg_scheme \<Rightarrow> bool" where
  "reg_inv hof lo n r \<longleftrightarrow>
     (\<forall>i p. slots r i = Some p \<longrightarrow>
        0 \<le> i \<and> i < n \<and> (\<exists>x. heap r p = Some x \<and> (lo \<le> i \<longrightarrow> hof x = i)))"

text \<open>What \<^verbatim>\<open>malloc\<close> guarantees: the block it returns overlaps no live structure.\<close>

definition fresh :: "('a, 'z) reg_scheme \<Rightarrow> addr option \<Rightarrow> bool" where
  "fresh r new \<longleftrightarrow> (\<forall>p. new = Some p \<longrightarrow> heap r p = None)"

lemma reg_invD:
  assumes "reg_inv hof lo n r" "slots r i = Some p"
  shows "0 \<le> i" "i < n" "\<exists>x. heap r p = Some x \<and> (lo \<le> i \<longrightarrow> hof x = i)"
  using assms unfolding reg_inv_def by blast+

lemma reg_inv_cong:
  "heap r' = heap r \<Longrightarrow> slots r' = slots r \<Longrightarrow> reg_inv hof lo n r' \<longleftrightarrow> reg_inv hof lo n r"
  by (simp add: reg_inv_def)

lemma reg_inv_fresh_slot:
  "reg_inv hof lo n r \<Longrightarrow> fresh r (Some p) \<Longrightarrow> slots r i \<noteq> Some p"
  unfolding reg_inv_def fresh_def by fastforce

lemma reg_inv_add:
  assumes "reg_inv hof lo n r" "fresh r (Some p)" "0 \<le> h" "h < n" "hof x = h"
  shows "reg_inv hof lo n (r\<lparr>heap := (heap r)(p \<mapsto> x), slots := (slots r)(h \<mapsto> p)\<rparr>)"
  unfolding reg_inv_def
proof (intro allI impI)
  fix i q
  assume "slots (r\<lparr>heap := (heap r)(p \<mapsto> x), slots := (slots r)(h \<mapsto> p)\<rparr>) i = Some q"
  then have *: "((slots r)(h \<mapsto> p)) i = Some q" by simp
  show "0 \<le> i \<and> i < n \<and>
    (\<exists>y. heap (r\<lparr>heap := (heap r)(p \<mapsto> x), slots := (slots r)(h \<mapsto> p)\<rparr>) q = Some y \<and> (lo \<le> i \<longrightarrow> hof y = i))"
  proof (cases "i = h")
    case True
    with * assms show ?thesis by auto
  next
    case False
    with * have s: "slots r i = Some q" by simp
    from assms(1,2) s have "q \<noteq> p" using reg_inv_fresh_slot by blast
    with s assms(1) show ?thesis by (auto simp: reg_inv_def)
  qed
qed

lemma reg_inv_remove:
  assumes "reg_inv hof lo n r" "slots r h = Some p" "\<And>i. slots r i = Some p \<Longrightarrow> i = h"
  shows "reg_inv hof lo n (r\<lparr>heap := (heap r)(p := None), slots := (slots r)(h := None)\<rparr>)"
  unfolding reg_inv_def
proof (intro allI impI)
  fix i q
  assume "slots (r\<lparr>heap := (heap r)(p := None), slots := (slots r)(h := None)\<rparr>) i = Some q"
  then have "i \<noteq> h" "slots r i = Some q" by (auto split: if_splits)
  moreover from this assms(3) have "q \<noteq> p" by blast
  ultimately show "0 \<le> i \<and> i < n \<and>
    (\<exists>y. heap (r\<lparr>heap := (heap r)(p := None), slots := (slots r)(h := None)\<rparr>) q = Some y \<and> (lo \<le> i \<longrightarrow> hof y = i))"
    using assms(1) unfolding reg_inv_def by simp
qed

lemma reg_inv_inj:
  assumes "reg_inv hof 0 n r" "slots r i = Some p" "slots r j = Some p"
  shows "i = j"
  using reg_invD [OF assms(1,2)] reg_invD [OF assms(1,3)] by auto

text \<open>Writing a field of a live structure other than its handle keeps the registry well formed.\<close>

lemma reg_inv_update:
  assumes "reg_inv hof lo n r" "heap r p = Some x" "hof y = hof x"
  shows "reg_inv hof lo n (r\<lparr>heap := (heap r)(p \<mapsto> y)\<rparr>)"
  unfolding reg_inv_def
proof (intro allI impI)
  fix i q assume "slots (r\<lparr>heap := (heap r)(p \<mapsto> y)\<rparr>) i = Some q"
  then have s: "slots r i = Some q" by simp
  from reg_invD[OF assms(1) s] assms(2,3)
  show "0 \<le> i \<and> i < n \<and>
    (\<exists>x'. heap (r\<lparr>heap := (heap r)(p \<mapsto> y)\<rparr>) q = Some x' \<and> (lo \<le> i \<longrightarrow> hof x' = i))"
    by auto
qed

section \<open>The interfaces\<close>

text \<open>
  What the rest of the library uses of a registry: turning a handle into a pointer (the
  macros H2C, H2T, H2R, H2O, H2G, H2F and H2I of \<^verbatim>\<open>src/backend/macros.h\<close>) and back.
\<close>

locale handle_table =
  fixes hof :: "'a \<Rightarrow> int"
    and lo :: int
    and maxh :: int
    and lookup :: "bool \<Rightarrow> ('a, 'z) reg_scheme \<Rightarrow> int \<Rightarrow> addr option run"
    and to_handle :: "bool \<Rightarrow> ('a, 'z) reg_scheme \<Rightarrow> addr option \<Rightarrow> int run"
  assumes lookup_used: "0 \<le> h \<Longrightarrow> h < maxh \<Longrightarrow> slots r h = Some p \<Longrightarrow> lookup ef r h = Some (Some p)"
    and lookup_sound: "lookup ef r h = Some (Some p) \<Longrightarrow> slots r h = Some p"
    and to_handle_ptr: "heap r p = Some x \<Longrightarrow> to_handle ef r (Some p) = Some (hof x)"
begin

lemma lookup_iff:
  "reg_inv hof lo maxh r \<Longrightarrow> lookup ef r h = Some (Some p) \<longleftrightarrow> slots r h = Some p"
  using lookup_used lookup_sound reg_invD(1,2) by blast

lemma handle_roundtrip:
  assumes "reg_inv hof lo maxh r" "lo \<le> h" "lookup ef r h = Some (Some p)"
  shows "to_handle ef r (Some p) = Some h"
proof -
  from assms have "slots r h = Some p" by (simp add: lookup_iff)
  from reg_invD(3)[OF assms(1) this] assms(2) obtain x where "heap r p = Some x" "hof x = h"
    by blast
  then show ?thesis using to_handle_ptr by simp
qed

lemma pointers_distinct:
  assumes "reg_inv hof lo maxh r" "lo \<le> h" "lo \<le> k"
    and "lookup ef r h = Some (Some p)" "lookup ef r k = Some (Some p)"
  shows "h = k"
  using assms by (metis handle_roundtrip option.inject)

end

text \<open>A registry to which objects are added: \<open>alloc ef new x r\<close>, with \<open>new\<close> the result of malloc.\<close>

locale handle_alloc = handle_table hof lo maxh lookup to_handle
  for hof :: "'a \<Rightarrow> int"
    and lo :: int
    and maxh :: int
    and lookup :: "bool \<Rightarrow> ('a, 'z) reg_scheme \<Rightarrow> int \<Rightarrow> addr option run"
    and to_handle :: "bool \<Rightarrow> ('a, 'z) reg_scheme \<Rightarrow> addr option \<Rightarrow> int run" +
  fixes alloc :: "bool \<Rightarrow> addr option \<Rightarrow> 'b \<Rightarrow> ('a, 'z) reg_scheme \<Rightarrow> (addr option \<times> ('a, 'z) reg_scheme) run"
    and ok :: "('a, 'z) reg_scheme \<Rightarrow> bool"
  assumes ok_inv: "ok r \<Longrightarrow> reg_inv hof lo maxh r"
    and alloc_slot: "ok r \<Longrightarrow> fresh r new \<Longrightarrow> alloc ef new x r = Some (Some p, r') \<Longrightarrow>
       \<exists>h. lo \<le> h \<and> slots r h = None \<and> slots r' = (slots r)(h \<mapsto> p)"
    and alloc_ok: "ok r \<Longrightarrow> fresh r new \<Longrightarrow> alloc ef new x r = Some (Some p, r') \<Longrightarrow> ok r'"
    and alloc_null: "ok r \<Longrightarrow> fresh r new \<Longrightarrow> alloc ef new x r = Some (None, r') \<Longrightarrow>
       slots r' = slots r \<and> ok r'"
begin

text \<open>The object just added is reachable under a handle that was free before.\<close>

lemma alloc_reachable:
  assumes "ok r" "fresh r new" "alloc ef new x r = Some (Some p, r')"
  obtains h where "to_handle ef' r' (Some p) = Some h" "lookup ef' r' h = Some (Some p)" "slots r h = None"
proof -
  from alloc_slot[OF assms] obtain h where
    h: "lo \<le> h" "slots r h = None" "slots r' = (slots r)(h \<mapsto> p)" by blast
  from alloc_ok[OF assms] have inv: "reg_inv hof lo maxh r'" by (rule ok_inv)
  from h(3) have "slots r' h = Some p" by simp
  with inv have l: "lookup ef' r' h = Some (Some p)" by (simp add: lookup_iff)
  from handle_roundtrip[OF inv h(1) l] l h(2) show ?thesis by (rule that)
qed

text \<open>Objects added before stay reachable under the same handle.\<close>

lemma alloc_keeps:
  assumes "ok r" "fresh r new" "alloc ef new x r = Some (res, r')"
    and "lookup ef' r k = Some (Some q)"
  shows "lookup ef' r' k = Some (Some q)"
proof (cases res)
  case None
  with assms alloc_null[of r new ef x r'] have "slots r' = slots r" "ok r'" by auto
  with assms(1,4) show ?thesis by (metis lookup_iff ok_inv)
next
  case (Some p)
  with assms alloc_slot[of r new ef x p r'] alloc_ok[of r new ef x p r']
  obtain h where "slots r h = None" "slots r' = (slots r)(h \<mapsto> p)" "ok r'" by auto
  moreover from assms(1,4) have "slots r k = Some q" by (metis lookup_iff ok_inv)
  ultimately have "slots r' k = Some q" by auto
  with \<open>ok r'\<close> show ?thesis by (metis lookup_iff ok_inv)
qed

end

text \<open>A registry from which an object can be taken again.\<close>

locale handle_pool = handle_alloc hof lo maxh lookup to_handle alloc ok
  for hof :: "'a \<Rightarrow> int"
    and lo :: int
    and maxh :: int
    and lookup :: "bool \<Rightarrow> ('a, 'z) reg_scheme \<Rightarrow> int \<Rightarrow> addr option run"
    and to_handle :: "bool \<Rightarrow> ('a, 'z) reg_scheme \<Rightarrow> addr option \<Rightarrow> int run"
    and alloc :: "bool \<Rightarrow> addr option \<Rightarrow> 'b \<Rightarrow> ('a, 'z) reg_scheme \<Rightarrow> (addr option \<times> ('a, 'z) reg_scheme) run"
    and ok :: "('a, 'z) reg_scheme \<Rightarrow> bool" +
  fixes dealloc :: "bool \<Rightarrow> int \<Rightarrow> ('a, 'z) reg_scheme \<Rightarrow> ('a, 'z) reg_scheme run"
    and removable :: "int \<Rightarrow> bool"
  assumes dealloc_slot: "ok r \<Longrightarrow> slots r h = Some p \<Longrightarrow> removable h \<Longrightarrow>
       \<exists>r'. dealloc ef h r = Some r' \<and> slots r' = (slots r)(h := None) \<and> heap r' p = None \<and> ok r'"
    and alloc_removable: "ok r \<Longrightarrow> fresh r new \<Longrightarrow> alloc ef new x r = Some (Some p, r') \<Longrightarrow>
       slots r h = None \<Longrightarrow> slots r' h = Some p \<Longrightarrow> removable h"
begin

text \<open>
  Life cycle of an object: once it is removed its handle resolves to no pointer and its
  memory is released, and every other handle resolves as before it was added.
\<close>

lemma alloc_dealloc:
  assumes "ok r" "fresh r new" "alloc ef new x r = Some (Some p, r1)" "to_handle ef r1 (Some p) = Some h"
  shows "\<exists>r2. dealloc ef h r1 = Some r2 \<and> slots r2 = slots r \<and> heap r2 p = None \<and> ok r2"
proof -
  from alloc_slot[OF assms(1-3)] obtain k where
    k: "lo \<le> k" "slots r k = None" "slots r1 = (slots r)(k \<mapsto> p)" by blast
  have ok1: "ok r1" using alloc_ok[OF assms(1-3)] .
  have s1: "slots r1 k = Some p" using k(3) by simp
  have "lookup ef r1 k = Some (Some p)" using s1 ok1 by (simp add: lookup_iff ok_inv)
  then have "to_handle ef r1 (Some p) = Some k"
    using handle_roundtrip[OF ok_inv[OF ok1] k(1)] by simp
  with assms(4) have "k = h" by simp
  moreover have "removable k" using alloc_removable[OF assms(1-3) k(2) s1] .
  ultimately obtain r2 where "dealloc ef h r1 = Some r2" "slots r2 = (slots r1)(h := None)"
    "heap r2 p = None" "ok r2"
    using dealloc_slot[OF ok1, of h p] s1 by blast
  moreover have "(slots r1)(h := None) = slots r"
    using k \<open>k = h\<close> by (auto simp: fun_eq_iff)
  ultimately show ?thesis by auto
qed

lemma dealloc_lookup:
  assumes "ok r" "slots r h = Some p" "removable h"
  shows "\<exists>r'. dealloc ef h r = Some r' \<and> (\<forall>q. lookup ef' r' h \<noteq> Some (Some q)) \<and>
     (\<forall>k q. k \<noteq> h \<longrightarrow> lookup ef' r k = Some (Some q) \<longrightarrow> lookup ef' r' k = Some (Some q))"
proof -
  from dealloc_slot[OF assms] obtain r' where
    r': "dealloc ef h r = Some r'" "slots r' = (slots r)(h := None)" "ok r'" by blast
  then have "\<forall>q. lookup ef' r' h \<noteq> Some (Some q)"
    using lookup_sound by fastforce
  moreover have "\<forall>k q. k \<noteq> h \<longrightarrow> lookup ef' r k = Some (Some q) \<longrightarrow> lookup ef' r' k = Some (Some q)"
    using r' assms(1) by (metis fun_upd_other lookup_iff ok_inv)
  ultimately show ?thesis using r'(1) by blast
qed

end

end
