(* ===== verification/Data_Message.thy ===== *)
theory Data_Message
  imports Prelude
begin

text \<open>
  The data messages of \<^verbatim>\<open>src/backend/messaging.h\<close> and the functions of
  \<^verbatim>\<open>src/backend/messaging.c\<close> that only build and compare them. The four words of the header
  prepend every message of the library.
\<close>

type_synonym byte = "8 word"

record message_header =
  opcode :: u32
  src_pid :: u32
  dst_pid :: u32
  msg_length :: u32

definition MESSAGE_HEADER_SIZE :: int where "MESSAGE_HEADER_SIZE = 4 * 4"

record data_message =
  header :: message_header
  m_comm :: int
  m_source :: int
  m_dest :: int
  m_tag :: int
  m_count :: int
  payload :: "byte list"

definition DATA_MESSAGE_SIZE :: int where "DATA_MESSAGE_SIZE = MESSAGE_HEADER_SIZE + 5 * 4"

definition OPCODE_DATA :: u32 where "OPCODE_DATA = 50"
definition OPCODE_COLLECTIVE_BCAST :: u32 where "OPCODE_COLLECTIVE_BCAST = 60"

definition MAX_TAG :: int where "MAX_TAG = 32768"
definition BCAST_TAG :: int where "BCAST_TAG = MAX_TAG - 1"

definition match_message :: "data_message \<Rightarrow> int \<Rightarrow> int \<Rightarrow> int \<Rightarrow> bool" where
  "match_message m comm source tag \<longleftrightarrow>
     comm = m_comm m \<and>
     (source = EMPI_ANY_SOURCE \<or> source = m_source m) \<and>
     (tag = EMPI_ANY_TAG \<or> tag = m_tag m)"

text \<open>
  \<open>ok\<close>: malloc returned a block; \<open>data\<close> is what its payload area holds, \<open>data_size\<close> bytes.
\<close>

definition create_data_message ::
  "bool \<Rightarrow> bool \<Rightarrow> u32 \<Rightarrow> u32 \<Rightarrow> u32 \<Rightarrow> int \<Rightarrow> int \<Rightarrow> int \<Rightarrow> int \<Rightarrow> int \<Rightarrow> byte list
    \<Rightarrow> data_message option run" where
  "create_data_message ef ok my_pid opc dst comm source dest tag count data =
     (if \<not> ok then ERROR ef (Some None)
      else Some (Some \<lparr>header = \<lparr>opcode = opc, src_pid = my_pid, dst_pid = dst,
                                  msg_length = word_of_int (DATA_MESSAGE_SIZE + int (length data))\<rparr>,
                        m_comm = comm, m_source = source, m_dest = dest, m_tag = tag,
                        m_count = count, payload = data\<rparr>))"

lemma match_message_any [simp]:
  "match_message m (m_comm m) EMPI_ANY_SOURCE EMPI_ANY_TAG"
  by (simp add: match_message_def)

end
