(* ===== verification/Requests.thy ===== *)
theory Requests
  imports Handles Data_Message
begin

text \<open>
  The request registry, \<^verbatim>\<open>src/backend/request.c\<close> and \<^verbatim>\<open>request.h\<close>: non-blocking
  operations in flight. An \<^verbatim>\<open>MPI_Request\<close> of the local MPI library is an optional identifier
  (\<open>None\<close> is \<^verbatim>\<open>MPI_REQUEST_NULL\<close>); pointers are optional addresses, the pointer to the
  received message the optional message.
\<close>

definition MAX_REQUESTS :: int where "MAX_REQUESTS = 1024"
abbreviation (input) EMPI_REQUEST_NULL :: int where "EMPI_REQUEST_NULL \<equiv> -1"

definition REQUEST_FLAG_ACTIVE :: u32 where "REQUEST_FLAG_ACTIVE = push_bit 0 1"
definition REQUEST_FLAG_PERSISTENT :: u32 where "REQUEST_FLAG_PERSISTENT = push_bit 1 1"
definition REQUEST_FLAG_COMPLETED :: u32 where "REQUEST_FLAG_COMPLETED = push_bit 2 1"
definition REQUEST_FLAG_LOCAL :: u32 where "REQUEST_FLAG_LOCAL = push_bit 3 1"
definition REQUEST_FLAG_SEND :: u32 where "REQUEST_FLAG_SEND = push_bit 4 1"
definition REQUEST_FLAG_RECEIVE :: u32 where "REQUEST_FLAG_RECEIVE = push_bit 5 1"
definition REQUEST_FLAG_UNPACKED :: u32 where "REQUEST_FLAG_UNPACKED = push_bit 6 1"

lemmas flag_defs = REQUEST_FLAG_ACTIVE_def REQUEST_FLAG_PERSISTENT_def REQUEST_FLAG_COMPLETED_def
  REQUEST_FLAG_LOCAL_def REQUEST_FLAG_SEND_def REQUEST_FLAG_RECEIVE_def REQUEST_FLAG_UNPACKED_def

record request =
  rq_flags :: u32
  rq_buf :: "addr option"
  rq_type :: "addr option"
  rq_count :: int
  rq_source_or_dest :: int
  rq_tag :: int
  rq_c :: "addr option"
  rq_error :: int
  rq_handle :: int
  rq_req :: "nat option"
  rq_message :: "data_message option"

type_synonym req_reg = "request reg"

definition init_request :: "req_reg \<Rightarrow> int \<times> req_reg" where
  "init_request r = (EMPI_SUCCESS, r\<lparr>slots := \<lambda>i. None\<rparr>)"

definition add_request :: "addr \<Rightarrow> req_reg \<Rightarrow> int \<times> req_reg" where
  "add_request req r =
     (case first_free (slots r) 0 MAX_REQUESTS of
        Some i \<Rightarrow> (i, r\<lparr>slots := (slots r)(i := Some req)\<rparr>)
      | None \<Rightarrow> (-1, r))"

text \<open>
  \<open>new\<close> is the result of malloc; the field \<open>message\<close> is not written by the code and keeps
  what the block held, \<open>junk\<close>.
\<close>

definition create_request ::
  "bool \<Rightarrow> addr option \<Rightarrow> data_message option \<Rightarrow> u32 \<Rightarrow> addr option \<Rightarrow> int \<Rightarrow> addr option \<Rightarrow> int \<Rightarrow> int \<Rightarrow> addr option
    \<Rightarrow> req_reg \<Rightarrow> (addr option \<times> req_reg) run" where
  "create_request ef new junk fl buf count typ dest tag c r =
     (case new of
        None \<Rightarrow> ERROR ef (Some (None, r))
      | Some p \<Rightarrow>
          let (h, r1) = add_request p r;
              rq = \<lparr>rq_flags = fl, rq_buf = buf, rq_type = typ, rq_count = count,
                    rq_source_or_dest = dest, rq_tag = tag, rq_c = c, rq_error = 0,
                    rq_handle = h, rq_req = None, rq_message = junk\<rparr>;
              r2 = r1\<lparr>heap := (heap r1)(p \<mapsto> rq)\<rparr>
          in if h = -1 then ERROR ef (Some (None, r2\<lparr>heap := (heap r2)(p := None)\<rparr>))
             else Some (Some p, r2))"

text \<open>\<^verbatim>\<open>PMPI_Request_free\<close> only releases the request inside the local MPI library.\<close>

definition free_request :: "addr option \<Rightarrow> req_reg \<Rightarrow> req_reg run" where
  "free_request ro r =
     (case ro of
        None \<Rightarrow> Some r
      | Some p \<Rightarrow> do {
          rq \<leftarrow> heap r p;
          t \<leftarrow> tbl_write MAX_REQUESTS (slots r) (rq_handle rq) None;
          Some (r\<lparr>heap := (heap r)(p := None), slots := t\<rparr>)
        })"

definition handle_to_request :: "bool \<Rightarrow> req_reg \<Rightarrow> int \<Rightarrow> addr option run" where
  "handle_to_request ef r h =
     (if h < 0 \<or> h \<ge> MAX_REQUESTS then ERROR ef (Some None)
      else tbl_read MAX_REQUESTS (slots r) h)"

definition request_to_handle :: "bool \<Rightarrow> req_reg \<Rightarrow> addr option \<Rightarrow> int run" where
  "request_to_handle ef r ro =
     (case ro of
        None \<Rightarrow> ERROR ef (Some (-1))
      | Some p \<Rightarrow> do { rq \<leftarrow> heap r p; Some (rq_handle rq) })"

definition request_active :: "request \<Rightarrow> u32" where
  "request_active rq = rq_flags rq AND REQUEST_FLAG_ACTIVE"
definition request_local :: "request \<Rightarrow> u32" where
  "request_local rq = rq_flags rq AND REQUEST_FLAG_LOCAL"
definition request_persistent :: "request \<Rightarrow> u32" where
  "request_persistent rq = rq_flags rq AND REQUEST_FLAG_PERSISTENT"
definition request_send :: "request \<Rightarrow> u32" where
  "request_send rq = rq_flags rq AND REQUEST_FLAG_SEND"
definition request_receive :: "request \<Rightarrow> u32" where
  "request_receive rq = rq_flags rq AND REQUEST_FLAG_RECEIVE"
definition request_completed :: "request \<Rightarrow> u32" where
  "request_completed rq = rq_flags rq AND REQUEST_FLAG_COMPLETED"

section \<open>Lemmas\<close>

definition req_ok :: "req_reg \<Rightarrow> bool" where
  "req_ok r \<longleftrightarrow> reg_inv rq_handle 0 MAX_REQUESTS r"

lemma req_ok_init: "req_ok (snd (init_request r))"
  by (simp add: req_ok_def init_request_def reg_inv_def)

text \<open>What \<open>create_request\<close> does when a slot and memory are available.\<close>

lemma create_request_Some:
  assumes "create_request ef new junk fl buf count typ dest tag c r = Some (Some p, r')"
  obtains h where "new = Some p" "first_free (slots r) 0 MAX_REQUESTS = Some h"
    "r' = r\<lparr>heap := (heap r)(p \<mapsto> \<lparr>rq_flags = fl, rq_buf = buf, rq_type = typ, rq_count = count,
                    rq_source_or_dest = dest, rq_tag = tag, rq_c = c, rq_error = 0,
                    rq_handle = h, rq_req = None, rq_message = junk\<rparr>), slots := (slots r)(h \<mapsto> p)\<rparr>"
proof (cases "first_free (slots r) 0 MAX_REQUESTS")
  case (Some h)
  then have "h \<noteq> -1" using first_free_Some by force
  with assms Some that show thesis
    by (auto simp: create_request_def add_request_def split: option.splits)
next
  case None
  with assms show thesis
    by (auto simp: create_request_def add_request_def split: option.splits)
qed

lemma create_request_None:
  assumes "create_request ef new junk fl buf count typ dest tag c r = Some (None, r')"
    and "fresh r new"
  shows "r' = r"
proof -
  have "heap r p = None \<Longrightarrow> (heap r)(p := None) = heap r" for p by auto
  moreover have "first_free (slots r) 0 MAX_REQUESTS \<noteq> Some (-1)"
    by (auto dest: first_free_Some)
  ultimately show ?thesis using assms
    by (auto simp: create_request_def add_request_def fresh_def Let_def
          split: option.splits if_splits)
qed

lemma free_request_slot:
  assumes "req_ok r" "slots r h = Some p"
  shows "free_request (Some p) r =
     Some (r\<lparr>heap := (heap r)(p := None), slots := (slots r)(h := None)\<rparr>)"
  using reg_invD [OF assms(1) [unfolded req_ok_def] assms(2)]
  by (auto simp: free_request_def)

lemma req_ok_create:
  assumes "req_ok r" "fresh r new"
    "create_request ef new junk fl buf count typ dest tag c r = Some (Some p, r')"
  shows "req_ok r'"
proof -
  from assms(3) obtain h where h: "new = Some p" "first_free (slots r) 0 MAX_REQUESTS = Some h"
    "r' = r\<lparr>heap := (heap r)(p \<mapsto> \<lparr>rq_flags = fl, rq_buf = buf, rq_type = typ, rq_count = count,
                    rq_source_or_dest = dest, rq_tag = tag, rq_c = c, rq_error = 0,
                    rq_handle = h, rq_req = None, rq_message = junk\<rparr>), slots := (slots r)(h \<mapsto> p)\<rparr>"
    by (rule create_request_Some)
  with assms(1,2) first_free_Some [OF h(2)] show ?thesis
    unfolding req_ok_def h(3) by (intro reg_inv_add) auto
qed

lemma req_ok_free:
  assumes "req_ok r" "slots r h = Some p"
  shows "req_ok (r\<lparr>heap := (heap r)(p := None), slots := (slots r)(h := None)\<rparr>)"
  using assms reg_inv_inj unfolding req_ok_def by (blast intro: reg_inv_remove)

interpretation rq: handle_pool rq_handle 0 MAX_REQUESTS handle_to_request request_to_handle
  "\<lambda>ef new (junk, fl, buf, count, typ, dest, tag, c). create_request ef new junk fl buf count typ dest tag c"
  req_ok "\<lambda>ef h r. free_request (slots r h) r" "\<lambda>h. True"
proof (unfold_locales, goal_cases)
  case (1 h r p ef)
  then show ?case by (simp add: handle_to_request_def)
next
  case (2 ef r h p)
  then show ?case by (auto simp: handle_to_request_def tbl_read_Some_iff split: if_splits)
next
  case (3 r p x ef)
  then show ?case by (simp add: request_to_handle_def)
next
  case (4 r)
  then show ?case by (simp add: req_ok_def)
next
  case (5 r new ef x p r')
  then show ?case
    by (cases x) (auto elim!: create_request_Some dest: first_free_Some)
next
  case (6 r new ef x p r')
  then show ?case by (cases x) (auto intro: req_ok_create)
next
  case (7 r new ef x r')
  then show ?case by (cases x) (auto dest: create_request_None)
next
  case (8 r h p ef)
  then show ?case using free_request_slot req_ok_free by fastforce
next
  case (9 r new ef x p r' h)
  then show ?case by simp
qed

end
