(* ===== verification/Datatypes.thy ===== *)
theory Datatypes
  imports Handles
begin

text \<open>
  The datatype registry, \<^verbatim>\<open>src/backend/datatype.c\<close> and \<^verbatim>\<open>datatype.h\<close>. An \<^verbatim>\<open>MPI_Datatype\<close> (and
  in the operation registry an \<^verbatim>\<open>MPI_Op\<close>) belongs to the local MPI library; it is either one
  of the names that library predefines or an identifier it made.
\<close>

datatype mpi_object = Predef string | Created nat

definition MAX_DATATYPES :: int where "MAX_DATATYPES = 10240"
definition EMPI_DEFINED_DATATYPES :: int where "EMPI_DEFINED_DATATYPES = 42"

abbreviation (input) EMPI_DATATYPE_NULL :: int where "EMPI_DATATYPE_NULL \<equiv> 0"
abbreviation (input) EMPI_CHAR :: int where "EMPI_CHAR \<equiv> 1"
abbreviation (input) EMPI_SHORT :: int where "EMPI_SHORT \<equiv> 2"
abbreviation (input) EMPI_INT :: int where "EMPI_INT \<equiv> 3"
abbreviation (input) EMPI_LONG :: int where "EMPI_LONG \<equiv> 4"
abbreviation (input) EMPI_LONG_LONG_INT :: int where "EMPI_LONG_LONG_INT \<equiv> 5"
abbreviation (input) EMPI_SIGNED_CHAR :: int where "EMPI_SIGNED_CHAR \<equiv> 6"
abbreviation (input) EMPI_UNSIGNED_CHAR :: int where "EMPI_UNSIGNED_CHAR \<equiv> 7"
abbreviation (input) EMPI_UNSIGNED_SHORT :: int where "EMPI_UNSIGNED_SHORT \<equiv> 8"
abbreviation (input) EMPI_UNSIGNED :: int where "EMPI_UNSIGNED \<equiv> 9"
abbreviation (input) EMPI_UNSIGNED_LONG :: int where "EMPI_UNSIGNED_LONG \<equiv> 10"
abbreviation (input) EMPI_UNSIGNED_LONG_LONG :: int where "EMPI_UNSIGNED_LONG_LONG \<equiv> 11"
abbreviation (input) EMPI_FLOAT :: int where "EMPI_FLOAT \<equiv> 12"
abbreviation (input) EMPI_DOUBLE :: int where "EMPI_DOUBLE \<equiv> 13"
abbreviation (input) EMPI_LONG_DOUBLE :: int where "EMPI_LONG_DOUBLE \<equiv> 14"
abbreviation (input) EMPI_WCHAR :: int where "EMPI_WCHAR \<equiv> 15"
abbreviation (input) EMPI_BYTE :: int where "EMPI_BYTE \<equiv> 16"
abbreviation (input) EMPI_PACKED :: int where "EMPI_PACKED \<equiv> 17"
abbreviation (input) EMPI_FLOAT_INT :: int where "EMPI_FLOAT_INT \<equiv> 18"
abbreviation (input) EMPI_DOUBLE_INT :: int where "EMPI_DOUBLE_INT \<equiv> 19"
abbreviation (input) EMPI_LONG_INT :: int where "EMPI_LONG_INT \<equiv> 20"
abbreviation (input) EMPI_2INT :: int where "EMPI_2INT \<equiv> 21"
abbreviation (input) EMPI_SHORT_INT :: int where "EMPI_SHORT_INT \<equiv> 22"
abbreviation (input) EMPI_LONG_DOUBLE_INT :: int where "EMPI_LONG_DOUBLE_INT \<equiv> 23"
abbreviation (input) EMPI_INTEGER :: int where "EMPI_INTEGER \<equiv> 24"
abbreviation (input) EMPI_REAL :: int where "EMPI_REAL \<equiv> 25"
abbreviation (input) EMPI_DOUBLE_PRECISION :: int where "EMPI_DOUBLE_PRECISION \<equiv> 26"
abbreviation (input) EMPI_COMPLEX :: int where "EMPI_COMPLEX \<equiv> 27"
abbreviation (input) EMPI_LOGICAL :: int where "EMPI_LOGICAL \<equiv> 28"
abbreviation (input) EMPI_CHARACTER :: int where "EMPI_CHARACTER \<equiv> 29"
abbreviation (input) EMPI_DOUBLE_COMPLEX :: int where "EMPI_DOUBLE_COMPLEX \<equiv> 30"
abbreviation (input) EMPI_INTEGER1 :: int where "EMPI_INTEGER1 \<equiv> 31"
abbreviation (input) EMPI_INTEGER2 :: int where "EMPI_INTEGER2 \<equiv> 32"
abbreviation (input) EMPI_INTEGER4 :: int where "EMPI_INTEGER4 \<equiv> 33"
abbreviation (input) EMPI_INTEGER8 :: int where "EMPI_INTEGER8 \<equiv> 34"
abbreviation (input) EMPI_REAL2 :: int where "EMPI_REAL2 \<equiv> 35"
abbreviation (input) EMPI_REAL4 :: int where "EMPI_REAL4 \<equiv> 36"
abbreviation (input) EMPI_REAL8 :: int where "EMPI_REAL8 \<equiv> 37"
abbreviation (input) EMPI_REAL16 :: int where "EMPI_REAL16 \<equiv> 38"
abbreviation (input) EMPI_2REAL :: int where "EMPI_2REAL \<equiv> 39"
abbreviation (input) EMPI_2DOUBLE_PRECISION :: int where "EMPI_2DOUBLE_PRECISION \<equiv> 40"
abbreviation (input) EMPI_2INTEGER :: int where "EMPI_2INTEGER \<equiv> 41"

record datatype_s =
  dt_handle :: int
  dt_type :: mpi_object

type_synonym dt_reg = "datatype_s reg"

text \<open>\<open>new\<close> is the result of the call's malloc.\<close>

definition intern_add_datatype ::
  "bool \<Rightarrow> addr option \<Rightarrow> int \<Rightarrow> mpi_object \<Rightarrow> dt_reg \<Rightarrow> (int \<times> dt_reg) run" where
  "intern_add_datatype ef new h t r =
     (if h < 0 \<or> h \<ge> MAX_DATATYPES then ERROR ef (Some (EMPI_ERR_INTERN, r))
      else do {
        old \<leftarrow> tbl_read MAX_DATATYPES (slots r) h;
        if old \<noteq> None then ERROR ef (Some (EMPI_ERR_INTERN, r))
        else (case new of
            None \<Rightarrow> ERROR ef (Some (EMPI_ERR_INTERN, r))
          | Some p \<Rightarrow> do {
              t' \<leftarrow> tbl_write MAX_DATATYPES (slots r) h (Some p);
              Some (EMPI_SUCCESS,
                r\<lparr>heap := (heap r)(p \<mapsto> \<lparr>dt_handle = h, dt_type = t\<rparr>), slots := t'\<rparr>)
            })
      })"

text \<open>
  The calls of \<open>init_datatypes\<close>, one pair per call in the order of the code. EMPI_REAL2 has no
  call (it is commented out), and EMPI_REAL16 is the C type long double.
\<close>

definition c_datatypes :: "(int \<times> mpi_object) list" where
  "c_datatypes =
    [(EMPI_DATATYPE_NULL, Predef ''MPI_DATATYPE_NULL''), (EMPI_CHAR, Predef ''MPI_CHAR''),
     (EMPI_SHORT, Predef ''MPI_SHORT''), (EMPI_INT, Predef ''MPI_INT''),
     (EMPI_LONG, Predef ''MPI_LONG''), (EMPI_LONG_LONG_INT, Predef ''MPI_LONG_LONG_INT''),
     (EMPI_SIGNED_CHAR, Predef ''MPI_SIGNED_CHAR''),
     (EMPI_UNSIGNED_CHAR, Predef ''MPI_UNSIGNED_CHAR''),
     (EMPI_UNSIGNED_SHORT, Predef ''MPI_UNSIGNED_SHORT''), (EMPI_UNSIGNED, Predef ''MPI_UNSIGNED''),
     (EMPI_UNSIGNED_LONG, Predef ''MPI_UNSIGNED_LONG''),
     (EMPI_UNSIGNED_LONG_LONG, Predef ''MPI_UNSIGNED_LONG_LONG''),
     (EMPI_FLOAT, Predef ''MPI_FLOAT''), (EMPI_DOUBLE, Predef ''MPI_DOUBLE''),
     (EMPI_LONG_DOUBLE, Predef ''MPI_LONG_DOUBLE''), (EMPI_WCHAR, Predef ''MPI_WCHAR''),
     (EMPI_BYTE, Predef ''MPI_BYTE''), (EMPI_PACKED, Predef ''MPI_PACKED'')]"

definition c_pair_datatypes :: "(int \<times> mpi_object) list" where
  "c_pair_datatypes =
    [(EMPI_FLOAT_INT, Predef ''MPI_FLOAT_INT''), (EMPI_DOUBLE_INT, Predef ''MPI_DOUBLE_INT''),
     (EMPI_LONG_INT, Predef ''MPI_LONG_INT''), (EMPI_2INT, Predef ''MPI_2INT''),
     (EMPI_SHORT_INT, Predef ''MPI_SHORT_INT''),
     (EMPI_LONG_DOUBLE_INT, Predef ''MPI_LONG_DOUBLE_INT'')]"

definition fortran_datatypes :: "(int \<times> mpi_object) list" where
  "fortran_datatypes =
    [(EMPI_INTEGER, Predef ''MPI_INTEGER''), (EMPI_REAL, Predef ''MPI_REAL''),
     (EMPI_DOUBLE_PRECISION, Predef ''MPI_DOUBLE_PRECISION''), (EMPI_COMPLEX, Predef ''MPI_COMPLEX''),
     (EMPI_LOGICAL, Predef ''MPI_LOGICAL''), (EMPI_CHARACTER, Predef ''MPI_CHARACTER''),
     (EMPI_DOUBLE_COMPLEX, Predef ''MPI_DOUBLE_COMPLEX''), (EMPI_INTEGER1, Predef ''MPI_INTEGER1''),
     (EMPI_INTEGER2, Predef ''MPI_INTEGER2''), (EMPI_INTEGER4, Predef ''MPI_INTEGER4''),
     (EMPI_INTEGER8, Predef ''MPI_INTEGER8''), (EMPI_REAL4, Predef ''MPI_REAL4''),
     (EMPI_REAL8, Predef ''MPI_REAL8''), (EMPI_REAL16, Predef ''MPI_LONG_DOUBLE''),
     (EMPI_2REAL, Predef ''MPI_2REAL''),
     (EMPI_2DOUBLE_PRECISION, Predef ''MPI_2DOUBLE_PRECISION''),
     (EMPI_2INTEGER, Predef ''MPI_2INTEGER'')]"

definition predefined_datatypes :: "(int \<times> mpi_object) list" where
  "predefined_datatypes = c_datatypes @ c_pair_datatypes @ fortran_datatypes"

text \<open>A sequence of such calls, each followed by its error check; \<open>news\<close> are their mallocs.\<close>

fun add_predefined ::
  "bool \<Rightarrow> addr option list \<Rightarrow> (int \<times> mpi_object) list \<Rightarrow> dt_reg \<Rightarrow> (int \<times> dt_reg) run" where
  "add_predefined ef news [] r = Some (EMPI_SUCCESS, r)"
| "add_predefined ef [] (x # xs) r = ERROR ef (Some (EMPI_ERR_INTERN, r))"
| "add_predefined ef (new # news) ((h, t) # xs) r = do {
     (error, r1) \<leftarrow> intern_add_datatype ef new h t r;
     if error \<noteq> EMPI_SUCCESS then ERROR ef (Some (error, r1))
     else add_predefined ef news xs r1
   }"

definition init_datatypes :: "bool \<Rightarrow> addr option list \<Rightarrow> dt_reg \<Rightarrow> (int \<times> dt_reg) run" where
  "init_datatypes ef news r = add_predefined ef news predefined_datatypes (r\<lparr>slots := \<lambda>i. None\<rparr>)"

definition add_datatype ::
  "bool \<Rightarrow> addr option \<Rightarrow> mpi_object \<Rightarrow> dt_reg \<Rightarrow> (addr option \<times> dt_reg) run" where
  "add_datatype ef new t r =
     (case first_free (slots r) EMPI_DEFINED_DATATYPES MAX_DATATYPES of
        Some i \<Rightarrow> do {
          (error, r1) \<leftarrow> intern_add_datatype ef new i t r;
          if error \<noteq> EMPI_SUCCESS then ERROR ef (Some (None, r1))
          else do { p \<leftarrow> tbl_read MAX_DATATYPES (slots r1) i; Some (p, r1) }
        }
      | None \<Rightarrow> ERROR ef (Some (None, r)))"

definition free_datatype :: "bool \<Rightarrow> addr option \<Rightarrow> dt_reg \<Rightarrow> (int \<times> dt_reg) run" where
  "free_datatype ef to r =
     (case to of
        None \<Rightarrow> ERROR ef (Some (EMPI_ERR_TYPE, r))
      | Some p \<Rightarrow> do {
          d \<leftarrow> heap r p;
          if dt_handle d < 0 \<or> dt_handle d > MAX_DATATYPES then ERROR ef (Some (EMPI_ERR_TYPE, r))
          else if dt_handle d < EMPI_DEFINED_DATATYPES then ERROR ef (Some (EMPI_ERR_TYPE, r))
          else do {
            q \<leftarrow> tbl_read MAX_DATATYPES (slots r) (dt_handle d);
            if Some p \<noteq> q then ERROR ef (Some (EMPI_ERR_TYPE, r))
            else do {
              t \<leftarrow> tbl_write MAX_DATATYPES (slots r) (dt_handle d) None;
              Some (EMPI_SUCCESS, r\<lparr>heap := (heap r)(p := None), slots := t\<rparr>)
            }
          }
        })"

definition is_derived_datatype :: "int \<Rightarrow> bool" where
  "is_derived_datatype h = (h \<ge> EMPI_DEFINED_DATATYPES)"

definition handle_to_datatype :: "bool \<Rightarrow> dt_reg \<Rightarrow> int \<Rightarrow> addr option run" where
  "handle_to_datatype ef r h =
     (if h < 0 \<or> h > MAX_DATATYPES then ERROR ef (Some None)
      else do {
        p \<leftarrow> tbl_read MAX_DATATYPES (slots r) h;
        if p = None then ERROR ef (Some None) else Some p
      })"

definition datatype_to_handle :: "bool \<Rightarrow> dt_reg \<Rightarrow> addr option \<Rightarrow> int run" where
  "datatype_to_handle ef r to =
     (case to of
        None \<Rightarrow> ERROR ef (Some EMPI_DATATYPE_NULL)
      | Some p \<Rightarrow> do { d \<leftarrow> heap r p; Some (dt_handle d) })"

section \<open>Lemmas\<close>

definition dt_ok :: "dt_reg \<Rightarrow> bool" where
  "dt_ok r \<longleftrightarrow> reg_inv dt_handle 0 MAX_DATATYPES r"

lemma intern_add_datatype_success:
  "intern_add_datatype ef new h t r = Some (EMPI_SUCCESS, r') \<longleftrightarrow>
     0 \<le> h \<and> h < MAX_DATATYPES \<and> slots r h = None \<and>
     (\<exists>p. new = Some p \<and>
        r' = r\<lparr>heap := (heap r)(p \<mapsto> \<lparr>dt_handle = h, dt_type = t\<rparr>), slots := (slots r)(h \<mapsto> p)\<rparr>)"
  by (auto simp: intern_add_datatype_def split: option.splits)

lemma intern_add_datatype_error:
  "intern_add_datatype ef new h t r = Some (e, r') \<Longrightarrow> e \<noteq> EMPI_SUCCESS \<Longrightarrow> r' = r"
  by (auto simp: intern_add_datatype_def split: option.splits if_splits)

lemma dt_ok_intern_add:
  assumes "dt_ok r" "fresh r new" "intern_add_datatype ef new h t r = Some (e, r')"
  shows "dt_ok r'"
proof (cases "e = EMPI_SUCCESS")
  case True
  with assms(3) obtain p where "0 \<le> h" "h < MAX_DATATYPES" "new = Some p"
    "r' = r\<lparr>heap := (heap r)(p \<mapsto> \<lparr>dt_handle = h, dt_type = t\<rparr>), slots := (slots r)(h \<mapsto> p)\<rparr>"
    unfolding True intern_add_datatype_success by blast
  with assms(1,2) show ?thesis unfolding dt_ok_def by (auto intro: reg_inv_add)
next
  case False
  with assms intern_add_datatype_error show ?thesis by blast
qed

lemma add_datatype_Some:
  assumes "add_datatype ef new t r = Some (Some p, r')"
  obtains h where "first_free (slots r) EMPI_DEFINED_DATATYPES MAX_DATATYPES = Some h" "new = Some p"
    "intern_add_datatype ef new h t r = Some (EMPI_SUCCESS, r')" "slots r' = (slots r)(h \<mapsto> p)"
proof (cases "first_free (slots r) EMPI_DEFINED_DATATYPES MAX_DATATYPES")
  case None
  with assms show thesis by (simp add: add_datatype_def)
next
  case (Some h)
  with assms obtain e r1 where e: "intern_add_datatype ef new h t r = Some (e, r1)"
    by (auto simp: add_datatype_def split: bind_splits)
  have "e = EMPI_SUCCESS"
    using assms Some e by (auto simp: add_datatype_def split: if_splits)
  moreover from this e obtain q where "new = Some q"
    "r1 = r\<lparr>heap := (heap r)(q \<mapsto> \<lparr>dt_handle = h, dt_type = t\<rparr>), slots := (slots r)(h \<mapsto> q)\<rparr>"
    using intern_add_datatype_success [of ef new h t r r1] by auto
  ultimately show thesis using assms Some e that first_free_Some [OF Some]
    by (auto simp: add_datatype_def EMPI_DEFINED_DATATYPES_def)
qed

lemma add_datatype_None:
  "add_datatype ef new t r = Some (None, r') \<Longrightarrow> r' = r"
  by (auto simp: add_datatype_def tbl_read_Some_iff intern_add_datatype_success
      split: option.splits bind_splits if_splits dest: intern_add_datatype_error)

lemma free_datatype_slot:
  assumes "dt_ok r" "slots r h = Some p" "EMPI_DEFINED_DATATYPES \<le> h"
  shows "free_datatype ef (Some p) r =
     Some (EMPI_SUCCESS, r\<lparr>heap := (heap r)(p := None), slots := (slots r)(h := None)\<rparr>)"
  using reg_invD [OF assms(1) [unfolded dt_ok_def] assms(2)] assms(2,3)
  by (auto simp: free_datatype_def)

lemma dt_ok_free:
  assumes "dt_ok r" "slots r h = Some p"
  shows "dt_ok (r\<lparr>heap := (heap r)(p := None), slots := (slots r)(h := None)\<rparr>)"
  using assms reg_inv_inj unfolding dt_ok_def by (blast intro: reg_inv_remove)

interpretation dt: handle_pool dt_handle 0 MAX_DATATYPES handle_to_datatype datatype_to_handle
  add_datatype dt_ok
  "\<lambda>ef h r. map_option snd (free_datatype ef (slots r h) r)" "\<lambda>h. EMPI_DEFINED_DATATYPES \<le> h"
proof (unfold_locales, goal_cases)
  case (1 h r p ef)
  then show ?case by (simp add: handle_to_datatype_def)
next
  case (2 ef r h p)
  then show ?case
    by (auto simp: handle_to_datatype_def tbl_read_Some_iff split: if_splits bind_splits)
next
  case (3 r p x ef)
  then show ?case by (simp add: datatype_to_handle_def)
next
  case (4 r)
  then show ?case by (simp add: dt_ok_def)
next
  case (5 r new ef x p r')
  from 5(3) obtain h where h: "first_free (slots r) EMPI_DEFINED_DATATYPES MAX_DATATYPES = Some h"
    "slots r' = (slots r)(h \<mapsto> p)"
    by (rule add_datatype_Some)
  with first_free_Some [OF h(1)] show ?case
    by (intro exI [of _ h]) (simp add: EMPI_DEFINED_DATATYPES_def)
next
  case (6 r new ef x p r')
  then show ?case by (blast elim: add_datatype_Some intro: dt_ok_intern_add)
next
  case (7 r new ef x r')
  then show ?case by (auto dest: add_datatype_None)
next
  case (8 r h p ef)
  then show ?case using free_datatype_slot dt_ok_free by fastforce
next
  case (9 r new ef x p r' h)
  from 9(3) obtain k where
    "first_free (slots r) EMPI_DEFINED_DATATYPES MAX_DATATYPES = Some k" "slots r' = (slots r)(k \<mapsto> p)"
    by (rule add_datatype_Some)
  with 9(4,5) show ?case by (auto dest!: first_free_Some split: if_splits)
qed

section \<open>Initialisation\<close>

lemma add_predefined_slots:
  assumes "dt_ok r" "length news = length xs" "distinct news" "None \<notin> set news"
    and "\<And>p. Some p \<in> set news \<Longrightarrow> heap r p = None"
    and "distinct (map fst xs)" "\<And>h. h \<in> fst ` set xs \<Longrightarrow> 0 \<le> h \<and> h < MAX_DATATYPES \<and> slots r h = None"
  shows "\<exists>r'. add_predefined ef news xs r = Some (EMPI_SUCCESS, r') \<and> dt_ok r' \<and>
     (\<forall>(h, t) \<in> set xs. \<exists>p. slots r' h = Some p \<and> heap r' p = Some \<lparr>dt_handle = h, dt_type = t\<rparr>) \<and>
     (\<forall>h. h \<notin> fst ` set xs \<longrightarrow> slots r' h = slots r h) \<and>
     (\<forall>p. Some p \<notin> set news \<longrightarrow> heap r' p = heap r p)"
  using assms
proof (induction xs arbitrary: news r)
  case Nil
  then show ?case by simp
next
  case (Cons x xs)
  obtain h t where x: "x = (h, t)" by (cases x)
  from Cons.prems(2) obtain new news' where news: "news = new # news'" by (cases news) auto
  with Cons.prems(4) obtain p where p: "new = Some p" by (cases new) auto
  let ?r = "r\<lparr>heap := (heap r)(p \<mapsto> \<lparr>dt_handle = h, dt_type = t\<rparr>), slots := (slots r)(h \<mapsto> p)\<rparr>"
  from Cons.prems(7) [of h] x have h: "0 \<le> h" "h < MAX_DATATYPES" "slots r h = None" by auto
  have step: "intern_add_datatype ef new h t r = Some (EMPI_SUCCESS, ?r)"
    using h p intern_add_datatype_success by blast
  have "dt_ok ?r"
    using dt_ok_intern_add [OF Cons.prems(1) _ step] Cons.prems(5) news p by (auto simp: fresh_def)
  moreover have "\<And>q. Some q \<in> set news' \<Longrightarrow> heap ?r q = None"
    using Cons.prems(3,5) news p by auto
  moreover have "0 \<le> k \<and> k < MAX_DATATYPES \<and> slots ?r k = None" if "k \<in> fst ` set xs" for k
  proof -
    from that Cons.prems(6) x have "k \<noteq> h" by auto
    moreover from that have "k \<in> fst ` set (x # xs)" by simp
    ultimately show ?thesis using Cons.prems(7) [of k] by simp
  qed
  ultimately obtain r' where r': "add_predefined ef news' xs ?r = Some (EMPI_SUCCESS, r')" "dt_ok r'"
    "\<forall>(h, t) \<in> set xs. \<exists>p. slots r' h = Some p \<and> heap r' p = Some \<lparr>dt_handle = h, dt_type = t\<rparr>"
    "\<forall>k. k \<notin> fst ` set xs \<longrightarrow> slots r' k = slots ?r k"
    "\<forall>q. Some q \<notin> set news' \<longrightarrow> heap r' q = heap ?r q"
    using Cons.IH [of ?r news'] Cons.prems(2,3,4,6) news by auto
  have "h \<notin> fst ` set xs" using Cons.prems(6) x by auto
  then have "slots r' h = Some p" using r'(4) by simp
  moreover have "heap r' p = Some \<lparr>dt_handle = h, dt_type = t\<rparr>"
    using r'(5) Cons.prems(3) news p by simp
  moreover have "add_predefined ef news (x # xs) r = Some (EMPI_SUCCESS, r')"
    by (simp add: news x step r'(1))
  moreover have "\<forall>k. k \<notin> fst ` set (x # xs) \<longrightarrow> slots r' k = slots r k"
    using r'(4) x by simp
  moreover have "\<forall>q. Some q \<notin> set news \<longrightarrow> heap r' q = heap r q"
    using r'(5) news p by simp
  ultimately show ?case using r'(2,3) x by (intro exI [of _ r']) simp
qed

lemma predefined_distinct: "distinct (map fst predefined_datatypes)"
  by (simp add: predefined_datatypes_def c_datatypes_def c_pair_datatypes_def fortran_datatypes_def)

lemma predefined_range: "h \<in> fst ` set predefined_datatypes \<Longrightarrow> 0 \<le> h \<and> h < EMPI_DEFINED_DATATYPES"
  by (auto simp: predefined_datatypes_def c_datatypes_def c_pair_datatypes_def fortran_datatypes_def
      EMPI_DEFINED_DATATYPES_def)

lemma predefined_length: "length predefined_datatypes = 41"
  by (simp add: predefined_datatypes_def c_datatypes_def c_pair_datatypes_def fortran_datatypes_def)

end
