(* ===== verification/Operations.thy ===== *)
theory Operations
  imports Datatypes
begin

text \<open>
  The registry of reduction operations, \<^verbatim>\<open>src/backend/operation.c\<close>. The function pointer of an
  operation is one of the library's own reductions (\<^verbatim>\<open>src/backend/reduce_ops.c\<close>, modelled in
  the theory of the reductions), no function, or a function of the application.
\<close>

definition MAX_OPERATIONS :: int where "MAX_OPERATIONS = 256"

datatype op_function =
    NO_FUNCTION
  | EMPI_REDUCE_MAX | EMPI_REDUCE_MIN | EMPI_REDUCE_SUM | EMPI_REDUCE_PROD
  | EMPI_REDUCE_MAXLOC | EMPI_REDUCE_MINLOC
  | EMPI_REDUCE_BOR | EMPI_REDUCE_BAND | EMPI_REDUCE_BXOR
  | EMPI_REDUCE_LOR | EMPI_REDUCE_LAND | EMPI_REDUCE_LXOR
  | USER_FUNCTION nat

record operation =
  op_handle :: int
  op_function :: op_function
  op_commute :: int
  op_op :: mpi_object

record op_reg = "operation reg" +
  next_operation :: int

definition init_operation ::
  "bool \<Rightarrow> addr option \<Rightarrow> int \<Rightarrow> op_function \<Rightarrow> mpi_object \<Rightarrow> int \<Rightarrow> op_reg \<Rightarrow> (int \<times> op_reg) run" where
  "init_operation ef new h f m commute r =
     (if h < 0 \<or> h > MAX_OPERATIONS then IERROR (Some (EMPI_ERR_INTERN, r))
      else do {
        old \<leftarrow> tbl_read MAX_OPERATIONS (slots r) h;
        if old \<noteq> None then IERROR (Some (EMPI_ERR_INTERN, r))
        else do {
          t \<leftarrow> tbl_write MAX_OPERATIONS (slots r) h new;
          case new of
            None \<Rightarrow> IERROR (Some (EMPI_ERR_INTERN, r\<lparr>slots := t\<rparr>))
          | Some p \<Rightarrow>
              Some (EMPI_SUCCESS,
                r\<lparr>heap := (heap r)(p \<mapsto> \<lparr>op_handle = h, op_function = f, op_commute = commute, op_op = m\<rparr>),
                  slots := t,
                  next_operation := (if h \<ge> next_operation r then h + 1 else next_operation r)\<rparr>)
        }
      })"

definition predefined_operations :: "(int \<times> op_function \<times> mpi_object) list" where
  "predefined_operations =
    [(0, NO_FUNCTION, Predef ''MPI_OP_NULL''),
     (1, EMPI_REDUCE_MAX, Predef ''MPI_MAX''), (2, EMPI_REDUCE_MIN, Predef ''MPI_MIN''),
     (3, EMPI_REDUCE_SUM, Predef ''MPI_SUM''), (4, EMPI_REDUCE_PROD, Predef ''MPI_PROD''),
     (5, EMPI_REDUCE_MAXLOC, Predef ''MPI_MAXLOC''), (6, EMPI_REDUCE_MINLOC, Predef ''MPI_MINLOC''),
     (7, EMPI_REDUCE_BOR, Predef ''MPI_BOR''), (8, EMPI_REDUCE_BAND, Predef ''MPI_BAND''),
     (9, EMPI_REDUCE_BXOR, Predef ''MPI_BXOR''), (10, EMPI_REDUCE_LOR, Predef ''MPI_LOR''),
     (11, EMPI_REDUCE_LAND, Predef ''MPI_LAND''), (12, EMPI_REDUCE_LXOR, Predef ''MPI_LXOR'')]"

fun init_operation_list ::
  "bool \<Rightarrow> addr option list \<Rightarrow> (int \<times> op_function \<times> mpi_object) list \<Rightarrow> op_reg \<Rightarrow> (int \<times> op_reg) run" where
  "init_operation_list ef news [] r = Some (EMPI_SUCCESS, r)"
| "init_operation_list ef [] (x # xs) r = IERROR (Some (EMPI_ERR_INTERN, r))"
| "init_operation_list ef (new # news) ((h, f, m) # xs) r = do {
     (error, r1) \<leftarrow> init_operation ef new h f m 1 r;
     if error \<noteq> EMPI_SUCCESS then Some (error, r1) else init_operation_list ef news xs r1
   }"

definition init_operations :: "bool \<Rightarrow> addr option list \<Rightarrow> op_reg \<Rightarrow> (int \<times> op_reg) run" where
  "init_operations ef news r =
     init_operation_list ef news predefined_operations (r\<lparr>slots := \<lambda>i. None\<rparr>)"

definition handle_to_operation :: "bool \<Rightarrow> op_reg \<Rightarrow> int \<Rightarrow> addr option run" where
  "handle_to_operation ef r h =
     (if h < 0 \<or> h \<ge> MAX_OPERATIONS then ERROR ef (Some None)
      else tbl_read MAX_OPERATIONS (slots r) h)"

definition operation_to_handle :: "bool \<Rightarrow> op_reg \<Rightarrow> addr option \<Rightarrow> int run" where
  "operation_to_handle ef r oo =
     (case oo of
        None \<Rightarrow> ERROR ef (Some (-1))
      | Some p \<Rightarrow> do { x \<leftarrow> heap r p; Some (op_handle x) })"

definition create_operation ::
  "bool \<Rightarrow> addr option \<Rightarrow> op_function \<Rightarrow> mpi_object \<Rightarrow> int \<Rightarrow> op_reg \<Rightarrow> (addr option \<times> op_reg) run" where
  "create_operation ef new f m commute r = do {
     let h = next_operation r;
     let r1 = r\<lparr>next_operation := next_operation r + 1\<rparr>;
     (error, r2) \<leftarrow> init_operation ef new h f m commute r1;
     if error \<noteq> EMPI_SUCCESS then ERROR ef (Some (None, r2))
     else do { p \<leftarrow> tbl_read MAX_OPERATIONS (slots r2) h; Some (p, r2) }
   }"

section \<open>Lemmas\<close>

text \<open>Besides being well formed, the registry uses no slot from \<open>next_operation\<close> on.\<close>

definition op_ok :: "op_reg \<Rightarrow> bool" where
  "op_ok r \<longleftrightarrow> reg_inv op_handle 0 MAX_OPERATIONS r \<and> 0 \<le> next_operation r \<and>
     (\<forall>i \<ge> next_operation r. slots r i = None)"

lemma init_operation_Some:
  "init_operation ef new h f m c r = Some (e, r') \<longleftrightarrow>
     0 \<le> h \<and> h < MAX_OPERATIONS \<and> slots r h = None \<and> e = EMPI_SUCCESS \<and>
     (\<exists>p. new = Some p \<and>
        r' = r\<lparr>heap := (heap r)(p \<mapsto> \<lparr>op_handle = h, op_function = f, op_commute = c, op_op = m\<rparr>),
               slots := (slots r)(h \<mapsto> p),
               next_operation := (if h \<ge> next_operation r then h + 1 else next_operation r)\<rparr>)"
  by (auto simp: init_operation_def tbl_read_Some_iff tbl_write_Some_iff
      split: option.splits if_splits bind_splits)

lemma op_ok_add:
  assumes "op_ok r" "fresh r (Some p)" "0 \<le> h" "h < MAX_OPERATIONS" "op_handle x = h"
    and "n = (if h \<ge> next_operation r then h + 1 else next_operation r)"
  shows "op_ok (r\<lparr>heap := (heap r)(p \<mapsto> x), slots := (slots r)(h \<mapsto> p), next_operation := n\<rparr>)"
proof -
  have "reg_inv op_handle 0 MAX_OPERATIONS
      (r\<lparr>heap := (heap r)(p \<mapsto> x), slots := (slots r)(h \<mapsto> p)\<rparr>)"
    using assms by (intro reg_inv_add) (auto simp: op_ok_def)
  then have "reg_inv op_handle 0 MAX_OPERATIONS
      (r\<lparr>heap := (heap r)(p \<mapsto> x), slots := (slots r)(h \<mapsto> p), next_operation := n\<rparr>)"
    by (rule reg_inv_cong [THEN iffD1, rotated 2]) simp_all
  with assms show ?thesis by (auto simp: op_ok_def)
qed

lemma create_operation_Some:
  "create_operation ef new f m c r = Some (res, r') \<longleftrightarrow>
     0 \<le> next_operation r \<and> next_operation r < MAX_OPERATIONS \<and>
     slots r (next_operation r) = None \<and>
     (\<exists>p. new = Some p \<and> res = Some p \<and>
        r' = r\<lparr>heap := (heap r)(p \<mapsto> \<lparr>op_handle = next_operation r, op_function = f, op_commute = c, op_op = m\<rparr>),
               slots := (slots r)(next_operation r \<mapsto> p),
               next_operation := next_operation r + 1\<rparr>)"
  by (auto simp: create_operation_def Let_def init_operation_Some tbl_read_Some_iff
      bind_eq_Some_conv split: if_splits)

lemma op_ok_create:
  assumes "op_ok r" "fresh r new" "create_operation ef new f m c r = Some (res, r')"
  shows "op_ok r'"
proof -
  from assms(3) obtain p where p: "0 \<le> next_operation r" "next_operation r < MAX_OPERATIONS" "new = Some p"
    and r': "r' = r\<lparr>heap := (heap r)(p \<mapsto> \<lparr>op_handle = next_operation r, op_function = f, op_commute = c, op_op = m\<rparr>),
               slots := (slots r)(next_operation r \<mapsto> p),
               next_operation := next_operation r + 1\<rparr>"
    unfolding create_operation_Some by blast
  show ?thesis unfolding r' using assms(1,2) p by (intro op_ok_add) auto
qed

interpretation opr: handle_alloc op_handle 0 MAX_OPERATIONS handle_to_operation operation_to_handle
  "\<lambda>ef new (f, m, c). create_operation ef new f m c" op_ok
proof (unfold_locales, goal_cases)
  case (1 h r p ef)
  then show ?case by (simp add: handle_to_operation_def)
next
  case (2 ef r h p)
  then show ?case by (auto simp: handle_to_operation_def tbl_read_Some_iff split: if_splits)
next
  case (3 r p x ef)
  then show ?case by (simp add: operation_to_handle_def)
next
  case (4 r)
  then show ?case by (simp add: op_ok_def)
next
  case (5 r new ef x p r')
  then show ?case by (cases x) (auto simp: create_operation_Some)
next
  case (6 r new ef x p r')
  then show ?case by (cases x) (auto intro: op_ok_create)
next
  case (7 r new ef x r')
  then show ?case by (cases x) (simp add: create_operation_Some)
qed

section \<open>Initialisation\<close>

lemma init_operation_list_slots:
  assumes "op_ok r" "length news = length xs" "distinct news" "None \<notin> set news"
    and "\<And>p. Some p \<in> set news \<Longrightarrow> heap r p = None"
    and "distinct (map fst xs)" "\<And>h. h \<in> fst ` set xs \<Longrightarrow> 0 \<le> h \<and> h < MAX_OPERATIONS \<and> slots r h = None"
  shows "\<exists>r'. init_operation_list ef news xs r = Some (EMPI_SUCCESS, r') \<and> op_ok r' \<and>
     (\<forall>(h, f, m) \<in> set xs. \<exists>p. slots r' h = Some p \<and>
        heap r' p = Some \<lparr>op_handle = h, op_function = f, op_commute = 1, op_op = m\<rparr>) \<and>
     (\<forall>h. h \<notin> fst ` set xs \<longrightarrow> slots r' h = slots r h) \<and>
     (\<forall>p. Some p \<notin> set news \<longrightarrow> heap r' p = heap r p) \<and>
     next_operation r' = foldl (\<lambda>n h. if h \<ge> n then h + 1 else n) (next_operation r) (map fst xs)"
  using assms
proof (induction xs arbitrary: news r)
  case Nil
  then show ?case by simp
next
  case (Cons x xs)
  obtain h f m where x: "x = (h, f, m)" by (cases x)
  from Cons.prems(2) obtain new news' where news: "news = new # news'" by (cases news) auto
  with Cons.prems(4) obtain p where p: "new = Some p" by (cases new) auto
  let ?n = "if h \<ge> next_operation r then h + 1 else next_operation r"
  let ?x = "\<lparr>op_handle = h, op_function = f, op_commute = 1, op_op = m\<rparr>"
  let ?r = "r\<lparr>heap := (heap r)(p \<mapsto> ?x), slots := (slots r)(h \<mapsto> p), next_operation := ?n\<rparr>"
  from Cons.prems(7) [of h] x have h: "0 \<le> h" "h < MAX_OPERATIONS" "slots r h = None" by auto
  have step: "init_operation ef new h f m 1 r = Some (EMPI_SUCCESS, ?r)"
    unfolding init_operation_Some using h p by blast
  have "op_ok ?r"
    using op_ok_add [OF Cons.prems(1) _ h(1,2), of p ?x ?n] Cons.prems(5) news p
    by (simp add: fresh_def)
  moreover have "\<And>q. Some q \<in> set news' \<Longrightarrow> heap ?r q = None"
    using Cons.prems(3,5) news p by auto
  moreover have "0 \<le> k \<and> k < MAX_OPERATIONS \<and> slots ?r k = None" if "k \<in> fst ` set xs" for k
  proof -
    from that Cons.prems(6) x have "k \<noteq> h" by auto
    moreover from that have "k \<in> fst ` set (x # xs)" by simp
    ultimately show ?thesis using Cons.prems(7) [of k] by simp
  qed
  ultimately obtain r' where r': "init_operation_list ef news' xs ?r = Some (EMPI_SUCCESS, r')" "op_ok r'"
    "\<forall>(h, f, m) \<in> set xs. \<exists>p. slots r' h = Some p \<and>
        heap r' p = Some \<lparr>op_handle = h, op_function = f, op_commute = 1, op_op = m\<rparr>"
    "\<forall>k. k \<notin> fst ` set xs \<longrightarrow> slots r' k = slots ?r k"
    "\<forall>q. Some q \<notin> set news' \<longrightarrow> heap r' q = heap ?r q"
    "next_operation r' = foldl (\<lambda>n h. if h \<ge> n then h + 1 else n) (next_operation ?r) (map fst xs)"
    using Cons.IH [of ?r news'] Cons.prems(2,3,4,6) news by auto
  have "h \<notin> fst ` set xs" using Cons.prems(6) x by auto
  then have "slots r' h = Some p" using r'(4) by simp
  moreover have "heap r' p = Some ?x"
    using r'(5) Cons.prems(3) news p by simp
  moreover have "init_operation_list ef news (x # xs) r = Some (EMPI_SUCCESS, r')"
    by (simp add: news x step r'(1))
  moreover have "\<forall>k. k \<notin> fst ` set (x # xs) \<longrightarrow> slots r' k = slots r k"
    using r'(4) x by simp
  moreover have "\<forall>q. Some q \<notin> set news \<longrightarrow> heap r' q = heap r q"
    using r'(5) news p by simp
  moreover have "next_operation r' =
      foldl (\<lambda>n h. if h \<ge> n then h + 1 else n) (next_operation r) (map fst (x # xs))"
    using r'(6) x by simp
  ultimately show ?case using r'(2,3) x by (intro exI [of _ r']) simp
qed

end
