(* ===== verification/Files_Infos.thy ===== *)
theory Files_Infos
  imports Handles
begin

text \<open>
  The registries of files (\<^verbatim>\<open>src/backend/file.c\<close>) and info objects (\<^verbatim>\<open>src/backend/info.c\<close>).
  Both hand out their slots in order until the array has been used up once and search for a
  free slot from then on. An \<^verbatim>\<open>MPI_File\<close> or \<^verbatim>\<open>MPI_Info\<close> is an optional identifier of the local
  MPI library, \<open>None\<close> its null handle.
\<close>

definition MAX_FILES :: int where "MAX_FILES = 64"
definition MAX_INFOS :: int where "MAX_INFOS = 64"
abbreviation (input) EMPI_FILE_NULL :: int where "EMPI_FILE_NULL \<equiv> -1"
abbreviation (input) EMPI_INFO_NULL :: int where "EMPI_INFO_NULL \<equiv> -1"

text \<open>The choice of a slot, common to both: the next unused one, else the first free one.\<close>

definition pick_slot :: "int \<Rightarrow> int \<Rightarrow> addr table \<Rightarrow> int option" where
  "pick_slot n nxt t = (if nxt < n then Some nxt else first_free t 0 n)"

definition slots_ok :: "('a \<Rightarrow> int) \<Rightarrow> int \<Rightarrow> int \<Rightarrow> ('a, 'z) reg_scheme \<Rightarrow> bool" where
  "slots_ok hof n nxt r \<longleftrightarrow>
     reg_inv hof 0 n r \<and> 0 \<le> nxt \<and> nxt \<le> n \<and> (\<forall>i \<ge> nxt. slots r i = None)"

lemma pick_slot_Some:
  assumes "slots_ok hof n nxt r" "pick_slot n nxt (slots r) = Some h"
  shows "0 \<le> h" "h < n" "slots r h = None" "h \<le> nxt"
  using assms by (auto simp: pick_slot_def slots_ok_def split: if_splits dest!: first_free_Some)

lemma pick_slot_None:
  "slots_ok hof n nxt r \<Longrightarrow>
     pick_slot n nxt (slots r) = None \<longleftrightarrow> nxt = n \<and> (\<forall>k. 0 \<le> k \<and> k < n \<longrightarrow> slots r k \<noteq> None)"
  by (auto simp: pick_slot_def slots_ok_def first_free_None)

lemma slots_ok_add:
  assumes "slots_ok hof n nxt r" "fresh r (Some p)" "pick_slot n nxt (slots r) = Some h" "hof x = h"
    and "heap r' = (heap r)(p \<mapsto> x)" "slots r' = (slots r)(h \<mapsto> p)"
  shows "slots_ok hof n (if h \<ge> nxt then nxt + 1 else nxt) r'"
proof -
  note h = pick_slot_Some [OF assms(1,3)]
  have "reg_inv hof 0 n (r\<lparr>heap := (heap r)(p \<mapsto> x), slots := (slots r)(h \<mapsto> p)\<rparr>)"
    using assms h by (intro reg_inv_add) (auto simp: slots_ok_def)
  then have "reg_inv hof 0 n r'"
    by (rule reg_inv_cong [THEN iffD1, rotated 2]) (simp_all add: assms)
  with assms h show ?thesis by (auto simp: slots_ok_def)
qed

lemma slots_ok_remove:
  assumes "slots_ok hof n nxt r" "slots r h = Some p"
    and "heap r' = (heap r)(p := None)" "slots r' = (slots r)(h := None)"
  shows "slots_ok hof n nxt r'"
proof -
  have "reg_inv hof 0 n (r\<lparr>heap := (heap r)(p := None), slots := (slots r)(h := None)\<rparr>)"
    using assms(1,2) reg_inv_inj unfolding slots_ok_def by (blast intro: reg_inv_remove)
  then have "reg_inv hof 0 n r'"
    by (rule reg_inv_cong [THEN iffD1, rotated 2]) (simp_all add: assms)
  with assms show ?thesis by (auto simp: slots_ok_def)
qed

section \<open>Files\<close>

record file_s =
  fl_handle :: int
  fl_comm :: "addr option"
  fl_file :: "nat option"

record file_reg = "file_s reg" +
  next_file :: int

definition init_files :: "file_reg \<Rightarrow> int \<times> file_reg" where
  "init_files r = (EMPI_SUCCESS, r\<lparr>slots := \<lambda>i. None\<rparr>)"

definition handle_to_file :: "bool \<Rightarrow> file_reg \<Rightarrow> int \<Rightarrow> addr option run" where
  "handle_to_file ef r h =
     (if h < 0 \<or> h \<ge> MAX_FILES then ERROR ef (Some None)
      else tbl_read MAX_FILES (slots r) h)"

definition file_to_handle :: "bool \<Rightarrow> file_reg \<Rightarrow> addr option \<Rightarrow> int run" where
  "file_to_handle ef r fo =
     (case fo of
        None \<Rightarrow> ERROR ef (Some (-1))
      | Some p \<Rightarrow> do { x \<leftarrow> heap r p; Some (fl_handle x) })"

definition add_file ::
  "addr option \<Rightarrow> addr option \<Rightarrow> nat option \<Rightarrow> file_reg \<Rightarrow> (addr option \<times> file_reg) run" where
  "add_file new c f r =
     (if f = None then Some (None, r)
      else (case pick_slot MAX_FILES (next_file r) (slots r) of
          None \<Rightarrow> IERROR (Some (None, r))
        | Some h \<Rightarrow> do {
            t \<leftarrow> tbl_write MAX_FILES (slots r) h new;
            case new of
              None \<Rightarrow> IERROR (Some (None, r\<lparr>slots := t\<rparr>))
            | Some p \<Rightarrow>
                Some (Some p,
                  r\<lparr>heap := (heap r)(p \<mapsto> \<lparr>fl_handle = h, fl_comm = c, fl_file = f\<rparr>),
                    slots := t,
                    next_file := (if h \<ge> next_file r then next_file r + 1 else next_file r)\<rparr>)
          }))"

definition remove_file :: "int \<Rightarrow> file_reg \<Rightarrow> file_reg run" where
  "remove_file f r =
     (if f = EMPI_FILE_NULL then Some r
      else if f < 0 \<or> f \<ge> MAX_FILES then IERROR (Some r)
      else do {
        po \<leftarrow> tbl_read MAX_FILES (slots r) f;
        case po of
          None \<Rightarrow> IERROR (Some r)
        | Some p \<Rightarrow> do {
            t \<leftarrow> tbl_write MAX_FILES (slots r) f None;
            Some (r\<lparr>heap := (heap r)(p := None), slots := t\<rparr>)
          }
      })"

definition file_ok :: "file_reg \<Rightarrow> bool" where
  "file_ok r \<longleftrightarrow> slots_ok fl_handle MAX_FILES (next_file r) r"

lemma add_file_Some:
  assumes "file_ok r" "add_file new c f r = Some (Some p, r')"
  obtains h where "pick_slot MAX_FILES (next_file r) (slots r) = Some h" "new = Some p" "f \<noteq> None"
    "heap r' = (heap r)(p \<mapsto> \<lparr>fl_handle = h, fl_comm = c, fl_file = f\<rparr>)"
    "slots r' = (slots r)(h \<mapsto> p)"
    "next_file r' = (if h \<ge> next_file r then next_file r + 1 else next_file r)"
  using assms by (auto simp: add_file_def tbl_write_Some_iff bind_eq_Some_conv
      split: if_splits option.splits)

lemma add_file_slot:
  assumes "file_ok r" "add_file new c f r = Some (Some p, r')"
  shows "\<exists>h \<ge> 0. slots r h = None \<and> slots r' = (slots r)(h \<mapsto> p)"
proof -
  from assms obtain h where "pick_slot MAX_FILES (next_file r) (slots r) = Some h"
    "slots r' = (slots r)(h \<mapsto> p)"
    by (rule add_file_Some)
  with assms(1) show ?thesis
    unfolding file_ok_def by (blast dest: pick_slot_Some(1,3))
qed

lemma add_file_None: "add_file new c f r = Some (None, r') \<Longrightarrow> r' = r \<and> f = None"
  by (auto simp: add_file_def bind_eq_Some_conv split: if_splits option.splits)

lemma file_ok_add:
  assumes "file_ok r" "fresh r new" "add_file new c f r = Some (Some p, r')"
  shows "file_ok r'"
proof -
  from assms(1,3) obtain h where h: "pick_slot MAX_FILES (next_file r) (slots r) = Some h" "new = Some p"
    "heap r' = (heap r)(p \<mapsto> \<lparr>fl_handle = h, fl_comm = c, fl_file = f\<rparr>)"
    "slots r' = (slots r)(h \<mapsto> p)"
    "next_file r' = (if h \<ge> next_file r then next_file r + 1 else next_file r)"
    by (rule add_file_Some)
  show ?thesis
    unfolding file_ok_def h(5)
    using assms(1,2) h(2) by (intro slots_ok_add [OF _ _ h(1) _ h(3,4)]) (auto simp: file_ok_def)
qed

lemma remove_file_slot:
  assumes "file_ok r" "slots r h = Some p"
  shows "remove_file h r = Some (r\<lparr>heap := (heap r)(p := None), slots := (slots r)(h := None)\<rparr>)"
proof -
  from assms have "0 \<le> h" "h < MAX_FILES"
    using reg_invD(1,2) unfolding file_ok_def slots_ok_def by blast+
  with assms(2) show ?thesis by (simp add: remove_file_def)
qed

interpretation fl: handle_pool fl_handle 0 MAX_FILES handle_to_file file_to_handle
  "\<lambda>ef new (c, f). add_file new c f" file_ok "\<lambda>ef. remove_file" "\<lambda>h. True"
proof (unfold_locales, goal_cases)
  case (1 h r p ef)
  then show ?case by (simp add: handle_to_file_def)
next
  case (2 ef r h p)
  then show ?case by (auto simp: handle_to_file_def tbl_read_Some_iff split: if_splits)
next
  case (3 r p x ef)
  then show ?case by (simp add: file_to_handle_def)
next
  case (4 r)
  then show ?case by (simp add: file_ok_def slots_ok_def)
next
  case (5 r new ef x p r')
  then show ?case by (cases x) (auto dest: add_file_slot)
next
  case (6 r new ef x p r')
  then show ?case by (cases x) (auto intro: file_ok_add)
next
  case (7 r new ef x r')
  then show ?case by (cases x) (auto dest: add_file_None)
next
  case (8 r h p ef)
  then have "file_ok (r\<lparr>heap := (heap r)(p := None), slots := (slots r)(h := None)\<rparr>)"
    unfolding file_ok_def by (auto intro: slots_ok_remove)
  with 8 show ?case by (auto simp: remove_file_slot)
next
  case (9 r new ef x p r' h)
  then show ?case by simp
qed

section \<open>Info objects\<close>

record info_s =
  in_handle :: int
  in_info :: "nat option"

record info_reg = "info_s reg" +
  next_info :: int

definition init_infos :: "info_reg \<Rightarrow> int \<times> info_reg" where
  "init_infos r = (EMPI_SUCCESS, r\<lparr>slots := \<lambda>i. None\<rparr>)"

definition handle_to_info :: "bool \<Rightarrow> info_reg \<Rightarrow> int \<Rightarrow> addr option run" where
  "handle_to_info ef r h =
     (if h < 0 \<or> h \<ge> MAX_INFOS then ERROR ef (Some None)
      else tbl_read MAX_INFOS (slots r) h)"

definition info_to_handle :: "bool \<Rightarrow> info_reg \<Rightarrow> addr option \<Rightarrow> int run" where
  "info_to_handle ef r io =
     (case io of
        None \<Rightarrow> ERROR ef (Some EMPI_INFO_NULL)
      | Some p \<Rightarrow> do { x \<leftarrow> heap r p; Some (in_handle x) })"

definition add_info ::
  "addr option \<Rightarrow> nat option \<Rightarrow> info_reg \<Rightarrow> (addr option \<times> info_reg) run" where
  "add_info new i r =
     (if i = None then Some (None, r)
      else (case pick_slot MAX_INFOS (next_info r) (slots r) of
          None \<Rightarrow> IERROR (Some (None, r))
        | Some h \<Rightarrow> do {
            t \<leftarrow> tbl_write MAX_INFOS (slots r) h new;
            case new of
              None \<Rightarrow> IERROR (Some (None, r\<lparr>slots := t\<rparr>))
            | Some p \<Rightarrow>
                Some (Some p,
                  r\<lparr>heap := (heap r)(p \<mapsto> \<lparr>in_handle = h, in_info = i\<rparr>),
                    slots := t,
                    next_info := (if h \<ge> next_info r then next_info r + 1 else next_info r)\<rparr>)
          }))"

definition remove_info :: "int \<Rightarrow> info_reg \<Rightarrow> info_reg run" where
  "remove_info i r =
     (if i = EMPI_FILE_NULL then Some r
      else if i < 0 \<or> i \<ge> MAX_INFOS then IERROR (Some r)
      else do {
        po \<leftarrow> tbl_read MAX_INFOS (slots r) i;
        case po of
          None \<Rightarrow> IERROR (Some r)
        | Some p \<Rightarrow> do {
            t \<leftarrow> tbl_write MAX_INFOS (slots r) i None;
            Some (r\<lparr>heap := (heap r)(p := None), slots := t\<rparr>)
          }
      })"

definition info_ok :: "info_reg \<Rightarrow> bool" where
  "info_ok r \<longleftrightarrow> slots_ok in_handle MAX_INFOS (next_info r) r"

lemma add_info_Some:
  assumes "info_ok r" "add_info new i r = Some (Some p, r')"
  obtains h where "pick_slot MAX_INFOS (next_info r) (slots r) = Some h" "new = Some p" "i \<noteq> None"
    "heap r' = (heap r)(p \<mapsto> \<lparr>in_handle = h, in_info = i\<rparr>)"
    "slots r' = (slots r)(h \<mapsto> p)"
    "next_info r' = (if h \<ge> next_info r then next_info r + 1 else next_info r)"
  using assms by (auto simp: add_info_def tbl_write_Some_iff bind_eq_Some_conv
      split: if_splits option.splits)

lemma add_info_slot:
  assumes "info_ok r" "add_info new i r = Some (Some p, r')"
  shows "\<exists>h \<ge> 0. slots r h = None \<and> slots r' = (slots r)(h \<mapsto> p)"
proof -
  from assms obtain h where "pick_slot MAX_INFOS (next_info r) (slots r) = Some h"
    "slots r' = (slots r)(h \<mapsto> p)"
    by (rule add_info_Some)
  with assms(1) show ?thesis
    unfolding info_ok_def by (blast dest: pick_slot_Some(1,3))
qed

lemma add_info_None: "add_info new i r = Some (None, r') \<Longrightarrow> r' = r \<and> i = None"
  by (auto simp: add_info_def bind_eq_Some_conv split: if_splits option.splits)

lemma info_ok_add:
  assumes "info_ok r" "fresh r new" "add_info new i r = Some (Some p, r')"
  shows "info_ok r'"
proof -
  from assms(1,3) obtain h where h: "pick_slot MAX_INFOS (next_info r) (slots r) = Some h" "new = Some p"
    "heap r' = (heap r)(p \<mapsto> \<lparr>in_handle = h, in_info = i\<rparr>)"
    "slots r' = (slots r)(h \<mapsto> p)"
    "next_info r' = (if h \<ge> next_info r then next_info r + 1 else next_info r)"
    by (rule add_info_Some)
  show ?thesis
    unfolding info_ok_def h(5)
    using assms(1,2) h(2) by (intro slots_ok_add [OF _ _ h(1) _ h(3,4)]) (auto simp: info_ok_def)
qed

lemma remove_info_slot:
  assumes "info_ok r" "slots r h = Some p"
  shows "remove_info h r = Some (r\<lparr>heap := (heap r)(p := None), slots := (slots r)(h := None)\<rparr>)"
proof -
  from assms have "0 \<le> h" "h < MAX_INFOS"
    using reg_invD(1,2) unfolding info_ok_def slots_ok_def by blast+
  with assms(2) show ?thesis by (simp add: remove_info_def)
qed

interpretation inf: handle_pool in_handle 0 MAX_INFOS handle_to_info info_to_handle
  "\<lambda>ef. add_info" info_ok "\<lambda>ef. remove_info" "\<lambda>h. True"
proof (unfold_locales, goal_cases)
  case (1 h r p ef)
  then show ?case by (simp add: handle_to_info_def)
next
  case (2 ef r h p)
  then show ?case by (auto simp: handle_to_info_def tbl_read_Some_iff split: if_splits)
next
  case (3 r p x ef)
  then show ?case by (simp add: info_to_handle_def)
next
  case (4 r)
  then show ?case by (simp add: info_ok_def slots_ok_def)
next
  case (5 r new ef x p r')
  then show ?case by (auto dest: add_info_slot)
next
  case (6 r new ef x p r')
  then show ?case by (auto intro: info_ok_add)
next
  case (7 r new ef x r')
  then show ?case by (auto dest: add_info_None)
next
  case (8 r h p ef)
  then have "info_ok (r\<lparr>heap := (heap r)(p := None), slots := (slots r)(h := None)\<rparr>)"
    unfolding info_ok_def by (auto intro: slots_ok_remove)
  with 8 show ?case by (auto simp: remove_info_slot)
next
  case (9 r new ef x p r' h)
  then show ?case by simp
qed

end
