(* ===== verification/Message_Queue.thy ===== *)
theory Message_Queue
  imports Handles
begin

text \<open>
  The message queues, \<^verbatim>\<open>src/backend/message_queue.c\<close>: a singly linked list of malloc'ed nodes
  with a pointer to its first and its last node. The model keeps the nodes in a heap and
  follows the pointers as the code does. An interface of queues with removal of the first
  matching element is stated as a locale whose operations refine those of lists; it is
  interpreted on the linked list. The type \<open>'m\<close> stands for the message pointers.
\<close>

record 'm message_info =
  mi_next :: "addr option"
  mi_message :: 'm

record message_queue =
  mq_head :: "addr option"
  mq_tail :: "addr option"

type_synonym 'm mheap = "addr \<Rightarrow> 'm message_info option"

section \<open>The operations\<close>

definition message_queue_init :: "message_queue option \<Rightarrow> int \<times> message_queue option" where
  "message_queue_init q =
     (case q of None \<Rightarrow> (-1, None) | Some q \<Rightarrow> (0, Some (q\<lparr>mq_head := None, mq_tail := None\<rparr>)))"

definition message_enqueue ::
  "addr option \<Rightarrow> 'm \<Rightarrow> 'm mheap \<times> message_queue \<Rightarrow> (int \<times> 'm mheap \<times> message_queue) run" where
  "message_enqueue info m s = (case s of (h, q) \<Rightarrow>
     (case info of
        None \<Rightarrow> Some (-1, h, q)
      | Some p \<Rightarrow>
          let h1 = h(p \<mapsto> \<lparr>mi_next = None, mi_message = m\<rparr>) in
          if mq_head q = None then Some (0, h1, q\<lparr>mq_head := Some p, mq_tail := Some p\<rparr>)
          else do {
            t \<leftarrow> mq_tail q;
            ti \<leftarrow> h1 t;
            Some (0, h1(t \<mapsto> ti\<lparr>mi_next := Some p\<rparr>), q\<lparr>mq_tail := Some p\<rparr>)
          }))"

definition message_dequeue ::
  "'m mheap \<times> message_queue \<Rightarrow> ('m option \<times> 'm mheap \<times> message_queue) run" where
  "message_dequeue s = (case s of (h, q) \<Rightarrow>
     (case mq_head q of
        None \<Rightarrow> Some (None, h, q)
      | Some current \<Rightarrow> do {
          ci \<leftarrow> h current;
          let q1 = (if mq_head q = mq_tail q then q\<lparr>mq_head := None, mq_tail := None\<rparr>
                    else q\<lparr>mq_head := mi_next ci\<rparr>);
          Some (Some (mi_message ci), h(current := None), q1)
        }))"

definition message_queue_empty :: "message_queue \<Rightarrow> bool" where
  "message_queue_empty q \<longleftrightarrow> mq_head q = None"

text \<open>Unlinking the node \<open>c\<close>, whose predecessor on the walk is \<open>prev\<close>.\<close>

definition unlink ::
  "'m mheap \<Rightarrow> message_queue \<Rightarrow> addr option \<Rightarrow> addr \<Rightarrow> 'm message_info
    \<Rightarrow> ('m option \<times> 'm mheap \<times> message_queue) run" where
  "unlink h q prev c ci = do {
     (h1, q1) \<leftarrow>
       (if Some c = mq_head q then
          (if mq_head q = mq_tail q then Some (h, q\<lparr>mq_head := None, mq_tail := None\<rparr>)
           else Some (h, q\<lparr>mq_head := mi_next ci\<rparr>))
        else if Some c = mq_tail q then do {
          t \<leftarrow> prev;
          ti \<leftarrow> h t;
          Some (h(t \<mapsto> ti\<lparr>mi_next := None\<rparr>), q\<lparr>mq_tail := Some t\<rparr>)
        }
        else do {
          t \<leftarrow> prev;
          ti \<leftarrow> h t;
          Some (h(t \<mapsto> ti\<lparr>mi_next := mi_next ci\<rparr>), q)
        });
     Some (Some (mi_message ci), h1(c := None), q1)
   }"

partial_function (option) find_matching ::
  "('m \<Rightarrow> bool) \<Rightarrow> 'm mheap \<Rightarrow> message_queue \<Rightarrow> addr option \<Rightarrow> addr option
    \<Rightarrow> ('m option \<times> 'm mheap \<times> message_queue) option" where
  "find_matching P h q prev cur =
     (case cur of
        None \<Rightarrow> Some (None, h, q)
      | Some c \<Rightarrow> Option.bind (h c) (\<lambda>ci.
          if P (mi_message ci) then unlink h q prev c ci
          else find_matching P h q cur (mi_next ci)))"

definition data_message_dequeue_matching ::
  "('m \<Rightarrow> bool) \<Rightarrow> 'm mheap \<times> message_queue \<Rightarrow> ('m option \<times> 'm mheap \<times> message_queue) run" where
  "data_message_dequeue_matching P s = (case s of (h, q) \<Rightarrow>
     (if mq_head q = None then Some (None, h, q) else find_matching P h q None (mq_head q)))"

section \<open>The list a queue represents\<close>

fun seg :: "'m mheap \<Rightarrow> addr option \<Rightarrow> (addr \<times> 'm) list \<Rightarrow> addr option \<Rightarrow> bool" where
  "seg h x [] y \<longleftrightarrow> x = y"
| "seg h x ((a, m) # ns) y \<longleftrightarrow>
     x = Some a \<and> (\<exists>n. h a = Some \<lparr>mi_next = n, mi_message = m\<rparr> \<and> seg h n ns y)"

definition mq_rep :: "'m mheap \<times> message_queue \<Rightarrow> (addr \<times> 'm) list \<Rightarrow> bool" where
  "mq_rep s ns \<longleftrightarrow> (case s of (h, q) \<Rightarrow>
     seg h (mq_head q) ns None \<and> distinct (map fst ns) \<and>
     (ns \<noteq> [] \<longrightarrow> mq_tail q = Some (fst (last ns))))"

lemma seg_append: "seg h x (ns @ ms) y \<longleftrightarrow> (\<exists>z. seg h x ns z \<and> seg h z ms y)"
proof (induction ns arbitrary: x)
  case (Cons n ns)
  then show ?case by (cases n) fastforce
qed simp

lemma seg_upd: "a \<notin> fst ` set ns \<Longrightarrow> seg (h(a := v)) x ns y \<longleftrightarrow> seg h x ns y"
  by (induction ns arbitrary: x) auto

lemma seg_None: "seg h None ns y \<Longrightarrow> ns = [] \<and> y = None"
  by (cases ns) auto

lemma seg_alloc: "seg h x ns y \<Longrightarrow> (a, m) \<in> set ns \<Longrightarrow> h a \<noteq> None"
  by (induction ns arbitrary: x) auto

lemma mq_rep_init:
  "mq_rep (h, q) [] \<longleftrightarrow> mq_head q = None"
  by (simp add: mq_rep_def)

lemma mq_rep_fresh: "mq_rep (h, q) ns \<Longrightarrow> h p = None \<Longrightarrow> p \<notin> fst ` set ns"
  by (fastforce simp: mq_rep_def dest: seg_alloc)

lemma mq_rep_empty: "mq_rep (h, q) ns \<Longrightarrow> message_queue_empty q \<longleftrightarrow> ns = []"
  by (cases ns) (auto simp: mq_rep_def message_queue_empty_def)

lemma enqueue_rep:
  assumes rep: "mq_rep (h, q) ns" and p: "h p = None"
  shows "\<exists>h' q'. message_enqueue (Some p) m (h, q) = Some (0, h', q') \<and> mq_rep (h', q') (ns @ [(p, m)])
     \<and> (\<forall>a. a \<noteq> p \<longrightarrow> a \<notin> fst ` set ns \<longrightarrow> h' a = h a)"
proof (cases ns rule: rev_cases)
  case Nil
  with rep show ?thesis by (simp add: mq_rep_def message_enqueue_def)
next
  case (snoc ms x)
  obtain a k where x: "x = (a, k)" by (cases x)
  have "p \<notin> fst ` set ns" using rep p by (rule mq_rep_fresh)
  then have pa: "p \<noteq> a" and pm: "p \<notin> fst ` set ms" using snoc x by auto
  from rep snoc x have am: "a \<notin> fst ` set ms" and tail: "mq_tail q = Some a"
    and segs: "seg h (mq_head q) ms (Some a)" "h a = Some \<lparr>mi_next = None, mi_message = k\<rparr>"
    and dist: "distinct (map fst ms)"
    by (auto simp: mq_rep_def seg_append)
  from segs(1) have head: "mq_head q \<noteq> None" by (cases ms) auto
  let ?h' = "h(p \<mapsto> \<lparr>mi_next = None, mi_message = m\<rparr>, a \<mapsto> \<lparr>mi_next = Some p, mi_message = k\<rparr>)"
  have "message_enqueue (Some p) m (h, q) = Some (0, ?h', q\<lparr>mq_tail := Some p\<rparr>)"
    using head tail segs(2) pa by (auto simp: message_enqueue_def Let_def)
  moreover have "mq_rep (?h', q\<lparr>mq_tail := Some p\<rparr>) (ns @ [(p, m)])"
    using segs dist pa pm am snoc x by (auto simp: mq_rep_def seg_append seg_upd)
  ultimately show ?thesis using snoc x by auto
qed

lemma dequeue_rep_Nil:
  "mq_rep (h, q) [] \<Longrightarrow> message_dequeue (h, q) = Some (None, h, q)"
  by (simp add: mq_rep_def message_dequeue_def)

lemma dequeue_rep_Cons:
  assumes rep: "mq_rep (h, q) ((a, m) # ns)"
  shows "\<exists>q'. message_dequeue (h, q) = Some (Some m, h(a := None), q') \<and> mq_rep (h(a := None), q') ns"
proof (cases ns)
  case Nil
  with rep show ?thesis by (auto simp: mq_rep_def message_dequeue_def)
next
  case (Cons b bs)
  with rep have "fst (last ns) \<noteq> a" by (cases b) (auto simp: mq_rep_def dest: last_in_set)
  with rep Cons show ?thesis
    by (auto simp: mq_rep_def message_dequeue_def seg_upd)
qed

text \<open>The walk along the list finds the first match and takes exactly that node out.\<close>

lemma find_matching_none:
  "seg h x ns None \<Longrightarrow> \<forall>(a, m) \<in> set ns. \<not> P m \<Longrightarrow> find_matching P h q prev x = Some (None, h, q)"
proof (induction ns arbitrary: x prev)
  case Nil
  then show ?case by (simp add: find_matching.simps)
next
  case (Cons n ns)
  then show ?case by (cases n) (auto simp: find_matching.simps [of P h q prev])
qed

lemma unlink_rep:
  assumes rep: "mq_rep (h, q) (pre @ (a, m) # vs)" and ha: "h a = Some ci"
    and prev: "prev = (if pre = [] then None else Some (fst (last pre)))"
  shows "\<exists>h' q'. unlink h q prev a ci = Some (Some m, h', q') \<and> mq_rep (h', q') (pre @ vs) \<and>
     (\<forall>b. b \<notin> fst ` set (pre @ (a, m) # vs) \<longrightarrow> h' b = h b) \<and> h' a = None"
proof -
  from rep have dist: "distinct (map fst (pre @ (a, m) # vs))"
    and head: "seg h (mq_head q) (pre @ (a, m) # vs) None"
    and tail: "mq_tail q = Some (fst (last ((a, m) # vs)))"
    by (simp_all add: mq_rep_def)
  from head ha obtain nx where ci: "ci = \<lparr>mi_next = nx, mi_message = m\<rparr>" and tl: "seg h nx vs None"
    by (auto simp: seg_append)
  have last: "vs \<noteq> [] \<Longrightarrow> fst (last vs) \<noteq> a" using dist by (auto dest: last_in_set)
  show ?thesis
  proof (cases pre rule: rev_cases)
    case Nil
    with head have "mq_head q = Some a" by simp
    with Nil tail tl dist ci last show ?thesis
      by (cases vs) (auto simp: unlink_def mq_rep_def seg_upd)
  next
    case (snoc ps b)
    obtain pa pm where b: "b = (pa, pm)" by (cases b)
    with snoc prev have prv: "prev = Some pa" by simp
    from head snoc b have seg_ps: "seg h (mq_head q) ps (Some pa)"
      and hpa: "h pa = Some \<lparr>mi_next = Some a, mi_message = pm\<rparr>"
      by (auto simp: seg_append)
    from dist snoc b have ne: "pa \<noteq> a" "a \<notin> fst ` set ps" "pa \<notin> fst ` set ps"
      "a \<notin> fst ` set vs" "pa \<notin> fst ` set vs" by auto
    have hd_a: "mq_head q \<noteq> Some a"
      using seg_ps ne(1,2) by (cases ps) auto
    show ?thesis
    proof (cases vs)
      case Nil
      with tl snoc b prv hpa hd_a tail ne seg_ps dist ci show ?thesis
        by (auto simp: unlink_def mq_rep_def seg_append seg_upd)
    next
      case (Cons c cs)
      with last have "mq_tail q \<noteq> Some a" using tail by simp
      with Cons snoc b prv hpa hd_a tail ne seg_ps dist tl ci show ?thesis
        by (auto simp: unlink_def mq_rep_def seg_append seg_upd)
    qed
  qed
qed

lemma find_matching_some:
  assumes "mq_rep (h, q) (pre @ us @ (a, m) # vs)" "seg h x (us @ (a, m) # vs) None"
    and "\<forall>(b, k) \<in> set us. \<not> P k" "P m"
    and "prev = (if pre = [] then None else Some (fst (last pre)))"
  shows "\<exists>h' q'. find_matching P h q prev x = Some (Some m, h', q') \<and> mq_rep (h', q') (pre @ us @ vs) \<and>
     (\<forall>b. b \<notin> fst ` set (pre @ us @ (a, m) # vs) \<longrightarrow> h' b = h b) \<and> h' a = None"
  using assms
proof (induction us arbitrary: pre x prev)
  case Nil
  then obtain nx where "x = Some a" "h a = Some \<lparr>mi_next = nx, mi_message = m\<rparr>" by auto
  with Nil unlink_rep [of h q pre a m vs] show ?case
    by (subst find_matching.simps) simp
next
  case (Cons u us)
  obtain b k where u: "u = (b, k)" by (cases u)
  with Cons.prems(2) obtain nx where x: "x = Some b" and hb: "h b = Some \<lparr>mi_next = nx, mi_message = k\<rparr>"
    and tl: "seg h nx (us @ (a, m) # vs) None" by auto
  have "find_matching P h q prev x = find_matching P h q (Some b) nx"
    using Cons.prems(3) u x hb by (subst find_matching.simps) simp
  moreover from Cons.IH [of "pre @ [(b, k)]" nx "Some b"] Cons.prems u tl
  have "\<exists>h' q'. find_matching P h q (Some b) nx = Some (Some m, h', q') \<and>
     mq_rep (h', q') ((pre @ [(b, k)]) @ us @ vs) \<and>
     (\<forall>c. c \<notin> fst ` set ((pre @ [(b, k)]) @ us @ (a, m) # vs) \<longrightarrow> h' c = h c) \<and> h' a = None"
    by simp
  ultimately show ?case using u by simp
qed

section \<open>The interface of a queue\<close>

text \<open>
  \<open>rep s xs\<close>: the state \<open>s\<close> holds the messages \<open>xs\<close>, oldest first. \<open>avail s p\<close>: a node at
  \<open>p\<close> may be allocated in \<open>s\<close>.
\<close>

datatype 'm queue_event = Enqueue addr 'm | Dequeue | Dequeue_matching "'m \<Rightarrow> bool"

text \<open>A run of events on an implementation, collecting what the dequeues return.\<close>

fun queue_run ::
  "(addr option \<Rightarrow> 'm \<Rightarrow> 's \<Rightarrow> (int \<times> 's) run) \<Rightarrow> ('s \<Rightarrow> ('m option \<times> 's) run)
    \<Rightarrow> (('m \<Rightarrow> bool) \<Rightarrow> 's \<Rightarrow> ('m option \<times> 's) run) \<Rightarrow> 'm queue_event list \<Rightarrow> 's
    \<Rightarrow> ('m option list \<times> 's) run" where
  "queue_run enq deq deqm [] s = Some ([], s)"
| "queue_run enq deq deqm (Enqueue p m # es) s = do {
     (_, s1) \<leftarrow> enq (Some p) m s;
     queue_run enq deq deqm es s1
   }"
| "queue_run enq deq deqm (Dequeue # es) s = do {
     (x, s1) \<leftarrow> deq s;
     (xs, s2) \<leftarrow> queue_run enq deq deqm es s1;
     Some (x # xs, s2)
   }"
| "queue_run enq deq deqm (Dequeue_matching P # es) s = do {
     (x, s1) \<leftarrow> deqm P s;
     (xs, s2) \<leftarrow> queue_run enq deq deqm es s1;
     Some (x # xs, s2)
   }"

text \<open>The same run on a list.\<close>

fun list_run :: "'m queue_event list \<Rightarrow> 'm list \<Rightarrow> 'm option list \<times> 'm list" where
  "list_run [] xs = ([], xs)"
| "list_run (Enqueue p m # es) xs = list_run es (xs @ [m])"
| "list_run (Dequeue # es) xs =
     (case list_run es (tl xs) of
        (os, ys) \<Rightarrow> ((case xs of [] \<Rightarrow> None | x # _ \<Rightarrow> Some x) # os, ys))"
| "list_run (Dequeue_matching P # es) xs =
     (case list_run es (remove_first P xs) of (os, ys) \<Rightarrow> (find P xs # os, ys))"

fun event_addrs :: "'m queue_event list \<Rightarrow> addr list" where
  "event_addrs [] = []"
| "event_addrs (Enqueue p m # es) = p # event_addrs es"
| "event_addrs (Dequeue # es) = event_addrs es"
| "event_addrs (Dequeue_matching P # es) = event_addrs es"

locale fifo_queue =
  fixes rep :: "'s \<Rightarrow> 'm list \<Rightarrow> bool"
    and avail :: "'s \<Rightarrow> addr \<Rightarrow> bool"
    and enq :: "addr option \<Rightarrow> 'm \<Rightarrow> 's \<Rightarrow> (int \<times> 's) run"
    and deq :: "'s \<Rightarrow> ('m option \<times> 's) run"
    and deqm :: "('m \<Rightarrow> bool) \<Rightarrow> 's \<Rightarrow> ('m option \<times> 's) run"
  assumes enq_rep: "rep s xs \<Longrightarrow> avail s p \<Longrightarrow>
      \<exists>s'. enq (Some p) m s = Some (0, s') \<and> rep s' (xs @ [m]) \<and> (\<forall>a. a \<noteq> p \<longrightarrow> avail s a \<longrightarrow> avail s' a)"
    and deq_rep: "rep s xs \<Longrightarrow>
      \<exists>s'. deq s = Some (case xs of [] \<Rightarrow> None | x # _ \<Rightarrow> Some x, s') \<and> rep s' (tl xs) \<and>
        (\<forall>a. avail s a \<longrightarrow> avail s' a)"
    and deqm_rep: "rep s xs \<Longrightarrow>
      \<exists>s'. deqm P s = Some (find P xs, s') \<and> rep s' (remove_first P xs) \<and>
        (\<forall>a. avail s a \<longrightarrow> avail s' a)"
begin

text \<open>Every run behaves as the run on the list does: a functional refinement.\<close>

lemma run_refines:
  "rep s xs \<Longrightarrow> distinct (event_addrs es) \<Longrightarrow> \<forall>p \<in> set (event_addrs es). avail s p \<Longrightarrow>
    \<exists>s'. queue_run enq deq deqm es s = Some (fst (list_run es xs), s') \<and> rep s' (snd (list_run es xs))"
proof (induction es arbitrary: s xs)
  case Nil
  then show ?case by simp
next
  case (Cons e es)
  show ?case
  proof (cases e)
    case (Enqueue p m)
    with Cons.prems enq_rep [of s xs p m] obtain s1 where s1: "enq (Some p) m s = Some (0, s1)"
      "rep s1 (xs @ [m])" "\<forall>a. a \<noteq> p \<longrightarrow> avail s a \<longrightarrow> avail s1 a" by auto
    have "\<forall>a \<in> set (event_addrs es). avail s1 a"
      using Cons.prems(2,3) s1(3) Enqueue by auto
    with Cons.IH [OF s1(2)] Cons.prems(2) Enqueue s1(1) show ?thesis by simp
  next
    case Dequeue
    with Cons.prems deq_rep [of s xs] obtain s1 where s1: "rep s1 (tl xs)"
      "deq s = Some (case xs of [] \<Rightarrow> None | x # _ \<Rightarrow> Some x, s1)" "\<forall>a. avail s a \<longrightarrow> avail s1 a"
      by blast
    with Cons.IH [OF s1(1)] Cons.prems(2,3) Dequeue show ?thesis
      by (cases "list_run es (tl xs)") auto
  next
    case (Dequeue_matching P)
    with Cons.prems deqm_rep [of s xs P] obtain s1 where s1: "rep s1 (remove_first P xs)"
      "deqm P s = Some (find P xs, s1)" "\<forall>a. avail s a \<longrightarrow> avail s1 a"
      by blast
    with Cons.IH [OF s1(1)] Cons.prems(2,3) Dequeue_matching show ?thesis
      by (cases "list_run es (remove_first P xs)") auto
  qed
qed

end

definition mq_list :: "'m mheap \<times> message_queue \<Rightarrow> 'm list \<Rightarrow> bool" where
  "mq_list s xs \<longleftrightarrow> (\<exists>ns. mq_rep s ns \<and> xs = map snd ns)"

lemma dequeue_matching_rep:
  assumes "mq_rep (h, q) ns"
  shows "\<exists>h' q' ms. data_message_dequeue_matching P (h, q) = Some (find P (map snd ns), h', q') \<and>
     mq_rep (h', q') ms \<and> map snd ms = remove_first P (map snd ns) \<and> (\<forall>a. h a = None \<longrightarrow> h' a = None)"
proof (cases rule: first_match_cases [of "ns" "\<lambda>(a, m). P m"])
  case none
  then have "\<forall>m \<in> set (map snd ns). \<not> P m" by auto
  moreover have "find_matching P h q None (mq_head q) = Some (None, h, q)"
    using assms none by (auto simp: mq_rep_def intro: find_matching_none)
  ultimately show ?thesis using assms
    by (auto simp: data_message_dequeue_matching_def intro!: exI [of _ ns])
next
  case (some us y vs)
  obtain a m where y: "y = (a, m)" by (cases y)
  have head: "mq_head q \<noteq> None" using mq_rep_empty [OF assms] some(1) by (auto simp: message_queue_empty_def)
  have us: "\<forall>x \<in> set (map snd us). \<not> P x" using some(2) by auto
  from find_matching_some [of h q "[]" us a m vs "mq_head q" P None] assms some y
  obtain h' q' where *: "find_matching P h q None (mq_head q) = Some (Some m, h', q')"
    "mq_rep (h', q') (us @ vs)" "\<forall>b. b \<notin> fst ` set (us @ (a, m) # vs) \<longrightarrow> h' b = h b"
    by (auto simp: mq_rep_def)
  have "\<forall>b. h b = None \<longrightarrow> h' b = None"
    using *(3) mq_rep_fresh [OF assms] some(1) y by metis
  moreover have "find P (map snd ns) = Some m"
    using us some y by (simp add: find_split)
  moreover have "remove_first P (map snd ns) = map snd (us @ vs)"
    using us some y by (simp add: remove_first_split)
  ultimately show ?thesis using * head
    by (auto simp: data_message_dequeue_matching_def intro!: exI [of _ "us @ vs"])
qed

interpretation mq: fifo_queue mq_list "\<lambda>s a. fst s a = None" message_enqueue message_dequeue
  data_message_dequeue_matching
proof (unfold_locales, goal_cases)
  case (1 s xs p m)
  then obtain ns where ns: "mq_rep s ns" "xs = map snd ns" by (auto simp: mq_list_def)
  obtain h q where s: "s = (h, q)" by (cases s)
  from enqueue_rep [of h q ns p m] ns 1(2) s obtain h' q' where
    *: "message_enqueue (Some p) m s = Some (0, h', q')" "mq_rep (h', q') (ns @ [(p, m)])"
      "\<forall>a. a \<noteq> p \<longrightarrow> a \<notin> fst ` set ns \<longrightarrow> h' a = h a" by auto
  have "\<forall>a. a \<noteq> p \<longrightarrow> h a = None \<longrightarrow> h' a = None"
    using *(3) mq_rep_fresh [of h q ns] ns(1) s by metis
  moreover have "mq_list (h', q') (xs @ [m])"
    using *(2) ns(2) by (auto simp: mq_list_def intro!: exI [of _ "ns @ [(p, m)]"])
  ultimately show ?case using *(1) s by auto
next
  case (2 s xs)
  then obtain ns where ns: "mq_rep s ns" "xs = map snd ns" by (auto simp: mq_list_def)
  obtain h q where s: "s = (h, q)" by (cases s)
  show ?case
  proof (cases ns)
    case Nil
    with ns s dequeue_rep_Nil [of h q] show ?thesis by (auto simp: mq_list_def)
  next
    case (Cons n ms)
    obtain a m where n: "n = (a, m)" by (cases n)
    with ns s Cons dequeue_rep_Cons [of h q a m ms] show ?thesis
      by (auto simp: mq_list_def)
  qed
next
  case (3 s xs P)
  then obtain ns where ns: "mq_rep s ns" "xs = map snd ns" by (auto simp: mq_list_def)
  obtain h q where s: "s = (h, q)" by (cases s)
  from dequeue_matching_rep [of h q ns P] ns s show ?case
    by (fastforce simp: mq_list_def)
qed

section \<open>The queue as the rest of the library sees it\<close>

text \<open>
  The components that own a queue hold the list it represents; the refinement above is what
  makes these the operations of the linked list.
\<close>

definition q_enqueue :: "'m \<Rightarrow> 'm list \<Rightarrow> 'm list" where
  "q_enqueue m q = q @ [m]"

definition q_dequeue :: "'m list \<Rightarrow> 'm option \<times> 'm list" where
  "q_dequeue q = (case q of [] \<Rightarrow> (None, []) | m # ms \<Rightarrow> (Some m, ms))"

definition q_dequeue_matching :: "('m \<Rightarrow> bool) \<Rightarrow> 'm list \<Rightarrow> 'm option \<times> 'm list" where
  "q_dequeue_matching P q = (find P q, remove_first P q)"

end
