(* ===== verification/Communicators.thy ===== *)
theory Communicators
  imports Handles Message_Queue Data_Message
begin

text \<open>
  The communicators, \<^verbatim>\<open>src/backend/communicator.c\<close> and \<^verbatim>\<open>communicator.h\<close>: the registry, the
  three predefined communicators, the translations between global ranks, ranks within the
  local cluster and process ids, and the queue of messages that arrived before a receive
  asked for them. Arrays are lists (a null pointer is the empty list); the queue is the list
  it represents. An \<^verbatim>\<open>MPI_Comm\<close> is an optional identifier, \<open>None\<close> its null handle.
\<close>

definition MAX_COMMUNICATORS :: int where "MAX_COMMUNICATORS = 1024"
abbreviation (input) EMPI_COMM_WORLD :: int where "EMPI_COMM_WORLD \<equiv> 0"
abbreviation (input) EMPI_COMM_SELF :: int where "EMPI_COMM_SELF \<equiv> 1"
abbreviation (input) EMPI_COMM_NULL :: int where "EMPI_COMM_NULL \<equiv> 2"

definition COMM_FLAG_LOCAL :: u32 where "COMM_FLAG_LOCAL = push_bit 0 1"
definition COMM_FLAG_REMOTE :: u32 where "COMM_FLAG_REMOTE = push_bit 1 1"
definition COMM_FLAG_WORLD :: u32 where "COMM_FLAG_WORLD = push_bit 2 1"
definition COMM_FLAG_SELF :: u32 where "COMM_FLAG_SELF = push_bit 3 1"

lemmas comm_flag_defs = COMM_FLAG_LOCAL_def COMM_FLAG_REMOTE_def COMM_FLAG_WORLD_def COMM_FLAG_SELF_def

record communicator =
  c_handle :: int
  c_flags :: u32
  c_comm :: "nat option"
  c_local_rank :: int
  c_local_size :: int
  c_global_rank :: int
  c_global_size :: int
  c_my_coordinator :: int
  c_coordinators :: "int list"
  c_cluster_count :: int
  c_cluster_ranks :: "int list"
  c_cluster_sizes :: "int list"
  c_members :: "u32 list"
  c_member_cluster_index :: "u32 list"
  c_local_ranks :: "u32 list"
  c_queue :: "data_message list"

type_synonym comm_reg = "communicator reg"

section \<open>The registry\<close>

text \<open>The loop that looks up the coordinator of the own cluster; the last match wins.\<close>

fun find_coordinator :: "u32 \<Rightarrow> int list \<Rightarrow> int list \<Rightarrow> nat \<Rightarrow> int \<Rightarrow> int \<Rightarrow> int run" where
  "find_coordinator crank ranks coords 0 i found = Some found"
| "find_coordinator crank ranks coords (Suc n) i found = do {
     k \<leftarrow> arr_read ranks i;
     found' \<leftarrow> (if word_of_int k = crank then arr_read coords i else Some found);
     find_coordinator crank ranks coords n (i + 1) found'
   }"

text \<open>
  The fields of \<open>c\<close> are the arguments of the function; \<open>new\<close> is the result of malloc and
  \<open>junk\<close> what the block's field \<open>my_coordinator\<close> held. \<open>crank\<close> is the rank of this cluster.
  The result is the error code and the pointer stored through \<open>out\<close>.
\<close>

definition add_communicator ::
  "bool \<Rightarrow> u32 \<Rightarrow> addr option \<Rightarrow> int \<Rightarrow> bool \<Rightarrow> int \<Rightarrow> communicator \<Rightarrow> comm_reg
    \<Rightarrow> (int \<times> addr option \<times> comm_reg) run" where
  "add_communicator ef crank new junk initial h c r =
     (if h < 0 \<or> h \<ge> MAX_COMMUNICATORS then ERROR ef (Some (EMPI_ERR_INTERN, None, r))
      else if \<not> initial \<and> h < 3 then ERROR ef (Some (EMPI_ERR_INTERN, None, r))
      else do {
        old \<leftarrow> tbl_read MAX_COMMUNICATORS (slots r) h;
        if old \<noteq> None then ERROR ef (Some (EMPI_ERR_INTERN, None, r))
        else (case new of
            None \<Rightarrow> ERROR ef (Some (EMPI_ERR_INTERN, None, r))
          | Some p \<Rightarrow> do {
              coord \<leftarrow>
                (if c_cluster_count c > 0 then
                   find_coordinator crank (c_cluster_ranks c) (c_coordinators c)
                     (nat (c_cluster_count c)) 0 junk
                 else Some 0);
              t \<leftarrow> tbl_write MAX_COMMUNICATORS (slots r) h (Some p);
              Some (EMPI_SUCCESS, Some p,
                r\<lparr>heap := (heap r)(p \<mapsto> c\<lparr>c_handle := h, c_my_coordinator := coord, c_queue := []\<rparr>),
                  slots := t\<rparr>)
            })
      })"

definition create_communicator ::
  "bool \<Rightarrow> u32 \<Rightarrow> addr option \<Rightarrow> int \<Rightarrow> int \<Rightarrow> communicator \<Rightarrow> comm_reg
    \<Rightarrow> (int \<times> addr option \<times> comm_reg) run" where
  "create_communicator ef crank new junk h c r = add_communicator ef crank new junk False h c r"

text \<open>\<open>mpi_error\<close> is what \<^verbatim>\<open>PMPI_Comm_free\<close> returned.\<close>

definition free_communicator :: "int \<Rightarrow> addr \<Rightarrow> comm_reg \<Rightarrow> (int \<times> comm_reg) run" where
  "free_communicator mpi_error p r = do {
     c \<leftarrow> heap r p;
     t \<leftarrow> tbl_write MAX_COMMUNICATORS (slots r) (c_handle c) None;
     Some (mpi_error, r\<lparr>heap := (heap r)(p := None), slots := t\<rparr>)
   }"

definition handle_to_communicator :: "bool \<Rightarrow> comm_reg \<Rightarrow> int \<Rightarrow> addr option run" where
  "handle_to_communicator ef r h =
     (if h < 0 \<or> h \<ge> MAX_COMMUNICATORS then ERROR ef (Some None)
      else do {
        p \<leftarrow> tbl_read MAX_COMMUNICATORS (slots r) h;
        if p = None then ERROR ef (Some None) else Some p
      })"

definition communicator_to_handle :: "bool \<Rightarrow> comm_reg \<Rightarrow> addr option \<Rightarrow> int run" where
  "communicator_to_handle ef r co =
     (case co of
        None \<Rightarrow> ERROR ef (Some (-1))
      | Some p \<Rightarrow> do { c \<leftarrow> heap r p; Some (c_handle c) })"

section \<open>The predefined communicators\<close>

text \<open>
  The loop of \<open>init_communicators\<close> that lays the processes of the clusters out one cluster
  after the other: the cluster and the local rank of each global rank from \<open>i\<close> on.
\<close>

fun layout_loop :: "int list \<Rightarrow> nat \<Rightarrow> int \<Rightarrow> int \<Rightarrow> int \<Rightarrow> (int \<times> int) list run" where
  "layout_loop offsets 0 i cluster process = Some []"
| "layout_loop offsets (Suc n) i cluster process = do {
     next_start \<leftarrow> arr_read offsets (cluster + 1);
     let (cluster', process') = (if i \<ge> next_start then (cluster + 1, 0) else (cluster, process));
     rest \<leftarrow> layout_loop offsets n (i + 1) cluster' (process' + 1);
     Some ((cluster', process') # rest)
   }"

definition world_communicator ::
  "nat option \<Rightarrow> int \<Rightarrow> int \<Rightarrow> int \<Rightarrow> int \<Rightarrow> int \<Rightarrow> int list \<Rightarrow> int list \<Rightarrow> (int \<times> int) list \<Rightarrow> communicator" where
  "world_communicator world rank sz global_rank global_count cluster_count cluster_sizes coords lay =
     \<lparr>c_handle = 0,
      c_flags = (if cluster_count > 1 then (COMM_FLAG_WORLD OR COMM_FLAG_LOCAL) OR COMM_FLAG_REMOTE
                 else COMM_FLAG_WORLD OR COMM_FLAG_LOCAL),
      c_comm = world, c_local_rank = rank, c_local_size = sz,
      c_global_rank = global_rank, c_global_size = global_count, c_my_coordinator = 0,
      c_coordinators = coords, c_cluster_count = cluster_count,
      c_cluster_ranks = map int [0 ..< nat cluster_count], c_cluster_sizes = cluster_sizes,
      c_members = map (\<lambda>(c, p). SET_PID (word_of_int c) (word_of_int p)) lay,
      c_member_cluster_index = map (\<lambda>(c, p). word_of_int c) lay,
      c_local_ranks = map (\<lambda>(c, p). word_of_int p) lay, c_queue = []\<rparr>"

text \<open>\<^verbatim>\<open>MPI_COMM_SELF\<close> is the identifier 0 of the local library; its array of cluster ranks is the
  one of the world communicator, with element 0 set to 0.\<close>

definition self_communicator :: "u32 \<Rightarrow> int list \<Rightarrow> communicator" where
  "self_communicator my_pid cluster_ranks =
     \<lparr>c_handle = 1, c_flags = COMM_FLAG_SELF OR COMM_FLAG_LOCAL, c_comm = Some 0,
      c_local_rank = 0, c_local_size = 1, c_global_rank = 0, c_global_size = 1,
      c_my_coordinator = 0, c_coordinators = [0], c_cluster_count = 1,
      c_cluster_ranks = cluster_ranks[0 := 0], c_cluster_sizes = [1], c_members = [my_pid],
      c_member_cluster_index = [0], c_local_ranks = [0], c_queue = []\<rparr>"

definition null_communicator :: communicator where
  "null_communicator =
     \<lparr>c_handle = 2, c_flags = 0, c_comm = None, c_local_rank = 0, c_local_size = 0,
      c_global_rank = 0, c_global_size = 0, c_my_coordinator = 0, c_coordinators = [],
      c_cluster_count = 0, c_cluster_ranks = [], c_cluster_sizes = [], c_members = [],
      c_member_cluster_index = [], c_local_ranks = [], c_queue = []\<rparr>"

text \<open>
  \<open>ok i\<close>: the i-th of the ten array allocations returned a block; \<open>new0\<close>, \<open>new1\<close>, \<open>new2\<close>: the
  results of malloc for the three structures; \<open>junk i\<close>: what the field
  \<open>my_coordinator\<close> of the i-th held. The array of
  coordinators is a copy of the offsets.
\<close>

definition init_communicators ::
  "bool \<Rightarrow> (nat \<Rightarrow> bool) \<Rightarrow> addr option \<Rightarrow> addr option \<Rightarrow> addr option \<Rightarrow> (nat \<Rightarrow> int) \<Rightarrow> u32
    \<Rightarrow> int \<Rightarrow> int \<Rightarrow> nat option \<Rightarrow> int \<Rightarrow> int \<Rightarrow> int list \<Rightarrow> int list \<Rightarrow> comm_reg \<Rightarrow> (int \<times> comm_reg) run" where
  "init_communicators ef ok new0 new1 new2 junk my_pid rank sz world crank cluster_count
     cluster_sizes cluster_offsets r0 = do {
     start \<leftarrow> arr_read cluster_offsets crank;
     let global_rank = start + rank;
     global_count \<leftarrow> arr_read cluster_offsets cluster_count;
     if \<not> ok 0 then ERROR ef (Some (EMPI_ERR_INTERN, r0))
     else do {
       coords \<leftarrow> arr_fill (arr_read cluster_offsets) (nat cluster_count) 0 (replicate (nat cluster_count) 0);
       let r = r0\<lparr>slots := \<lambda>i. None\<rparr>;
       if \<not> (ok 1 \<and> ok 2 \<and> ok 3 \<and> ok 4) then ERROR ef (Some (EMPI_ERR_INTERN, r))
       else do {
         lay \<leftarrow> layout_loop cluster_offsets (nat global_count) 0 0 0;
         let w = world_communicator world rank sz global_rank global_count cluster_count
                   cluster_sizes coords lay;
         (e1, _, r1) \<leftarrow> add_communicator ef (word_of_int crank) new0 (junk 0) True EMPI_COMM_WORLD w r;
         if e1 \<noteq> EMPI_SUCCESS then ERROR ef (Some (e1, r1))
         else if \<not> (ok 5 \<and> ok 6 \<and> ok 7 \<and> ok 8 \<and> ok 9) then ERROR ef (Some (EMPI_ERR_INTERN, r1))
         else do {
           (e2, _, r2) \<leftarrow> add_communicator ef (word_of_int crank) new1 (junk 1) True EMPI_COMM_SELF
                            (self_communicator my_pid (c_cluster_ranks w)) r1;
           if e2 \<noteq> EMPI_SUCCESS then ERROR ef (Some (e2, r2))
           else do {
             (e3, _, r3) \<leftarrow> add_communicator ef (word_of_int crank) new2 (junk 2) True EMPI_COMM_NULL
                              null_communicator r2;
             if e3 \<noteq> EMPI_SUCCESS then ERROR ef (Some (e3, r3)) else Some (e3, r3)
           }
         }
       }
     }
   }"

section \<open>Queries\<close>

fun cluster_index_loop :: "int list \<Rightarrow> int \<Rightarrow> nat \<Rightarrow> int \<Rightarrow> int run" where
  "cluster_index_loop ranks k 0 i = Some (-1)"
| "cluster_index_loop ranks k (Suc n) i = do {
     x \<leftarrow> arr_read ranks i;
     if x = k then Some i else cluster_index_loop ranks k n (i + 1)
   }"

definition comm_cluster_rank_to_cluster_index :: "communicator \<Rightarrow> int \<Rightarrow> int run" where
  "comm_cluster_rank_to_cluster_index c k =
     cluster_index_loop (c_cluster_ranks c) k (nat (c_cluster_count c)) 0"

definition comm_is_world :: "communicator \<Rightarrow> bool" where
  "comm_is_world c \<longleftrightarrow> c_flags c AND COMM_FLAG_WORLD \<noteq> 0"

definition comm_is_self :: "communicator \<Rightarrow> bool" where
  "comm_is_self c \<longleftrightarrow> c_flags c AND COMM_FLAG_SELF \<noteq> 0"

definition comm_is_local :: "communicator \<Rightarrow> bool" where
  "comm_is_local c \<longleftrightarrow> c_flags c AND COMM_FLAG_LOCAL \<noteq> 0 \<and> c_flags c AND COMM_FLAG_REMOTE = 0"

definition comm_is_wa :: "communicator \<Rightarrow> bool" where
  "comm_is_wa c \<longleftrightarrow> c_flags c AND COMM_FLAG_LOCAL = 0 \<and> c_flags c AND COMM_FLAG_REMOTE \<noteq> 0"

definition comm_is_mixed :: "communicator \<Rightarrow> bool" where
  "comm_is_mixed c \<longleftrightarrow> c_flags c AND COMM_FLAG_LOCAL \<noteq> 0 \<and> c_flags c AND COMM_FLAG_REMOTE \<noteq> 0"

definition rank_is_local :: "u32 \<Rightarrow> communicator \<Rightarrow> int \<Rightarrow> bool run" where
  "rank_is_local crank c rank = do {
     m \<leftarrow> arr_read (c_members c) rank; Some (GET_CLUSTER_RANK m = crank) }"

definition rank_is_remote :: "u32 \<Rightarrow> communicator \<Rightarrow> int \<Rightarrow> bool run" where
  "rank_is_remote crank c rank = do {
     m \<leftarrow> arr_read (c_members c) rank; Some (GET_CLUSTER_RANK m \<noteq> crank) }"

definition get_local_rank :: "communicator \<Rightarrow> int \<Rightarrow> int run" where
  "get_local_rank c rank =
     (if rank < 0 \<or> rank \<ge> c_global_size c then FATAL None
      else do { l \<leftarrow> arr_read (c_local_ranks c) rank; Some (sint l) })"

text \<open>
  The search stops at the first rank whose cluster is the cluster of the calling process and
  whose local rank is \<open>rank\<close>. When it fails the code repeats it for its log and stops.
\<close>

fun global_rank_loop :: "communicator \<Rightarrow> u32 \<Rightarrow> int \<Rightarrow> nat \<Rightarrow> int \<Rightarrow> int option run" where
  "global_rank_loop c cindex rank 0 i = Some None"
| "global_rank_loop c cindex rank (Suc n) i = do {
     k \<leftarrow> arr_read (c_member_cluster_index c) i;
     if k = cindex then do {
       l \<leftarrow> arr_read (c_local_ranks c) i;
       if l = word_of_int rank then Some (Some i) else global_rank_loop c cindex rank n (i + 1)
     }
     else global_rank_loop c cindex rank n (i + 1)
   }"

definition get_global_rank :: "communicator \<Rightarrow> int \<Rightarrow> int \<Rightarrow> int run" where
  "get_global_rank c cluster rank = do {
     cindex \<leftarrow> arr_read (c_member_cluster_index c) (c_global_rank c);
     found \<leftarrow> global_rank_loop c cindex rank (nat (c_global_size c)) 0;
     case found of
       Some i \<Rightarrow> Some i
     | None \<Rightarrow> do {
         again \<leftarrow> global_rank_loop c cindex rank (nat (c_global_size c)) 0;
         case again of Some i \<Rightarrow> Some i | None \<Rightarrow> FATAL (Some (-1))
       }
   }"

definition get_cluster_rank :: "communicator \<Rightarrow> int \<Rightarrow> u32 run" where
  "get_cluster_rank c rank = do { m \<leftarrow> arr_read (c_members c) rank; Some (GET_CLUSTER_RANK m) }"

definition get_pid :: "communicator \<Rightarrow> int \<Rightarrow> u32 run" where
  "get_pid c rank = arr_read (c_members c) rank"

section \<open>Messages waiting for a receive\<close>

text \<open>\<open>ok\<close>: the queue could allocate a node; the code ignores its error code.\<close>

definition store_message :: "bool \<Rightarrow> bool \<Rightarrow> data_message \<Rightarrow> comm_reg \<Rightarrow> comm_reg run" where
  "store_message ef ok m r = do {
     po \<leftarrow> tbl_read MAX_COMMUNICATORS (slots r) (m_comm m);
     case po of
       None \<Rightarrow> ERROR ef (ERROR ef (Some r))
     | Some p \<Rightarrow> do {
         c \<leftarrow> heap r p;
         Some (if ok then r\<lparr>heap := (heap r)(p \<mapsto> c\<lparr>c_queue := q_enqueue m (c_queue c)\<rparr>)\<rparr> else r)
       }
   }"

definition find_pending_message ::
  "addr \<Rightarrow> int \<Rightarrow> int \<Rightarrow> comm_reg \<Rightarrow> (data_message option \<times> comm_reg) run" where
  "find_pending_message p source tag r = do {
     c \<leftarrow> heap r p;
     let (m, q) = q_dequeue_matching (\<lambda>m. match_message m (c_handle c) source tag) (c_queue c);
     Some (m, r\<lparr>heap := (heap r)(p \<mapsto> c\<lparr>c_queue := q\<rparr>)\<rparr>)
   }"

section \<open>Lemmas on the registry\<close>

definition comm_ok :: "comm_reg \<Rightarrow> bool" where
  "comm_ok r \<longleftrightarrow> reg_inv c_handle 0 MAX_COMMUNICATORS r"

lemma add_communicator_success:
  "add_communicator ef crank new junk initial h c r = Some (EMPI_SUCCESS, out, r') \<longleftrightarrow>
     0 \<le> h \<and> h < MAX_COMMUNICATORS \<and> (initial \<or> 3 \<le> h) \<and> slots r h = None \<and>
     (\<exists>p coord. new = Some p \<and> out = Some p \<and>
        (if c_cluster_count c > 0 then
           find_coordinator crank (c_cluster_ranks c) (c_coordinators c) (nat (c_cluster_count c)) 0 junk
         else Some 0) = Some coord \<and>
        r' = r\<lparr>heap := (heap r)(p \<mapsto> c\<lparr>c_handle := h, c_my_coordinator := coord, c_queue := []\<rparr>),
               slots := (slots r)(h \<mapsto> p)\<rparr>)"
  unfolding add_communicator_def
  by (cases new) (auto simp: tbl_read_Some_iff tbl_write_Some_iff bind_eq_Some_conv split: if_splits)

lemma add_communicator_out:
  "add_communicator ef crank new junk initial h c r = Some (e, out, r') \<Longrightarrow>
     (e = EMPI_SUCCESS \<longleftrightarrow> out \<noteq> None) \<and> (out = None \<longrightarrow> r' = r)"
  unfolding add_communicator_def
  by (cases new) (auto simp: tbl_read_Some_iff tbl_write_Some_iff bind_eq_Some_conv split: if_splits)

lemma comm_ok_add:
  assumes "comm_ok r" "fresh r new" "add_communicator ef crank new junk initial h c r = Some (e, out, r')"
  shows "comm_ok r'"
proof (cases out)
  case None
  with assms add_communicator_out show ?thesis by blast
next
  case (Some p)
  with assms(3) add_communicator_out have e: "e = EMPI_SUCCESS" by blast
  from assms(3) obtain coord where *: "0 \<le> h" "h < MAX_COMMUNICATORS" "new = Some p"
    "r' = r\<lparr>heap := (heap r)(p \<mapsto> c\<lparr>c_handle := h, c_my_coordinator := coord, c_queue := []\<rparr>),
               slots := (slots r)(h \<mapsto> p)\<rparr>"
    unfolding e Some add_communicator_success by blast
  with assms(1,2) show ?thesis unfolding comm_ok_def by (auto intro!: reg_inv_add)
qed

lemma free_communicator_slot:
  assumes "comm_ok r" "slots r h = Some p"
  shows "free_communicator e p r =
     Some (e, r\<lparr>heap := (heap r)(p := None), slots := (slots r)(h := None)\<rparr>)"
  using reg_invD [OF assms(1) [unfolded comm_ok_def] assms(2)]
  by (auto simp: free_communicator_def)

lemma comm_ok_free:
  assumes "comm_ok r" "slots r h = Some p"
  shows "comm_ok (r\<lparr>heap := (heap r)(p := None), slots := (slots r)(h := None)\<rparr>)"
  using assms reg_inv_inj unfolding comm_ok_def by (blast intro: reg_inv_remove)

lemma comm_ok_update:
  assumes "comm_ok r" "heap r p = Some c" "c_handle c' = c_handle c"
  shows "comm_ok (r\<lparr>heap := (heap r)(p \<mapsto> c')\<rparr>)"
  using assms unfolding comm_ok_def by (rule reg_inv_update)

interpretation cm: handle_pool c_handle 0 MAX_COMMUNICATORS handle_to_communicator communicator_to_handle
  "\<lambda>ef new (crank, junk, h, c) r. map_option snd (create_communicator ef crank new junk h c r)" comm_ok
  "\<lambda>ef h r. Option.bind (slots r h) (\<lambda>p. map_option snd (free_communicator 0 p r))" "\<lambda>h. True"
proof (unfold_locales, goal_cases)
  case (1 h r p ef)
  then show ?case by (simp add: handle_to_communicator_def)
next
  case (2 ef r h p)
  then show ?case
    by (auto simp: handle_to_communicator_def tbl_read_Some_iff bind_eq_Some_conv split: if_splits)
next
  case (3 r p x ef)
  then show ?case by (simp add: communicator_to_handle_def)
next
  case (4 r)
  then show ?case by (simp add: comm_ok_def)
next
  case (5 r new ef x p r')
  obtain crank junk h c where x: "x = (crank, junk, h, c)" by (cases x)
  with 5(3) obtain e where a: "add_communicator ef crank new junk False h c r = Some (e, Some p, r')"
    by (auto simp: create_communicator_def)
  with add_communicator_out have e: "e = EMPI_SUCCESS" by blast
  from a show ?case unfolding e add_communicator_success by auto
next
  case (6 r new ef x p r')
  then show ?case by (cases x) (auto simp: create_communicator_def intro: comm_ok_add)
next
  case (7 r new ef x r')
  then show ?case by (cases x) (auto simp: create_communicator_def dest: add_communicator_out)
next
  case (8 r h p ef)
  then show ?case by (auto simp: free_communicator_slot comm_ok_free)
next
  case (9 r new ef x p r' h)
  then show ?case by simp
qed

section \<open>The layout of the processes\<close>

text \<open>The specification: cluster after cluster, in each the processes in order.\<close>

definition cluster_offsets_of :: "nat list \<Rightarrow> int list" where
  "cluster_offsets_of sizes = map (\<lambda>k. int (sum_list (take k sizes))) [0 ..< Suc (length sizes)]"

definition cluster_layout :: "nat list \<Rightarrow> (int \<times> int) list" where
  "cluster_layout sizes =
     concat (map (\<lambda>c. map (\<lambda>p. (int c, int p)) [0 ..< sizes ! c]) [0 ..< length sizes])"

lemma offsets_read:
  assumes "k \<le> length sizes"
  shows "arr_read (cluster_offsets_of sizes) (int k) = Some (int (sum_list (take k sizes)))"
proof -
  have "k < length (cluster_offsets_of sizes)" using assms by (simp add: cluster_offsets_of_def)
  moreover have "cluster_offsets_of sizes ! k = int (sum_list (take k sizes))"
    unfolding cluster_offsets_of_def using assms by (subst nth_map) (simp_all del: upt_Suc)
  ultimately show ?thesis by simp
qed

lemma sum_take_Suc:
  "c < length sizes \<Longrightarrow> sum_list (take (Suc c) sizes) = sum_list (take c sizes) + (sizes ! c :: nat)"
  by (simp add: take_Suc_conv_app_nth)

lemma layout_in_cluster:
  assumes "c < length sizes" "p \<le> sizes ! c"
    and "layout_loop (cluster_offsets_of sizes) n (int (sum_list (take (Suc c) sizes))) (int c) (int (sizes ! c)) = Some rest"
  shows "layout_loop (cluster_offsets_of sizes) (sizes ! c - p + n) (int (sum_list (take c sizes) + p)) (int c) (int p) =
     Some (map (\<lambda>p. (int c, int p)) [p ..< sizes ! c] @ rest)"
  using assms(2)
proof (induction "sizes ! c - p" arbitrary: p)
  case 0
  then show ?case using assms(1,3) by (simp add: sum_take_Suc)
next
  case (Suc d)
  then have p: "p < sizes ! c" by simp
  have "arr_read (cluster_offsets_of sizes) (int c + 1) = Some (int (sum_list (take (Suc c) sizes)))"
    using offsets_read [of "Suc c" sizes] assms(1) by (simp add: add.commute)
  moreover have "sizes ! c - p = Suc (sizes ! c - Suc p)" using p by simp
  moreover from Suc.hyps(1) [of "Suc p"] Suc.hyps(2) p
  have "layout_loop (cluster_offsets_of sizes) (sizes ! c - Suc p + n)
      (int (sum_list (take c sizes) + Suc p)) (int c) (int (Suc p)) =
     Some (map (\<lambda>p. (int c, int p)) [Suc p ..< sizes ! c] @ rest)" by simp
  moreover have "[p ..< sizes ! c] = p # [Suc p ..< sizes ! c]" using p by (rule upt_conv_Cons)
  ultimately show ?case
    using p assms(1) by (simp add: sum_take_Suc add.commute add.left_commute)
qed

text \<open>At the end of a cluster the loop moves to the next one; the clusters must not be empty.\<close>

lemma layout_next_cluster:
  assumes "Suc c < length sizes" "0 < sizes ! Suc c"
  shows "layout_loop (cluster_offsets_of sizes) n (int (sum_list (take (Suc c) sizes))) (int c) q =
    layout_loop (cluster_offsets_of sizes) n (int (sum_list (take (Suc c) sizes))) (int (Suc c)) 0"
proof (cases n)
  case (Suc m)
  have "arr_read (cluster_offsets_of sizes) (int c + 1) = Some (int (sum_list (take (Suc c) sizes)))"
    using offsets_read [of "Suc c" sizes] assms(1) by (simp add: add.commute)
  moreover have "arr_read (cluster_offsets_of sizes) (int (Suc c) + 1) = Some (int (sum_list (take (Suc (Suc c)) sizes)))"
    using offsets_read [of "Suc (Suc c)" sizes] assms(1) by (simp add: add.commute)
  ultimately show ?thesis
    using Suc assms sum_take_Suc [of "Suc c" sizes] by (simp add: add.commute)
qed simp

lemma layout_from_cluster:
  assumes "\<forall>k < length sizes. 0 < sizes ! k" "c < length sizes"
  shows "layout_loop (cluster_offsets_of sizes) (sum_list (drop c sizes)) (int (sum_list (take c sizes))) (int c) 0 =
     Some (concat (map (\<lambda>c. map (\<lambda>p. (int c, int p)) [0 ..< sizes ! c]) [c ..< length sizes]))"
  using assms(2)
proof (induction "length sizes - c" arbitrary: c)
  case 0
  then show ?case by simp
next
  case (Suc d)
  let ?rest = "concat (map (\<lambda>c. map (\<lambda>p. (int c, int p)) [0 ..< sizes ! c]) [Suc c ..< length sizes])"
  have drop: "drop c sizes = sizes ! c # drop (Suc c) sizes"
    using Suc.prems by (simp add: Cons_nth_drop_Suc)
  have "layout_loop (cluster_offsets_of sizes) (sum_list (drop (Suc c) sizes))
      (int (sum_list (take (Suc c) sizes))) (int c) (int (sizes ! c)) = Some ?rest"
  proof (cases "Suc c < length sizes")
    case True
    then show ?thesis
      using Suc.hyps(1) [of "Suc c"] Suc.hyps(2) layout_next_cluster [OF True] assms(1) by simp
  next
    case False
    then show ?thesis using Suc.prems by simp
  qed
  then have "layout_loop (cluster_offsets_of sizes) (sizes ! c - 0 + sum_list (drop (Suc c) sizes))
      (int (sum_list (take c sizes) + 0)) (int c) (int 0) =
     Some (map (\<lambda>p. (int c, int p)) [0 ..< sizes ! c] @ ?rest)"
    using Suc.prems by (intro layout_in_cluster) auto
  moreover have "[c ..< length sizes] = c # [Suc c ..< length sizes]"
    using Suc.prems by (rule upt_conv_Cons)
  ultimately show ?case using drop by simp
qed

lemma layout_loop_spec:
  assumes "\<forall>k < length sizes. 0 < sizes ! k" "sizes \<noteq> []"
  shows "layout_loop (cluster_offsets_of sizes) (sum_list sizes) 0 0 0 = Some (cluster_layout sizes)"
  using layout_from_cluster [of sizes 0] assms by (simp add: cluster_layout_def)

lemma layout_prefix_length:
  "c \<le> length sizes \<Longrightarrow>
     length (concat (map (\<lambda>c. map (\<lambda>p. (int c, int p)) [0 ..< sizes ! c]) [0 ..< c])) = sum_list (take c sizes)"
proof (induction c)
  case (Suc c)
  then show ?case by (simp add: sum_take_Suc)
qed simp

lemma layout_length: "length (cluster_layout sizes) = sum_list sizes"
  using layout_prefix_length [of "length sizes" sizes] by (simp add: cluster_layout_def)

lemma layout_nth:
  assumes "c < length sizes" "p < sizes ! c"
  shows "cluster_layout sizes ! (sum_list (take c sizes) + p) = (int c, int p)"
    "sum_list (take c sizes) + p < sum_list sizes"
proof -
  let ?f = "\<lambda>c. map (\<lambda>p. (int c, int p)) [0 ..< sizes ! c]"
  have "[0 ..< length sizes] = [0 ..< c] @ c # [Suc c ..< length sizes]"
    using assms(1) by (metis le0 less_imp_le_nat upt_add_eq_append upt_conv_Cons add_diff_inverse_nat not_less)
  then have split: "cluster_layout sizes =
      concat (map ?f [0 ..< c]) @ ?f c @ concat (map ?f [Suc c ..< length sizes])"
    by (simp add: cluster_layout_def)
  have len: "length (concat (map ?f [0 ..< c])) = sum_list (take c sizes)"
    using assms(1) by (intro layout_prefix_length) simp
  show "cluster_layout sizes ! (sum_list (take c sizes) + p) = (int c, int p)"
    unfolding split using assms(2) len by (auto simp: nth_append)
  have "sum_list (take c sizes) + p < length (cluster_layout sizes)"
    unfolding split using assms(2) len by simp
  then show "sum_list (take c sizes) + p < sum_list sizes" by (simp add: layout_length)
qed

lemma layout_elem:
  "x \<in> set (cluster_layout sizes) \<Longrightarrow>
     0 \<le> fst x \<and> fst x < int (length sizes) \<and> 0 \<le> snd x \<and> snd x < int (sizes ! nat (fst x))"
  by (auto simp: cluster_layout_def)

lemma layout_distinct: "distinct (cluster_layout sizes)"
proof -
  have "distinct (concat (map (\<lambda>c. map (\<lambda>p. (int c, int p)) [0 ..< sizes ! c]) [a ..< b]))" for a b
  proof (induction "b - a" arbitrary: a)
    case (Suc d)
    then have "[a ..< b] = a # [Suc a ..< b]" by (simp add: upt_conv_Cons)
    with Suc.hyps(1) [of "Suc a"] Suc.hyps(2) show ?case
      by (auto simp: distinct_map inj_on_def)
  qed simp
  then show ?thesis by (simp add: cluster_layout_def)
qed

section \<open>Rank translation\<close>

text \<open>
  A communicator as the processes of cluster \<open>crank\<close> should hold it: the three arrays have one
  entry per member, no two members share their cluster and local rank, the cluster index of a
  member leads to the cluster its process id names, and the calling process is a member in
  cluster \<open>crank\<close>.
\<close>

definition comm_wf :: "u32 \<Rightarrow> communicator \<Rightarrow> bool" where
  "comm_wf crank c \<longleftrightarrow>
     0 \<le> c_global_rank c \<and> c_global_rank c < c_global_size c \<and>
     int (length (c_members c)) = c_global_size c \<and>
     int (length (c_member_cluster_index c)) = c_global_size c \<and>
     int (length (c_local_ranks c)) = c_global_size c \<and>
     distinct (zip (c_member_cluster_index c) (c_local_ranks c)) \<and>
     distinct (map word_of_int (c_cluster_ranks c) :: u32 list) \<and>
     (\<forall>i < length (c_members c).
        unat (c_member_cluster_index c ! i) < length (c_cluster_ranks c) \<and>
        word_of_int (c_cluster_ranks c ! unat (c_member_cluster_index c ! i))
          = GET_CLUSTER_RANK (c_members c ! i)) \<and>
     GET_CLUSTER_RANK (c_members c ! nat (c_global_rank c)) = crank"

lemma global_rank_loop_found:
  assumes "length (c_member_cluster_index c) = k + n" "length (c_local_ranks c) = k + n"
    and "k \<le> i0" "i0 < k + n"
    and "c_member_cluster_index c ! i0 = cindex" "c_local_ranks c ! i0 = word_of_int l"
    and "\<And>i. k \<le> i \<Longrightarrow> i < i0 \<Longrightarrow>
           \<not> (c_member_cluster_index c ! i = cindex \<and> c_local_ranks c ! i = word_of_int l)"
  shows "global_rank_loop c cindex l n (int k) = Some (Some (int i0))"
  using assms
proof (induction n arbitrary: k)
  case (Suc n)
  have reads: "arr_read (c_member_cluster_index c) (int k) = Some (c_member_cluster_index c ! k)"
    "arr_read (c_local_ranks c) (int k) = Some (c_local_ranks c ! k)"
    using Suc.prems(1,2) by simp_all
  show ?case
  proof (cases "i0 = k")
    case True
    with Suc.prems reads show ?thesis by simp
  next
    case False
    with Suc.prems(3) have "k < i0" by simp
    with Suc.prems have "global_rank_loop c cindex l n (int (Suc k)) = Some (Some (int i0))"
      by (intro Suc.IH) auto
    with Suc.prems(7) [of k] \<open>k < i0\<close> reads show ?thesis by (auto simp: add.commute)
  qed
qed simp

lemma global_rank_loop_sound:
  "global_rank_loop c cindex l n (int k) = Some (Some g) \<Longrightarrow>
     \<exists>i. g = int i \<and> k \<le> i \<and> i < k + n \<and> i < length (c_member_cluster_index c) \<and> i < length (c_local_ranks c) \<and>
       c_member_cluster_index c ! i = cindex \<and> c_local_ranks c ! i = word_of_int l"
proof (induction n arbitrary: k)
  case (Suc n)
  have IH: "\<exists>i. g = int i \<and> Suc k \<le> i \<and> i < Suc k + n \<and> i < length (c_member_cluster_index c) \<and>
       i < length (c_local_ranks c) \<and>
       c_member_cluster_index c ! i = cindex \<and> c_local_ranks c ! i = word_of_int l"
    if "global_rank_loop c cindex l n (int k + 1) = Some (Some g)"
    using Suc.IH [of "Suc k"] that by (simp add: add.commute)
  from Suc.prems obtain x where x: "arr_read (c_member_cluster_index c) (int k) = Some x"
    by (auto simp: bind_eq_Some_conv)
  show ?case
  proof (cases "x = cindex")
    case True
    with Suc.prems x obtain y where y: "arr_read (c_local_ranks c) (int k) = Some y"
      by (auto simp: bind_eq_Some_conv)
    show ?thesis
    proof (cases "y = word_of_int l")
      case True
      with \<open>x = cindex\<close> Suc.prems x y show ?thesis
        by (intro exI [of _ k]) (auto simp: arr_read_Some_iff)
    next
      case False
      with \<open>x = cindex\<close> Suc.prems x y have "global_rank_loop c cindex l n (int k + 1) = Some (Some g)"
        by simp
      from IH [OF this] show ?thesis by auto
    qed
  next
    case False
    with Suc.prems x have "global_rank_loop c cindex l n (int k + 1) = Some (Some g)" by simp
    from IH [OF this] show ?thesis by auto
  qed
qed simp

text \<open>The pair of cluster index and local rank identifies a member.\<close>

lemma comm_wf_unique:
  assumes "comm_wf crank c" "i < length (c_members c)" "j < length (c_members c)"
    and "c_member_cluster_index c ! i = c_member_cluster_index c ! j"
    and "c_local_ranks c ! i = c_local_ranks c ! j"
  shows "i = j"
proof -
  let ?z = "zip (c_member_cluster_index c) (c_local_ranks c)"
  from assms(1) have d: "distinct ?z" and len: "length ?z = length (c_members c)"
    and "length (c_member_cluster_index c) = length (c_members c)"
    "length (c_local_ranks c) = length (c_members c)"
    by (auto simp: comm_wf_def)
  with assms have "?z ! i = ?z ! j" by simp
  moreover have "i < length ?z" "j < length ?z" using assms(2,3) by (simp_all only: len)
  ultimately show ?thesis using nth_eq_iff_index_eq [OF d] by blast
qed

text \<open>A member is local exactly when it has the cluster index of the calling process.\<close>

lemma rank_is_local_index:
  assumes wf: "comm_wf crank c" and r: "0 \<le> r" "r < c_global_size c"
  shows "rank_is_local crank c r = Some (c_member_cluster_index c ! nat r =
     c_member_cluster_index c ! nat (c_global_rank c))"
proof -
  let ?g = "nat (c_global_rank c)" and ?m = "c_member_cluster_index c"
  let ?w = "map word_of_int (c_cluster_ranks c) :: u32 list"
  have bounds: "nat r < length (c_members c)" "?g < length (c_members c)"
    using wf r by (auto simp: comm_wf_def)
  then have in_ranks: "unat (?m ! nat r) < length ?w" "unat (?m ! ?g) < length ?w"
    and cluster: "?w ! unat (?m ! nat r) = GET_CLUSTER_RANK (c_members c ! nat r)"
    "?w ! unat (?m ! ?g) = GET_CLUSTER_RANK (c_members c ! ?g)"
    using wf by (auto simp: comm_wf_def)
  moreover have "distinct ?w" "GET_CLUSTER_RANK (c_members c ! ?g) = crank"
    using wf by (simp_all add: comm_wf_def)
  ultimately have "GET_CLUSTER_RANK (c_members c ! nat r) = crank \<longleftrightarrow> unat (?m ! nat r) = unat (?m ! ?g)"
    using nth_eq_iff_index_eq by metis
  moreover have "arr_read (c_members c) r = Some (c_members c ! nat r)"
    using r(1) bounds by (auto simp: arr_read_def)
  ultimately show ?thesis by (simp add: rank_is_local_def word_unat_eq_iff)
qed

text \<open>Translating a local member's rank to the cluster and back.\<close>

lemma local_global_roundtrip:
  assumes wf: "comm_wf crank c" and r: "0 \<le> r" "r < c_global_size c"
    and loc: "rank_is_local crank c r = Some True"
  shows "\<exists>l. get_local_rank c r = Some l \<and> get_global_rank c k l = Some r"
proof -
  let ?g = "nat (c_global_rank c)" and ?m = "c_member_cluster_index c"
  from loc rank_is_local_index [OF wf r] have same: "?m ! nat r = ?m ! ?g" by simp
  from wf have len: "length (c_members c) = nat (c_global_size c)"
    "length ?m = nat (c_global_size c)" "length (c_local_ranks c) = nat (c_global_size c)"
    "0 \<le> c_global_rank c" "c_global_rank c < c_global_size c"
    by (auto simp: comm_wf_def)
  let ?l = "sint (c_local_ranks c ! nat r)"
  have "get_local_rank c r = Some ?l"
    using r len by (simp add: get_local_rank_def arr_read_def)
  moreover have "arr_read ?m (c_global_rank c) = Some (?m ! ?g)"
    using len by (simp add: arr_read_def)
  moreover have "global_rank_loop c (?m ! ?g) ?l (nat (c_global_size c)) (int 0) = Some (Some (int (nat r)))"
  proof (rule global_rank_loop_found)
    fix i assume "0 \<le> i" "i < nat r"
    with comm_wf_unique [OF wf, of i "nat r"] same len r
    show "\<not> (?m ! i = ?m ! ?g \<and> c_local_ranks c ! i = word_of_int ?l)" by auto
  qed (use len r same in auto)
  ultimately show ?thesis using r by (auto simp: get_global_rank_def)
qed

text \<open>What \<open>get_global_rank\<close> returns is a local member with the local rank asked for.\<close>

lemma get_global_rank_sound:
  assumes wf: "comm_wf crank c" and res: "get_global_rank c k l = Some g"
  shows "0 \<le> g" "g < c_global_size c" "rank_is_local crank c g = Some True"
    "c_local_ranks c ! nat g = word_of_int l"
proof -
  let ?m = "c_member_cluster_index c"
  from res obtain cindex where cindex: "arr_read ?m (c_global_rank c) = Some cindex"
    and "global_rank_loop c cindex l (nat (c_global_size c)) (int 0) = Some (Some g)"
    by (auto simp: get_global_rank_def bind_eq_Some_conv split: option.splits)
  from global_rank_loop_sound [OF this(2)] obtain i where
    i: "g = int i" "i < nat (c_global_size c)" "?m ! i = cindex" "c_local_ranks c ! i = word_of_int l"
    by auto
  then show g: "0 \<le> g" "g < c_global_size c" and "c_local_ranks c ! nat g = word_of_int l" by auto
  have "?m ! nat (c_global_rank c) = cindex" using cindex by (auto simp: arr_read_Some_iff)
  with i rank_is_local_index [OF wf g] show "rank_is_local crank c g = Some True" by simp
qed

section \<open>The world communicator\<close>

lemma find_coordinator_unique:
  assumes "length ranks = k + n" "length coords = k + n" "j < k + n"
    and "\<And>i. i < k + n \<Longrightarrow> (word_of_int (ranks ! i) = crank) = (i = j)"
  shows "find_coordinator crank ranks coords n (int k) found =
     Some (if k \<le> j then coords ! j else found)"
  using assms
proof (induction n arbitrary: k found)
  case (Suc n)
  have reads: "arr_read ranks (int k) = Some (ranks ! k)" "arr_read coords (int k) = Some (coords ! k)"
    using Suc.prems(1,2) by simp_all
  let ?found = "if k = j then coords ! k else found"
  have "find_coordinator crank ranks coords n (int (Suc k)) ?found =
      Some (if Suc k \<le> j then coords ! j else ?found)"
    using Suc.prems by (intro Suc.IH) auto
  then show ?case using reads Suc.prems(4) [of k] by (auto simp: add.commute)
qed auto

lemma word_of_int_eq_iff_small:
  "0 \<le> a \<Longrightarrow> a < 2 ^ 32 \<Longrightarrow> 0 \<le> b \<Longrightarrow> b < 2 ^ 32 \<Longrightarrow> (word_of_int a = (word_of_int b :: u32)) = (a = b)"
  by (simp add: word_of_int_eq_iff take_bit_int_eq_self)

lemma unat_word_of_int_small:
  "0 \<le> a \<Longrightarrow> a < 2 ^ 32 \<Longrightarrow> unat (word_of_int a :: u32) = nat a"
  by (simp add: unat_eq_nat_uint uint_word_of_int take_bit_int_eq_self)

lemma cluster_of_pid_small:
  "0 \<le> c \<Longrightarrow> c < 256 \<Longrightarrow> GET_CLUSTER_RANK (SET_PID (word_of_int c) p) = word_of_int c"
  by (rule word_uint_eqI) (simp add: cluster_of_SET_PID unsigned_take_bit_eq uint_word_of_int take_bit_int_eq_self)

lemma cluster_of_pid_nat:
  "c < 256 \<Longrightarrow> GET_CLUSTER_RANK (SET_PID (word_of_nat c) p) = word_of_nat c"
  using cluster_of_pid_small [of "int c"] by simp

text \<open>The cluster sizes the handshake with the server admits, and the ranks that fit them.\<close>

definition valid_sizes :: "nat list \<Rightarrow> nat \<Rightarrow> nat \<Rightarrow> bool" where
  "valid_sizes sizes crank rank \<longleftrightarrow>
     crank < length sizes \<and> length sizes < MAX_CLUSTERS \<and> rank < sizes ! crank \<and>
     (\<forall>s \<in> set sizes. 0 < s \<and> s < MAX_PROCESSES_PER_CLUSTER) \<and> sum_list sizes < 2 ^ 31"

definition world_of :: "nat list \<Rightarrow> nat \<Rightarrow> nat \<Rightarrow> int \<Rightarrow> nat option \<Rightarrow> communicator" where
  "world_of sizes crank rank sz world =
     world_communicator world (int rank) sz (int (sum_list (take crank sizes) + rank)) (int (sum_list sizes))
       (int (length sizes)) (map int sizes) (butlast (cluster_offsets_of sizes)) (cluster_layout sizes)"

lemma coordinators_copied:
  "arr_fill (arr_read (cluster_offsets_of sizes)) (length sizes) 0 (replicate (length sizes) 0) =
     Some (butlast (cluster_offsets_of sizes))"
proof -
  have "arr_fill (arr_read (cluster_offsets_of sizes)) (length sizes) 0 (replicate (length sizes) 0) =
     Some (map (\<lambda>k. int (sum_list (take k sizes))) [0 ..< length sizes])"
    by (rule arr_fill_all) (simp_all add: offsets_read)
  then show ?thesis by (simp add: cluster_offsets_of_def)
qed

lemma world_member:
  fixes sz :: int and world :: "nat option"
  assumes "valid_sizes sizes crank rank" "c < length sizes" "p < sizes ! c"
  defines "w \<equiv> world_of sizes crank rank sz world" and "i \<equiv> sum_list (take c sizes) + p"
  shows "i < length (c_members w)" "c_members w ! i = SET_PID (word_of_int (int c)) (word_of_int (int p))"
    "c_member_cluster_index w ! i = word_of_int (int c)" "c_local_ranks w ! i = word_of_int (int p)"
  using layout_nth [OF assms(2,3)]
  by (simp_all add: w_def i_def world_of_def world_communicator_def layout_length)

lemma layout_small:
  assumes "valid_sizes sizes crank rank" "x \<in> set (cluster_layout sizes)"
  shows "0 \<le> fst x" "fst x < 256" "fst x < int (length sizes)" "0 \<le> snd x" "snd x < 2 ^ 24"
proof -
  from layout_elem [OF assms(2)] have x: "0 \<le> fst x" "fst x < int (length sizes)" "0 \<le> snd x"
    "snd x < int (sizes ! nat (fst x))" by auto
  then have "sizes ! nat (fst x) \<in> set sizes" by simp
  with assms(1) have "sizes ! nat (fst x) < 2 ^ 24"
    by (auto simp: valid_sizes_def MAX_PROCESSES_PER_CLUSTER_def)
  with x assms(1) show "0 \<le> fst x" "fst x < 256" "fst x < int (length sizes)" "0 \<le> snd x" "snd x < 2 ^ 24"
    by (auto simp: valid_sizes_def MAX_CLUSTERS_def)
qed

lemma world_wf:
  assumes v: "valid_sizes sizes crank rank"
  shows "comm_wf (word_of_int (int crank)) (world_of sizes crank rank sz world)" (is "comm_wf _ ?w")
proof -
  let ?lay = "cluster_layout sizes" and ?n = "length sizes"
  let ?wi = "\<lambda>(c, p). (word_of_int c :: u32, word_of_int p :: u32)"
  from v have crank: "crank < ?n" "rank < sizes ! crank" "?n < 256"
    by (auto simp: valid_sizes_def MAX_CLUSTERS_def)
  have zip: "zip (c_member_cluster_index ?w) (c_local_ranks ?w) = map ?wi ?lay"
    by (simp add: world_of_def world_communicator_def zip_map_map zip_same_conv_map split_def comp_def)
  have "inj_on ?wi (set ?lay)"
  proof (rule inj_onI)
    fix x y assume xy: "x \<in> set ?lay" "y \<in> set ?lay" "?wi x = ?wi y"
    note small = layout_small [OF v xy(1)] layout_small [OF v xy(2)]
    from xy(3) small show "x = y"
      by (cases x; cases y) (simp add: word_of_int_eq_iff_small)
  qed
  then have d1: "distinct (zip (c_member_cluster_index ?w) (c_local_ranks ?w))"
    unfolding zip by (simp add: distinct_map layout_distinct)
  have "inj_on (\<lambda>x. word_of_int (int x) :: u32) {0 ..< ?n}"
    using crank(3) word_of_int_eq_iff_small by (intro inj_onI) (simp del: of_int_of_nat_eq)
  then have d2: "distinct (map word_of_int (c_cluster_ranks ?w) :: u32 list)"
    by (simp add: world_of_def world_communicator_def distinct_map comp_def)
  have idx: "unat (c_member_cluster_index ?w ! i) < length (c_cluster_ranks ?w) \<and>
      word_of_int (c_cluster_ranks ?w ! unat (c_member_cluster_index ?w ! i)) =
        GET_CLUSTER_RANK (c_members ?w ! i)" if "i < length (c_members ?w)" for i
  proof -
    have i: "i < length ?lay" using that by (simp add: world_of_def world_communicator_def)
    obtain c p where cp: "?lay ! i = (c, p)" by (cases "?lay ! i")
    from i cp have "(c, p) \<in> set ?lay" by (metis nth_mem)
    from layout_small [OF v this] have c: "0 \<le> c" "c < 256" "c < int ?n" by simp_all
    then show ?thesis using i cp
      by (simp add: world_of_def world_communicator_def unat_word_of_int_small cluster_of_pid_small)
  qed
  have "GET_CLUSTER_RANK (c_members ?w ! nat (c_global_rank ?w)) = word_of_int (int crank)"
    using world_member(2) [OF v crank(1,2)] crank
    by (simp add: world_of_def world_communicator_def cluster_of_pid_nat nat_add_distrib)
  moreover have "0 \<le> c_global_rank ?w" "c_global_rank ?w < c_global_size ?w"
    using layout_nth(2) [OF crank(1,2)] by (simp_all add: world_of_def world_communicator_def)
  moreover have "int (length (c_members ?w)) = c_global_size ?w"
    "int (length (c_member_cluster_index ?w)) = c_global_size ?w"
    "int (length (c_local_ranks ?w)) = c_global_size ?w"
    by (simp_all add: world_of_def world_communicator_def layout_length)
  ultimately show ?thesis using d1 d2 idx unfolding comm_wf_def by blast
qed

lemma world_wf_fields [simp]:
  "comm_wf crank (c\<lparr>c_handle := h, c_my_coordinator := k, c_queue := q\<rparr>) = comm_wf crank c"
  by (simp add: comm_wf_def)

text \<open>
  With valid sizes and enough memory the initialisation succeeds whatever the build option:
  slots 0, 1 and 2 hold the three predefined communicators, and the coordinator of the own
  cluster is its first process. The field \<open>my_coordinator\<close> of \<^verbatim>\<open>EMPI_COMM_SELF\<close> is set
  in cluster 0 only.
\<close>

definition world_regs :: "nat list \<Rightarrow> nat \<Rightarrow> nat \<Rightarrow> int \<Rightarrow> nat option \<Rightarrow> u32 \<Rightarrow> (nat \<Rightarrow> int)
    \<Rightarrow> addr \<Rightarrow> addr \<Rightarrow> addr \<Rightarrow> comm_reg \<Rightarrow> comm_reg" where
  "world_regs sizes crank rank sz world my_pid junk p0 p1 p2 r0 =
     r0\<lparr>heap := (heap r0)
          (p0 \<mapsto> (world_of sizes crank rank sz world)
             \<lparr>c_my_coordinator := int (sum_list (take crank sizes))\<rparr>,
           p1 \<mapsto> (self_communicator my_pid (map int [0 ..< length sizes]))
             \<lparr>c_my_coordinator := (if crank = 0 then 0 else junk 1)\<rparr>,
           p2 \<mapsto> null_communicator),
        slots := [0 \<mapsto> p0, 1 \<mapsto> p1, 2 \<mapsto> p2]\<rparr>"

lemma world_coordinator:
  assumes v: "valid_sizes sizes crank rank"
  shows "find_coordinator (word_of_int (int crank)) (map int [0 ..< length sizes])
     (butlast (cluster_offsets_of sizes)) (length sizes) 0 junk =
     Some (int (sum_list (take crank sizes)))"
proof -
  from v have crank: "crank < length sizes" "length sizes < 256"
    by (auto simp: valid_sizes_def MAX_CLUSTERS_def)
  have "find_coordinator (word_of_int (int crank)) (map int [0 ..< length sizes])
     (butlast (cluster_offsets_of sizes)) (length sizes) (int 0) junk =
     Some (if 0 \<le> crank then butlast (cluster_offsets_of sizes) ! crank else junk)"
    by (rule find_coordinator_unique)
      (use crank word_of_int_eq_iff_small in
        \<open>auto simp: cluster_offsets_of_def simp del: of_int_of_nat_eq upt_Suc\<close>)
  moreover have "butlast (cluster_offsets_of sizes) ! crank = int (sum_list (take crank sizes))"
    using crank by (simp add: cluster_offsets_of_def)
  ultimately show ?thesis by simp
qed

lemma init_communicators_world:
  assumes v: "valid_sizes sizes crank rank" and p: "p0 \<noteq> p1" "p0 \<noteq> p2" "p1 \<noteq> p2"
  shows "init_communicators ef (\<lambda>i. True) (Some p0) (Some p1) (Some p2) junk my_pid (int rank) sz world
     (int crank) (int (length sizes)) (map int sizes) (cluster_offsets_of sizes) r0 =
     Some (EMPI_SUCCESS, world_regs sizes crank rank sz world my_pid junk p0 p1 p2 r0)"
proof -
  let ?off = "cluster_offsets_of sizes"
  let ?w = "world_of sizes crank rank sz world"
  let ?r = "r0\<lparr>slots := \<lambda>i. None\<rparr>"
  from v have crank: "crank < length sizes" "length sizes < 256" "sizes \<noteq> []"
    "\<forall>k < length sizes. 0 < sizes ! k"
    by (auto simp: valid_sizes_def MAX_CLUSTERS_def)
  have reads: "arr_read ?off (int crank) = Some (int (sum_list (take crank sizes)))"
    "arr_read ?off (int (length sizes)) = Some (int (sum_list sizes))"
    using offsets_read [of crank sizes] offsets_read [of "length sizes" sizes] crank by simp_all
  let ?r1 = "r0\<lparr>heap := (heap r0)(p0 \<mapsto>
       ?w\<lparr>c_my_coordinator := int (sum_list (take crank sizes))\<rparr>), slots := [0 \<mapsto> p0]\<rparr>"
  let ?s = "self_communicator my_pid (map int [0 ..< length sizes])"
  let ?r2 = "r0\<lparr>heap := (heap r0)(p0 \<mapsto> ?w\<lparr>c_my_coordinator := int (sum_list (take crank sizes))\<rparr>,
       p1 \<mapsto> ?s\<lparr>c_my_coordinator := (if crank = 0 then 0 else junk 1)\<rparr>),
       slots := [0 \<mapsto> p0, 1 \<mapsto> p1]\<rparr>"
  have a1: "add_communicator ef (word_of_int (int crank)) (Some p0) (junk 0) True EMPI_COMM_WORLD ?w ?r =
     Some (EMPI_SUCCESS, Some p0, ?r1)"
    unfolding add_communicator_success
    using crank world_coordinator [OF v, of "junk 0"]
    by (simp add: MAX_COMMUNICATORS_def world_of_def world_communicator_def del: of_int_of_nat_eq)
  have "(0 :: u32) = word_of_int (int crank) \<longleftrightarrow> crank = 0"
    using word_of_int_eq_iff_small [of 0 "int crank"] crank by (auto simp del: of_int_of_nat_eq)
  then have a2: "add_communicator ef (word_of_int (int crank)) (Some p1) (junk 1) True EMPI_COMM_SELF ?s ?r1 =
     Some (EMPI_SUCCESS, Some p1, ?r2)"
    unfolding add_communicator_success
    using crank by (cases sizes)
      (simp_all add: MAX_COMMUNICATORS_def self_communicator_def arr_read_def upt_rec [of 0] del: of_int_of_nat_eq upt_Suc)
  have a3: "add_communicator ef (word_of_int (int crank)) (Some p2) (junk 2) True EMPI_COMM_NULL null_communicator ?r2 =
     Some (EMPI_SUCCESS, Some p2, world_regs sizes crank rank sz world my_pid junk p0 p1 p2 r0)"
    unfolding add_communicator_success
    by (simp add: MAX_COMMUNICATORS_def null_communicator_def world_regs_def)
  have w: "world_communicator world (int rank) sz (int (sum_list (take crank sizes)) + int rank)
      (int (sum_list sizes)) (int (length sizes)) (map int sizes) (butlast ?off) (cluster_layout sizes) = ?w"
    by (simp add: world_of_def)
  have ranks: "c_cluster_ranks ?w = map int [0 ..< length sizes]"
    by (simp add: world_of_def world_communicator_def)
  show ?thesis
    unfolding init_communicators_def
    by (simp add: reads coordinators_copied layout_loop_spec [OF crank(4,3)] w a1 ranks a2 a3
        del: of_int_of_nat_eq One_nat_def)
qed

text \<open>The registry it leaves is well formed, and so is the world communicator in it.\<close>

lemma world_regs_ok:
  assumes "valid_sizes sizes crank rank" "p0 \<noteq> p1" "p0 \<noteq> p2" "p1 \<noteq> p2"
  shows "comm_ok (world_regs sizes crank rank sz world my_pid junk p0 p1 p2 r0)"
  using assms(2-) unfolding comm_ok_def reg_inv_def
  by (auto simp: world_regs_def world_of_def world_communicator_def self_communicator_def
      null_communicator_def MAX_COMMUNICATORS_def split: if_splits)

end
