(* ===== verification/Messaging.thy ===== *)
theory Messaging
  imports Communicators Requests Datatypes
begin

text \<open>
  Sending and receiving data messages, the first half of \<^verbatim>\<open>src/backend/messaging.c\<close>, and the
  status object, \<^verbatim>\<open>src/backend/status.c\<close>. A process keeps no connection of its own: it hands
  an outgoing message to a gateway process and gets the incoming ones from the gateways, in the
  order in which they come. A message that is not the one a receive asked for is stored in the
  queue of its communicator, where later receives look first.

  The calls into the local MPI library are arguments: what one probe and the receive after it
  return is an \<open>mpi_probe\<close>, and the remaining arrivals are a list of them; packing and
  unpacking of application data are functions.
\<close>

section \<open>Status\<close>

record status =
  st_source :: int
  st_tag :: int
  st_error :: int
  st_count :: int
  st_cancelled :: int
  st_type :: int

text \<open>\<open>None\<close> is \<^verbatim>\<open>EMPI_STATUS_IGNORE\<close>.\<close>

definition set_status ::
  "status option \<Rightarrow> int \<Rightarrow> int \<Rightarrow> int \<Rightarrow> datatype_s option \<Rightarrow> int \<Rightarrow> int \<Rightarrow> status option run" where
  "set_status s source tag error typ count cancelled =
     (case s of
        None \<Rightarrow> Some None
      | Some st \<Rightarrow> do {
          t \<leftarrow> typ;
          Some (Some \<lparr>st_source = source, st_tag = tag, st_error = error, st_count = count,
                      st_cancelled = cancelled, st_type = dt_handle t\<rparr>)
        })"

definition clear_status :: "status option \<Rightarrow> status option" where
  "clear_status s = map_option (\<lambda>st. \<lparr>st_source = EMPI_ANY_SOURCE, st_tag = EMPI_ANY_TAG,
     st_error = EMPI_SUCCESS, st_count = 0, st_cancelled = 0, st_type = EMPI_DATATYPE_NULL\<rparr>) s"

definition set_status_error ::
  "status option \<Rightarrow> int \<Rightarrow> int \<Rightarrow> int \<Rightarrow> datatype_s option \<Rightarrow> status option run" where
  "set_status_error s source tag error typ = set_status s source tag error typ 0 0"

definition set_status_count :: "status option \<Rightarrow> datatype_s option \<Rightarrow> int \<Rightarrow> status option" where
  "set_status_count s typ count = map_option (\<lambda>st. st
     \<lparr>st_type := (case typ of Some t \<Rightarrow> dt_handle t | None \<Rightarrow> EMPI_DATATYPE_NULL), st_count := count\<rparr>) s"

definition set_status_cancelled :: "status option \<Rightarrow> int \<Rightarrow> status option" where
  "set_status_cancelled s flag = map_option (\<lambda>st. st\<lparr>st_cancelled := flag\<rparr>) s"

section \<open>Sending\<close>

text \<open>
  What packing the data and sending the message returned; \<open>mp_alloc\<close>: the message could be
  allocated. \<open>mp_data\<close> fills the number of bytes that \<^verbatim>\<open>PMPI_Pack_size\<close> asked for.
\<close>

record mpi_pack =
  mp_size_error :: int
  mp_alloc :: bool
  mp_pack_error :: int
  mp_data :: "byte list"
  mp_send_error :: int

text \<open>The result is the error code and the message handed to the gateway \<open>my_gateway\<close>, if any.\<close>

definition do_send ::
  "bool \<Rightarrow> u32 \<Rightarrow> int \<Rightarrow> u32 \<Rightarrow> mpi_pack \<Rightarrow> int \<Rightarrow> int \<Rightarrow> int \<Rightarrow> communicator
    \<Rightarrow> (int \<times> (int \<times> data_message) option) run" where
  "do_send ef my_pid my_gateway opc mp count dest tag c =
     (if mp_size_error mp \<noteq> EMPI_SUCCESS then Some (mp_size_error mp, None)
      else do {
        dst \<leftarrow> get_pid c dest;
        mo \<leftarrow> create_data_message ef (mp_alloc mp) my_pid opc dst (c_handle c) (c_global_rank c) dest tag
                count (mp_data mp);
        case mo of
          None \<Rightarrow> ERROR ef (Some (EMPI_ERR_INTERN, None))
        | Some m \<Rightarrow>
            if mp_pack_error mp \<noteq> EMPI_SUCCESS then ERROR ef (Some (mp_pack_error mp, None))
            else if mp_send_error mp \<noteq> EMPI_SUCCESS then ERROR ef (Some (mp_send_error mp, None))
            else Some (mp_send_error mp, Some (my_gateway, m))
      })"

definition messaging_send ::
  "bool \<Rightarrow> u32 \<Rightarrow> int \<Rightarrow> mpi_pack \<Rightarrow> int \<Rightarrow> int \<Rightarrow> int \<Rightarrow> communicator
    \<Rightarrow> (int \<times> (int \<times> data_message) option) run" where
  "messaging_send ef my_pid my_gateway mp count dest tag c =
     do_send ef my_pid my_gateway OPCODE_DATA mp count dest tag c"

text \<open>The loop over the clusters of the whole run, of which \<open>crank\<close> is the own one.\<close>

fun bcast_loop ::
  "bool \<Rightarrow> u32 \<Rightarrow> int \<Rightarrow> int \<Rightarrow> (int \<Rightarrow> mpi_pack) \<Rightarrow> int \<Rightarrow> communicator \<Rightarrow> nat \<Rightarrow> int
    \<Rightarrow> (int \<times> data_message) list \<Rightarrow> (int \<times> (int \<times> data_message) list) run" where
  "bcast_loop ef my_pid my_gateway crank mp count c 0 i sent = Some (EMPI_SUCCESS, sent)"
| "bcast_loop ef my_pid my_gateway crank mp count c (Suc n) i sent =
     (if i \<noteq> crank then do {
        dest \<leftarrow> arr_read (c_coordinators c) i;
        (error, mo) \<leftarrow> do_send ef my_pid my_gateway OPCODE_COLLECTIVE_BCAST (mp i) count dest BCAST_TAG c;
        if error \<noteq> EMPI_SUCCESS then ERROR ef (Some (error, sent))
        else bcast_loop ef my_pid my_gateway crank mp count c n (i + 1)
               (sent @ (case mo of None \<Rightarrow> [] | Some m \<Rightarrow> [m]))
      }
      else bcast_loop ef my_pid my_gateway crank mp count c n (i + 1) sent)"

definition messaging_bcast ::
  "bool \<Rightarrow> u32 \<Rightarrow> int \<Rightarrow> int \<Rightarrow> int \<Rightarrow> (int \<Rightarrow> mpi_pack) \<Rightarrow> int \<Rightarrow> communicator
    \<Rightarrow> (int \<times> (int \<times> data_message) list) run" where
  "messaging_bcast ef my_pid my_gateway cluster_count crank mp count c =
     bcast_loop ef my_pid my_gateway crank mp count c (nat cluster_count) 0 []"

section \<open>Receiving\<close>

text \<open>
  One probe: the error code of the (i)probe, whether a message is there, the error code of
  asking for its size, whether a buffer was allocated, the error code of the receive, the
  message, and whether the queue can allocate a node should the message be stored.
\<close>

record mpi_probe =
  pr_error :: int
  pr_flag :: bool
  pr_count_error :: int
  pr_alloc :: bool
  pr_recv_error :: int
  pr_message :: data_message
  pr_store :: bool

definition probe_mpi_data_message :: "bool \<Rightarrow> mpi_probe \<Rightarrow> bool \<Rightarrow> (int \<times> data_message option) run" where
  "probe_mpi_data_message ef pr blocking =
     (if pr_error pr \<noteq> 0 then ERROR ef (Some (pr_error pr, None))
      else if \<not> (blocking \<or> pr_flag pr) then Some (EMPI_SUCCESS, None)
      else if pr_count_error pr \<noteq> 0 then ERROR ef (Some (pr_count_error pr, None))
      else if \<not> pr_alloc pr then ERROR ef (Some (EMPI_ERR_INTERN, None))
      else if pr_recv_error pr \<noteq> 0 then ERROR ef (Some (pr_recv_error pr, None))
      else Some (EMPI_SUCCESS, Some (pr_message pr)))"

text \<open>
  A call that may wait for an arrival yields, besides the remaining arrivals and the state,
  \<open>None\<close> when it consumed all of them and still waits.
\<close>

type_synonym ('a, 's) waiting = "('a option \<times> mpi_probe list \<times> 's) run"

fun receive_loop ::
  "bool \<Rightarrow> addr \<Rightarrow> int \<Rightarrow> int \<Rightarrow> mpi_probe list \<Rightarrow> comm_reg \<Rightarrow> (int \<times> data_message option, comm_reg) waiting" where
  "receive_loop ef p source tag [] r = Some (None, [], r)"
| "receive_loop ef p source tag (pr # prs) r = do {
     (error, mo) \<leftarrow> probe_mpi_data_message ef pr True;
     if error \<noteq> EMPI_SUCCESS then ERROR ef (Some (Some (error, None), prs, r))
     else do {
       m \<leftarrow> mo;
       c \<leftarrow> heap r p;
       if \<not> match_message m (c_handle c) source tag then do {
         r' \<leftarrow> store_message ef (pr_store pr) m r;
         receive_loop ef p source tag prs r'
       }
       else Some (Some (EMPI_SUCCESS, Some m), prs, r)
     }
   }"

text \<open>
  \<open>unpack\<close> stands for \<^verbatim>\<open>PMPI_Unpack\<close>: from the packed bytes, the number of elements, the type
  and the communicator of the local library to its error code and the new contents of the buffer.
\<close>

type_synonym 'b unpacker = "byte list \<Rightarrow> int \<Rightarrow> mpi_object \<Rightarrow> nat option \<Rightarrow> int \<times> 'b"

definition unpack_message ::
  "'b unpacker \<Rightarrow> int \<Rightarrow> datatype_s \<Rightarrow> communicator \<Rightarrow> data_message \<Rightarrow> status option
    \<Rightarrow> (int \<times> 'b \<times> status option) run" where
  "unpack_message unpack count t c m s =
     (let len = uint (msg_length (header m)) - DATA_MESSAGE_SIZE in
      if len < 0 \<or> len > int (length (payload m)) then None
      else (let (error, buf) = unpack (take (nat len) (payload m)) count (dt_type t) (c_comm c) in
        if error = EMPI_SUCCESS then do {
          s' \<leftarrow> set_status s (m_source m) (m_tag m) error (Some t) count 0;
          Some (error, buf, s')
        }
        else Some (error, buf, s)))"

definition messaging_receive ::
  "bool \<Rightarrow> 'b unpacker \<Rightarrow> int \<Rightarrow> datatype_s \<Rightarrow> int \<Rightarrow> int \<Rightarrow> status option \<Rightarrow> addr \<Rightarrow> mpi_probe list \<Rightarrow> comm_reg
    \<Rightarrow> (int \<times> 'b option \<times> status option, comm_reg) waiting" where
  "messaging_receive ef unpack count t source tag s p prs r = do {
     (mo, r1) \<leftarrow> find_pending_message p source tag r;
     (res, prs2, r2) \<leftarrow> (case mo of
        Some m \<Rightarrow> Some (Some (EMPI_SUCCESS, Some m), prs, r1)
      | None \<Rightarrow> receive_loop ef p source tag prs r1);
     case res of
       None \<Rightarrow> Some (None, prs2, r2)
     | Some (error, None) \<Rightarrow> Some (Some (error, None, s), prs2, r2)
     | Some (_, Some m) \<Rightarrow> do {
         c \<leftarrow> heap r2 p;
         (error, buf, s') \<leftarrow> unpack_message unpack count t c m s;
         if error \<noteq> EMPI_SUCCESS then ERROR ef (Some (Some (error, Some buf, s'), prs2, r2))
         else Some (Some (error, Some buf, s'), prs2, r2)
       }
   }"

definition messaging_bcast_receive ::
  "bool \<Rightarrow> 'b unpacker \<Rightarrow> int \<Rightarrow> datatype_s \<Rightarrow> int \<Rightarrow> addr \<Rightarrow> mpi_probe list \<Rightarrow> comm_reg
    \<Rightarrow> (int \<times> 'b option \<times> status option, comm_reg) waiting" where
  "messaging_bcast_receive ef unpack count t root p prs r =
     messaging_receive ef unpack count t root BCAST_TAG None p prs r"

section \<open>Requests that receive\<close>

text \<open>A store to the request at \<open>q\<close>, and the flags it carries afterwards.\<close>

definition set_request :: "addr \<Rightarrow> (request \<Rightarrow> request) \<Rightarrow> req_reg \<Rightarrow> req_reg run" where
  "set_request q f rr = do { rq \<leftarrow> heap rr q; Some (rr\<lparr>heap := (heap rr)(q \<mapsto> f rq)\<rparr>) }"

fun probe_loop ::
  "bool \<Rightarrow> addr \<Rightarrow> bool \<Rightarrow> mpi_probe list \<Rightarrow> req_reg \<times> comm_reg \<Rightarrow> (int, req_reg \<times> comm_reg) waiting" where
  "probe_loop ef q blocking [] (rr, r) = Some (None, [], rr, r)"
| "probe_loop ef q blocking (pr # prs) (rr, r) = do {
     (error, mo) \<leftarrow> probe_mpi_data_message ef pr blocking;
     if error \<noteq> EMPI_SUCCESS then ERROR ef (do {
       rr' \<leftarrow> set_request q (\<lambda>rq. rq\<lparr>rq_error := error, rq_flags := rq_flags rq OR REQUEST_FLAG_COMPLETED\<rparr>) rr;
       Some (Some error, prs, rr', r)
     })
     else (case mo of
         Some m \<Rightarrow> do {
           rq \<leftarrow> heap rr q;
           p \<leftarrow> rq_c rq;
           c \<leftarrow> heap r p;
           if match_message m (c_handle c) (rq_source_or_dest rq) (rq_tag rq) then do {
             rr' \<leftarrow> set_request q (\<lambda>rq. rq\<lparr>rq_message := Some m,
                      rq_flags := rq_flags rq OR REQUEST_FLAG_COMPLETED\<rparr>) rr;
             Some (Some EMPI_SUCCESS, prs, rr', r)
           }
           else do {
             r' \<leftarrow> store_message ef (pr_store pr) m r;
             if blocking then probe_loop ef q blocking prs (rr, r') else Some (Some EMPI_SUCCESS, prs, rr, r')
           }
         }
       | None \<Rightarrow>
           if blocking then probe_loop ef q blocking prs (rr, r) else Some (Some EMPI_SUCCESS, prs, rr, r))
   }"

definition messaging_probe_receive ::
  "bool \<Rightarrow> addr \<Rightarrow> bool \<Rightarrow> mpi_probe list \<Rightarrow> req_reg \<times> comm_reg \<Rightarrow> (int, req_reg \<times> comm_reg) waiting" where
  "messaging_probe_receive ef q blocking prs = (\<lambda>(rr, r). do {
     rq \<leftarrow> heap rr q;
     if request_completed rq \<noteq> 0 then Some (Some EMPI_SUCCESS, prs, rr, r)
     else do {
       p \<leftarrow> rq_c rq;
       (mo, r1) \<leftarrow> find_pending_message p (rq_source_or_dest rq) (rq_tag rq) r;
       rr1 \<leftarrow> set_request q (\<lambda>rq. rq\<lparr>rq_message := mo\<rparr>) rr;
       if mo \<noteq> None then do {
         rr2 \<leftarrow> set_request q (\<lambda>rq. rq\<lparr>rq_flags := rq_flags rq OR REQUEST_FLAG_COMPLETED\<rparr>) rr1;
         Some (Some EMPI_SUCCESS, prs, rr2, r1)
       }
       else do {
         rr2 \<leftarrow> set_request q (\<lambda>rq. rq\<lparr>rq_error := EMPI_SUCCESS\<rparr>) rr1;
         probe_loop ef q blocking prs (rr2, r1)
       }
     }
   })"

text \<open>The result is the error code, the new contents of the buffer if it was written, and the status.\<close>

definition messaging_finalize_receive ::
  "'b unpacker \<Rightarrow> addr \<Rightarrow> status option \<Rightarrow> dt_reg \<Rightarrow> comm_reg \<Rightarrow> req_reg
    \<Rightarrow> (int \<times> 'b option \<times> status option \<times> req_reg) run" where
  "messaging_finalize_receive unpack q s dr r rr = do {
     rq \<leftarrow> heap rr q;
     if request_completed rq = 0 then Some (EMPI_ERR_INTERN, None, s, rr)
     else if rq_flags rq AND REQUEST_FLAG_UNPACKED \<noteq> 0 then Some (EMPI_SUCCESS, None, s, rr)
     else do {
       m \<leftarrow> rq_message rq;
       tp \<leftarrow> rq_type rq;
       t \<leftarrow> heap dr tp;
       p \<leftarrow> rq_c rq;
       c \<leftarrow> heap r p;
       (error, buf, s') \<leftarrow> unpack_message unpack (rq_count rq) t c m s;
       rr' \<leftarrow> set_request q (\<lambda>rq. rq\<lparr>rq_error := error, rq_flags := rq_flags rq OR REQUEST_FLAG_UNPACKED\<rparr>) rr;
       Some (error, Some buf, s', rr')
     }
   }"

section \<open>The backlog of a communicator\<close>

text \<open>
  The messages waiting for the communicator with handle \<open>h\<close>, whether they were stored in its
  queue or still have to arrive.
\<close>

definition pending :: "comm_reg \<Rightarrow> int \<Rightarrow> data_message list" where
  "pending r h = (case slots r h of None \<Rightarrow> []
     | Some p \<Rightarrow> (case heap r p of None \<Rightarrow> [] | Some c \<Rightarrow> c_queue c))"

definition backlog :: "comm_reg \<Rightarrow> mpi_probe list \<Rightarrow> int \<Rightarrow> data_message list" where
  "backlog r prs h = pending r h @ filter (\<lambda>m. m_comm m = h) (map pr_message prs)"

text \<open>A probe that delivers a message, for a communicator of this process.\<close>

definition good_probe :: "comm_reg \<Rightarrow> mpi_probe \<Rightarrow> bool" where
  "good_probe r pr \<longleftrightarrow> pr_error pr = 0 \<and> pr_flag pr \<and> pr_count_error pr = 0 \<and> pr_alloc pr \<and>
     pr_recv_error pr = 0 \<and> pr_store pr \<and> slots r (m_comm (pr_message pr)) \<noteq> None"

lemma good_probe_message:
  "good_probe r pr \<Longrightarrow> probe_mpi_data_message ef pr blocking = Some (EMPI_SUCCESS, Some (pr_message pr))"
  by (simp add: good_probe_def probe_mpi_data_message_def)

lemma good_probe_cong: "slots r' = slots r \<Longrightarrow> good_probe r' = good_probe r"
  by (simp add: good_probe_def fun_eq_iff)

text \<open>A communicator but for its queue, which is all that the exchange of messages changes.\<close>

definition bare :: "communicator \<Rightarrow> communicator" where
  "bare c = c\<lparr>c_queue := []\<rparr>"

lemma bare_queue [simp]: "bare (c\<lparr>c_queue := q\<rparr>) = bare c"
  by (simp add: bare_def)

lemma bareD: "bare c = bare c' \<Longrightarrow> c_handle c = c_handle c' \<and> c_comm c = c_comm c'"
  by (cases c; cases c') (simp add: bare_def)

text \<open>Replacing the queue of a communicator in the registry.\<close>

lemma pending_update:
  fixes q :: "data_message list"
  assumes ok: "comm_ok r" and h: "slots r h = Some p" and c: "heap r p = Some c"
  defines "r' \<equiv> r\<lparr>heap := (heap r)(p \<mapsto> c\<lparr>c_queue := q\<rparr>)\<rparr>"
  shows "comm_ok r'" "slots r' = slots r" "pending r' = (pending r)(h := q)"
    "\<And>a. map_option bare (heap r' a) = map_option bare (heap r a)"
proof -
  show "comm_ok r'" unfolding r'_def using ok c by (rule comm_ok_update) simp
  show "slots r' = slots r" by (simp add: r'_def)
  show "pending r' = (pending r)(h := q)"
  proof
    fix k
    have "k \<noteq> h \<Longrightarrow> slots r k \<noteq> Some p"
      using ok h reg_inv_inj unfolding comm_ok_def by blast
    then show "pending r' k = ((pending r)(h := q)) k"
      using h c by (cases "k = h") (simp_all add: pending_def r'_def split: option.split)
  qed
  show "map_option bare (heap r' a) = map_option bare (heap r a)" for a
    using c by (simp add: r'_def)
qed

lemma comm_live:
  assumes "comm_ok r" "slots r h = Some p"
  obtains c where "heap r p = Some c" "c_handle c = h" "pending r h = c_queue c" "0 \<le> h" "h < MAX_COMMUNICATORS"
  using reg_invD [OF assms(1) [unfolded comm_ok_def] assms(2)] assms(2) that
  by (auto simp: pending_def)

lemma store_message_pending:
  assumes ok: "comm_ok r" and "slots r (m_comm m) \<noteq> None"
  shows "\<exists>r'. store_message ef True m r = Some r' \<and> comm_ok r' \<and> slots r' = slots r \<and>
     pending r' = (pending r)(m_comm m := pending r (m_comm m) @ [m]) \<and>
     (\<forall>a. map_option bare (heap r' a) = map_option bare (heap r a))"
proof -
  from assms(2) obtain p where p: "slots r (m_comm m) = Some p" by blast
  obtain c where c: "heap r p = Some c" "pending r (m_comm m) = c_queue c"
    "0 \<le> m_comm m" "m_comm m < MAX_COMMUNICATORS"
    using comm_live [OF ok p] by metis
  then have "store_message ef True m r = Some (r\<lparr>heap := (heap r)(p \<mapsto> c\<lparr>c_queue := c_queue c @ [m]\<rparr>)\<rparr>)"
    using p by (simp add: store_message_def q_enqueue_def)
  with pending_update [OF ok p c(1)] c(2) show ?thesis by auto
qed

lemma find_pending_backlog:
  fixes source tag :: int
  assumes ok: "comm_ok r" and p: "slots r h = Some p"
  defines "P \<equiv> \<lambda>m. match_message m h source tag"
  shows "\<exists>r'. find_pending_message p source tag r = Some (find P (pending r h), r') \<and> comm_ok r' \<and>
     slots r' = slots r \<and> pending r' = (pending r)(h := remove_first P (pending r h)) \<and>
     (\<forall>a. map_option bare (heap r' a) = map_option bare (heap r a))"
proof -
  obtain c where c: "heap r p = Some c" "c_handle c = h" "pending r h = c_queue c"
    using comm_live [OF ok p] by metis
  then have "find_pending_message p source tag r =
      Some (find P (pending r h), r\<lparr>heap := (heap r)(p \<mapsto> c\<lparr>c_queue := remove_first P (c_queue c)\<rparr>)\<rparr>)"
    by (simp add: find_pending_message_def q_dequeue_matching_def P_def)
  with pending_update [OF ok p c(1)] c(3) show ?thesis by auto
qed

text \<open>
  The arrivals up to and without the first match go to the queues of their communicators; the
  first match is what the loop returns.
\<close>

lemma receive_loop_backlog:
  fixes source tag :: int
  assumes "comm_ok r" "slots r h = Some p" "\<forall>pr \<in> set prs. good_probe r pr"
  defines "P \<equiv> \<lambda>m. match_message m h source tag"
  shows "\<exists>res prs' r'. receive_loop ef p source tag prs r = Some (res, prs', r') \<and> comm_ok r' \<and>
     slots r' = slots r \<and>
     res = map_option (\<lambda>m. (EMPI_SUCCESS, Some m)) (find P (filter (\<lambda>m. m_comm m = h) (map pr_message prs))) \<and>
     (\<forall>k. backlog r' prs' k = pending r k @
        (if k = h then remove_first P (filter (\<lambda>m. m_comm m = k) (map pr_message prs))
         else filter (\<lambda>m. m_comm m = k) (map pr_message prs))) \<and>
     (\<forall>a. map_option bare (heap r' a) = map_option bare (heap r a)) \<and>
     set prs' \<subseteq> set prs \<and> (res = None \<longrightarrow> prs' = [])"
  using assms(1-3)
proof (induction prs arbitrary: r)
  case Nil
  then show ?case by (simp add: backlog_def)
next
  case (Cons pr prs)
  let ?m = "pr_message pr"
  have probe: "probe_mpi_data_message ef pr True = Some (EMPI_SUCCESS, Some ?m)"
    using Cons.prems(3) by (intro good_probe_message [of r]) simp
  obtain c where c: "heap r p = Some c" "c_handle c = h"
    using comm_live [OF Cons.prems(1,2)] by metis
  have comm: "P ?m \<Longrightarrow> m_comm ?m = h" by (simp add: P_def match_message_def)
  show ?case
  proof (cases "P ?m")
    case True
    then show ?thesis
      using Cons.prems probe c comm by (auto simp: backlog_def P_def)
  next
    case False
    have good: "slots r (m_comm ?m) \<noteq> None" "pr_store pr"
      using Cons.prems(3) by (simp_all add: good_probe_def)
    obtain r1 where r1: "store_message ef True ?m r = Some r1" "comm_ok r1" "slots r1 = slots r"
      "pending r1 = (pending r)(m_comm ?m := pending r (m_comm ?m) @ [?m])"
      "\<forall>a. map_option bare (heap r1 a) = map_option bare (heap r a)"
      using store_message_pending [OF Cons.prems(1) good(1)] by blast
    have step: "receive_loop ef p source tag (pr # prs) r = receive_loop ef p source tag prs r1"
      using False probe c r1(1) good(2) by (simp add: P_def)
    have "\<forall>pr \<in> set prs. good_probe r1 pr"
      using Cons.prems(3) good_probe_cong [OF r1(3)] by simp
    with Cons.IH [of r1] r1(2,3) Cons.prems(2) obtain res prs' r' where
      IH: "receive_loop ef p source tag prs r1 = Some (res, prs', r')" "comm_ok r'" "slots r' = slots r1"
      "res = map_option (\<lambda>m. (EMPI_SUCCESS, Some m)) (find P (filter (\<lambda>m. m_comm m = h) (map pr_message prs)))"
      "\<forall>k. backlog r' prs' k = pending r1 k @
        (if k = h then remove_first P (filter (\<lambda>m. m_comm m = k) (map pr_message prs))
         else filter (\<lambda>m. m_comm m = k) (map pr_message prs))"
      "\<forall>a. map_option bare (heap r' a) = map_option bare (heap r1 a)" "set prs' \<subseteq> set prs"
      "res = None \<longrightarrow> prs' = []"
      by auto
    have "backlog r' prs' k = pending r k @
        (if k = h then remove_first P (filter (\<lambda>m. m_comm m = k) (map pr_message (pr # prs)))
         else filter (\<lambda>m. m_comm m = k) (map pr_message (pr # prs)))" for k
      using IH(5) r1(4) False by simp
    then show ?thesis
      unfolding step using IH r1 False by auto
  qed
qed

text \<open>A message whose header tells its length.\<close>

definition msg_sound :: "data_message \<Rightarrow> bool" where
  "msg_sound m \<longleftrightarrow> uint (msg_length (header m)) = DATA_MESSAGE_SIZE + int (length (payload m))"

text \<open>The status a receive of \<open>m\<close> reports for a buffer of \<open>count\<close> elements.\<close>

definition received_status :: "data_message \<Rightarrow> datatype_s \<Rightarrow> int \<Rightarrow> status option \<Rightarrow> status option" where
  "received_status m t count s = map_option (\<lambda>_. \<lparr>st_source = m_source m, st_tag = m_tag m,
     st_error = EMPI_SUCCESS, st_count = count, st_cancelled = 0, st_type = dt_handle t\<rparr>) s"

lemma unpack_message_sound:
  assumes "msg_sound m" "unpack (payload m) count (dt_type t) (c_comm c) = (EMPI_SUCCESS, buf)"
  shows "unpack_message unpack count t c m s = Some (EMPI_SUCCESS, buf, received_status m t count s)"
  using assms
  by (cases s) (simp_all add: unpack_message_def msg_sound_def set_status_def received_status_def)

lemma find_append: "find P (xs @ ys) = (case find P xs of Some x \<Rightarrow> Some x | None \<Rightarrow> find P ys)"
  by (induction xs) auto

lemma remove_first_append:
  "remove_first P (xs @ ys) = (if find P xs = None then xs @ remove_first P ys else remove_first P xs @ ys)"
  by (induction xs) auto

lemma find_SomeD: "find P xs = Some x \<Longrightarrow> x \<in> set xs \<and> P x"
  by (auto simp: find_Some_iff)

text \<open>The choice of the message: the pending messages first, then the arrivals.\<close>

lemma receive_choice:
  fixes source tag :: int
  assumes ok: "comm_ok r" and p: "slots r h = Some p" and good: "\<forall>pr \<in> set prs. good_probe r pr"
  defines "P \<equiv> \<lambda>m. match_message m h source tag"
  shows "\<exists>mo r1 res prs' r'. find_pending_message p source tag r = Some (mo, r1) \<and>
     (case mo of Some m \<Rightarrow> Some (Some (EMPI_SUCCESS, Some m), prs, r1)
        | None \<Rightarrow> receive_loop ef p source tag prs r1) = Some (res, prs', r') \<and>
     res = map_option (\<lambda>m. (EMPI_SUCCESS, Some m)) (find P (backlog r prs h)) \<and>
     comm_ok r' \<and> slots r' = slots r \<and> set prs' \<subseteq> set prs \<and>
     backlog r' prs' = (backlog r prs)(h := remove_first P (backlog r prs h)) \<and>
     (\<forall>a. map_option bare (heap r' a) = map_option bare (heap r a))"
proof -
  let ?new = "\<lambda>k. filter (\<lambda>m. m_comm m = k) (map pr_message prs)"
  obtain r1 where r1: "find_pending_message p source tag r = Some (find P (pending r h), r1)" "comm_ok r1"
    "slots r1 = slots r" "pending r1 = (pending r)(h := remove_first P (pending r h))"
    "\<forall>a. map_option bare (heap r1 a) = map_option bare (heap r a)"
    using find_pending_backlog [OF ok p] unfolding P_def by blast
  have good1: "\<forall>pr \<in> set prs. good_probe r1 pr" using good good_probe_cong [OF r1(3)] by simp
  show ?thesis
  proof (cases "find P (pending r h)")
    case (Some m)
    then have "find P (backlog r prs h) = Some m" "remove_first P (backlog r prs h) = remove_first P (pending r h) @ ?new h"
      by (simp_all add: backlog_def find_append remove_first_append)
    moreover from this(2) have "backlog r1 prs = (backlog r prs)(h := remove_first P (backlog r prs h))"
      by (auto simp: fun_eq_iff backlog_def r1(4))
    ultimately show ?thesis using r1 Some by (intro exI [of _ "Some m"] exI [of _ r1]) simp
  next
    case None
    then have same: "pending r1 = pending r" using r1(4) by (simp add: find_None_iff)
    obtain res prs' r' where *: "receive_loop ef p source tag prs r1 = Some (res, prs', r')" "comm_ok r'"
      "slots r' = slots r1" "res = map_option (\<lambda>m. (EMPI_SUCCESS, Some m)) (find P (?new h))"
      "\<forall>k. backlog r' prs' k = pending r1 k @ (if k = h then remove_first P (?new k) else ?new k)"
      "\<forall>a. map_option bare (heap r' a) = map_option bare (heap r1 a)" "set prs' \<subseteq> set prs"
      using receive_loop_backlog [OF r1(2) _ good1, of h p ef source tag] p r1(3) unfolding P_def by auto
    have split: "find P (backlog r prs h) = find P (?new h)"
      "remove_first P (backlog r prs h) = pending r h @ remove_first P (?new h)"
      using None by (simp_all add: backlog_def find_append remove_first_append)
    moreover have "backlog r' prs' = (backlog r prs)(h := remove_first P (backlog r prs h))"
    proof
      fix k
      show "backlog r' prs' k = ((backlog r prs)(h := remove_first P (backlog r prs h))) k"
        using *(5) [rule_format, of k] split(2) same by (cases "k = h") (simp_all add: backlog_def [of r prs])
    qed
    ultimately show ?thesis using * r1(1,3,5) None split(1)
      by (intro exI [of _ None] exI [of _ r1] exI [of _ res] exI [of _ prs'] exI [of _ r']) simp
  qed
qed

lemma messaging_receive_backlog:
  fixes source tag :: int
  assumes ok: "comm_ok r" and p: "slots r h = Some p" "heap r p = Some c"
    and good: "\<forall>pr \<in> set prs. good_probe r pr"
    and sound: "\<forall>m \<in> set (backlog r prs h). msg_sound m \<and>
      fst (unpack (payload m) count (dt_type t) (c_comm c)) = EMPI_SUCCESS"
  defines "P \<equiv> \<lambda>m. match_message m h source tag"
  shows "\<exists>prs' r'. messaging_receive ef unpack count t source tag s p prs r =
      Some (map_option (\<lambda>m. (EMPI_SUCCESS, Some (snd (unpack (payload m) count (dt_type t) (c_comm c))),
        received_status m t count s)) (find P (backlog r prs h)), prs', r') \<and>
      comm_ok r' \<and> slots r' = slots r \<and> set prs' \<subseteq> set prs \<and>
      backlog r' prs' = (backlog r prs)(h := remove_first P (backlog r prs h)) \<and>
      (\<forall>a. map_option bare (heap r' a) = map_option bare (heap r a))"
proof -
  obtain mo r1 res prs' r' where *: "find_pending_message p source tag r = Some (mo, r1)"
     "(case mo of Some m \<Rightarrow> Some (Some (EMPI_SUCCESS, Some m), prs, r1)
        | None \<Rightarrow> receive_loop ef p source tag prs r1) = Some (res, prs', r')"
     "res = map_option (\<lambda>m. (EMPI_SUCCESS, Some m)) (find P (backlog r prs h))"
     "comm_ok r'" "slots r' = slots r" "set prs' \<subseteq> set prs"
     "backlog r' prs' = (backlog r prs)(h := remove_first P (backlog r prs h))"
     "\<forall>a. map_option bare (heap r' a) = map_option bare (heap r a)"
    using receive_choice [OF ok p(1) good, of source tag ef] unfolding P_def by auto
  show ?thesis
  proof (cases "find P (backlog r prs h)")
    case None
    with * show ?thesis by (auto simp: messaging_receive_def)
  next
    case (Some m)
    from *(8) p(2) obtain c' where "heap r' p = Some c'" "bare c' = bare c"
      by (metis map_option_eq_Some)
    then have c': "heap r' p = Some c'" "c_comm c' = c_comm c" using bareD by blast+
    have m: "msg_sound m" "unpack (payload m) count (dt_type t) (c_comm c') =
        (EMPI_SUCCESS, snd (unpack (payload m) count (dt_type t) (c_comm c)))"
      using sound find_SomeD [OF Some] c'(2) by (auto simp: prod_eq_iff)
    show ?thesis
      using * Some c'(1) unpack_message_sound [of m unpack count t c', OF m, of s]
      by (auto simp: messaging_receive_def)
  qed
qed

section \<open>Several receives\<close>

text \<open>\<open>n\<close> receives for the same source and tag, one after the other.\<close>

fun receive_many ::
  "bool \<Rightarrow> 'b unpacker \<Rightarrow> int \<Rightarrow> datatype_s \<Rightarrow> int \<Rightarrow> int \<Rightarrow> addr \<Rightarrow> nat \<Rightarrow> mpi_probe list \<Rightarrow> comm_reg
    \<Rightarrow> ((int \<times> 'b option \<times> status option) option list \<times> mpi_probe list \<times> comm_reg) run" where
  "receive_many ef unpack count t source tag p 0 prs r = Some ([], prs, r)"
| "receive_many ef unpack count t source tag p (Suc n) prs r = do {
     (res, prs1, r1) \<leftarrow> messaging_receive ef unpack count t source tag None p prs r;
     (rest, prs2, r2) \<leftarrow> receive_many ef unpack count t source tag p n prs1 r1;
     Some (res # rest, prs2, r2)
   }"

lemma filter_remove_first:
  "filter P xs = (case find P xs of None \<Rightarrow> [] | Some x \<Rightarrow> x # filter P (remove_first P xs))"
  by (induction xs) (auto split: option.split)

lemma set_remove_first: "set (remove_first P xs) \<subseteq> set xs"
  by (induction xs) auto

lemma receive_many_in_order:
  fixes source tag :: int
  assumes "comm_ok r" "slots r h = Some p" "heap r p = Some c" "\<forall>pr \<in> set prs. good_probe r pr"
    and "c_comm c = k"
    and "\<forall>m \<in> set (backlog r prs h). msg_sound m \<and>
      fst (unpack (payload m) count (dt_type t) k) = EMPI_SUCCESS"
  defines "P \<equiv> \<lambda>m. match_message m h source tag"
    and "out \<equiv> \<lambda>m. Some (EMPI_SUCCESS, Some (snd (unpack (payload m) count (dt_type t) k)), None)"
  shows "\<exists>prs' r'. receive_many ef unpack count t source tag p n prs r =
      Some (map out (take n (filter P (backlog r prs h))) @
        replicate (n - length (filter P (backlog r prs h))) None, prs', r')"
  using assms(1-6)
proof (induction n arbitrary: prs r c)
  case (Suc n)
  let ?q = "backlog r prs h"
  have rs: "received_status m t count None = None" for m by (simp add: received_status_def)
  have sound: "\<forall>m \<in> set ?q. msg_sound m \<and> fst (unpack (payload m) count (dt_type t) (c_comm c)) = EMPI_SUCCESS"
    using Suc.prems(5,6) by simp
  note E = messaging_receive_backlog [OF Suc.prems(1-4), of unpack count t ef source tag None, OF sound,
      unfolded rs Suc.prems(5), folded P_def]
  from E obtain prs1 r1 where r1: "messaging_receive ef unpack count t source tag None p prs r =
      Some (map_option (\<lambda>m. (EMPI_SUCCESS, Some (snd (unpack (payload m) count (dt_type t) k)), None))
        (find P ?q), prs1, r1)"
    "comm_ok r1" "slots r1 = slots r" "set prs1 \<subseteq> set prs" "backlog r1 prs1 = (backlog r prs)(h := remove_first P ?q)"
    "\<forall>a. map_option bare (heap r1 a) = map_option bare (heap r a)"
    by (elim exE conjE) (rule that)
  from r1(6) Suc.prems(3) obtain c1 where "heap r1 p = Some c1" "bare c1 = bare c"
    by (metis map_option_eq_Some)
  then have c1: "heap r1 p = Some c1" "c_comm c1 = k" using bareD [of c1 c] Suc.prems(5) by simp_all
  have good1: "\<forall>pr \<in> set prs1. good_probe r1 pr"
    using Suc.prems(4) r1(4) good_probe_cong [OF r1(3)] by auto
  have sound1: "\<forall>m \<in> set (backlog r1 prs1 h). msg_sound m \<and>
      fst (unpack (payload m) count (dt_type t) k) = EMPI_SUCCESS"
    using Suc.prems(6) set_remove_first [of P ?q] by (auto simp: r1(5))
  have "slots r1 h = Some p" using r1(3) Suc.prems(2) by simp
  from Suc.IH [OF r1(2) this c1(1) good1 c1(2) sound1]
  obtain prs' r' where "receive_many ef unpack count t source tag p n prs1 r1 =
      Some (map out (take n (filter P (backlog r1 prs1 h))) @
        replicate (n - length (filter P (backlog r1 prs1 h))) None, prs', r')"
    by blast
  then have r': "receive_many ef unpack count t source tag p n prs1 r1 =
      Some (map out (take n (filter P (remove_first P ?q))) @
        replicate (n - length (filter P (remove_first P ?q))) None, prs', r')"
    by (simp add: r1(5))
  show ?case
  proof (cases "find P ?q")
    case None
    then have "filter P ?q = []" "remove_first P ?q = ?q"
      by (auto simp: find_None_iff filter_empty_conv)
    then show ?thesis using r1(1) r' None by simp
  next
    case (Some m)
    then have "filter P ?q = m # filter P (remove_first P ?q)" using filter_remove_first [of P ?q] by simp
    then show ?thesis using r1(1) r' Some by (simp add: out_def)
  qed
qed simp

section \<open>Requests\<close>

lemma probe_loop_blocking:
  assumes rq: "heap rr q = Some rq" "rq_c rq = Some p"
    and "\<forall>pr \<in> set prs. good_probe r0 pr"
  shows "probe_loop ef q True prs (rr, r) =
    (case receive_loop ef p (rq_source_or_dest rq) (rq_tag rq) prs r of
       None \<Rightarrow> None
     | Some (None, prs', r') \<Rightarrow> Some (None, prs', rr, r')
     | Some (Some (e, mo), prs', r') \<Rightarrow> Some (Some e, prs', rr\<lparr>heap := (heap rr)(q \<mapsto> rq
         \<lparr>rq_message := mo, rq_flags := rq_flags rq OR REQUEST_FLAG_COMPLETED\<rparr>)\<rparr>, r'))"
  using assms(3)
proof (induction prs arbitrary: r)
  case (Cons pr prs)
  have probe: "probe_mpi_data_message ef pr True = Some (EMPI_SUCCESS, Some (pr_message pr))"
    using Cons.prems by (intro good_probe_message [of r0]) simp
  show ?case
  proof (cases "heap r p")
    case (Some c)
    show ?thesis
    proof (cases "store_message ef (pr_store pr) (pr_message pr) r")
      case (Some r1)
      with Cons.IH [of r1] Cons.prems probe rq \<open>heap r p = Some c\<close>
      show ?thesis by (simp add: set_request_def)
    qed (use Some probe rq in \<open>simp add: set_request_def\<close>)
  qed (use probe rq in simp)
qed (use rq in simp)

text \<open>What a probe leaves in the request: the message, if there is one, and that it is complete.\<close>

definition probed :: "request \<Rightarrow> data_message option \<Rightarrow> request" where
  "probed rq mo = (case mo of
     None \<Rightarrow> rq\<lparr>rq_message := None\<rparr>
   | Some m \<Rightarrow> rq\<lparr>rq_message := Some m, rq_flags := rq_flags rq OR REQUEST_FLAG_COMPLETED\<rparr>)"

lemma request_update:
  "(rq :: request)\<lparr>rq_message := a, rq_error := e, rq_message := b, rq_flags := f\<rparr> =
     rq\<lparr>rq_message := b, rq_error := e, rq_flags := f\<rparr>"
  "rq_error rq = e \<Longrightarrow> rq\<lparr>rq_error := e\<rparr> = rq"
  by (cases rq; simp)+

lemma probed_completed [simp]: "request_completed (probed rq (Some m)) \<noteq> 0"
proof -
  have "bit (request_completed (probed rq (Some m))) 2"
    by (simp add: request_completed_def probed_def REQUEST_FLAG_COMPLETED_def bit_simps)
  then show ?thesis by auto
qed

lemma probe_receive_blocking:
  assumes ok: "comm_ok r" and p: "slots r h = Some p" and good: "\<forall>pr \<in> set prs. good_probe r pr"
    and rq: "heap rr q = Some rq" "rq_c rq = Some p" "rq_error rq = 0" "request_completed rq = 0"
  defines "P \<equiv> \<lambda>m. match_message m h (rq_source_or_dest rq) (rq_tag rq)"
  shows "\<exists>prs' r'. messaging_probe_receive ef q True prs (rr, r) =
      Some (map_option (\<lambda>_. EMPI_SUCCESS) (find P (backlog r prs h)), prs',
        rr\<lparr>heap := (heap rr)(q \<mapsto> probed rq (find P (backlog r prs h)))\<rparr>, r') \<and>
      comm_ok r' \<and> slots r' = slots r \<and> set prs' \<subseteq> set prs \<and>
      backlog r' prs' = (backlog r prs)(h := remove_first P (backlog r prs h)) \<and>
      (\<forall>a. map_option bare (heap r' a) = map_option bare (heap r a))"
proof -
  let ?s = "rq_source_or_dest rq" and ?t = "rq_tag rq"
  obtain mo r1 res prs' r' where *: "find_pending_message p ?s ?t r = Some (mo, r1)"
     "(case mo of Some m \<Rightarrow> Some (Some (EMPI_SUCCESS, Some m), prs, r1)
        | None \<Rightarrow> receive_loop ef p ?s ?t prs r1) = Some (res, prs', r')"
     "res = map_option (\<lambda>m. (EMPI_SUCCESS, Some m)) (find P (backlog r prs h))"
     "comm_ok r'" "slots r' = slots r" "set prs' \<subseteq> set prs"
     "backlog r' prs' = (backlog r prs)(h := remove_first P (backlog r prs h))"
     "\<forall>a. map_option bare (heap r' a) = map_option bare (heap r a)"
    using receive_choice [OF ok p good, of ?s ?t ef] unfolding P_def by auto
  have "messaging_probe_receive ef q True prs (rr, r) =
      Some (map_option (\<lambda>_. EMPI_SUCCESS) (find P (backlog r prs h)), prs',
        rr\<lparr>heap := (heap rr)(q \<mapsto> probed rq (find P (backlog r prs h)))\<rparr>, r')"
  proof (cases mo)
    case (Some m)
    with *(2,3) have f: "find P (backlog r prs h) = Some m" and s: "prs' = prs" "r' = r1"
      by (cases "find P (backlog r prs h)"; simp)+
    show ?thesis
      using *(1) Some rq unfolding f s by (simp add: messaging_probe_receive_def set_request_def probed_def)
  next
    case None
    let ?rq = "rq\<lparr>rq_message := None\<rparr>"
    let ?rr = "rr\<lparr>heap := (heap rr)(q \<mapsto> ?rq)\<rparr>"
    have e: "rq\<lparr>rq_message := None, rq_error := 0\<rparr> = ?rq" using rq(3) by (intro request_update(2)) simp
    have "probe_loop ef q True prs (?rr, r1) =
      (case receive_loop ef p ?s ?t prs r1 of
         None \<Rightarrow> None
       | Some (None, prs', r') \<Rightarrow> Some (None, prs', ?rr, r')
       | Some (Some (e, mo), prs', r') \<Rightarrow> Some (Some e, prs', ?rr\<lparr>heap := (heap ?rr)(q \<mapsto> ?rq
           \<lparr>rq_message := mo, rq_flags := rq_flags ?rq OR REQUEST_FLAG_COMPLETED\<rparr>)\<rparr>, r'))"
      using probe_loop_blocking [of ?rr q ?rq p prs r ef r1] rq(2) good by simp
    then have "probe_loop ef q True prs (?rr, r1) = Some (map_option (\<lambda>_. EMPI_SUCCESS) (find P (backlog r prs h)), prs',
        rr\<lparr>heap := (heap rr)(q \<mapsto> probed rq (find P (backlog r prs h)))\<rparr>, r')"
      using *(2,3) None by (cases "find P (backlog r prs h)") (simp_all add: probed_def)
    then show ?thesis
      using *(1) None rq by (simp add: messaging_probe_receive_def set_request_def e)
  qed
  with * show ?thesis by auto
qed

lemma probe_receive_nonblocking:
  assumes ok: "comm_ok r" and p: "slots r h = Some p" and good: "good_probe r pr"
    and rq: "heap rr q = Some rq" "rq_c rq = Some p" "rq_error rq = 0" "request_completed rq = 0"
  defines "P \<equiv> \<lambda>m. match_message m h (rq_source_or_dest rq) (rq_tag rq)"
    and "now \<equiv> backlog r [pr] h"
  shows "\<exists>prs' r'. messaging_probe_receive ef q False (pr # prs) (rr, r) =
      Some (Some EMPI_SUCCESS, prs', rr\<lparr>heap := (heap rr)(q \<mapsto> probed rq (find P now))\<rparr>, r') \<and>
      comm_ok r' \<and> slots r' = slots r \<and> set prs' \<subseteq> set (pr # prs) \<and>
      backlog r' prs' = (backlog r (pr # prs))
        (h := if find P now = None then backlog r (pr # prs) h else remove_first P (backlog r (pr # prs) h)) \<and>
      (\<forall>a. map_option bare (heap r' a) = map_option bare (heap r a))"
proof -
  let ?s = "rq_source_or_dest rq" and ?t = "rq_tag rq" and ?m = "pr_message pr"
  obtain r1 where r1: "find_pending_message p ?s ?t r = Some (find P (pending r h), r1)" "comm_ok r1"
    "slots r1 = slots r" "pending r1 = (pending r)(h := remove_first P (pending r h))"
    "\<forall>a. map_option bare (heap r1 a) = map_option bare (heap r a)"
    using find_pending_backlog [OF ok p] unfolding P_def by blast
  have split: "backlog r (pr # prs) h = now @ filter (\<lambda>m. m_comm m = h) (map pr_message prs)"
    by (simp add: backlog_def now_def)
  show ?thesis
  proof (cases "find P (pending r h)")
    case (Some m)
    then have f: "find P now = Some m"
      "remove_first P (backlog r (pr # prs) h) = remove_first P (pending r h) @ filter (\<lambda>m. m_comm m = h) (map pr_message (pr # prs))"
      by (simp_all add: now_def backlog_def find_append remove_first_append)
    have "messaging_probe_receive ef q False (pr # prs) (rr, r) =
      Some (Some EMPI_SUCCESS, pr # prs, rr\<lparr>heap := (heap rr)(q \<mapsto> probed rq (find P now))\<rparr>, r1)"
      using r1(1) Some rq f(1) by (simp add: messaging_probe_receive_def set_request_def probed_def)
    moreover have "backlog r1 (pr # prs) = (backlog r (pr # prs))(h := remove_first P (backlog r (pr # prs) h))"
    proof
      fix k show "backlog r1 (pr # prs) k = ((backlog r (pr # prs))(h := remove_first P (backlog r (pr # prs) h))) k"
        using r1(4) f(2) by (cases "k = h") (simp_all add: backlog_def)
    qed
    ultimately show ?thesis using r1(2,3,5) f(1) by auto
  next
    case None
    then have same: "pending r1 = pending r" using r1(4) by (simp add: find_None_iff)
    let ?rr = "rr\<lparr>heap := (heap rr)(q \<mapsto> rq\<lparr>rq_message := None\<rparr>)\<rparr>"
    have e: "rq\<lparr>rq_message := None, rq_error := 0\<rparr> = rq\<lparr>rq_message := None\<rparr>"
      using rq(3) by (intro request_update(2)) simp
    have start: "messaging_probe_receive ef q False (pr # prs) (rr, r) = probe_loop ef q False (pr # prs) (?rr, r1)"
      using r1(1) None rq by (simp add: messaging_probe_receive_def set_request_def e del: probe_loop.simps)
    have "good_probe r1 pr" using good good_probe_cong [OF r1(3)] by simp
    then have probe: "probe_mpi_data_message ef pr False = Some (EMPI_SUCCESS, Some ?m)"
      and store: "pr_store pr" "slots r1 (m_comm ?m) \<noteq> None"
      by (rule good_probe_message, simp_all add: good_probe_def)
    have "slots r1 h = Some p" using p r1(3) by simp
    then obtain c where c: "heap r1 p = Some c" "c_handle c = h"
      using comm_live [OF r1(2)] by metis
    have comm: "P ?m \<Longrightarrow> m_comm ?m = h" by (simp add: P_def match_message_def)
    show ?thesis
    proof (cases "P ?m")
      case True
      then have f: "find P now = Some ?m"
        "remove_first P (backlog r (pr # prs) h) = pending r h @ filter (\<lambda>m. m_comm m = h) (map pr_message prs)"
        using None comm by (simp_all add: now_def backlog_def find_append remove_first_append)
      have "probe_loop ef q False (pr # prs) (?rr, r1) =
        Some (Some EMPI_SUCCESS, prs, rr\<lparr>heap := (heap rr)(q \<mapsto> probed rq (find P now))\<rparr>, r1)"
        using True probe c rq(2) f(1) by (simp add: set_request_def probed_def P_def)
      moreover have "backlog r1 prs = (backlog r (pr # prs))(h := remove_first P (backlog r (pr # prs) h))"
      proof
        fix k show "backlog r1 prs k = ((backlog r (pr # prs))(h := remove_first P (backlog r (pr # prs) h))) k"
          using same f(2) comm True by (cases "k = h") (simp_all add: backlog_def)
      qed
      ultimately show ?thesis unfolding start using r1(2,3,5) f(1) by auto
    next
      case False
      then have f: "find P now = None" using None by (simp add: now_def backlog_def find_append)
      obtain r2 where r2: "store_message ef True ?m r1 = Some r2" "comm_ok r2" "slots r2 = slots r1"
        "pending r2 = (pending r1)(m_comm ?m := pending r1 (m_comm ?m) @ [?m])"
        "\<forall>a. map_option bare (heap r2 a) = map_option bare (heap r1 a)"
        using store_message_pending [OF r1(2) store(2)] by blast
      have "probe_loop ef q False (pr # prs) (?rr, r1) =
        Some (Some EMPI_SUCCESS, prs, rr\<lparr>heap := (heap rr)(q \<mapsto> probed rq (find P now))\<rparr>, r2)"
        using False probe c rq(2) f r2(1) store(1) by (simp add: set_request_def probed_def P_def)
      moreover have "backlog r2 prs = backlog r (pr # prs)"
        using r2(4) same by (simp add: fun_eq_iff backlog_def)
      ultimately show ?thesis unfolding start using r1(3,5) r2(2,3,5) f by auto
    qed
  qed
qed

lemma finalize_receive_probed:
  assumes rq: "heap rr q = Some (probed rq (Some m))" "rq_c rq = Some p" "rq_type rq = Some tp"
    and "rq_flags rq AND REQUEST_FLAG_UNPACKED = 0" "heap dr tp = Some t" "heap r p = Some c"
    and m: "msg_sound m" "unpack (payload m) (rq_count rq) (dt_type t) (c_comm c) = (EMPI_SUCCESS, buf)"
  shows "\<exists>rr'. messaging_finalize_receive unpack q s dr r rr =
    Some (EMPI_SUCCESS, Some buf, received_status m t (rq_count rq) s, rr')"
proof -
  have "rq_flags (probed rq (Some m)) AND REQUEST_FLAG_UNPACKED = 0"
  proof -
    have "(rq_flags rq OR REQUEST_FLAG_COMPLETED) AND REQUEST_FLAG_UNPACKED =
        (rq_flags rq AND REQUEST_FLAG_UNPACKED) OR (REQUEST_FLAG_COMPLETED AND REQUEST_FLAG_UNPACKED)"
      by (simp add: bit.conj_disj_distrib2)
    moreover have "REQUEST_FLAG_COMPLETED AND REQUEST_FLAG_UNPACKED = 0" by (simp add: flag_defs)
    ultimately show ?thesis using assms(4) by (simp add: probed_def)
  qed
  moreover have "rq_message (probed rq (Some m)) = Some m" "rq_type (probed rq (Some m)) = Some tp"
    "rq_c (probed rq (Some m)) = Some p" "rq_count (probed rq (Some m)) = rq_count rq"
    using rq by (simp_all add: probed_def)
  ultimately show ?thesis
    using rq(1) assms(5,6) unpack_message_sound [of m unpack "rq_count rq" t c, OF m, of s]
    by (simp add: messaging_finalize_receive_def set_request_def)
qed

text \<open>A second call to finalize the same request does nothing.\<close>

lemma finalize_receive_again:
  assumes "heap rr q = Some rq" "request_completed rq \<noteq> 0" "rq_flags rq AND REQUEST_FLAG_UNPACKED \<noteq> 0"
  shows "messaging_finalize_receive unpack q s dr r rr = Some (EMPI_SUCCESS, None, s, rr)"
  using assms by (simp add: messaging_finalize_receive_def)

section \<open>Broadcast to the coordinators\<close>

text \<open>The packing and the send of every message succeed.\<close>

definition pack_ok :: "mpi_pack \<Rightarrow> bool" where
  "pack_ok mp \<longleftrightarrow> mp_size_error mp = 0 \<and> mp_alloc mp \<and> mp_pack_error mp = 0 \<and> mp_send_error mp = 0"

definition sent_message :: "u32 \<Rightarrow> u32 \<Rightarrow> mpi_pack \<Rightarrow> int \<Rightarrow> int \<Rightarrow> int \<Rightarrow> communicator \<Rightarrow> data_message" where
  "sent_message my_pid opc mp count dest tag c =
     \<lparr>header = \<lparr>opcode = opc, src_pid = my_pid, dst_pid = c_members c ! nat dest,
                msg_length = word_of_int (DATA_MESSAGE_SIZE + int (length (mp_data mp)))\<rparr>,
      m_comm = c_handle c, m_source = c_global_rank c, m_dest = dest, m_tag = tag, m_count = count,
      payload = mp_data mp\<rparr>"

lemma do_send_ok:
  assumes "pack_ok mp" "0 \<le> dest" "dest < int (length (c_members c))"
  shows "do_send ef my_pid gw opc mp count dest tag c =
    Some (EMPI_SUCCESS, Some (gw, sent_message my_pid opc mp count dest tag c))"
  using assms
  by (simp add: do_send_def pack_ok_def get_pid_def arr_read_def create_data_message_def sent_message_def)

lemma msg_soundI:
  assumes "msg_length (header m) = word_of_int (DATA_MESSAGE_SIZE + int (length (payload m)))"
    and "DATA_MESSAGE_SIZE + int (length (payload m)) < 2 ^ 32"
  shows "msg_sound m"
proof -
  have "0 \<le> DATA_MESSAGE_SIZE" by (simp add: DATA_MESSAGE_SIZE_def MESSAGE_HEADER_SIZE_def)
  then have "uint (word_of_int (DATA_MESSAGE_SIZE + int (length (payload m))) :: u32) =
      DATA_MESSAGE_SIZE + int (length (payload m))"
    unfolding uint_word_of_int using assms(2) by (intro mod_pos_pos_trivial) simp_all
  then show ?thesis by (simp only: msg_sound_def assms(1))
qed

lemma sent_message_sound:
  assumes "DATA_MESSAGE_SIZE + int (length (mp_data mp)) < 2 ^ 32"
  shows "msg_sound (sent_message my_pid opc mp count dest tag c)"
  using assms by (intro msg_soundI) (simp_all add: sent_message_def)

lemma bcast_loop_all:
  assumes "\<And>i. pack_ok (mp i)"
  shows "length (c_coordinators c) = k + n \<Longrightarrow>
      \<forall>d \<in> set (c_coordinators c). 0 \<le> d \<and> d < int (length (c_members c)) \<Longrightarrow>
    bcast_loop ef my_pid gw crank mp count c n (int k) sent =
      Some (EMPI_SUCCESS, sent @ map (\<lambda>i. (gw, sent_message my_pid OPCODE_COLLECTIVE_BCAST (mp (int i)) count
        (c_coordinators c ! i) BCAST_TAG c)) (filter (\<lambda>i. int i \<noteq> crank) [k ..< k + n]))"
proof (induction n arbitrary: k sent)
  case (Suc n)
  have k: "k < length (c_coordinators c)" using Suc.prems(1) by simp
  then have "c_coordinators c ! k \<in> set (c_coordinators c)" by simp
  with Suc.prems(2) have d: "0 \<le> c_coordinators c ! k" "c_coordinators c ! k < int (length (c_members c))" by auto
  have upt: "[k ..< Suc (k + n)] = k # [Suc k ..< Suc (k + n)]" by (rule upt_conv_Cons) simp
  have IH: "bcast_loop ef my_pid gw crank mp count c n (int k + 1) sent' =
      Some (EMPI_SUCCESS, sent' @ map (\<lambda>i. (gw, sent_message my_pid OPCODE_COLLECTIVE_BCAST (mp (int i)) count
        (c_coordinators c ! i) BCAST_TAG c)) (filter (\<lambda>i. int i \<noteq> crank) [Suc k ..< Suc k + n]))" for sent'
    using Suc.IH [of "Suc k" sent'] Suc.prems by (simp add: add.commute)
  show ?case
  proof (cases "int k = crank")
    case True
    show ?thesis using k IH [of sent] by (simp add: upt del: upt_Suc flip: True)
  next
    case False
    then show ?thesis using k do_send_ok [OF assms d] by (simp add: upt IH del: upt_Suc)
  qed
qed simp

text \<open>A communicator with fewer coordinators than the run has clusters cannot broadcast.\<close>

lemma bcast_loop_short:
  assumes "int (length (c_coordinators c)) \<noteq> crank"
  shows "k \<le> length (c_coordinators c) \<Longrightarrow> length (c_coordinators c) < k + n \<Longrightarrow>
    bcast_loop ef my_pid gw crank mp count c n (int k) sent \<noteq> Some (EMPI_SUCCESS, res)"
proof (induction n arbitrary: k sent)
  case (Suc n)
  have next_k: "bcast_loop ef my_pid gw crank mp count c n (int k + 1) sent' \<noteq> Some (EMPI_SUCCESS, res)"
    if "k < length (c_coordinators c)" for sent'
    using Suc.IH [of "Suc k" sent'] Suc.prems that by (simp add: add.commute)
  show ?case
  proof (cases "k = length (c_coordinators c)")
    case True
    with assms show ?thesis by (simp add: arr_read_def)
  next
    case False
    with Suc.prems(1) have "k < length (c_coordinators c)" by simp
    with next_k show ?thesis by (auto simp: bind_eq_Some_conv split: if_splits prod.splits)
  qed
qed simp

end
