(* ===== verification/Process_Groups.thy ===== *)
theory Process_Groups
  imports Communicators
begin

text \<open>
  Process groups, \<^verbatim>\<open>src/backend/group.c\<close> and \<^verbatim>\<open>group.h\<close>: ordered sets of process ids with the
  rank of the calling process cached in each. Slot 0 of the registry is the null group, slot 1
  the one empty group that every request for a group without members returns; new groups take
  the slots from 2 on, in order, and no slot is used twice.
\<close>

definition MAX_GROUPS :: int where "MAX_GROUPS = 1024"
abbreviation (input) EMPI_GROUP_NULL :: int where "EMPI_GROUP_NULL \<equiv> 0"
abbreviation (input) EMPI_GROUP_EMPTY :: int where "EMPI_GROUP_EMPTY \<equiv> 1"

record group_s =
  g_handle :: int
  g_rank :: int
  g_size :: int
  g_members :: "u32 list"

record group_reg = "group_s reg" +
  next_group :: int

text \<open>
  What malloc does for one group: the result for the structure, whether the array of members
  was allocated, and what the fields and elements that are not set yet hold.
\<close>

record group_alloc =
  ga_new :: "addr option"
  ga_members_ok :: bool
  ga_junk :: group_s
  ga_fill :: "nat \<Rightarrow> u32"

section \<open>The registry\<close>

text \<open>\<open>junk\<close>: what the memory of the empty group holds; its handle is never set.\<close>

definition init_groups :: "bool \<Rightarrow> addr option \<Rightarrow> group_s \<Rightarrow> group_reg \<Rightarrow> (int \<times> group_reg) run" where
  "init_groups ef new junk r = do {
     t0 \<leftarrow> tbl_write MAX_GROUPS (slots r) EMPI_GROUP_NULL None;
     t1 \<leftarrow> tbl_write MAX_GROUPS t0 EMPI_GROUP_EMPTY new;
     case new of
       None \<Rightarrow> ERROR ef (Some (EMPI_ERR_INTERN, r\<lparr>slots := t1\<rparr>))
     | Some p \<Rightarrow>
         Some (EMPI_SUCCESS,
           r\<lparr>heap := (heap r)(p \<mapsto> junk\<lparr>g_size := 0, g_rank := -1, g_members := []\<rparr>),
             slots := (\<lambda>i. if 2 \<le> i \<and> i < MAX_GROUPS then None else t1 i)\<rparr>)
   }"

definition add_group :: "bool \<Rightarrow> addr \<Rightarrow> group_reg \<Rightarrow> (int \<times> group_reg) run" where
  "add_group ef p r =
     (if next_group r \<ge> MAX_GROUPS then ERROR ef (Some (-1, r))
      else do {
        t \<leftarrow> tbl_write MAX_GROUPS (slots r) (next_group r) (Some p);
        let r1 = r\<lparr>slots := t, next_group := next_group r + 1\<rparr>;
        Some (next_group r1 - 1, r1)
      })"

definition handle_to_group :: "bool \<Rightarrow> (group_s, 'z) reg_scheme \<Rightarrow> int \<Rightarrow> addr option run" where
  "handle_to_group ef r h =
     (if h < 0 \<or> h \<ge> MAX_GROUPS then ERROR ef (Some None)
      else tbl_read MAX_GROUPS (slots r) h)"

definition group_to_handle :: "bool \<Rightarrow> (group_s, 'z) reg_scheme \<Rightarrow> addr option \<Rightarrow> int run" where
  "group_to_handle ef r g =
     (case g of
        None \<Rightarrow> Some EMPI_GROUP_NULL
      | Some p \<Rightarrow> do { x \<leftarrow> heap r p; Some (g_handle x) })"

text \<open>A store to fields of the group at \<open>p\<close>.\<close>

definition set_group :: "addr \<Rightarrow> (group_s \<Rightarrow> group_s) \<Rightarrow> group_reg \<Rightarrow> group_reg run" where
  "set_group p f r = do { g \<leftarrow> heap r p; Some (r\<lparr>heap := (heap r)(p \<mapsto> f g)\<rparr>) }"

definition create_group ::
  "bool \<Rightarrow> group_alloc \<Rightarrow> int \<Rightarrow> group_reg \<Rightarrow> (addr option \<times> group_reg) run" where
  "create_group ef al members r =
     (if members < 0 then ERROR ef (Some (None, r))
      else if members = 0 then do {
        e \<leftarrow> tbl_read MAX_GROUPS (slots r) EMPI_GROUP_EMPTY;
        Some (e, r)
      }
      else (case ga_new al of
          None \<Rightarrow> ERROR ef (Some (None, r))
        | Some p \<Rightarrow>
            if \<not> ga_members_ok al then ERROR ef (Some (None, r))
            else do {
              (h, r1) \<leftarrow> add_group ef p r;
              if h = -1 then ERROR ef (Some (None, r1))
              else Some (Some p,
                r1\<lparr>heap := (heap r1)(p \<mapsto> (ga_junk al)
                     \<lparr>g_handle := h, g_members := map (ga_fill al) [0 ..< nat members]\<rparr>)\<rparr>)
            }))"

definition delete_group :: "addr option \<Rightarrow> group_reg \<Rightarrow> group_reg run" where
  "delete_group g r =
     (case g of
        None \<Rightarrow> Some r
      | Some p \<Rightarrow> do {
          e \<leftarrow> tbl_read MAX_GROUPS (slots r) EMPI_GROUP_EMPTY;
          if e = Some p then Some r
          else do {
            x \<leftarrow> heap r p;
            t \<leftarrow> tbl_write MAX_GROUPS (slots r) (g_handle x) None;
            Some (r\<lparr>heap := (heap r)(p := None), slots := t\<rparr>)
          }
        })"

section \<open>The operations\<close>

text \<open>
  Each yields the error code and the pointer stored through \<open>out\<close> (\<open>None\<close> when nothing is
  stored); \<open>out\<close> itself is the address of a variable of the caller. A communicator argument
  is its structure, \<open>None\<close> a null pointer.
\<close>

definition group_comm_group ::
  "bool \<Rightarrow> group_alloc \<Rightarrow> communicator option \<Rightarrow> group_reg \<Rightarrow> (int \<times> addr option \<times> group_reg) run" where
  "group_comm_group ef al co r =
     (case co of
        None \<Rightarrow> ERROR ef (Some (EMPI_ERR_COMM, None, r))
      | Some c \<Rightarrow> do {
          (res, r1) \<leftarrow> create_group ef al (c_global_size c) r;
          case res of
            None \<Rightarrow> ERROR ef (Some (EMPI_ERR_INTERN, None, r1))
          | Some p \<Rightarrow> do {
              r2 \<leftarrow> set_group p (\<lambda>g. g\<lparr>g_size := c_global_size c, g_rank := c_global_rank c\<rparr>) r1;
              g \<leftarrow> heap r2 p;
              ms \<leftarrow> arr_fill (arr_read (c_members c)) (nat (c_global_size c)) 0 (g_members g);
              r3 \<leftarrow> set_group p (\<lambda>g. g\<lparr>g_members := ms\<rparr>) r2;
              Some (EMPI_SUCCESS, Some p, r3)
            }
        })"

definition group_rank :: "addr option \<Rightarrow> group_reg \<Rightarrow> (int \<times> int option) run" where
  "group_rank go r =
     (case go of
        None \<Rightarrow> Some (EMPI_ERR_GROUP, None)
      | Some p \<Rightarrow> do {
          g \<leftarrow> heap r p;
          Some (EMPI_SUCCESS, Some (if g_rank g = -1 then EMPI_UNDEFINED else g_rank g))
        })"

definition group_size :: "addr option \<Rightarrow> group_reg \<Rightarrow> (int \<times> int option) run" where
  "group_size go r =
     (case go of
        None \<Rightarrow> Some (EMPI_ERR_GROUP, None)
      | Some p \<Rightarrow> do { g \<leftarrow> heap r p; Some (EMPI_SUCCESS, Some (g_size g)) })"

text \<open>
  The temporary array of \<open>group_union\<close> has \<open>size\<close> elements, of which the first \<open>index\<close> are
  written: the list of those.
\<close>

definition push :: "int \<Rightarrow> 'a list \<Rightarrow> 'a \<Rightarrow> 'a list run" where
  "push cap xs x = (if int (length xs) < cap then Some (xs @ [x]) else None)"

fun union_copy :: "int \<Rightarrow> u32 list \<Rightarrow> nat \<Rightarrow> int \<Rightarrow> u32 list \<Rightarrow> u32 list run" where
  "union_copy cap ms 0 i members = Some members"
| "union_copy cap ms (Suc n) i members = do {
     m \<leftarrow> arr_read ms i;
     members' \<leftarrow> push cap members m;
     union_copy cap ms n (i + 1) members'
   }"

fun union_found :: "u32 \<Rightarrow> u32 list \<Rightarrow> nat \<Rightarrow> int \<Rightarrow> bool run" where
  "union_found current ms 0 j = Some False"
| "union_found current ms (Suc n) j = do {
     m \<leftarrow> arr_read ms j;
     if current = m then Some True else union_found current ms n (j + 1)
   }"

fun union_add ::
  "u32 \<Rightarrow> int \<Rightarrow> group_s \<Rightarrow> u32 list \<Rightarrow> nat \<Rightarrow> int \<Rightarrow> u32 list \<Rightarrow> int \<Rightarrow> (u32 list \<times> int) run" where
  "union_add my_pid cap g1 ms 0 i members rank = Some (members, rank)"
| "union_add my_pid cap g1 ms (Suc n) i members rank = do {
     current \<leftarrow> arr_read ms i;
     found \<leftarrow> union_found current (g_members g1) (nat (g_size g1)) 0;
     if found then union_add my_pid cap g1 ms n (i + 1) members rank
     else do {
       members' \<leftarrow> push cap members current;
       union_add my_pid cap g1 ms n (i + 1) members'
         (if current = my_pid then int (length members) else rank)
     }
   }"

text \<open>\<open>tmp_ok\<close>: the temporary array was allocated. The ranks are read after the new size is
  stored, because the new group and the arguments can all be the empty group.\<close>

definition group_union ::
  "bool \<Rightarrow> u32 \<Rightarrow> bool \<Rightarrow> group_alloc \<Rightarrow> addr \<Rightarrow> addr \<Rightarrow> group_reg \<Rightarrow> (int \<times> addr option \<times> group_reg) run" where
  "group_union ef my_pid tmp_ok al in1 in2 r = do {
     g1 \<leftarrow> heap r in1;
     g2 \<leftarrow> heap r in2;
     let total = g_size g1 + g_size g2;
     if \<not> int_ok total then None
     else if total > 0 \<and> \<not> tmp_ok then ERROR ef (Some (EMPI_ERR_INTERN, None, r))
     else do {
       (members, rank) \<leftarrow>
         (if total > 0 then do {
            members \<leftarrow> union_copy total (g_members g1) (nat (g_size g1)) 0 [];
            union_add my_pid total g1 (g_members g2) (nat (g_size g2)) 0 members (-1)
          }
          else Some ([], -1));
       (res, r1) \<leftarrow> create_group ef al (int (length members)) r;
       case res of
         None \<Rightarrow> ERROR ef (Some (EMPI_ERR_INTERN, None, r1))
       | Some p \<Rightarrow> do {
           r2 \<leftarrow> set_group p (\<lambda>g. g\<lparr>g_size := int (length members)\<rparr>) r1;
           g1' \<leftarrow> heap r2 in1;
           g2' \<leftarrow> heap r2 in2;
           r3 \<leftarrow> set_group p (\<lambda>g. g\<lparr>g_rank :=
                   (if g_rank g1' \<noteq> -1 then g_rank g1' else if g_rank g2' \<noteq> -1 then rank else -1)\<rparr>) r2;
           g \<leftarrow> heap r3 p;
           ms \<leftarrow> arr_fill (arr_read members) (length members) 0 (g_members g);
           r4 \<leftarrow> set_group p (\<lambda>g. g\<lparr>g_members := ms\<rparr>) r3;
           Some (EMPI_SUCCESS, Some p, r4)
         }
     }
   }"

fun incl_loop ::
  "bool \<Rightarrow> u32 \<Rightarrow> addr \<Rightarrow> addr \<Rightarrow> int list \<Rightarrow> nat \<Rightarrow> int \<Rightarrow> group_reg \<Rightarrow> (int \<times> group_reg) run" where
  "incl_loop ef my_pid inp res ranks 0 i r = Some (EMPI_SUCCESS, r)"
| "incl_loop ef my_pid inp res ranks (Suc n) i r = do {
     next \<leftarrow> arr_read ranks i;
     g \<leftarrow> heap r inp;
     if next < 0 \<or> next \<ge> g_size g then
       ERROR ef (do { r' \<leftarrow> delete_group (Some res) r; Some (EMPI_ERR_RANK, r') })
     else do {
       m \<leftarrow> arr_read (g_members g) next;
       x \<leftarrow> heap r res;
       ms \<leftarrow> arr_write (g_members x) i m;
       r' \<leftarrow> set_group res (\<lambda>x. x\<lparr>g_members := ms, g_rank := (if m = my_pid then i else g_rank x)\<rparr>) r;
       incl_loop ef my_pid inp res ranks n (i + 1) r'
     }
   }"

definition group_incl ::
  "bool \<Rightarrow> u32 \<Rightarrow> group_alloc \<Rightarrow> addr option \<Rightarrow> int \<Rightarrow> int list \<Rightarrow> group_reg
    \<Rightarrow> (int \<times> addr option \<times> group_reg) run" where
  "group_incl ef my_pid al go n ranks r =
     (case go of
        None \<Rightarrow> ERROR ef (Some (EMPI_ERR_GROUP, None, r))
      | Some inp \<Rightarrow> do {
          (res, r1) \<leftarrow> create_group ef al n r;
          case res of
            None \<Rightarrow> ERROR ef (Some (EMPI_ERR_INTERN, None, r1))
          | Some p \<Rightarrow> do {
              r2 \<leftarrow> set_group p (\<lambda>g. g\<lparr>g_size := n, g_rank := -1\<rparr>) r1;
              (error, r3) \<leftarrow> incl_loop ef my_pid inp p ranks (nat n) 0 r2;
              if error \<noteq> EMPI_SUCCESS then Some (error, None, r3)
              else Some (EMPI_SUCCESS, Some p, r3)
            }
        })"

text \<open>
  The two loops of \<open>get_range\<close>; the entries of \<open>dst\<close> before \<open>index\<close> are the list \<open>dst\<close>. The
  callers exclude a stride of 0, with which the loop would not end.
\<close>

function range_loop ::
  "bool \<Rightarrow> group_s \<Rightarrow> int \<Rightarrow> int \<Rightarrow> int \<Rightarrow> u32 list \<Rightarrow> (int \<times> u32 list) run" where
  "range_loop ef g lst stride i dst =
     (if stride = 0 then None
      else if (if stride > 0 then i < g_size g \<and> i \<le> lst else i \<ge> 0 \<and> i \<ge> lst) then
        if int (length dst) \<ge> g_size g then ERROR ef (Some (EMPI_ERR_ARG, dst))
        else do {
          m \<leftarrow> arr_read (g_members g) i;
          if int_ok (i + stride) then range_loop ef g lst stride (i + stride) (dst @ [m]) else None
        }
      else Some (EMPI_SUCCESS, dst))"
  by pat_completeness auto
termination
  by (relation "measure (\<lambda>(ef, g, lst, stride, i, dst). nat (if stride > 0 then lst - i + 1 else i - lst + 1))")
     (auto split: if_splits)

declare range_loop.simps [simp del]

definition get_range ::
  "bool \<Rightarrow> group_s \<Rightarrow> u32 list \<Rightarrow> int \<Rightarrow> int \<Rightarrow> int \<Rightarrow> (int \<times> u32 list) run" where
  "get_range ef g dst first lst stride =
     (if stride = 0 \<or> first < 0 \<or> first \<ge> g_size g \<or> lst < 0 \<or> lst \<ge> g_size g
      then ERROR ef (Some (EMPI_ERR_RANK, dst))
      else if first \<le> lst \<and> stride > 0 then range_loop ef g lst stride first dst
      else if lst \<le> first \<and> stride < 0 then range_loop ef g lst stride first dst
      else ERROR ef (Some (EMPI_ERR_RANK, dst)))"

fun ranges_loop ::
  "bool \<Rightarrow> group_s \<Rightarrow> (int \<times> int \<times> int) list \<Rightarrow> nat \<Rightarrow> int \<Rightarrow> u32 list \<Rightarrow> (int \<times> u32 list) run" where
  "ranges_loop ef g ranges 0 i dst = Some (EMPI_SUCCESS, dst)"
| "ranges_loop ef g ranges (Suc n) i dst = do {
     (first, lst, stride) \<leftarrow> arr_read ranges i;
     (error, dst') \<leftarrow> get_range ef g dst first lst stride;
     if error \<noteq> EMPI_SUCCESS then ERROR ef (Some (error, dst'))
     else ranges_loop ef g ranges n (i + 1) dst'
   }"

fun range_copy :: "u32 \<Rightarrow> addr \<Rightarrow> u32 list \<Rightarrow> nat \<Rightarrow> int \<Rightarrow> group_reg \<Rightarrow> group_reg run" where
  "range_copy my_pid res tmp 0 i r = Some r"
| "range_copy my_pid res tmp (Suc n) i r = do {
     m \<leftarrow> arr_read tmp i;
     x \<leftarrow> heap r res;
     ms \<leftarrow> arr_write (g_members x) i m;
     r' \<leftarrow> set_group res (\<lambda>x. x\<lparr>g_members := ms, g_rank := (if m = my_pid then i else g_rank x)\<rparr>) r;
     range_copy my_pid res tmp n (i + 1) r'
   }"

definition group_range_incl ::
  "bool \<Rightarrow> u32 \<Rightarrow> bool \<Rightarrow> group_alloc \<Rightarrow> addr option \<Rightarrow> int \<Rightarrow> (int \<times> int \<times> int) list \<Rightarrow> group_reg
    \<Rightarrow> (int \<times> addr option \<times> group_reg) run" where
  "group_range_incl ef my_pid tmp_ok al go n ranges r =
     (case go of
        None \<Rightarrow> ERROR ef (Some (EMPI_ERR_GROUP, None, r))
      | Some inp \<Rightarrow> do {
          g \<leftarrow> heap r inp;
          if g_size g = 0 then do {
            e \<leftarrow> tbl_read MAX_GROUPS (slots r) EMPI_GROUP_EMPTY;
            Some (EMPI_SUCCESS, e, r)
          }
          else if \<not> tmp_ok then ERROR ef (Some (EMPI_ERR_INTERN, None, r))
          else do {
            (error, tmp) \<leftarrow> ranges_loop ef g ranges (nat n) 0 [];
            if error \<noteq> EMPI_SUCCESS then Some (error, None, r)
            else do {
              (res, r1) \<leftarrow> create_group ef al (int (length tmp)) r;
              case res of
                None \<Rightarrow> ERROR ef (Some (EMPI_ERR_INTERN, None, r1))
              | Some p \<Rightarrow> do {
                  r2 \<leftarrow> set_group p (\<lambda>g. g\<lparr>g_size := int (length tmp), g_rank := -1\<rparr>) r1;
                  r3 \<leftarrow> range_copy my_pid p tmp (length tmp) 0 r2;
                  Some (EMPI_SUCCESS, Some p, r3)
                }
            }
          }
        })"

text \<open>The operations that are declared but not implemented.\<close>

definition group_intersection ::
  "bool \<Rightarrow> addr option \<Rightarrow> addr option \<Rightarrow> group_reg \<Rightarrow> (int \<times> addr option \<times> group_reg) run" where
  "group_intersection ef in1 in2 r = ERROR ef (Some (EMPI_ERR_GROUP, None, r))"

definition group_difference ::
  "bool \<Rightarrow> addr option \<Rightarrow> addr option \<Rightarrow> group_reg \<Rightarrow> (int \<times> addr option \<times> group_reg) run" where
  "group_difference ef in1 in2 r = ERROR ef (Some (EMPI_ERR_GROUP, None, r))"

definition group_excl ::
  "bool \<Rightarrow> addr option \<Rightarrow> int \<Rightarrow> int list \<Rightarrow> group_reg \<Rightarrow> (int \<times> addr option \<times> group_reg) run" where
  "group_excl ef inp n ranks r = ERROR ef (Some (EMPI_ERR_GROUP, None, r))"

definition group_range_excl ::
  "bool \<Rightarrow> addr option \<Rightarrow> int \<Rightarrow> (int \<times> int \<times> int) list \<Rightarrow> group_reg \<Rightarrow> (int \<times> addr option \<times> group_reg) run" where
  "group_range_excl ef inp n ranges r = ERROR ef (Some (EMPI_ERR_GROUP, None, r))"

section \<open>The rank of a process in a list of members\<close>

definition rank_of :: "u32 \<Rightarrow> u32 list \<Rightarrow> int" where
  "rank_of pid ms = (if pid \<in> set ms then int (length (takeWhile (\<lambda>m. m \<noteq> pid) ms)) else -1)"

lemma rank_of_Nil [simp]: "rank_of pid [] = -1"
  by (simp add: rank_of_def)

lemma rank_of_Cons [simp]:
  "rank_of pid (m # ms) = (if m = pid then 0 else if pid \<in> set ms then rank_of pid ms + 1 else -1)"
  by (simp add: rank_of_def)

lemma rank_of_minus_one [simp]: "rank_of pid ms = -1 \<longleftrightarrow> pid \<notin> set ms"
  by (simp add: rank_of_def)

lemma rank_of_append:
  "rank_of pid (xs @ ys) =
     (if pid \<in> set xs then rank_of pid xs
      else if pid \<in> set ys then int (length xs) + rank_of pid ys else -1)"
  by (induction xs) auto

lemma rank_of_nth: "distinct ms \<Longrightarrow> i < length ms \<Longrightarrow> rank_of (ms ! i) ms = int i"
proof (induction ms arbitrary: i)
  case (Cons m ms)
  then show ?case by (cases i) auto
qed simp

lemma nth_rank_of: "pid \<in> set ms \<Longrightarrow> nat (rank_of pid ms) < length ms \<and> ms ! nat (rank_of pid ms) = pid"
proof (induction ms)
  case (Cons m ms)
  show ?case
  proof (cases "m = pid")
    case False
    with Cons have "pid \<in> set ms" "nat (rank_of pid ms) < length ms" "ms ! nat (rank_of pid ms) = pid" by auto
    moreover from this have "0 \<le> rank_of pid ms" by (simp add: rank_of_def)
    ultimately show ?thesis using False by (simp add: nat_add_distrib)
  qed simp
qed simp

section \<open>Well-formed groups and registries\<close>

definition group_wf :: "u32 \<Rightarrow> group_s \<Rightarrow> bool" where
  "group_wf my_pid g \<longleftrightarrow>
     g_size g = int (length (g_members g)) \<and> g_size g < 2 ^ 31 \<and> distinct (g_members g) \<and>
     g_rank g = rank_of my_pid (g_members g)"

definition grp_ok :: "group_reg \<Rightarrow> bool" where
  "grp_ok r \<longleftrightarrow> reg_inv g_handle 2 MAX_GROUPS r \<and> 2 \<le> next_group r \<and>
     (\<forall>i \<ge> next_group r. slots r i = None) \<and> slots r EMPI_GROUP_NULL = None \<and>
     (\<exists>e x. slots r EMPI_GROUP_EMPTY = Some e \<and> heap r e = Some x \<and> g_size x = 0 \<and> g_members x = [] \<and>
        (\<forall>i. slots r i = Some e \<longrightarrow> i = EMPI_GROUP_EMPTY))"

text \<open>The registry after a group with members was added.\<close>

definition new_group :: "group_reg \<Rightarrow> addr \<Rightarrow> group_s \<Rightarrow> group_reg" where
  "new_group r p g = r\<lparr>heap := (heap r)(p \<mapsto> g), slots := (slots r)(next_group r \<mapsto> p),
     next_group := next_group r + 1\<rparr>"

lemma init_groups_ok:
  assumes "next_group r = 2"  "\<forall>i. i < 0 \<or> MAX_GROUPS \<le> i \<longrightarrow> slots r i = None"
  shows "\<exists>r'. init_groups ef (Some p) junk r = Some (EMPI_SUCCESS, r') \<and> grp_ok r'"
  using assms
  by (auto simp: init_groups_def grp_ok_def reg_inv_def MAX_GROUPS_def Let_def split: if_splits)

lemma create_group_pos:
  assumes "0 < n" "2 \<le> next_group r"
  shows "create_group ef al n r = Some (Some p, r') \<longleftrightarrow>
     ga_new al = Some p \<and> ga_members_ok al \<and> next_group r < MAX_GROUPS \<and>
     r' = new_group r p ((ga_junk al)\<lparr>g_handle := next_group r, g_members := map (ga_fill al) [0 ..< nat n]\<rparr>)"
  using assms
  by (auto simp: create_group_def add_group_def new_group_def tbl_write_Some_iff Let_def
      bind_eq_Some_conv split: option.splits if_splits)

lemma create_group_null:
  assumes "0 < n" "2 \<le> next_group r" "create_group ef al n r = Some (None, r')"
  shows "r' = r"
  using assms
  by (auto simp: create_group_def add_group_def tbl_write_Some_iff Let_def
      bind_eq_Some_conv split: option.splits if_splits)

lemma new_group_ok:
  assumes ok: "grp_ok r" and fr: "fresh r (Some p)" and lt: "next_group r < MAX_GROUPS"
    and h: "g_handle g = next_group r"
  shows "grp_ok (new_group r p g)"
proof -
  from ok have inv: "reg_inv g_handle 2 MAX_GROUPS r" and two: "2 \<le> next_group r"
    by (simp_all add: grp_ok_def)
  from ok obtain e x where e: "slots r 1 = Some e" "heap r e = Some x" "g_size x = 0" "g_members x = []"
    "\<forall>i. slots r i = Some e \<longrightarrow> i = 1" by (auto simp: grp_ok_def)
  from e(2) fr have "e \<noteq> p" by (auto simp: fresh_def)
  have "reg_inv g_handle 2 MAX_GROUPS
      (r\<lparr>heap := (heap r)(p \<mapsto> g), slots := (slots r)(next_group r \<mapsto> p)\<rparr>)"
    using inv fr two lt h by (intro reg_inv_add) auto
  then have "reg_inv g_handle 2 MAX_GROUPS (new_group r p g)"
    by (rule reg_inv_cong [THEN iffD1, rotated 2]) (simp_all add: new_group_def)
  then show ?thesis
    using ok e two \<open>e \<noteq> p\<close> by (auto simp: grp_ok_def new_group_def)
qed

text \<open>Storing rank and members of a group that is under construction.\<close>

lemma set_group_new [simp]:
  "set_group p f (new_group r p g) = Some (new_group r p (f g))"
  "heap (new_group r p g) p = Some g"
  by (simp_all add: set_group_def new_group_def)

lemma heap_new_group_other [simp]: "q \<noteq> p \<Longrightarrow> heap (new_group r p g) q = heap r q"
  by (simp add: new_group_def)

lemma slots_new_group [simp]:
  "slots (new_group r p g) = (slots r)(next_group r \<mapsto> p)"
  "next_group (new_group r p g) = next_group r + 1"
  by (simp_all add: new_group_def)

interpretation gp: handle_alloc g_handle 2 MAX_GROUPS handle_to_group group_to_handle
  "\<lambda>ef new (n, al) r. create_group ef (al\<lparr>ga_new := new\<rparr>) (int (Suc n)) r" grp_ok
proof (unfold_locales, goal_cases)
  case (1 h r p ef)
  then show ?case by (simp add: handle_to_group_def)
next
  case (2 ef r h p)
  then show ?case by (auto simp: handle_to_group_def tbl_read_Some_iff split: if_splits)
next
  case (3 r p x ef)
  then show ?case by (simp add: group_to_handle_def)
next
  case (4 r)
  then show ?case by (simp add: grp_ok_def)
next
  case (5 r new ef x p r')
  then show ?case by (cases x) (auto simp: grp_ok_def create_group_pos intro!: exI [of _ "next_group r"])
next
  case (6 r new ef x p r')
  then show ?case by (cases x) (auto simp: create_group_pos grp_ok_def [of r] intro!: new_group_ok)
next
  case (7 r new ef x r')
  then show ?case by (cases x) (auto simp: grp_ok_def [of r] dest!: create_group_null [rotated 2])
qed

section \<open>The operations on well-formed arguments\<close>

text \<open>A structure is determined by its fields.\<close>

lemma group_fields:
  "(x :: group_s)\<lparr>g_handle := h, g_size := n, g_rank := k, g_members := ms\<rparr> =
     \<lparr>g_handle = h, g_rank = k, g_size = n, g_members = ms\<rparr>"
  "x\<lparr>g_size := g_size x, g_rank := k\<rparr> = x\<lparr>g_rank := k\<rparr>"
  "g_size x = 0 \<Longrightarrow> x\<lparr>g_size := 0\<rparr> = x"
  "g_size x = 0 \<Longrightarrow> x\<lparr>g_size := 0, g_rank := k\<rparr> = x\<lparr>g_rank := k\<rparr>"
  "g_size x = 0 \<Longrightarrow> g_members x = [] \<Longrightarrow> x\<lparr>g_rank := k, g_members := []\<rparr> = x\<lparr>g_rank := k\<rparr>"
  "g_size x = 0 \<Longrightarrow> g_members x = [] \<Longrightarrow>
     x\<lparr>g_rank := k\<rparr> = \<lparr>g_handle = g_handle x, g_rank = k, g_size = 0, g_members = []\<rparr>"
  by (cases x; simp)+

text \<open>Memory is available for one more group.\<close>

definition room :: "group_alloc \<Rightarrow> addr \<Rightarrow> group_reg \<Rightarrow> bool" where
  "room al p r \<longleftrightarrow> ga_new al = Some p \<and> ga_members_ok al \<and> fresh r (Some p) \<and> next_group r < MAX_GROUPS"

text \<open>
  What an operation that builds the group \<open>g\<close> leaves behind: \<open>g\<close> without members is the
  empty group of slot 1, any other is a new group in the next slot. Every other group is as before.
\<close>

definition built :: "u32 list \<Rightarrow> int \<Rightarrow> group_reg \<Rightarrow> addr \<Rightarrow> group_reg \<Rightarrow> bool" where
  "built ms rank r p r' \<longleftrightarrow>
     grp_ok r' \<and>
     (\<exists>h. heap r' p = Some \<lparr>g_handle = h, g_rank = rank, g_size = int (length ms), g_members = ms\<rparr> \<and>
        (if ms = [] then slots r' = slots r \<and> slots r EMPI_GROUP_EMPTY = Some p
         else h = next_group r \<and> slots r' = (slots r)(h \<mapsto> p) \<and> slots r h = None \<and> heap r p = None)) \<and>
     (\<forall>q. q \<noteq> p \<longrightarrow> heap r' q = heap r q)"

lemma built_new:
  assumes "grp_ok r" "room al p r" "ms \<noteq> []"
  shows "built ms k r p (new_group r p \<lparr>g_handle = next_group r, g_rank = k, g_size = int (length ms), g_members = ms\<rparr>)"
  using assms new_group_ok [OF assms(1), of p]
  by (auto simp: built_def room_def fresh_def grp_ok_def [of r])

lemma built_empty:
  assumes "grp_ok r"
  obtains e x where "slots r EMPI_GROUP_EMPTY = Some e" "heap r e = Some x" "g_members x = []" "g_size x = 0"
    "\<And>k. built [] k r e (r\<lparr>heap := (heap r)(e \<mapsto> x\<lparr>g_rank := k\<rparr>)\<rparr>)"
proof -
  from assms obtain e x where e: "slots r 1 = Some e" "heap r e = Some x" "g_size x = 0" "g_members x = []"
    "\<forall>i. slots r i = Some e \<longrightarrow> i = 1" by (auto simp: grp_ok_def)
  have "built [] k r e (r\<lparr>heap := (heap r)(e \<mapsto> x\<lparr>g_rank := k\<rparr>)\<rparr>)" for k
  proof -
    have "reg_inv g_handle 2 MAX_GROUPS (r\<lparr>heap := (heap r)(e \<mapsto> x\<lparr>g_rank := k\<rparr>)\<rparr>)"
      using assms e by (intro reg_inv_update) (auto simp: grp_ok_def)
    then show ?thesis using assms e by (auto simp: built_def grp_ok_def group_fields(6))
  qed
  with e show ?thesis by (intro that) auto
qed

subsection \<open>The group of a communicator\<close>

lemma group_comm_group_built:
  assumes ok: "grp_ok r" and room: "room al p r" and c: "0 < c_global_size c"
    "int (length (c_members c)) = c_global_size c"
  shows "\<exists>r'. group_comm_group ef al (Some c) r = Some (EMPI_SUCCESS, Some p, r') \<and>
     built (c_members c) (c_global_rank c) r p r'"
proof -
  have two: "2 \<le> next_group r" using ok by (simp add: grp_ok_def)
  have len: "nat (c_global_size c) = length (c_members c)" using c by simp
  let ?g = "(ga_junk al)\<lparr>g_handle := next_group r, g_members := map (ga_fill al) [0 ..< nat (c_global_size c)]\<rparr>"
  have "create_group ef al (c_global_size c) r = Some (Some p, new_group r p ?g)"
    unfolding create_group_pos [OF c(1) two] using room by (simp add: room_def)
  moreover have "arr_fill (arr_read (c_members c)) (length (c_members c)) 0
      (map (ga_fill al) [0 ..< length (c_members c)]) = Some (map ((!) (c_members c)) [0 ..< length (c_members c)])"
    by (rule arr_fill_all) simp_all
  ultimately have "group_comm_group ef al (Some c) r = Some (EMPI_SUCCESS, Some p,
      new_group r p \<lparr>g_handle = next_group r, g_rank = c_global_rank c, g_size = c_global_size c,
        g_members = c_members c\<rparr>)"
    using len by (simp add: group_comm_group_def map_nth group_fields(1))
  moreover have "c_members c \<noteq> []" using c by auto
  ultimately show ?thesis using built_new [OF ok room, of "c_members c" "c_global_rank c"] c by simp
qed

subsection \<open>Union\<close>

lemma push_room [simp]: "int (length xs) < cap \<Longrightarrow> push cap xs x = Some (xs @ [x])"
  by (simp add: push_def)

lemma union_copy_all:
  "length ms = k + n \<Longrightarrow> int (length acc + n) \<le> cap \<Longrightarrow>
     union_copy cap ms n (int k) acc = Some (acc @ drop k ms)"
proof (induction n arbitrary: k acc)
  case (Suc n)
  have "union_copy cap ms n (int (Suc k)) (acc @ [ms ! k]) = Some ((acc @ [ms ! k]) @ drop (Suc k) ms)"
    using Suc.prems by (intro Suc.IH) auto
  then show ?case using Suc.prems by (simp add: add.commute Cons_nth_drop_Suc)
qed simp

lemma union_found_iff:
  "length ms = k + n \<Longrightarrow> union_found x ms n (int k) = Some (x \<in> set (drop k ms))"
proof (induction n arbitrary: k)
  case (Suc n)
  have "union_found x ms n (int (Suc k)) = Some (x \<in> set (drop (Suc k) ms))"
    using Suc.prems by (intro Suc.IH) simp
  moreover have "drop k ms = ms ! k # drop (Suc k) ms" using Suc.prems by (simp add: Cons_nth_drop_Suc)
  ultimately show ?case using Suc.prems by (simp add: add.commute)
qed simp

lemma union_add_all:
  assumes "g_size g1 = int (length (g_members g1))"
  shows "length ms = k + n \<Longrightarrow> int (length acc + n) \<le> cap \<Longrightarrow> distinct ms \<Longrightarrow>
     union_add pid cap g1 ms n (int k) acc rank =
       (let new = filter (\<lambda>m. m \<notin> set (g_members g1)) (drop k ms) in
        Some (acc @ new, if pid \<in> set new then int (length acc) + rank_of pid new else rank))"
proof (induction n arbitrary: k acc rank)
  case (Suc n)
  have d: "drop k ms = ms ! k # drop (Suc k) ms" using Suc.prems by (simp add: Cons_nth_drop_Suc)
  from Suc.prems(3) have "distinct (drop k ms)" by simp
  then have nin: "ms ! k \<notin> set (drop (Suc k) ms)" unfolding d by simp
  have f: "union_found (ms ! k) (g_members g1) (nat (g_size g1)) 0 = Some (ms ! k \<in> set (g_members g1))"
    using union_found_iff [of "g_members g1" 0 "length (g_members g1)"] assms by simp
  have IH: "union_add pid cap g1 ms n (int k + 1) acc' rank' =
       (let new = filter (\<lambda>m. m \<notin> set (g_members g1)) (drop (Suc k) ms) in
        Some (acc' @ new, if pid \<in> set new then int (length acc') + rank_of pid new else rank'))"
    if "int (length acc' + n) \<le> cap" for acc' rank'
    using Suc.IH [of "Suc k" acc' rank'] Suc.prems that by (simp add: add.commute)
  show ?case
    using Suc.prems f nin by (auto simp: d IH Let_def)
qed simp

definition union_members :: "u32 list \<Rightarrow> u32 list \<Rightarrow> u32 list" where
  "union_members xs ys = xs @ filter (\<lambda>m. m \<notin> set xs) ys"

lemma union_members_length: "length (union_members xs ys) \<le> length xs + length ys"
  by (simp add: union_members_def)

lemma union_members_distinct: "distinct xs \<Longrightarrow> distinct ys \<Longrightarrow> distinct (union_members xs ys)"
  by (auto simp: union_members_def)

lemma rank_of_union:
  "rank_of pid (union_members xs ys) =
     (let new = filter (\<lambda>m. m \<notin> set xs) ys in
      if rank_of pid xs \<noteq> -1 then rank_of pid xs
      else if rank_of pid ys \<noteq> -1 then
        (if pid \<in> set new then int (length xs) + rank_of pid new else -1)
      else -1)"
  by (auto simp: union_members_def rank_of_append)

lemma union_loops:
  assumes wf: "group_wf pid g1" "group_wf pid g2" and size: "0 < g_size g1 + g_size g2"
  shows "(do {
      members \<leftarrow> union_copy (g_size g1 + g_size g2) (g_members g1) (nat (g_size g1)) 0 [];
      union_add pid (g_size g1 + g_size g2) g1 (g_members g2) (nat (g_size g2)) 0 members (-1)
    }) = Some (union_members (g_members g1) (g_members g2),
      let new = filter (\<lambda>m. m \<notin> set (g_members g1)) (g_members g2) in
      if pid \<in> set new then int (length (g_members g1)) + rank_of pid new else -1)"
proof -
  from wf have len: "g_size g1 = int (length (g_members g1))" "g_size g2 = int (length (g_members g2))"
    "distinct (g_members g2)" by (simp_all add: group_wf_def)
  have "union_copy (g_size g1 + g_size g2) (g_members g1) (nat (g_size g1)) (int 0) [] = Some (g_members g1)"
    using union_copy_all [of "g_members g1" 0 "nat (g_size g1)" "[]" "g_size g1 + g_size g2"] len by simp
  moreover have "union_add pid (g_size g1 + g_size g2) g1 (g_members g2) (nat (g_size g2)) (int 0) (g_members g1) (-1) =
      (let new = filter (\<lambda>m. m \<notin> set (g_members g1)) (drop 0 (g_members g2)) in
        Some (g_members g1 @ new, if pid \<in> set new then int (length (g_members g1)) + rank_of pid new else -1))"
    using len by (intro union_add_all) simp_all
  ultimately show ?thesis by (simp add: union_members_def Let_def)
qed

lemma group_union_built:
  assumes ok: "grp_ok r" and room: "room al p r"
    and g: "heap r in1 = Some g1" "heap r in2 = Some g2" "group_wf pid g1" "group_wf pid g2"
    and size: "g_size g1 + g_size g2 < 2 ^ 31"
  defines "ms \<equiv> union_members (g_members g1) (g_members g2)"
  shows "\<exists>q r'. group_union ef pid True al in1 in2 r = Some (EMPI_SUCCESS, Some q, r') \<and>
     built ms (rank_of pid ms) r q r'"
proof -
  let ?total = "g_size g1 + g_size g2"
  let ?new = "filter (\<lambda>m. m \<notin> set (g_members g1)) (g_members g2)"
  let ?rank = "if pid \<in> set ?new then int (length (g_members g1)) + rank_of pid ?new else -1"
  from g(3,4) have len: "g_size g1 = int (length (g_members g1))" "g_size g2 = int (length (g_members g2))"
    and ranks: "g_rank g1 = rank_of pid (g_members g1)" "g_rank g2 = rank_of pid (g_members g2)"
    by (simp_all add: group_wf_def)
  then have io: "int_ok ?total" using size by (simp add: int_ok_def)
  show ?thesis
  proof (cases "ms = []")
    case True
    then have nil: "g_members g1 = []" "g_members g2 = []"
      by (auto simp: ms_def union_members_def)
    with len ranks have z: "?total = 0" "g_rank g1 = -1" "g_rank g2 = -1" "g_size g1 = 0" "g_size g2 = 0" by simp_all
    obtain e x where e: "slots r 1 = Some e" "heap r e = Some x" "g_members x = []" "g_size x = 0"
      "\<And>k. built [] k r e (r\<lparr>heap := (heap r)(e \<mapsto> x\<lparr>g_rank := k\<rparr>)\<rparr>)"
      using built_empty [OF ok] by blast
    have x: "x\<lparr>g_size := 0, g_rank := -1, g_members := []\<rparr> = x\<lparr>g_rank := -1\<rparr>"
      "x\<lparr>g_size := 0\<rparr> = x" using e by simp_all
    have "group_union ef pid True al in1 in2 r = Some (EMPI_SUCCESS, Some e,
        r\<lparr>heap := (heap r)(e \<mapsto> x\<lparr>g_rank := -1\<rparr>)\<rparr>)"
      using g(1,2) z io e x
      by (auto simp: group_union_def create_group_def tbl_read_def MAX_GROUPS_def set_group_def group_fields)
    with e(5) True show ?thesis by auto
  next
    case False
    have l: "0 < length ms" using False by simp
    also have "length ms \<le> length (g_members g1) + length (g_members g2)"
      unfolding ms_def by (rule union_members_length)
    finally have "0 < length (g_members g1) + length (g_members g2)" .
    then have pos: "0 < ?total" "0 < int (length ms)" using len l by linarith+
    have two: "2 \<le> next_group r" using ok by (simp add: grp_ok_def)
    let ?j = "(ga_junk al)\<lparr>g_handle := next_group r, g_members := map (ga_fill al) [0 ..< length ms]\<rparr>"
    have cr: "create_group ef al (int (length ms)) r = Some (Some p, new_group r p ?j)"
      unfolding create_group_pos [OF pos(2) two] using room by (simp add: room_def)
    have fill: "arr_fill (arr_read ms) (length ms) 0 (map (ga_fill al) [0 ..< length ms]) = Some ms"
      using arr_fill_all [of "map (ga_fill al) [0 ..< length ms]" "length ms" "arr_read ms" "(!) ms"]
      by (simp add: map_nth)
    define rank where "rank = ?rank"
    have rk: "rank_of pid ms = (if g_rank g1 \<noteq> -1 then g_rank g1 else if g_rank g2 \<noteq> -1 then rank else -1)"
      unfolding ms_def rank_of_union Let_def ranks rank_def ..
    have loops: "(do {
        members \<leftarrow> union_copy ?total (g_members g1) (nat (g_size g1)) 0 [];
        union_add pid ?total g1 (g_members g2) (nat (g_size g2)) 0 members (-1)
      }) = Some (ms, rank)"
      unfolding union_loops [OF g(3,4) pos(1)] ms_def rank_def Let_def ..
    have ne: "in1 \<noteq> p" "in2 \<noteq> p" using g(1,2) room by (auto simp: room_def fresh_def)
    have "group_union ef pid True al in1 in2 r = Some (EMPI_SUCCESS, Some p,
        new_group r p \<lparr>g_handle = next_group r, g_rank = rank_of pid ms, g_size = int (length ms), g_members = ms\<rparr>)"
      unfolding group_union_def
      using g(1,2) io pos(1) cr fill ne loops
      by (simp add: Let_def group_fields(1) rk [symmetric])
    with built_new [OF ok room False] show ?thesis by blast
  qed
qed

subsection \<open>Inclusion by ranks\<close>

definition ranks_in :: "int \<Rightarrow> int list \<Rightarrow> bool" where
  "ranks_in n ranks \<longleftrightarrow> (\<forall>k \<in> set ranks. 0 \<le> k \<and> k < n)"

definition members_at :: "group_s \<Rightarrow> int list \<Rightarrow> u32 list" where
  "members_at g ranks = map (\<lambda>k. g_members g ! nat k) ranks"

lemma members_at_simps [simp]:
  "members_at g [] = []" "members_at g (xs @ ys) = members_at g xs @ members_at g ys"
  "length (members_at g ranks) = length ranks"
  by (simp_all add: members_at_def)

lemma members_at_distinct:
  assumes "group_wf pid g" "ranks_in (g_size g) ranks" "distinct ranks"
  shows "distinct (members_at g ranks)"
  unfolding members_at_def distinct_map
proof (intro conjI inj_onI)
  fix a b assume "a \<in> set ranks" "b \<in> set ranks" and eq: "g_members g ! nat a = g_members g ! nat b"
  with assms(1,2) have "0 \<le> a" "0 \<le> b" "nat a < length (g_members g)" "nat b < length (g_members g)"
    by (auto simp: group_wf_def ranks_in_def)
  moreover from this eq assms(1) have "nat a = nat b"
    by (simp add: group_wf_def nth_eq_iff_index_eq)
  ultimately show "a = b" by simp
qed (rule assms(3))

text \<open>With valid ranks the loop stores the selected members one after the other.\<close>

lemma incl_loop_copy:
  assumes "g_size g = int (length (g_members g))" "ranks_in (g_size g) ranks" "inp \<noteq> p"
  shows "length ranks = k + n \<Longrightarrow> heap r inp = Some g \<Longrightarrow>
     incl_loop ef pid inp p ranks n (int k) r =
       map_option (Pair EMPI_SUCCESS) (range_copy pid p (members_at g ranks) n (int k) r)"
proof (induction n arbitrary: k r)
  case (Suc n)
  have k: "k < length ranks" using Suc.prems(1) by simp
  then have "0 \<le> ranks ! k" "ranks ! k < g_size g" using assms(2) by (auto simp: ranks_in_def)
  then have m: "arr_read (g_members g) (ranks ! k) = Some (members_at g ranks ! k)"
    using assms(1) k by (simp add: arr_read_def members_at_def)
  have IH: "incl_loop ef pid inp p ranks n (int k + 1) r' =
       map_option (Pair EMPI_SUCCESS) (range_copy pid p (members_at g ranks) n (int k + 1) r')"
    if "heap r' inp = Some g" for r'
    using Suc.IH [of "Suc k" r'] Suc.prems(1) that by (simp add: add.commute)
  show ?case
  proof (cases "heap r p")
    case (Some x)
    show ?thesis
    proof (cases "arr_write (g_members x) (int k) (members_at g ranks ! k)")
      case (Some ms)
      with \<open>heap r p = Some x\<close> m k Suc.prems(2) \<open>0 \<le> ranks ! k\<close> \<open>ranks ! k < g_size g\<close> assms(3)
      show ?thesis by (simp add: set_group_def IH)
    qed (use Some m k Suc.prems(2) \<open>0 \<le> ranks ! k\<close> \<open>ranks ! k < g_size g\<close> in simp)
  qed (use m k Suc.prems(2) \<open>0 \<le> ranks ! k\<close> \<open>ranks ! k < g_size g\<close> in simp)
qed simp

lemma range_copy_new:
  assumes "distinct tmp"
  shows "length tmp = k + n \<Longrightarrow> length (g_members x) = k + n \<Longrightarrow>
     range_copy pid p tmp n (int k) (new_group r p x) =
       Some (new_group r p (x\<lparr>g_members := take k (g_members x) @ drop k tmp,
         g_rank := (if pid \<in> set (drop k tmp) then int k + rank_of pid (drop k tmp) else g_rank x)\<rparr>))"
proof (induction n arbitrary: k x)
  case 0
  then have "x\<lparr>g_members := take k (g_members x), g_rank := g_rank x\<rparr> = x" by (cases x) simp
  then show ?case using 0 by simp
next
  case (Suc n)
  let ?x = "x\<lparr>g_members := (g_members x)[k := tmp ! k], g_rank := (if tmp ! k = pid then int k else g_rank x)\<rparr>"
  have d: "drop k tmp = tmp ! k # drop (Suc k) tmp" using Suc.prems by (simp add: Cons_nth_drop_Suc)
  from assms have "distinct (drop k tmp)" by simp
  then have nin: "tmp ! k \<notin> set (drop (Suc k) tmp)" unfolding d by simp
  have w: "arr_write (g_members x) (int k) (tmp ! k) = Some ((g_members x)[k := tmp ! k])"
    using Suc.prems(2) by (simp add: arr_write_def)
  have t: "take (Suc k) ((g_members x)[k := tmp ! k]) = take k (g_members x) @ [tmp ! k]"
    using Suc.prems(2) by (simp add: take_Suc_conv_app_nth)
  have "range_copy pid p tmp n (int (Suc k)) (new_group r p ?x) =
       Some (new_group r p (?x\<lparr>g_members := take (Suc k) (g_members ?x) @ drop (Suc k) tmp,
         g_rank := (if pid \<in> set (drop (Suc k) tmp) then int (Suc k) + rank_of pid (drop (Suc k) tmp) else g_rank ?x)\<rparr>))"
    using Suc.prems by (intro Suc.IH) simp_all
  then show ?case
    using Suc.prems w nin by (auto simp: d t ac_simps)
qed

lemma range_copy_built:
  assumes ok: "grp_ok r" and room: "room al p r" and "distinct tmp" "tmp \<noteq> []"
  defines "g \<equiv> (ga_junk al)\<lparr>g_handle := next_group r, g_members := map (ga_fill al) [0 ..< length tmp],
    g_size := int (length tmp), g_rank := -1\<rparr>"
  shows "\<exists>r'. range_copy pid p tmp (length tmp) 0 (new_group r p g) = Some r' \<and> built tmp (rank_of pid tmp) r p r'"
proof -
  have "range_copy pid p tmp (length tmp) (int 0) (new_group r p g) =
       Some (new_group r p (g\<lparr>g_members := take 0 (g_members g) @ drop 0 tmp,
         g_rank := (if pid \<in> set (drop 0 tmp) then int 0 + rank_of pid (drop 0 tmp) else g_rank g)\<rparr>))"
    by (rule range_copy_new) (simp_all add: assms(3) g_def)
  moreover have "g\<lparr>g_members := take 0 (g_members g) @ drop 0 tmp,
         g_rank := (if pid \<in> set (drop 0 tmp) then int 0 + rank_of pid (drop 0 tmp) else g_rank g)\<rparr> =
      \<lparr>g_handle = next_group r, g_rank = rank_of pid tmp, g_size = int (length tmp), g_members = tmp\<rparr>"
    by (cases "ga_junk al") (simp add: g_def rank_of_def)
  ultimately show ?thesis using built_new [OF ok room assms(4)] by simp
qed

text \<open>Creating a group and storing its size; the part that both inclusions share.\<close>

lemma create_sized:
  assumes ok: "grp_ok r" and room: "room al p r" and "0 < n"
  shows "create_group ef al (int n) r = Some (Some p,
      new_group r p ((ga_junk al)\<lparr>g_handle := next_group r, g_members := map (ga_fill al) [0 ..< n]\<rparr>))"
  using create_group_pos [of "int n" r ef al p] assms by (simp add: grp_ok_def room_def)

lemma create_empty:
  assumes "slots r 1 = Some e"
  shows "create_group ef al 0 r = Some (Some e, r)"
  using assms by (simp add: create_group_def tbl_read_def MAX_GROUPS_def)

lemma group_incl_built:
  assumes ok: "grp_ok r" and room: "room al p r" and g: "heap r inp = Some g" "group_wf pid g"
    and ranks: "ranks_in (g_size g) ranks" "distinct (members_at g ranks)"
  defines "ms \<equiv> members_at g ranks"
  shows "\<exists>q r'. group_incl ef pid al (Some inp) (int (length ranks)) ranks r = Some (EMPI_SUCCESS, Some q, r') \<and>
     built ms (rank_of pid ms) r q r'"
proof (cases "ranks = []")
  case True
  obtain e x where e: "slots r 1 = Some e" "heap r e = Some x" "g_members x = []" "g_size x = 0"
    "\<And>k. built [] k r e (r\<lparr>heap := (heap r)(e \<mapsto> x\<lparr>g_rank := k\<rparr>)\<rparr>)"
    using built_empty [OF ok] by blast
  then have "group_incl ef pid al (Some inp) (int (length ranks)) ranks r =
      Some (EMPI_SUCCESS, Some e, r\<lparr>heap := (heap r)(e \<mapsto> x\<lparr>g_rank := -1\<rparr>)\<rparr>)"
    using True by (simp add: group_incl_def create_empty set_group_def group_fields(4))
  with e(5) True show ?thesis by (auto simp: ms_def)
next
  case False
  have ne: "inp \<noteq> p" using g room by (auto simp: room_def fresh_def)
  have "ms \<noteq> []" using False by (simp add: ms_def members_at_def)
  from range_copy_built [OF ok room ranks(2) [folded ms_def] this, of pid] obtain r' where
    r': "range_copy pid p ms (length ranks) (int 0) (new_group r p ((ga_junk al)\<lparr>g_handle := next_group r,
       g_members := map (ga_fill al) [0 ..< length ranks], g_size := int (length ranks), g_rank := -1\<rparr>)) = Some r'"
    and b: "built ms (rank_of pid ms) r p r'"
    by (auto simp: ms_def)
  from incl_loop_copy [of g ranks inp p 0 "length ranks", OF _ ranks(1) ne] g ne r'
  have "group_incl ef pid al (Some inp) (int (length ranks)) ranks r = Some (EMPI_SUCCESS, Some p, r')"
    using False create_sized [OF ok room, of "length ranks"] 
    by (simp add: group_incl_def group_wf_def ms_def)
  with b show ?thesis by blast
qed

text \<open>A rank outside the group makes the call fail; the new group is deleted, its slot is not used again.\<close>

lemma incl_loop_error:
  assumes "g_size g = int (length (g_members g))" "inp \<noteq> p" "heap r inp = Some g"
    and "grp_ok r" "heap r p = None"
  shows "length ranks = k + n \<Longrightarrow> length (g_members x) = k + n \<Longrightarrow> g_handle x = next_group r \<Longrightarrow>
     next_group r < MAX_GROUPS \<Longrightarrow> \<not> ranks_in (g_size g) (drop k ranks) \<Longrightarrow>
     incl_loop False pid inp p ranks n (int k) (new_group r p x) =
       Some (EMPI_ERR_RANK, r\<lparr>next_group := next_group r + 1\<rparr>)"
proof (induction n arbitrary: k x)
  case 0
  then show ?case by (simp add: ranks_in_def)
next
  case (Suc n)
  have k: "k < length ranks" using Suc.prems(1) by simp
  have d: "drop k ranks = ranks ! k # drop (Suc k) ranks" using k by (simp add: Cons_nth_drop_Suc)
  show ?case
  proof (cases "0 \<le> ranks ! k \<and> ranks ! k < g_size g")
    case True
    let ?m = "g_members g ! nat (ranks ! k)"
    let ?x = "x\<lparr>g_members := (g_members x)[k := ?m], g_rank := (if ?m = pid then int k else g_rank x)\<rparr>"
    have m: "arr_read (g_members g) (ranks ! k) = Some ?m"
      using True assms(1) by (simp add: arr_read_def)
    have w: "arr_write (g_members x) (int k) ?m = Some ((g_members x)[k := ?m])"
      using Suc.prems(2) by (simp add: arr_write_def)
    have "incl_loop False pid inp p ranks n (int (Suc k)) (new_group r p ?x) =
       Some (EMPI_ERR_RANK, r\<lparr>next_group := next_group r + 1\<rparr>)"
      using Suc.prems True by (intro Suc.IH) (auto simp: ranks_in_def d)
    then show ?thesis using True m w k assms(2,3) by (simp add: add.commute)
  next
    case False
    have two: "2 \<le> next_group r" using assms(4) by (simp add: grp_ok_def)
    obtain e where e: "slots r 1 = Some e" "heap r e \<noteq> None" using assms(4) by (auto simp: grp_ok_def)
    then have "e \<noteq> p" using assms(5) by auto
    have "slots r (next_group r) = None" using assms(4) by (simp add: grp_ok_def)
    then have "(slots r)(next_group r := None) = slots r" by auto
    moreover have "(heap r)(p := None) = heap r" using assms(5) by auto
    ultimately have "delete_group (Some p) (new_group r p x) = Some (r\<lparr>next_group := next_group r + 1\<rparr>)"
      using e two Suc.prems(3,4) \<open>e \<noteq> p\<close>
      by (simp add: delete_group_def tbl_read_def tbl_write_def MAX_GROUPS_def new_group_def)
    then show ?thesis using False k assms(2,3) by auto
  qed
qed

lemma group_incl_error:
  assumes ok: "grp_ok r" and room: "room al p r" and g: "heap r inp = Some g" "group_wf pid g"
    and bad: "\<not> ranks_in (g_size g) ranks"
  shows "group_incl False pid al (Some inp) (int (length ranks)) ranks r =
      Some (EMPI_ERR_RANK, None, r\<lparr>next_group := next_group r + 1\<rparr>)"
proof -
  have ne: "inp \<noteq> p" "heap r p = None" using g room by (auto simp: room_def fresh_def)
  have "0 < length ranks" using bad by (auto simp: ranks_in_def)
  moreover have "incl_loop False pid inp p ranks (length ranks) (int 0)
      (new_group r p ((ga_junk al)\<lparr>g_handle := next_group r,
       g_members := map (ga_fill al) [0 ..< length ranks], g_size := int (length ranks), g_rank := -1\<rparr>)) =
      Some (EMPI_ERR_RANK, r\<lparr>next_group := next_group r + 1\<rparr>)"
    using g bad ok room ne
    by (intro incl_loop_error [of g]) (simp_all add: group_wf_def room_def)
  ultimately show ?thesis
    using create_sized [OF ok room, of "length ranks"] by (simp add: group_incl_def)
qed

subsection \<open>Inclusion by ranges\<close>

text \<open>The ranks that a valid range stands for, and how many there are.\<close>

definition range_count :: "int \<Rightarrow> int \<Rightarrow> int \<Rightarrow> nat" where
  "range_count first lst stride = Suc (nat ((lst - first) div stride))"

definition expand_range :: "int \<times> int \<times> int \<Rightarrow> int list" where
  "expand_range = (\<lambda>(first, lst, stride).
     map (\<lambda>k. first + int k * stride) [0 ..< range_count first lst stride])"

definition valid_range :: "int \<Rightarrow> int \<times> int \<times> int \<Rightarrow> bool" where
  "valid_range n = (\<lambda>(first, lst, stride).
     0 \<le> first \<and> first < n \<and> 0 \<le> lst \<and> lst < n \<and> - (2 ^ 31) \<le> stride \<and>
     (first \<le> lst \<and> 0 < stride \<and> lst + stride < 2 ^ 31 \<or> lst \<le> first \<and> stride < 0))"

lemma range_count_step:
  assumes "0 < s \<and> i + s \<le> lst \<or> s < 0 \<and> lst \<le> i + s"
  shows "range_count i lst s = Suc (range_count (i + s) lst s)"
proof -
  have "s \<noteq> 0" using assms by auto
  then have "(lst - (i + s)) div s = (lst - i) div s - 1"
    using div_mult_self1 [of s "lst - i" "-1"] by (simp add: algebra_simps)
  moreover have "0 \<le> (lst - (i + s)) div s"
    using assms by (auto simp: pos_imp_zdiv_nonneg_iff neg_imp_zdiv_nonneg_iff)
  ultimately show ?thesis by (simp add: range_count_def nat_diff_distrib')
qed

lemma range_count_end:
  assumes "0 < s \<and> i \<le> lst \<and> lst < i + s \<or> s < 0 \<and> lst \<le> i \<and> i + s < lst"
  shows "range_count i lst s = 1"
proof -
  have "(lst - i) div s = 0"
    using assms by (auto simp: div_pos_pos_trivial div_neg_neg_trivial)
  then show ?thesis by (simp add: range_count_def)
qed

lemma expand_range_step:
  assumes "0 < s \<and> i + s \<le> lst \<or> s < 0 \<and> lst \<le> i + s"
  shows "expand_range (i, lst, s) = i # expand_range (i + s, lst, s)"
proof -
  have "[0 ..< Suc n] = 0 # map Suc [0 ..< n]" for n
    by (simp add: map_Suc_upt upt_conv_Cons)
  then show ?thesis using range_count_step [OF assms]
    by (simp add: expand_range_def comp_def algebra_simps)
qed

lemma expand_range_end:
  "0 < s \<and> i \<le> lst \<and> lst < i + s \<or> s < 0 \<and> lst \<le> i \<and> i + s < lst \<Longrightarrow> expand_range (i, lst, s) = [i]"
  by (simp add: expand_range_def range_count_end)

lemma range_loop_valid:
  assumes "g_size g = int (length (g_members g))" "g_size g < 2 ^ 31"
  shows "valid_range (g_size g) (i, lst, s) \<Longrightarrow>
     int (length dst) + int (length (expand_range (i, lst, s))) \<le> g_size g \<Longrightarrow>
     range_loop ef g lst s i dst = Some (EMPI_SUCCESS, dst @ members_at g (expand_range (i, lst, s)))"
  using assms
proof (induction ef g lst s i dst rule: range_loop.induct)
  case (1 ef g lst s i dst)
  let ?c = "if s > 0 then i < g_size g \<and> i \<le> lst else i \<ge> 0 \<and> i \<ge> lst"
  from "1.prems"(1,4) have v: "s \<noteq> 0" "0 \<le> i" "i < g_size g" ?c "int_ok (i + s)"
    by (auto simp: valid_range_def int_ok_def)
  then have m: "arr_read (g_members g) i = Some (g_members g ! nat i)"
    using "1.prems"(3) by (simp add: arr_read_def)
  have "expand_range (i, lst, s) \<noteq> []" by (simp add: expand_range_def range_count_def)
  then have "0 < length (expand_range (i, lst, s))" by simp
  then have room: "\<not> int (length dst) \<ge> g_size g" using "1.prems"(2) by linarith
  have loop: "range_loop ef g lst s i dst = range_loop ef g lst s (i + s) (dst @ [g_members g ! nat i])"
    using v m room by (simp add: range_loop.simps [of ef g lst s i dst])
  show ?case
  proof (cases "0 < s \<and> i + s \<le> lst \<or> s < 0 \<and> lst \<le> i + s")
    case True
    have "valid_range (g_size g) (i + s, lst, s)"
      using True "1.prems"(1) by (auto simp: valid_range_def)
    then have "range_loop ef g lst s (i + s) (dst @ [g_members g ! nat i]) =
        Some (EMPI_SUCCESS, (dst @ [g_members g ! nat i]) @ members_at g (expand_range (i + s, lst, s)))"
      using "1.prems"(2-4) True room
      by (intro "1.IH" [OF v(1,4) room m v(5)]) (simp_all add: expand_range_step)
    then show ?thesis unfolding loop by (simp add: expand_range_step [OF True] members_at_def)
  next
    case False
    then have e: "0 < s \<and> i \<le> lst \<and> lst < i + s \<or> s < 0 \<and> lst \<le> i \<and> i + s < lst"
      using v(1) "1.prems"(1) by (auto simp: valid_range_def)
    then have "range_loop ef g lst s (i + s) (dst @ [g_members g ! nat i]) = Some (EMPI_SUCCESS, dst @ [g_members g ! nat i])"
      using "1.prems"(1) by (subst range_loop.simps) (auto simp: valid_range_def)
    then show ?thesis unfolding loop by (simp add: expand_range_end [OF e] members_at_def)
  qed
qed

lemma ranges_loop_valid:
  assumes "g_size g = int (length (g_members g))" "g_size g < 2 ^ 31"
    and "\<forall>x \<in> set ranges. valid_range (g_size g) x"
  shows "length ranges = k + n \<Longrightarrow>
     int (length dst) + int (length (concat (map expand_range (drop k ranges)))) \<le> g_size g \<Longrightarrow>
     ranges_loop ef g ranges n (int k) dst =
       Some (EMPI_SUCCESS, dst @ members_at g (concat (map expand_range (drop k ranges))))"
proof (induction n arbitrary: k dst)
  case (Suc n)
  obtain i lst s where x: "ranges ! k = (i, lst, s)" by (cases "ranges ! k")
  have d: "drop k ranges = (i, lst, s) # drop (Suc k) ranges"
    using Suc.prems(1) by (simp add: Cons_nth_drop_Suc flip: x)
  have "ranges ! k \<in> set ranges" using Suc.prems(1) by simp
  with assms(3) x have v: "valid_range (g_size g) (i, lst, s)" by auto
  have "range_loop ef g lst s i dst = Some (EMPI_SUCCESS, dst @ members_at g (expand_range (i, lst, s)))"
    using Suc.prems(2) d by (intro range_loop_valid [OF assms(1,2) v]) simp
  then have "get_range ef g dst i lst s = Some (EMPI_SUCCESS, dst @ members_at g (expand_range (i, lst, s)))"
    using v by (auto simp: get_range_def valid_range_def)
  moreover have "ranges_loop ef g ranges n (int (Suc k)) (dst @ members_at g (expand_range (i, lst, s))) =
      Some (EMPI_SUCCESS, (dst @ members_at g (expand_range (i, lst, s))) @
        members_at g (concat (map expand_range (drop (Suc k) ranges))))"
    using Suc.prems d by (intro Suc.IH) simp_all
  ultimately show ?case using Suc.prems(1) x d by (simp add: add.commute)
qed simp

lemma expand_range_in:
  assumes "valid_range n (i, lst, s)"
  shows "ranks_in n (expand_range (i, lst, s))"
proof -
  have "0 \<le> i + int k * s \<and> i + int k * s < n" if "k < range_count i lst s" for k
  proof -
    have s: "s \<noteq> 0" using assms by (auto simp: valid_range_def)
    have "0 \<le> (lst - i) div s"
      using assms by (auto simp: valid_range_def pos_imp_zdiv_nonneg_iff neg_imp_zdiv_nonneg_iff)
    with that have k: "0 \<le> int k" "int k \<le> (lst - i) div s" by (auto simp: range_count_def)
    show ?thesis
    proof (cases "0 < s")
      case True
      with k have "0 \<le> int k * s" "int k * s \<le> ((lst - i) div s) * s"
        by (simp_all add: mult_right_mono)
      moreover have "((lst - i) div s) * s \<le> lst - i"
        using True by (metis minus_mod_eq_div_mult pos_mod_sign diff_ge_0_iff_ge le_add_same_cancel1 diff_add_cancel add.commute)
      ultimately show ?thesis using assms by (auto simp: valid_range_def)
    next
      case False
      with s have neg: "s < 0" by simp
      have "int k * s \<le> 0" using neg by (simp add: mult_nonneg_nonpos)
      moreover have "((lst - i) div s) * s \<le> int k * s"
        using k(2) neg by (intro mult_right_mono_neg) simp_all
      moreover have "lst - i \<le> ((lst - i) div s) * s"
        using neg neg_mod_sign [OF neg, of "lst - i"] by (simp add: minus_mod_eq_div_mult [symmetric])
      ultimately have "int k * s \<le> 0" "lst - i \<le> int k * s" by linarith+
      then show ?thesis using assms neg by (auto simp: valid_range_def)
    qed
  qed
  then show ?thesis by (auto simp: ranks_in_def expand_range_def)
qed

text \<open>
  The documented meaning of \<open>group_range_incl\<close>: expand the ranges and include by ranks. The two
  runs are equal, errors of the allocation included.
\<close>

lemma range_incl_expand:
  assumes g: "heap r inp = Some g" "group_wf pid g" "0 < g_size g"
    and fr: "ga_new al \<noteq> Some inp" "slots r EMPI_GROUP_EMPTY \<noteq> Some inp"
    and v: "\<forall>x \<in> set ranges. valid_range (g_size g) x"
  defines "ranks \<equiv> concat (map expand_range ranges)"
  assumes len: "int (length ranks) \<le> g_size g"
  shows "group_range_incl ef pid True al (Some inp) (int (length ranges)) ranges r =
    group_incl ef pid al (Some inp) (int (length ranks)) ranks r"
proof -
  from g(2) have size: "g_size g = int (length (g_members g))" "g_size g < 2 ^ 31"
    by (simp_all add: group_wf_def)
  have loop: "ranges_loop ef g ranges (length ranges) 0 [] = Some (EMPI_SUCCESS, members_at g ranks)"
    using ranges_loop_valid [OF size v, of 0 "length ranges" "[]" ef] len by (simp add: ranks_def)
  have rin: "ranks_in (g_size g) ranks"
    using v expand_range_in unfolding ranks_def ranks_in_def by fastforce
  have copy: "incl_loop ef pid inp p ranks (length ranks) 0 r' =
       map_option (Pair EMPI_SUCCESS) (range_copy pid p (members_at g ranks) (length ranks) 0 r')"
    if "inp \<noteq> p" "heap r' inp = Some g" for p r'
    using incl_loop_copy [OF size(1) rin that(1), of 0 "length ranks" r' ef pid] that(2) by simp
  have frame: "inp \<noteq> p \<and> heap r2 inp = Some g"
    if "create_group ef al (int (length ranks)) r = Some (Some p, r1)"
      "set_group p f r1 = Some r2" for p r1 r2 f
    using that fr g(1)
    by (auto simp: create_group_def add_group_def set_group_def tbl_read_Some_iff tbl_write_Some_iff Let_def
        bind_eq_Some_conv split: option.splits if_splits)
  show ?thesis
  proof (cases "create_group ef al (int (length ranks)) r")
    case (Some res)
    obtain po r1 where res: "res = (po, r1)" by (cases res)
    show ?thesis
    proof (cases po)
      case (Some p)
      show ?thesis
      proof (cases "set_group p (\<lambda>g. g\<lparr>g_size := int (length ranks), g_rank := -1\<rparr>) r1")
        case (Some r2)
        from frame [OF _ this] \<open>create_group _ _ _ _ = Some res\<close> res \<open>po = Some p\<close>
        have "inp \<noteq> p" "heap r2 inp = Some g" by auto
        from copy [OF this] show ?thesis
          using \<open>create_group _ _ _ _ = Some res\<close> res \<open>po = Some p\<close> Some g loop
          by (simp add: group_range_incl_def group_incl_def map_option_case split: option.splits)
      qed (use \<open>create_group _ _ _ _ = Some res\<close> res Some g loop in
            \<open>simp add: group_range_incl_def group_incl_def\<close>)
    qed (use Some res g loop in \<open>simp add: group_range_incl_def group_incl_def\<close>)
  qed (use g loop in \<open>simp add: group_range_incl_def group_incl_def\<close>)
qed

end
