(* ===== verification/Byte_Order.thy ===== *)
theory Byte_Order
  imports Data_Message
begin

text \<open>
  Words in memory and on the wire: \<^verbatim>\<open>htonl\<close> and \<^verbatim>\<open>ntohl\<close>, and the words of a structure or of
  a received buffer. The byte order of the host is the argument \<open>le\<close> of every model function that
  touches it: whether the host is little-endian.
\<close>

definition be_bytes :: "u32 \<Rightarrow> byte list" where
  "be_bytes w = [ucast (drop_bit 24 w), ucast (drop_bit 16 w), ucast (drop_bit 8 w), ucast w]"

definition be_word :: "byte list \<Rightarrow> u32" where
  "be_word bs = (push_bit 24 (ucast (bs ! 0)) OR push_bit 16 (ucast (bs ! 1))) OR
     (push_bit 8 (ucast (bs ! 2)) OR ucast (bs ! 3))"

text \<open>How a word lies in the memory of the host, and the word that lies in four bytes.\<close>

definition host_bytes :: "bool \<Rightarrow> u32 \<Rightarrow> byte list" where
  "host_bytes le w = (if le then rev (be_bytes w) else be_bytes w)"

definition host_word :: "bool \<Rightarrow> byte list \<Rightarrow> u32" where
  "host_word le bs = be_word (if le then rev bs else bs)"

definition htonl :: "bool \<Rightarrow> u32 \<Rightarrow> u32" where
  "htonl le w = host_word le (be_bytes w)"

definition ntohl :: "bool \<Rightarrow> u32 \<Rightarrow> u32" where
  "ntohl le w = be_word (host_bytes le w)"

lemma be_word_bytes [simp]: "be_word (be_bytes w) = w"
proof (rule bit_word_eqI)
  fix n assume "n < LENGTH(32)"
  then consider "n < 8" | "8 \<le> n" "n < 16" | "16 \<le> n" "n < 24" | "24 \<le> n" "n < 32" by force
  then show "bit (be_word (be_bytes w)) n = bit w n"
    by cases (auto simp: be_word_def be_bytes_def bit_simps)
qed

lemma four_cases: "length bs = 4 \<Longrightarrow> \<exists>a b c d. bs = [a, b, c, d]"
  by (auto simp: length_Suc_conv numeral_eq_Suc)

lemma no_byte_bit [simp]: "8 \<le> n \<Longrightarrow> \<not> bit (b :: byte) n"
  using bit_imp_le_length [of b n] by auto

lemma be_bytes_word: "length bs = 4 \<Longrightarrow> be_bytes (be_word bs) = bs"
  by (drule four_cases)
     (auto simp: be_word_def be_bytes_def bit_eq_iff bit_simps)

lemma length_be_bytes [simp]: "length (be_bytes w) = 4"
  by (simp add: be_bytes_def)

lemma host_bytes_htonl [simp]: "host_bytes le (htonl le w) = be_bytes w"
  using be_bytes_word [of "rev (be_bytes w)"] by (simp add: host_bytes_def htonl_def host_word_def)

lemma ntohl_host_word [simp]: "length bs = 4 \<Longrightarrow> ntohl le (host_word le bs) = be_word bs"
  using be_bytes_word [of "rev bs"] be_bytes_word [of bs]
  by (simp add: host_bytes_def ntohl_def host_word_def)

lemma ntohl_htonl [simp]: "ntohl le (htonl le w) = w"
  by (simp add: ntohl_def)

text \<open>The bytes of a structure of words, and the word with index \<open>i\<close> of a buffer.\<close>

definition struct_bytes :: "bool \<Rightarrow> u32 list \<Rightarrow> byte list" where
  "struct_bytes le ws = concat (map (host_bytes le) ws)"

definition word_field :: "bool \<Rightarrow> byte list \<Rightarrow> int \<Rightarrow> u32 run" where
  "word_field le bs i =
     (if 0 \<le> i \<and> 4 * (i + 1) \<le> int (length bs) then Some (host_word le (take 4 (drop (4 * nat i) bs))) else None)"

definition net_bytes :: "u32 list \<Rightarrow> byte list" where
  "net_bytes ws = concat (map be_bytes ws)"

lemma length_net_bytes [simp]: "length (net_bytes ws) = 4 * length ws"
  by (induction ws) (simp_all add: net_bytes_def)

lemma struct_bytes_htonl: "struct_bytes le (map (htonl le) ws) = net_bytes ws"
  by (simp add: struct_bytes_def net_bytes_def comp_def)

lemma take_drop_net_bytes: "i < length ws \<Longrightarrow> take 4 (drop (4 * i) (net_bytes ws)) = be_bytes (ws ! i)"
proof (induction ws arbitrary: i)
  case (Cons w ws)
  then show ?case by (cases i) (simp_all add: net_bytes_def)
qed simp

lemma word_field_net:
  assumes "i < length ws"
  shows "map_option (ntohl le) (word_field le (net_bytes ws) (int i)) = Some (ws ! i)"
proof -
  have "4 * (int i + 1) \<le> int (length (net_bytes ws))" using assms by simp
  moreover have "length (take 4 (drop (4 * i) (net_bytes ws))) = 4" using assms by simp
  ultimately show ?thesis using assms by (simp add: word_field_def take_drop_net_bytes)
qed

end
