(* ===== verification/Server_Messages.thy ===== *)
theory Server_Messages
  imports Messaging Process_Groups Byte_Order
begin

text \<open>
  The messages between an application process and the eSalsa server, the second half of
  \<^verbatim>\<open>src/backend/messaging.c\<close>: requests to split, create, duplicate and free communicators and to
  finalize, and the replies. They travel in network byte order; the server, a Java program,
  writes its replies field by field with \<^verbatim>\<open>DataOutputStream.writeInt\<close>
  (\<^verbatim>\<open>src/server/src/esalsa/SplitReply.java\<close> and its siblings).
\<close>

section \<open>Requests\<close>

definition OPCODE_SPLIT :: u32 where "OPCODE_SPLIT = 51"
definition OPCODE_SPLIT_REPLY :: u32 where "OPCODE_SPLIT_REPLY = 52"
definition OPCODE_GROUP :: u32 where "OPCODE_GROUP = 53"
definition OPCODE_GROUP_REPLY :: u32 where "OPCODE_GROUP_REPLY = 54"
definition OPCODE_DUP :: u32 where "OPCODE_DUP = 55"
definition OPCODE_DUP_REPLY :: u32 where "OPCODE_DUP_REPLY = 56"
definition OPCODE_FREE :: u32 where "OPCODE_FREE = 57"
definition OPCODE_FINALIZE :: u32 where "OPCODE_FINALIZE = 58"
definition OPCODE_FINALIZE_REPLY :: u32 where "OPCODE_FINALIZE_REPLY = 59"

definition SPLIT_REQUEST_MSG_SIZE :: int where "SPLIT_REQUEST_MSG_SIZE = MESSAGE_HEADER_SIZE + 4 * 4"
definition GROUP_REQUEST_MSG_SIZE :: int where "GROUP_REQUEST_MSG_SIZE = MESSAGE_HEADER_SIZE + 3 * 4"
definition DUP_REQUEST_MSG_SIZE :: int where "DUP_REQUEST_MSG_SIZE = MESSAGE_HEADER_SIZE + 2 * 4"
definition FREE_REQUEST_MSG_SIZE :: int where "FREE_REQUEST_MSG_SIZE = MESSAGE_HEADER_SIZE + 2 * 4"
definition FINALIZE_REQUEST_MSG_SIZE :: int where "FINALIZE_REQUEST_MSG_SIZE = MESSAGE_HEADER_SIZE + 2 * 4"

lemmas request_size_defs = SPLIT_REQUEST_MSG_SIZE_def GROUP_REQUEST_MSG_SIZE_def DUP_REQUEST_MSG_SIZE_def
  FREE_REQUEST_MSG_SIZE_def FINALIZE_REQUEST_MSG_SIZE_def MESSAGE_HEADER_SIZE_def

text \<open>\<open>mpi_error\<close> is what \<^verbatim>\<open>PMPI_Send\<close> returned; the result is the error code and the bytes
  handed to the gateway that talks to the server.\<close>

definition send_server_request :: "bool \<Rightarrow> int \<Rightarrow> byte list \<Rightarrow> (int \<times> byte list option) run" where
  "send_server_request ef mpi_error data =
     (if mpi_error \<noteq> 0 then ERROR ef (Some (mpi_error, None)) else Some (EMPI_SUCCESS, Some data))"

definition request_header :: "bool \<Rightarrow> u32 \<Rightarrow> u32 \<Rightarrow> int \<Rightarrow> u32 list" where
  "request_header le my_pid opc len =
     [htonl le opc, htonl le my_pid, htonl le server_pid, htonl le (word_of_int len)]"

definition messaging_comm_split_send ::
  "bool \<Rightarrow> bool \<Rightarrow> u32 \<Rightarrow> int \<Rightarrow> communicator \<Rightarrow> int \<Rightarrow> int \<Rightarrow> (int \<times> byte list option) run" where
  "messaging_comm_split_send ef le my_pid mpi_error c color key = do {
     let req = struct_bytes le (request_header le my_pid OPCODE_SPLIT SPLIT_REQUEST_MSG_SIZE @
       [htonl le (word_of_int (c_handle c)), htonl le (word_of_int (c_global_rank c)),
        htonl le (word_of_int color), htonl le (word_of_int key)]);
     (error, sent) \<leftarrow> send_server_request ef mpi_error (take (nat SPLIT_REQUEST_MSG_SIZE) req);
     if error \<noteq> EMPI_SUCCESS then ERROR ef (Some (error, sent)) else Some (EMPI_SUCCESS, sent)
   }"

fun read_words :: "u32 list \<Rightarrow> nat \<Rightarrow> int \<Rightarrow> u32 list run" where
  "read_words ms 0 i = Some []"
| "read_words ms (Suc n) i = do {
     m \<leftarrow> arr_read ms i;
     rest \<leftarrow> read_words ms n (i + 1);
     Some (m # rest)
   }"

definition messaging_comm_create_send ::
  "bool \<Rightarrow> bool \<Rightarrow> u32 \<Rightarrow> int \<Rightarrow> bool \<Rightarrow> communicator \<Rightarrow> group_s \<Rightarrow> (int \<times> byte list option) run" where
  "messaging_comm_create_send ef le my_pid mpi_error alloc c g = do {
     let msgsize = GROUP_REQUEST_MSG_SIZE + g_size g * 4;
     if \<not> alloc then ERROR ef (Some (EMPI_ERR_INTERN, None))
     else do {
       ms \<leftarrow> read_words (g_members g) (nat (g_size g)) 0;
       let req = struct_bytes le (request_header le my_pid OPCODE_GROUP msgsize @
         [htonl le (word_of_int (c_handle c)), htonl le (word_of_int (c_global_rank c)),
          htonl le (word_of_int (g_size g))] @ map (htonl le) ms);
       (error, sent) \<leftarrow> send_server_request ef mpi_error (take (nat msgsize) req);
       if error \<noteq> EMPI_SUCCESS then ERROR ef (Some (error, sent)) else Some (error, sent)
     }
   }"

definition comm_src_request :: "bool \<Rightarrow> u32 \<Rightarrow> u32 \<Rightarrow> int \<Rightarrow> communicator \<Rightarrow> byte list" where
  "comm_src_request le my_pid opc len c =
     struct_bytes le (request_header le my_pid opc len @
       [htonl le (word_of_int (c_handle c)), htonl le (word_of_int (c_global_rank c))])"

definition messaging_comm_dup_send ::
  "bool \<Rightarrow> bool \<Rightarrow> u32 \<Rightarrow> int \<Rightarrow> communicator \<Rightarrow> (int \<times> byte list option) run" where
  "messaging_comm_dup_send ef le my_pid mpi_error c = do {
     let req = comm_src_request le my_pid OPCODE_DUP DUP_REQUEST_MSG_SIZE c;
     (error, sent) \<leftarrow> send_server_request ef mpi_error (take (nat FREE_REQUEST_MSG_SIZE) req);
     if error \<noteq> EMPI_SUCCESS then ERROR ef (Some (error, sent)) else Some (error, sent)
   }"

definition messaging_comm_free_send ::
  "bool \<Rightarrow> bool \<Rightarrow> u32 \<Rightarrow> int \<Rightarrow> communicator \<Rightarrow> (int \<times> byte list option) run" where
  "messaging_comm_free_send ef le my_pid mpi_error c = do {
     let req = comm_src_request le my_pid OPCODE_FREE FREE_REQUEST_MSG_SIZE c;
     (error, sent) \<leftarrow> send_server_request ef mpi_error (take (nat FREE_REQUEST_MSG_SIZE) req);
     if error \<noteq> EMPI_SUCCESS then ERROR ef (Some (error, sent)) else Some (error, sent)
   }"

section \<open>Replies\<close>

text \<open>What receiving a reply of unknown length returned; \<open>rv_nomem\<close> is the value of
  \<^verbatim>\<open>MPI_ERR_INTERN\<close> in the local MPI library.\<close>

record mpi_recv =
  rv_probe_error :: int
  rv_count_error :: int
  rv_alloc :: bool
  rv_nomem :: int
  rv_error :: int
  rv_data :: "byte list"

definition receive_server_message :: "bool \<Rightarrow> int \<Rightarrow> byte list \<Rightarrow> (int \<times> byte list) run" where
  "receive_server_message ef mpi_error data =
     (if mpi_error \<noteq> 0 then ERROR ef (Some (mpi_error, data)) else Some (EMPI_SUCCESS, data))"

definition receive_server_message_varlen :: "bool \<Rightarrow> mpi_recv \<Rightarrow> (int \<times> byte list) run" where
  "receive_server_message_varlen ef rv =
     (if rv_probe_error rv \<noteq> 0 then ERROR ef (Some (rv_probe_error rv, []))
      else if rv_count_error rv \<noteq> 0 then ERROR ef (Some (rv_count_error rv, []))
      else if \<not> rv_alloc rv then ERROR ef (Some (rv_nomem rv, []))
      else receive_server_message ef (rv_error rv) (rv_data rv))"

text \<open>Field \<open>i\<close> of a reply, after \<^verbatim>\<open>ntohl\<close>.\<close>

definition reply_field :: "bool \<Rightarrow> byte list \<Rightarrow> int \<Rightarrow> u32 run" where
  "reply_field le bs i = do { w \<leftarrow> word_field le bs i; Some (ntohl le w) }"

fun copy_loop :: "bool \<Rightarrow> byte list \<Rightarrow> int \<Rightarrow> nat \<Rightarrow> u32 list run" where
  "copy_loop le bs i 0 = Some []"
| "copy_loop le bs i (Suc n) = do {
     w \<leftarrow> reply_field le bs i;
     ws \<leftarrow> copy_loop le bs (i + 1) n;
     Some (w # ws)
   }"

text \<open>\<open>start\<close>: the index of the first word of the payload; \<open>None\<close> is the null pointer.\<close>

definition copy_int_array :: "bool \<Rightarrow> bool \<Rightarrow> bool \<Rightarrow> byte list \<Rightarrow> int \<Rightarrow> int \<Rightarrow> int \<Rightarrow> u32 list option run" where
  "copy_int_array ef le ok bs start offset len =
     (if \<not> ok then ERROR ef (Some None)
      else do { ws \<leftarrow> copy_loop le bs (start + offset) (nat len); Some (Some ws) })"

text \<open>
  The arrays at the end of a reply; \<open>ok i\<close>: the i-th array was allocated. \<open>Inl\<close> is an error code.
\<close>

record reply_arrays =
  ra_coordinators :: "int list"
  ra_cluster_sizes :: "int list"
  ra_cluster_ranks :: "int list"
  ra_members :: "u32 list"
  ra_member_cluster_index :: "u32 list"
  ra_local_ranks :: "u32 list"

definition receive_arrays ::
  "bool \<Rightarrow> bool \<Rightarrow> (nat \<Rightarrow> bool) \<Rightarrow> byte list \<Rightarrow> int \<Rightarrow> int \<Rightarrow> int \<Rightarrow> (int + reply_arrays) run" where
  "receive_arrays ef le ok bs start cc sz = do {
     coords \<leftarrow> copy_int_array ef le (ok 0) bs start 0 cc;
     case coords of None \<Rightarrow> ERROR ef (Some (Inl EMPI_ERR_INTERN)) | Some coords \<Rightarrow> do {
     sizes \<leftarrow> copy_int_array ef le (ok 1) bs start cc cc;
     case sizes of None \<Rightarrow> ERROR ef (Some (Inl EMPI_ERR_INTERN)) | Some sizes \<Rightarrow> do {
     ranks \<leftarrow> copy_int_array ef le (ok 2) bs start (2 * cc) cc;
     case ranks of None \<Rightarrow> ERROR ef (Some (Inl EMPI_ERR_INTERN)) | Some ranks \<Rightarrow>
     if sz > 0 then do {
       ms \<leftarrow> copy_int_array ef le (ok 3) bs start (3 * cc) sz;
       case ms of None \<Rightarrow> ERROR ef (Some (Inl EMPI_ERR_INTERN)) | Some ms \<Rightarrow> do {
       mi \<leftarrow> copy_int_array ef le (ok 4) bs start (3 * cc + sz) sz;
       case mi of None \<Rightarrow> ERROR ef (Some (Inl EMPI_ERR_INTERN)) | Some mi \<Rightarrow> do {
       lr \<leftarrow> copy_int_array ef le (ok 5) bs start (3 * cc + 2 * sz) sz;
       case lr of None \<Rightarrow> ERROR ef (Some (Inl EMPI_ERR_INTERN)) | Some lr \<Rightarrow>
       Some (Inr \<lparr>ra_coordinators = map sint coords, ra_cluster_sizes = map sint sizes,
         ra_cluster_ranks = map sint ranks, ra_members = ms, ra_member_cluster_index = mi,
         ra_local_ranks = lr\<rparr>)
       }}
     }
     else Some (Inr \<lparr>ra_coordinators = map sint coords, ra_cluster_sizes = map sint sizes,
       ra_cluster_ranks = map sint ranks, ra_members = [], ra_member_cluster_index = [],
       ra_local_ranks = []\<rparr>)
     }}
   }"

record comm_reply =
  cr_newComm :: int
  cr_rank :: int
  cr_size :: int
  cr_color :: int
  cr_key :: int
  cr_cluster_count :: int
  cr_flags :: int
  cr_arrays :: reply_arrays

definition messaging_comm_split_receive ::
  "bool \<Rightarrow> bool \<Rightarrow> (nat \<Rightarrow> bool) \<Rightarrow> mpi_recv \<Rightarrow> (int + comm_reply) run" where
  "messaging_comm_split_receive ef le ok rv = do {
     (error, bs) \<leftarrow> receive_server_message_varlen ef rv;
     if error \<noteq> EMPI_SUCCESS then ERROR ef (Some (Inl error))
     else do {
       opc \<leftarrow> reply_field le bs 0;
       if OPCODE_SPLIT_REPLY \<noteq> opc then ERROR ef (Some (Inl EMPI_ERR_INTERN))
       else do {
         newComm \<leftarrow> reply_field le bs 4;
         rank \<leftarrow> reply_field le bs 5;
         sz \<leftarrow> reply_field le bs 6;
         color \<leftarrow> reply_field le bs 7;
         key \<leftarrow> reply_field le bs 8;
         cc \<leftarrow> reply_field le bs 9;
         flags \<leftarrow> reply_field le bs 10;
         arrays \<leftarrow> receive_arrays ef le ok bs 11 (sint cc) (sint sz);
         case arrays of
           Inl e \<Rightarrow> Some (Inl e)
         | Inr a \<Rightarrow> Some (Inr \<lparr>cr_newComm = sint newComm, cr_rank = sint rank, cr_size = sint sz,
             cr_color = sint color, cr_key = sint key, cr_cluster_count = sint cc,
             cr_flags = sint flags, cr_arrays = a\<rparr>)
       }
     }
   }"

abbreviation (input) GROUP_TYPE_ACTIVE :: int where "GROUP_TYPE_ACTIVE \<equiv> 0"
abbreviation (input) GROUP_TYPE_SEPERATIST :: int where "GROUP_TYPE_SEPERATIST \<equiv> 1"
abbreviation (input) GROUP_TYPE_IDLE :: int where "GROUP_TYPE_IDLE \<equiv> 2"

record group_reply =
  gr_newComm :: int
  gr_rank :: int
  gr_size :: int
  gr_type :: int
  gr_cluster_count :: int
  gr_flags :: int
  gr_arrays :: reply_arrays

definition no_arrays :: reply_arrays where
  "no_arrays = \<lparr>ra_coordinators = [], ra_cluster_sizes = [], ra_cluster_ranks = [], ra_members = [],
     ra_member_cluster_index = [], ra_local_ranks = []\<rparr>"

definition messaging_comm_create_receive ::
  "bool \<Rightarrow> bool \<Rightarrow> (nat \<Rightarrow> bool) \<Rightarrow> mpi_recv \<Rightarrow> (int + group_reply) run" where
  "messaging_comm_create_receive ef le ok rv = do {
     (error, bs) \<leftarrow> receive_server_message_varlen ef rv;
     if error \<noteq> EMPI_SUCCESS then ERROR ef (Some (Inl error))
     else do {
       opc \<leftarrow> reply_field le bs 0;
       if OPCODE_GROUP_REPLY \<noteq> opc then ERROR ef (Some (Inl EMPI_ERR_INTERN))
       else do {
         newComm \<leftarrow> reply_field le bs 4;
         rank \<leftarrow> reply_field le bs 5;
         sz \<leftarrow> reply_field le bs 6;
         typ \<leftarrow> reply_field le bs 7;
         cc \<leftarrow> reply_field le bs 8;
         flags \<leftarrow> reply_field le bs 9;
         arrays \<leftarrow> (if sint typ = GROUP_TYPE_ACTIVE then receive_arrays ef le ok bs 10 (sint cc) (sint sz)
                    else Some (Inr no_arrays));
         case arrays of
           Inl e \<Rightarrow> Some (Inl e)
         | Inr a \<Rightarrow> Some (Inr \<lparr>gr_newComm = sint newComm, gr_rank = sint rank, gr_size = sint sz,
             gr_type = sint typ, gr_cluster_count = sint cc, gr_flags = sint flags, gr_arrays = a\<rparr>)
       }
     }
   }"

text \<open>A reply of fixed length; the result is the new communicator's handle.\<close>

definition messaging_comm_dup_receive :: "bool \<Rightarrow> bool \<Rightarrow> int \<Rightarrow> byte list \<Rightarrow> (int + int) run" where
  "messaging_comm_dup_receive ef le mpi_error data = do {
     (error, bs) \<leftarrow> receive_server_message ef mpi_error data;
     if error \<noteq> EMPI_SUCCESS then ERROR ef (Some (Inl error))
     else do {
       opc \<leftarrow> reply_field le bs 0;
       if OPCODE_DUP_REPLY \<noteq> opc then ERROR ef (Some (Inl EMPI_ERR_INTERN))
       else do { newComm \<leftarrow> reply_field le bs 4; Some (Inr (sint newComm)) }
     }
   }"

text \<open>\<open>finalize_error\<close>: what \<^verbatim>\<open>PMPI_Finalize\<close> returned, the barrier's result being ignored.\<close>

definition messaging_finalize ::
  "bool \<Rightarrow> bool \<Rightarrow> u32 \<Rightarrow> int \<Rightarrow> int \<Rightarrow> int \<Rightarrow> comm_reg \<Rightarrow> (int \<times> byte list option) run" where
  "messaging_finalize ef le my_pid send_error receive_error finalize_error r = do {
     p \<leftarrow> handle_to_communicator ef r 0;
     p \<leftarrow> p;
     c \<leftarrow> heap r p;
     let req = comm_src_request le my_pid OPCODE_FINALIZE FINALIZE_REQUEST_MSG_SIZE c;
     (error, sent) \<leftarrow> send_server_request ef send_error (take (nat FINALIZE_REQUEST_MSG_SIZE) req);
     if error \<noteq> EMPI_SUCCESS then ERROR ef (Some (error, sent))
     else if receive_error \<noteq> 0 then ERROR ef (ERROR ef (Some (receive_error, sent)))
     else if finalize_error \<noteq> 0 then ERROR ef (Some (finalize_error, sent))
     else Some (EMPI_SUCCESS, sent)
   }"

section \<open>The server's side\<close>

text \<open>What the server writes: each field as four bytes, the highest first.\<close>

definition reply_header :: "u32 \<Rightarrow> u32 \<Rightarrow> nat \<Rightarrow> u32 list" where
  "reply_header opc dst payload_size = [opc, 0xFFFFFFFF, dst, word_of_nat (4 * 4 + payload_size)]"

definition array_words :: "int list \<Rightarrow> int list \<Rightarrow> int list \<Rightarrow> u32 list \<Rightarrow> u32 list \<Rightarrow> u32 list \<Rightarrow> u32 list" where
  "array_words coords sizes ranks ms mi lr =
     map word_of_int coords @ map word_of_int sizes @ map word_of_int ranks @ ms @ mi @ lr"

definition SplitReply_write :: "u32 \<Rightarrow> comm_reply \<Rightarrow> byte list" where
  "SplitReply_write dst x = net_bytes
     (reply_header OPCODE_SPLIT_REPLY dst (7 * 4 + nat (cr_cluster_count x) * 4 * 3 + nat (cr_size x) * 4 * 3) @
      [word_of_int (cr_newComm x), word_of_int (cr_rank x), word_of_int (cr_size x), word_of_int (cr_color x),
       word_of_int (cr_key x), word_of_int (cr_cluster_count x), word_of_int (cr_flags x)] @
      (let a = cr_arrays x in array_words (ra_coordinators a) (ra_cluster_sizes a) (ra_cluster_ranks a)
         (ra_members a) (ra_member_cluster_index a) (ra_local_ranks a)))"

definition GroupReply_write :: "u32 \<Rightarrow> group_reply \<Rightarrow> byte list" where
  "GroupReply_write dst x = net_bytes
     (reply_header OPCODE_GROUP_REPLY dst
        (6 * 4 + (if gr_type x = GROUP_TYPE_ACTIVE
                  then nat (gr_cluster_count x) * 4 * 3 + nat (gr_size x) * 4 * 3 else 0)) @
      [word_of_int (gr_newComm x), word_of_int (gr_rank x), word_of_int (gr_size x), word_of_int (gr_type x),
       word_of_int (gr_cluster_count x), word_of_int (gr_flags x)] @
      (if gr_type x = GROUP_TYPE_ACTIVE then
         (let a = gr_arrays x in array_words (ra_coordinators a) (ra_cluster_sizes a) (ra_cluster_ranks a)
            (ra_members a) (ra_member_cluster_index a) (ra_local_ranks a))
       else []))"

definition DupReply_write :: "u32 \<Rightarrow> int \<Rightarrow> byte list" where
  "DupReply_write dst newComm = net_bytes (reply_header OPCODE_DUP_REPLY dst 4 @ [word_of_int newComm])"

section \<open>Round trips\<close>

lemma reply_field_net:
  "i < length ws \<Longrightarrow> reply_field le (net_bytes ws) (int i) = Some (ws ! i)"
  using word_field_net [of i ws le]
  by (auto simp: reply_field_def bind_eq_Some_conv map_option_eq_Some)

lemma copy_loop_net:
  "i + n \<le> length ws \<Longrightarrow> copy_loop le (net_bytes ws) (int i) n = Some (take n (drop i ws))"
proof (induction n arbitrary: i)
  case (Suc n)
  have "copy_loop le (net_bytes ws) (int (Suc i)) n = Some (take n (drop (Suc i) ws))"
    using Suc.prems by (intro Suc.IH) simp
  then show ?case using Suc.prems
    by (simp add: reply_field_net add.commute Cons_nth_drop_Suc [symmetric])
qed simp

lemma copy_int_array_net:
  assumes "s + off + n \<le> length ws"
  shows "copy_int_array ef le True (net_bytes ws) (int s) (int off) (int n) = Some (Some (take n (drop (s + off) ws)))"
  using copy_loop_net [of "s + off" n ws le] assms by (simp add: copy_int_array_def)

lemma sint_small [simp]: "int_ok k \<Longrightarrow> sint (word_of_int k :: u32) = k"
  by (simp add: int_ok_def sint_sbintrunc' signed_take_bit_int_eq_self)

lemma map_sint_small: "\<forall>k \<in> set xs. int_ok k \<Longrightarrow> map (sint \<circ> (word_of_int :: int \<Rightarrow> u32)) xs = xs"
  by (rule map_idI) simp

text \<open>The arrays of a reply have the lengths that its fields tell.\<close>

definition arrays_fit :: "int \<Rightarrow> int \<Rightarrow> reply_arrays \<Rightarrow> bool" where
  "arrays_fit cc sz a \<longleftrightarrow>
     int (length (ra_coordinators a)) = cc \<and> int (length (ra_cluster_sizes a)) = cc \<and>
     int (length (ra_cluster_ranks a)) = cc \<and> int (length (ra_members a)) = sz \<and>
     int (length (ra_member_cluster_index a)) = sz \<and> int (length (ra_local_ranks a)) = sz \<and>
     (\<forall>k \<in> set (ra_coordinators a) \<union> set (ra_cluster_sizes a) \<union> set (ra_cluster_ranks a). int_ok k)"

lemma receive_arrays_net:
  assumes fit: "arrays_fit cc sz a"
    and ws: "drop st ws = array_words (ra_coordinators a) (ra_cluster_sizes a) (ra_cluster_ranks a)
      (ra_members a) (ra_member_cluster_index a) (ra_local_ranks a)" "st \<le> length ws"
  shows "receive_arrays ef le (\<lambda>i. True) (net_bytes ws) (int st) cc sz = Some (Inr a)"
proof -
  define c n where "c = length (ra_coordinators a)" and "n = length (ra_members a)"
  with fit have cn: "cc = int c" "sz = int n" "length (ra_cluster_sizes a) = c" "length (ra_cluster_ranks a) = c"
    "length (ra_member_cluster_index a) = n" "length (ra_local_ranks a) = n"
    by (auto simp: arrays_fit_def)
  have len: "length ws = st + 3 * c + 3 * n"
    using arg_cong [OF ws(1), of length] ws(2) cn c_def n_def by (simp add: array_words_def)
  have piece: "copy_int_array ef le True (net_bytes ws) (int st) (int off) (int k) = Some (Some (take k (drop off (drop st ws))))"
    if "off + k \<le> 3 * c + 3 * n" for off k
    using copy_int_array_net [of st off k ws ef le] that len by (simp add: add.commute)
  note pieces = piece [of 0 c] piece [of c c] piece [of "2 * c" c] piece [of "3 * c" n]
    piece [of "3 * c + n" n] piece [of "3 * c + 2 * n" n]
  have ints: "map sint (map (word_of_int :: int \<Rightarrow> u32) (ra_coordinators a)) = ra_coordinators a"
    "map sint (map (word_of_int :: int \<Rightarrow> u32) (ra_cluster_sizes a)) = ra_cluster_sizes a"
    "map sint (map (word_of_int :: int \<Rightarrow> u32) (ra_cluster_ranks a)) = ra_cluster_ranks a"
    using fit by (simp_all add: arrays_fit_def map_sint_small)
  have a: "\<lparr>ra_coordinators = ra_coordinators a, ra_cluster_sizes = ra_cluster_sizes a,
      ra_cluster_ranks = ra_cluster_ranks a, ra_members = ra_members a,
      ra_member_cluster_index = ra_member_cluster_index a, ra_local_ranks = ra_local_ranks a\<rparr> = a" by simp
  show ?thesis
  proof (cases "n = 0")
    case True
    with cn n_def have "ra_members a = []" "ra_member_cluster_index a = []" "ra_local_ranks a = []" by auto
    with pieces ints a True show ?thesis
      by (simp add: receive_arrays_def cn(1,2) ws(1) array_words_def cn(3-) c_def [symmetric] n_def [symmetric]
          del: map_map)
  next
    case False
    with pieces ints a show ?thesis
      by (simp add: receive_arrays_def cn(1,2) ws(1) array_words_def cn(3-) c_def [symmetric] n_def [symmetric]
          del: map_map)
  qed
qed

text \<open>A receive that succeeds.\<close>

definition recv_ok :: "mpi_recv \<Rightarrow> bool" where
  "recv_ok rv \<longleftrightarrow> rv_probe_error rv = 0 \<and> rv_count_error rv = 0 \<and> rv_alloc rv \<and> rv_error rv = 0"

lemma recv_ok_data [simp]:
  "recv_ok rv \<Longrightarrow> receive_server_message_varlen ef rv = Some (EMPI_SUCCESS, rv_data rv)"
  by (simp add: recv_ok_def receive_server_message_varlen_def receive_server_message_def)

lemma split_reply_roundtrip:
  assumes "recv_ok rv" "rv_data rv = SplitReply_write dst x"
    and fit: "arrays_fit (cr_cluster_count x) (cr_size x) (cr_arrays x)"
    and ints: "\<forall>k \<in> {cr_newComm x, cr_rank x, cr_size x, cr_color x, cr_key x, cr_cluster_count x, cr_flags x}. int_ok k"
  shows "messaging_comm_split_receive ef le (\<lambda>i. True) rv = Some (Inr x)"
proof -
  let ?a = "cr_arrays x"
  define hw where "hw = reply_header OPCODE_SPLIT_REPLY dst (7 * 4 + nat (cr_cluster_count x) * 4 * 3 + nat (cr_size x) * 4 * 3) @
      [word_of_int (cr_newComm x), word_of_int (cr_rank x), word_of_int (cr_size x), word_of_int (cr_color x),
       word_of_int (cr_key x), word_of_int (cr_cluster_count x), word_of_int (cr_flags x)]"
  define aw where "aw = array_words (ra_coordinators ?a) (ra_cluster_sizes ?a) (ra_cluster_ranks ?a)
         (ra_members ?a) (ra_member_cluster_index ?a) (ra_local_ranks ?a)"
  define ws where "ws = hw @ aw"
  have data: "rv_data rv = net_bytes ws" using assms(2) by (simp add: SplitReply_write_def Let_def ws_def hw_def aw_def)
  have len: "length hw = 11" by (simp add: hw_def reply_header_def)
  then have "drop 11 ws = aw" "11 \<le> length ws" by (simp_all add: ws_def)
  then have "receive_arrays ef le (\<lambda>i. True) (net_bytes ws) (int 11) (cr_cluster_count x) (cr_size x) = Some (Inr ?a)"
    using receive_arrays_net [OF fit, of 11 ws ef le] by (simp add: aw_def)
  moreover have f: "reply_field le (net_bytes ws) (int i) = Some (hw ! i)" if "i < 11" for i
    using reply_field_net [of i ws le] len that by (simp add: ws_def nth_append)
  note f [of 0] f [of 4] f [of 5] f [of 6] f [of 7] f [of 8] f [of 9] f [of 10]
  moreover have "\<lparr>cr_newComm = cr_newComm x, cr_rank = cr_rank x, cr_size = cr_size x, cr_color = cr_color x,
     cr_key = cr_key x, cr_cluster_count = cr_cluster_count x, cr_flags = cr_flags x, cr_arrays = ?a\<rparr> = x" by simp
  ultimately show ?thesis using assms(1) ints
    by (simp add: messaging_comm_split_receive_def data hw_def reply_header_def)
qed

lemma group_reply_roundtrip:
  assumes "recv_ok rv" "rv_data rv = GroupReply_write dst x"
    and fit: "if gr_type x = GROUP_TYPE_ACTIVE then arrays_fit (gr_cluster_count x) (gr_size x) (gr_arrays x)
      else gr_arrays x = no_arrays"
    and ints: "\<forall>k \<in> {gr_newComm x, gr_rank x, gr_size x, gr_type x, gr_cluster_count x, gr_flags x}. int_ok k"
  shows "messaging_comm_create_receive ef le (\<lambda>i. True) rv = Some (Inr x)"
proof -
  let ?a = "gr_arrays x"
  define hw where "hw = reply_header OPCODE_GROUP_REPLY dst
        (6 * 4 + (if gr_type x = GROUP_TYPE_ACTIVE
                  then nat (gr_cluster_count x) * 4 * 3 + nat (gr_size x) * 4 * 3 else 0)) @
      [word_of_int (gr_newComm x), word_of_int (gr_rank x), word_of_int (gr_size x), word_of_int (gr_type x),
       word_of_int (gr_cluster_count x), word_of_int (gr_flags x)]"
  define aw where "aw = (if gr_type x = GROUP_TYPE_ACTIVE then
      array_words (ra_coordinators ?a) (ra_cluster_sizes ?a) (ra_cluster_ranks ?a)
         (ra_members ?a) (ra_member_cluster_index ?a) (ra_local_ranks ?a) else [])"
  define ws where "ws = hw @ aw"
  have data: "rv_data rv = net_bytes ws" using assms(2) by (simp add: GroupReply_write_def Let_def ws_def hw_def aw_def)
  have len: "length hw = 10" by (simp add: hw_def reply_header_def)
  then have "drop 10 ws = aw" "10 \<le> length ws" by (simp_all add: ws_def)
  then have "gr_type x = GROUP_TYPE_ACTIVE \<Longrightarrow>
      receive_arrays ef le (\<lambda>i. True) (net_bytes ws) (int 10) (gr_cluster_count x) (gr_size x) = Some (Inr ?a)"
    using receive_arrays_net [of _ _ ?a 10 ws ef le] fit by (simp add: aw_def)
  moreover have f: "reply_field le (net_bytes ws) (int i) = Some (hw ! i)" if "i < 10" for i
    using reply_field_net [of i ws le] len that by (simp add: ws_def nth_append)
  note f [of 0] f [of 4] f [of 5] f [of 6] f [of 7] f [of 8] f [of 9]
  moreover have "\<lparr>gr_newComm = gr_newComm x, gr_rank = gr_rank x, gr_size = gr_size x, gr_type = gr_type x,
     gr_cluster_count = gr_cluster_count x, gr_flags = gr_flags x, gr_arrays = ?a\<rparr> = x" by simp
  ultimately show ?thesis using assms(1) ints fit
    by (auto simp: messaging_comm_create_receive_def data hw_def reply_header_def split: if_splits)
qed

lemma dup_reply_roundtrip:
  assumes "int_ok h"
  shows "messaging_comm_dup_receive ef le 0 (DupReply_write dst h) = Some (Inr h)"
proof -
  let ?ws = "reply_header OPCODE_DUP_REPLY dst 4 @ [word_of_int h]"
  have "reply_field le (net_bytes ?ws) (int i) = Some (?ws ! i)" if "i < 5" for i
    using that by (intro reply_field_net) (simp add: reply_header_def)
  from this [of 0] this [of 4] assms show ?thesis
    by (simp add: messaging_comm_dup_receive_def receive_server_message_def DupReply_write_def reply_header_def)
qed

text \<open>What a request looks like on the wire, whatever the byte order of the host.\<close>

lemma take_net_bytes: "take (4 * n) (net_bytes ws) = net_bytes (take n ws)"
proof (induction ws arbitrary: n)
  case (Cons w ws)
  then show ?case by (cases n) (simp_all add: net_bytes_def)
qed (simp add: net_bytes_def)

lemma struct_bytes_map:
  "struct_bytes le [] = net_bytes []"
  "struct_bytes le (htonl le w # map (htonl le) ws) = net_bytes (w # ws)"
  by (simp_all add: struct_bytes_def net_bytes_def comp_def)

lemma split_request_bytes:
  "messaging_comm_split_send ef le my_pid 0 c color key =
     Some (EMPI_SUCCESS, Some (net_bytes [OPCODE_SPLIT, my_pid, server_pid, 32,
       word_of_int (c_handle c), word_of_int (c_global_rank c), word_of_int color, word_of_int key]))"
  using struct_bytes_htonl [of le "[OPCODE_SPLIT, my_pid, server_pid, 32,
       word_of_int (c_handle c), word_of_int (c_global_rank c), word_of_int color, word_of_int key]"]
  by (simp add: messaging_comm_split_send_def request_header_def send_server_request_def request_size_defs)

lemma comm_src_request_bytes:
  "comm_src_request le my_pid opc len c = net_bytes [opc, my_pid, server_pid, word_of_int len,
     word_of_int (c_handle c), word_of_int (c_global_rank c)]"
  using struct_bytes_htonl [of le "[opc, my_pid, server_pid, word_of_int len,
       word_of_int (c_handle c), word_of_int (c_global_rank c)]"]
  by (simp add: comm_src_request_def request_header_def)

lemma dup_free_request_bytes:
  "messaging_comm_dup_send ef le my_pid 0 c = Some (EMPI_SUCCESS, Some (net_bytes
     [OPCODE_DUP, my_pid, server_pid, 24, word_of_int (c_handle c), word_of_int (c_global_rank c)]))"
  "messaging_comm_free_send ef le my_pid 0 c = Some (EMPI_SUCCESS, Some (net_bytes
     [OPCODE_FREE, my_pid, server_pid, 24, word_of_int (c_handle c), word_of_int (c_global_rank c)]))"
  by (simp_all add: messaging_comm_dup_send_def messaging_comm_free_send_def comm_src_request_bytes
      send_server_request_def request_size_defs)

lemma read_words_all: "length ms = k + n \<Longrightarrow> read_words ms n (int k) = Some (drop k ms)"
proof (induction n arbitrary: k)
  case (Suc n)
  then have "read_words ms n (int (Suc k)) = Some (drop (Suc k) ms)" by (intro Suc.IH) simp
  then show ?case using Suc.prems by (simp add: add.commute Cons_nth_drop_Suc)
qed simp

lemma group_request_bytes:
  assumes "g_size g = int (length (g_members g))"
  shows "messaging_comm_create_send ef le my_pid 0 True c g = Some (EMPI_SUCCESS, Some (net_bytes
     ([OPCODE_GROUP, my_pid, server_pid, word_of_int (28 + 4 * g_size g), word_of_int (c_handle c),
       word_of_int (c_global_rank c), word_of_int (g_size g)] @ g_members g)))"
proof -
  let ?ws = "[OPCODE_GROUP, my_pid, server_pid, word_of_int (28 + 4 * g_size g), word_of_int (c_handle c),
       word_of_int (c_global_rank c), word_of_int (g_size g)] @ g_members g"
  have "read_words (g_members g) (nat (g_size g)) 0 = Some (g_members g)"
    using read_words_all [of "g_members g" 0 "length (g_members g)"] assms by simp
  moreover have "length (net_bytes ?ws) = nat (28 + g_size g * 4)" using assms by simp
  then have "take (nat (28 + g_size g * 4)) (net_bytes ?ws) = net_bytes ?ws" by simp
  ultimately show ?thesis using struct_bytes_htonl [of le ?ws]
    by (simp add: messaging_comm_create_send_def request_header_def send_server_request_def request_size_defs
        mult.commute)
qed

end
