(* ===== verification/Sockets.thy ===== *)
theory Sockets
  imports Byte_Order
begin

text \<open>
  The sockets of a gateway, the part of \<^verbatim>\<open>src/backend/gateway.c\<close> that cuts the byte streams from
  and to the server and the other gateways into messages: \<open>socket_info\<close>, the non-blocking reader
  and the non-blocking writer.

  A message is the list of its bytes in memory; its first sixteen are the header, whose last word
  is the length of the whole message. The two queues a \<open>socket_info\<close> points to are arguments,
  as the lists of the messages they hold (the linked list itself is verified in \<open>Message_Queue\<close>).
  What the kernel answers to the calls of \<open>read\<close> and \<open>write\<close> is a list of events; a call beyond
  the list would block. The block \<open>si_in\<close> is given by the bytes that were read into it, its size
  is \<open>si_incount\<close>.
\<close>

type_synonym message = "byte list"

definition sizeof_generic_message :: nat where [const_defs]: "sizeof_generic_message = 16"

definition STATE_RW :: int where [const_defs]: "STATE_RW = 1"
definition STATE_RO :: int where [const_defs]: "STATE_RO = 0"
definition TYPE_SERVER :: int where [const_defs]: "TYPE_SERVER = 0"
definition TYPE_DATA :: int where [const_defs]: "TYPE_DATA = 1"
definition MAX_SOCKETS_READ_SEQUENCE :: nat where [const_defs]: "MAX_SOCKETS_READ_SEQUENCE = 2"

record socket_info =
  si_socketfd :: int
  si_state :: int
  si_type :: int
  si_in :: "message option"
  si_inpos :: u32
  si_incount :: u32
  si_in_bytes :: u64
  si_in_messages :: u64
  si_out :: "message option"
  si_outpos :: u32
  si_outcount :: u32
  si_out_bytes :: u64
  si_out_messages :: u64

definition init_socket_info :: "int \<Rightarrow> int \<Rightarrow> socket_info" where
  "init_socket_info fd typ =
     \<lparr>si_socketfd = fd, si_state = STATE_RO, si_type = typ,
      si_in = None, si_inpos = 0, si_incount = 0, si_in_bytes = 0, si_in_messages = 0,
      si_out = None, si_outpos = 0, si_outcount = 0, si_out_bytes = 0, si_out_messages = 0\<rparr>"

text \<open>The header words of a message, and its length: messages of the server are in network order.\<close>

definition header_length :: "bool \<Rightarrow> int \<Rightarrow> message \<Rightarrow> u32 run" where
  "header_length le typ m = do {
     w \<leftarrow> word_field le m 3;
     Some (if typ = TYPE_SERVER then ntohl le w else w)
   }"

section \<open>Reading\<close>

text \<open>
  The answers of the kernel to a \<open>read\<close> of \<open>n\<close> bytes: at most \<open>k\<close> bytes of the stream \<open>s\<close> have
  arrived, nothing has arrived, an error, or the other side closed the connection.
\<close>

datatype read_event = Chunk nat | Would_block | Failed | Eof

datatype stop = Complete | Drained | Broken

fun read_loop :: "nat \<Rightarrow> message \<Rightarrow> read_event list \<Rightarrow> byte list \<Rightarrow> stop \<times> message \<times> read_event list \<times> byte list" where
  "read_loop n bs [] s = (if length bs < n then Drained else Complete, bs, [], s)"
| "read_loop n bs (e # es) s =
     (if length bs < n then
        (case e of
           Chunk k \<Rightarrow>
             (let got = take (min k (n - length bs)) s in
              if got = [] then (Drained, bs, es, s) else read_loop n (bs @ got) es (drop (length got) s))
         | Would_block \<Rightarrow> (Drained, bs, es, s)
         | Failed \<Rightarrow> (Broken, bs, es, s)
         | Eof \<Rightarrow> (Broken, bs, es, s))
      else (Complete, bs, e # es, s))"

lemma read_loop_spec:
  assumes "read_loop n b es s = (st, b', es', s')" "length b \<le> n"
  shows "\<exists>got. b' = b @ got \<and> s = got @ s' \<and> length b' \<le> n \<and> (st = Complete \<longleftrightarrow> length b' = n) \<and>
    (st = Broken \<longrightarrow> Failed \<in> set es \<or> Eof \<in> set es) \<and> (\<exists>used. es = used @ es')"
  using assms
proof (induction n b es s rule: read_loop.induct)
  case (1 n b s)
  then show ?case by (auto split: if_splits)
next
  case (2 n b e es s)
  show ?case
  proof (cases "\<exists>k. e = Chunk k \<and> length b < n \<and> take (min k (n - length b)) s \<noteq> []")
    case True
    then obtain k where k: "e = Chunk k" "length b < n" "take (min k (n - length b)) s \<noteq> []" by blast
    let ?got = "take (min k (n - length b)) s"
    have step: "read_loop n (b @ ?got) es (drop (length ?got) s) = (st, b', es', s')"
      using 2(2) k by (auto simp: Let_def split: if_splits)
    have len: "length (b @ ?got) \<le> n" using k(2) by simp
    obtain rest used where r: "b' = (b @ ?got) @ rest" "drop (length ?got) s = rest @ s'"
      "length b' \<le> n" "st = Complete \<longleftrightarrow> length b' = n"
      "st = Broken \<longrightarrow> Failed \<in> set es \<or> Eof \<in> set es" "es = used @ es'"
      using 2(1) [OF k(2) k(1) refl k(3) step len] by blast
    have "s = ?got @ drop (length ?got) s" by (cases "k \<le> n - length b") (simp_all add: min_def)
    then have "s = (?got @ rest) @ s'" using r(2) by simp
    moreover have "b' = b @ (?got @ rest)" using r(1) by simp
    moreover have "e # es = (e # used) @ es'" using r(6) by simp
    moreover have "st = Broken \<longrightarrow> Failed \<in> set (e # es) \<or> Eof \<in> set (e # es)" using r(5) by auto
    ultimately show ?thesis using r(3,4) by blast
  next
    case False
    with 2(2,3) show ?thesis by (cases e) (auto simp: Let_def split: if_splits)
  qed
qed

lemma read_loop_full [simp]: "n \<le> length b \<Longrightarrow> read_loop n b es s = (Complete, b, es, s)"
  by (cases es) simp_all

lemma read_loop_length: "read_loop n b es s = (Complete, b', es', s') \<Longrightarrow> n \<le> length b'"
  by (cases "length b \<le> n") (use read_loop_spec in fastforce)+

text \<open>What the allocator answers while a message is read: for the header, for the whole message,
  and for the element of the queue. The result of \<^verbatim>\<open>message_enqueue\<close> is not looked at.\<close>

record read_allocs =
  al_header :: bool
  al_body :: bool
  al_node :: bool

definition deliver :: "read_allocs \<Rightarrow> message \<Rightarrow> u32 \<Rightarrow> socket_info \<Rightarrow> message list \<Rightarrow> socket_info \<times> message list" where
  "deliver al m incount info q =
     (info\<lparr>si_in_bytes := si_in_bytes info + word_of_nat (length m), si_in_messages := si_in_messages info + 1,
           si_in := None, si_inpos := 0, si_incount := incount\<rparr>,
      if al_node al then q @ [m] else q)"

definition start_message :: "read_allocs \<Rightarrow> socket_info \<Rightarrow> (socket_info \<times> message) run" where
  "start_message al info =
     (case si_in info of
        Some b \<Rightarrow> Some (info, take (unat (si_inpos info)) b)
      | None \<Rightarrow>
          if al_header al
          then Some (info\<lparr>si_in := Some [], si_inpos := 0, si_incount := word_of_nat sizeof_generic_message\<rparr>, [])
          else None)"

text \<open>
  The reader calls itself when the header told it the size of the message. The result is the error
  code, \<open>*more\<close>, the socket, the queue, and what is left of the events and the stream. A length
  field below sixteen leaves the code with a header outside the reallocated block.
\<close>

function (sequential) nonblock_read_message ::
  "bool \<Rightarrow> bool \<Rightarrow> read_allocs \<Rightarrow> socket_info \<Rightarrow> message list \<Rightarrow> read_event list \<Rightarrow> byte list
    \<Rightarrow> (int \<times> bool \<times> socket_info \<times> message list \<times> read_event list \<times> byte list) run" where
  "nonblock_read_message ef le al info q es s =
     (case start_message al info of None \<Rightarrow> None | Some (i1, b) \<Rightarrow>
      (case read_loop (unat (si_incount i1)) b es s of
         (Drained, bs, es', s') \<Rightarrow>
           Some (EMPI_SUCCESS, False, i1\<lparr>si_in := Some bs, si_inpos := word_of_nat (length bs)\<rparr>, q, es', s')
       | (Broken, bs, es', s') \<Rightarrow>
           ERROR ef (Some (EMPI_ERR_INTERN, False, i1\<lparr>si_in := Some bs\<rparr>, q, es', s'))
       | (Complete, bs, es', s') \<Rightarrow>
           if length bs < sizeof_generic_message then
             ERROR ef (Some (EMPI_ERR_INTERN, False, i1\<lparr>si_in := Some bs\<rparr>, q, es', s'))
           else if length bs > sizeof_generic_message then
             (let (i2, q2) = deliver al bs 0 i1 q in Some (EMPI_SUCCESS, True, i2, q2, es', s'))
           else if unat (si_incount i1) < sizeof_generic_message then None
           else
             (case header_length le (si_type i1) bs of None \<Rightarrow> None | Some len \<Rightarrow>
              if unat len = sizeof_generic_message then
                (let (i2, q2) = deliver al bs (word_of_nat sizeof_generic_message) i1 q in
                 Some (EMPI_SUCCESS, True, i2, q2, es', s'))
              else
                (let i2 = i1\<lparr>si_in := if al_body al then Some bs else None,
                             si_inpos := word_of_nat (length bs), si_incount := len\<rparr> in
                 if \<not> al_body al then ERROR ef (Some (EMPI_ERR_INTERN, False, i2, q, es', s'))
                 else nonblock_read_message ef le al i2 q es' s'))))"
  by pat_completeness auto

termination nonblock_read_message
proof (relation "measure (\<lambda>(ef, le, al, info, q, es, s).
    if si_in info = None \<or> unat (si_incount info) = sizeof_generic_message then 1 else 0)", goal_cases)
  case 1
  show ?case by simp
next
  case 2
  then show ?case
    by (auto simp: start_message_def dest!: read_loop_length [OF sym] split: option.splits if_splits)
qed

declare nonblock_read_message.simps [simp del]

section \<open>What the reader makes of a stream of messages\<close>

text \<open>
  A message whose length field tells its length, and a socket that has still the messages \<open>ms\<close>
  to deliver: a beginning of the first of them may have been read already, the rest of their bytes
  is the stream \<open>s\<close>.
\<close>

definition framed :: "bool \<Rightarrow> int \<Rightarrow> message \<Rightarrow> bool" where
  "framed le typ m \<longleftrightarrow> sizeof_generic_message \<le> length m \<and> length m < 2 ^ 32 \<and>
     header_length le typ m = Some (word_of_nat (length m))"

definition reading :: "bool \<Rightarrow> socket_info \<Rightarrow> message list \<Rightarrow> byte list \<Rightarrow> bool" where
  "reading le info ms s \<longleftrightarrow> (\<forall>m \<in> set ms. framed le (si_type info) m) \<and>
     (case si_in info of
        None \<Rightarrow> s = concat ms
      | Some b \<Rightarrow> si_inpos info = word_of_nat (length b) \<and> b @ s = concat ms \<and>
          (unat (si_incount info) = sizeof_generic_message \<and> length b < sizeof_generic_message \<or>
           (\<exists>m ms'. ms = m # ms' \<and> unat (si_incount info) = length m \<and>
              sizeof_generic_message \<le> length b \<and> length b < length m)))"

definition took :: "socket_info \<Rightarrow> message list \<Rightarrow> socket_info \<Rightarrow> bool" where
  "took info ms info' \<longleftrightarrow> si_type info' = si_type info \<and> si_state info' = si_state info \<and>
     si_in_messages info' = si_in_messages info + word_of_nat (length ms) \<and>
     si_in_bytes info' = si_in_bytes info + word_of_nat (length (concat ms))"

definition calm :: "read_event list \<Rightarrow> bool" where
  "calm es \<longleftrightarrow> Failed \<notin> set es \<and> Eof \<notin> set es"

definition plenty :: "read_allocs \<Rightarrow> bool" where
  "plenty al \<longleftrightarrow> al_header al \<and> al_body al \<and> al_node al"

lemma took_refl [simp]: "took info [] info"
  by (simp add: took_def)

lemma took_trans: "took a ms b \<Longrightarrow> took b ns c \<Longrightarrow> took a (ms @ ns) c"
  by (simp add: took_def)

lemma header_length_take:
  "sizeof_generic_message \<le> length m \<Longrightarrow> header_length le typ (take sizeof_generic_message m) = header_length le typ m"
  by (simp add: header_length_def word_field_def sizeof_generic_message_def drop_take)

lemma unat_length: "length m < 2 ^ 32 \<Longrightarrow> unat (word_of_nat (length m) :: u32) = length m"
  by (simp add: unsigned_of_nat take_bit_nat_eq_self)

lemma read_loop_calm:
  assumes l: "read_loop n b es s = (st, b', es', s')" and es: "calm es" and b: "length b \<le> n"
  obtains got where "b' = b @ got" "s = got @ s'" "length b' \<le> n" "st = Complete \<longleftrightarrow> length b' = n"
    "st \<noteq> Broken" "calm es'"
proof -
  from read_loop_spec [OF l b] obtain got used where
    g: "b' = b @ got" "s = got @ s'" "length b' \<le> n" "st = Complete \<longleftrightarrow> length b' = n"
      "st = Broken \<longrightarrow> Failed \<in> set es \<or> Eof \<in> set es" and u: "es = used @ es'" by blast
  from es have "st \<noteq> Broken" using g(5) by (auto simp: calm_def)
  moreover from es have "calm es'" by (simp add: u calm_def)
  ultimately show ?thesis using g(1-4) that by blast
qed

text \<open>The three ways a call can end: the socket has drained, or the first message is complete.\<close>

definition reads_some :: "bool \<Rightarrow> socket_info \<Rightarrow> message list \<Rightarrow> message list \<Rightarrow> read_event list \<Rightarrow>
    (int \<times> bool \<times> socket_info \<times> message list \<times> read_event list \<times> byte list) run \<Rightarrow> bool" where
  "reads_some le info q ms es r \<longleftrightarrow> (\<exists>ms1 ms2 info' es' s'.
     r = Some (EMPI_SUCCESS, ms1 \<noteq> [], info', q @ ms1, es', s') \<and> ms = ms1 @ ms2 \<and>
     reading le info' ms2 s' \<and> took info ms1 info' \<and> (calm es \<longrightarrow> calm es'))"

lemma read_rest:
  assumes r: "reading le info (m # ms) s" and b: "si_in info = Some b" "sizeof_generic_message \<le> length b"
    and es: "calm es" and al: "plenty al"
  shows "reads_some le info q (m # ms) es (nonblock_read_message ef le al info q es s)"
proof -
  from r b have f: "framed le (si_type info) m" "\<forall>m \<in> set ms. framed le (si_type info) m"
    and pos: "si_inpos info = word_of_nat (length b)" and all: "b @ s = m @ concat ms"
    and inc: "unat (si_incount info) = length m" "length b < length m"
    by (auto simp: reading_def)
  from f(1) have m: "sizeof_generic_message \<le> length m" "length m < 2 ^ 32" by (auto simp: framed_def)
  have start: "start_message al info = Some (info, b)"
    using b(1) pos inc(2) m(2) by (simp add: start_message_def unat_length)
  obtain st bs es' s' where l: "read_loop (length m) b es s = (st, bs, es', s')" by (metis prod_cases4)
  from read_loop_calm [OF l es less_imp_le [OF inc(2)]] obtain got where
    g: "bs = b @ got" "s = got @ s'" "length bs \<le> length m" "st = Complete \<longleftrightarrow> length bs = length m"
    and nb: "st \<noteq> Broken" and calm: "calm es'" by blast
  from all g(1,2) have bs: "bs @ s' = m @ concat ms" by simp
  show ?thesis
  proof (cases st)
    case Complete
    then have "length bs = length m" using g(4) by simp
    with bs have fin: "bs = m" "s' = concat ms" by auto
    have "sizeof_generic_message < length m" using b(2) inc(2) by simp
    with start inc(1) l Complete fin al
    have "nonblock_read_message ef le al info q es s = Some (EMPI_SUCCESS, True,
        info\<lparr>si_in_bytes := si_in_bytes info + word_of_nat (length m), si_in_messages := si_in_messages info + 1,
          si_in := None, si_inpos := 0, si_incount := 0\<rparr>, q @ [m], es', s')"
      by (subst nonblock_read_message.simps) (simp add: deliver_def plenty_def)
    then show ?thesis unfolding reads_some_def
      using f(2) fin(2) calm by (intro exI [of _ "[m]"] exI [of _ ms]) (simp add: reading_def took_def)
  next
    case Drained
    with start inc(1) l
    have call: "nonblock_read_message ef le al info q es s = Some (EMPI_SUCCESS, False,
        info\<lparr>si_in := Some bs, si_inpos := word_of_nat (length bs)\<rparr>, q, es', s')"
      by (subst nonblock_read_message.simps) simp
    have "length bs < length m" using g(3,4) Drained by auto
    moreover have "sizeof_generic_message \<le> length bs" using b(2) g(1) by simp
    ultimately have "reading le (info\<lparr>si_in := Some bs, si_inpos := word_of_nat (length bs)\<rparr>) (m # ms) s'"
      using f bs inc(1) by (simp add: reading_def)
    with call calm show ?thesis unfolding reads_some_def
      by (intro exI [of _ "[]"] exI [of _ "m # ms"]) (simp add: took_def)
  next
    case Broken
    with nb show ?thesis by simp
  qed
qed

lemma read_start:
  assumes r: "reading le info ms s" and b: "si_in info = Some b" "length b < sizeof_generic_message"
    and es: "calm es" and al: "plenty al"
  shows "reads_some le info q ms es (nonblock_read_message ef le al info q es s)"
proof -
  let ?n = sizeof_generic_message
  from r b have f: "\<forall>m \<in> set ms. framed le (si_type info) m"
    and pos: "si_inpos info = word_of_nat (length b)" and all: "b @ s = concat ms"
    and inc: "unat (si_incount info) = ?n"
    by (auto simp: reading_def)
  have "unat (si_inpos info) = length b"
    using pos b(2) unat_length [of b] by (simp add: sizeof_generic_message_def)
  then have start: "start_message al info = Some (info, b)"
    using b(1) by (simp add: start_message_def)
  obtain st bs es' s' where l: "read_loop ?n b es s = (st, bs, es', s')" by (metis prod_cases4)
  from read_loop_calm [OF l es less_imp_le [OF b(2)]] obtain got where
    g: "bs = b @ got" "s = got @ s'" "length bs \<le> ?n" "st = Complete \<longleftrightarrow> length bs = ?n"
    and nb: "st \<noteq> Broken" and calm: "calm es'" by blast
  from all g(1,2) have bs: "bs @ s' = concat ms" by simp
  show ?thesis
  proof (cases st)
    case Complete
    then have len: "length bs = ?n" using g(4) by simp
    with bs obtain m ms' where ms: "ms = m # ms'"
      by (cases ms) (auto simp: sizeof_generic_message_def)
    with f have m: "framed le (si_type info) m" and m': "?n \<le> length m" "length m < 2 ^ 32"
      by (auto simp: framed_def)
    have head: "bs = take ?n m" using bs ms len m'(1)
      by (metis append_eq_append_conv_if concat.simps(2) le_antisym take_all_iff)
    have hl: "header_length le (si_type info) bs = Some (word_of_nat (length m))"
      using m m'(1) head header_length_take [of m le "si_type info"] by (simp add: framed_def)
    have un: "unat (word_of_nat (length m) :: u32) = length m" using m'(2) by (rule unat_length)
    show ?thesis
    proof (cases "length m = ?n")
      case True
      then have "bs = m" using head by simp
      then have rest: "s' = concat ms'" using bs ms by simp
      have "nonblock_read_message ef le al info q es s = Some (EMPI_SUCCESS, True,
          info\<lparr>si_in_bytes := si_in_bytes info + word_of_nat (length m), si_in_messages := si_in_messages info + 1,
            si_in := None, si_inpos := 0, si_incount := word_of_nat ?n\<rparr>, q @ [m], es', s')"
        using start inc l Complete len hl un True \<open>bs = m\<close> al
        by (subst nonblock_read_message.simps) (simp add: deliver_def plenty_def)
      then show ?thesis unfolding reads_some_def
        using f ms rest calm by (intro exI [of _ "[m]"] exI [of _ ms']) (simp add: reading_def took_def)
    next
      case False
      let ?i = "info\<lparr>si_in := Some bs, si_inpos := word_of_nat (length bs), si_incount := word_of_nat (length m)\<rparr>"
      have call: "nonblock_read_message ef le al info q es s = nonblock_read_message ef le al ?i q es' s'"
        using start inc l Complete len hl un False al
        by (subst nonblock_read_message.simps) (simp add: plenty_def)
      have "reading le ?i (m # ms') s'"
        using f ms bs un len m' False by (simp add: reading_def)
      from read_rest [OF this _ _ calm al, of bs q ef] len
      have "reads_some le ?i q (m # ms') es' (nonblock_read_message ef le al ?i q es' s')" by simp
      with call ms calm show ?thesis by (fastforce simp: reads_some_def took_def)
    qed
  next
    case Drained
    with start inc l
    have call: "nonblock_read_message ef le al info q es s = Some (EMPI_SUCCESS, False,
        info\<lparr>si_in := Some bs, si_inpos := word_of_nat (length bs)\<rparr>, q, es', s')"
      by (subst nonblock_read_message.simps) simp
    have "length bs < ?n" using g(3,4) Drained by auto
    then have "reading le (info\<lparr>si_in := Some bs, si_inpos := word_of_nat (length bs)\<rparr>) ms s'"
      using f bs inc by (simp add: reading_def)
    with call calm show ?thesis unfolding reads_some_def
      by (intro exI [of _ "[]"] exI [of _ ms]) (simp add: took_def)
  next
    case Broken
    with nb show ?thesis by simp
  qed
qed

lemma read_message_reading:
  assumes "reading le info ms s" "calm es" "plenty al"
  shows "reads_some le info q ms es (nonblock_read_message ef le al info q es s)"
proof (cases "si_in info")
  case None
  let ?i = "info\<lparr>si_in := Some [], si_inpos := 0, si_incount := word_of_nat sizeof_generic_message\<rparr>"
  have same: "nonblock_read_message ef le al info q es s = nonblock_read_message ef le al ?i q es s"
    using None assms(3)
    by (subst (1 2) nonblock_read_message.simps) (simp add: start_message_def plenty_def)
  have "reading le ?i ms s" using assms(1) None by (simp add: reading_def sizeof_generic_message_def)
  from read_start [OF this _ _ assms(2,3), of "[]" q ef]
  have "reads_some le ?i q ms es (nonblock_read_message ef le al ?i q es s)"
    by (simp add: sizeof_generic_message_def)
  then show ?thesis by (simp add: same reads_some_def took_def)
next
  case (Some b)
  show ?thesis
  proof (cases "length b < sizeof_generic_message")
    case True
    from read_start [OF assms(1) Some True assms(2,3)] show ?thesis .
  next
    case False
    with assms(1) Some obtain m ms' where "ms = m # ms'" by (auto simp: reading_def)
    with read_rest [of le info m ms' s b es al] assms Some False show ?thesis by simp
  qed
qed

text \<open>
  A socket event reads a bounded number of messages. \<open>k\<close> further turns of the loop are allowed;
  \<open>al\<close> gives the answers of the allocator in each turn.
\<close>

fun read_messages_loop ::
  "bool \<Rightarrow> bool \<Rightarrow> (nat \<Rightarrow> read_allocs) \<Rightarrow> nat \<Rightarrow> socket_info \<Rightarrow> message list \<Rightarrow> read_event list \<Rightarrow> byte list
    \<Rightarrow> (int \<times> socket_info \<times> message list \<times> byte list) run" where
  "read_messages_loop ef le al k info q es s = do {
     (error, again, info', q', es', s') \<leftarrow> nonblock_read_message ef le (al k) info q es s;
     if again \<and> error = EMPI_SUCCESS then
       (case k of
          0 \<Rightarrow> Some (error, info', q', s')
        | Suc k' \<Rightarrow> read_messages_loop ef le al k' info' q' es' s')
     else Some (error, info', q', s')
   }"

declare read_messages_loop.simps [simp del]

definition nonblock_read_messages ::
  "bool \<Rightarrow> bool \<Rightarrow> (nat \<Rightarrow> read_allocs) \<Rightarrow> socket_info \<Rightarrow> message list \<Rightarrow> read_event list \<Rightarrow> byte list
    \<Rightarrow> (int \<times> socket_info \<times> message list \<times> byte list) run" where
  "nonblock_read_messages ef le al info q es s =
     read_messages_loop ef le al (MAX_SOCKETS_READ_SEQUENCE - 1) info q es s"

lemma read_messages_loop_reading:
  assumes "reading le info ms s" "calm es" "\<forall>k. plenty (al k)"
  shows "\<exists>ms1 ms2 info' s'. read_messages_loop ef le al k info q es s = Some (EMPI_SUCCESS, info', q @ ms1, s') \<and>
    ms = ms1 @ ms2 \<and> reading le info' ms2 s' \<and> took info ms1 info'"
  using assms(1,2)
proof (induction k arbitrary: info q ms es s)
  case 0
  from read_message_reading [OF 0(1,2) assms(3) [rule_format, of 0], where q = q and ef = ef] show ?case
    by (subst read_messages_loop.simps) (auto simp: reads_some_def)
next
  case (Suc k)
  from read_message_reading [OF Suc.prems assms(3) [rule_format, of "Suc k"], where q = q and ef = ef]
  obtain ms1 ms2 info1 es1 s1 where
    one: "nonblock_read_message ef le (al (Suc k)) info q es s =
        Some (EMPI_SUCCESS, ms1 \<noteq> [], info1, q @ ms1, es1, s1)"
      "ms = ms1 @ ms2" "reading le info1 ms2 s1" "took info ms1 info1" "calm es1"
    using Suc.prems(2) unfolding reads_some_def by blast
  show ?case
  proof (cases "ms1 = []")
    case True
    with one show ?thesis by (subst read_messages_loop.simps) auto
  next
    case False
    from Suc.IH [OF one(3,5), of "q @ ms1"] obtain ms3 ms4 info2 s2 where
      "read_messages_loop ef le al k info1 (q @ ms1) es1 s1 = Some (EMPI_SUCCESS, info2, (q @ ms1) @ ms3, s2)"
      "ms2 = ms3 @ ms4" "reading le info2 ms4 s2" "took info1 ms3 info2" by blast
    with False one took_trans [OF one(4)] show ?thesis
      by (subst read_messages_loop.simps) (auto intro!: exI [of _ "ms1 @ ms3"])
  qed
qed

text \<open>A socket that is polled again and again, each time with its own events.\<close>

fun read_calls ::
  "bool \<Rightarrow> bool \<Rightarrow> (nat \<Rightarrow> read_allocs) \<Rightarrow> read_event list list \<Rightarrow> socket_info \<Rightarrow> message list \<Rightarrow> byte list
    \<Rightarrow> (int \<times> socket_info \<times> message list \<times> byte list) run" where
  "read_calls ef le al [] info q s = Some (EMPI_SUCCESS, info, q, s)"
| "read_calls ef le al (es # ess) info q s = do {
     (error, info', q', s') \<leftarrow> nonblock_read_messages ef le al info q es s;
     if error = EMPI_SUCCESS then read_calls ef le al ess info' q' s' else Some (error, info', q', s')
   }"

lemma read_calls_reading:
  assumes "reading le info ms s" "\<forall>k. plenty (al k)" "\<forall>es \<in> set ess. calm es"
  shows "\<exists>ms1 ms2 info' s'. read_calls ef le al ess info q s = Some (EMPI_SUCCESS, info', q @ ms1, s') \<and>
    ms = ms1 @ ms2 \<and> reading le info' ms2 s' \<and> took info ms1 info'"
  using assms(1,3)
proof (induction ess arbitrary: info q ms s)
  case Nil
  then show ?case by (auto intro!: exI [of _ "[]"])
next
  case (Cons es ess)
  have "calm es" using Cons.prems(2) by simp
  from read_messages_loop_reading [OF Cons.prems(1) this assms(2),
      where ef = ef and k = "MAX_SOCKETS_READ_SEQUENCE - 1" and q = q]
  obtain ms1 ms2 info1 s1 where
    one: "nonblock_read_messages ef le al info q es s = Some (EMPI_SUCCESS, info1, q @ ms1, s1)"
      "ms = ms1 @ ms2" "reading le info1 ms2 s1" "took info ms1 info1"
    unfolding nonblock_read_messages_def by blast
  from Cons.IH [OF one(3), of "q @ ms1"] Cons.prems(2) obtain ms3 ms4 info2 s2 where
    "read_calls ef le al ess info1 (q @ ms1) s1 = Some (EMPI_SUCCESS, info2, (q @ ms1) @ ms3, s2)"
    "ms2 = ms3 @ ms4" "reading le info2 ms4 s2" "took info1 ms3 info2" by auto
  with one took_trans [OF one(4)] show ?case by (auto intro!: exI [of _ "ms1 @ ms3"])
qed

lemma reading_end: "reading le info ms [] \<Longrightarrow> ms = []"
proof -
  assume r: "reading le info ms []"
  show "ms = []"
  proof (cases ms)
    case (Cons m ms')
    with r have "sizeof_generic_message \<le> length m" by (simp add: reading_def framed_def)
    then have "m \<noteq> []" by (auto simp: sizeof_generic_message_def)
    with r Cons \<open>sizeof_generic_message \<le> length m\<close> show ?thesis
      by (auto simp: reading_def split: option.splits)
  qed simp
qed

lemma reading_fresh:
  "\<forall>m \<in> set ms. framed le typ m \<Longrightarrow> reading le (init_socket_info fd typ) ms (concat ms)"
  by (simp add: reading_def init_socket_info_def)

section \<open>Writing\<close>

text \<open>
  \<open>ep\<close> is what \<^verbatim>\<open>epoll_ctl\<close> returns; the callers do not look at the error code that reports it.
\<close>

definition set_socket_in_epoll_to_ro :: "bool \<Rightarrow> int \<Rightarrow> int run" where
  "set_socket_in_epoll_to_ro ef ep = (if ep \<noteq> 0 then ERROR ef (Some EMPI_ERR_INTERN) else Some EMPI_SUCCESS)"

definition set_socket_in_epoll_to_rw :: "bool \<Rightarrow> int \<Rightarrow> int run" where
  "set_socket_in_epoll_to_rw ef ep = (if ep \<noteq> 0 then ERROR ef (Some EMPI_ERR_INTERN) else Some EMPI_SUCCESS)"

definition ensure_state_ro :: "bool \<Rightarrow> int \<Rightarrow> socket_info \<Rightarrow> socket_info run" where
  "ensure_state_ro ef ep info =
     (if si_state info = STATE_RW then do {
        error \<leftarrow> set_socket_in_epoll_to_ro ef ep;
        Some (info\<lparr>si_state := STATE_RO\<rparr>)
      } else Some info)"

definition ensure_state_rw :: "bool \<Rightarrow> int \<Rightarrow> socket_info \<Rightarrow> socket_info run" where
  "ensure_state_rw ef ep info =
     (if si_state info = STATE_RO then do {
        error \<leftarrow> set_socket_in_epoll_to_rw ef ep;
        Some (info\<lparr>si_state := STATE_RW\<rparr>)
      } else Some info)"

definition prepare_message :: "bool \<Rightarrow> socket_info \<Rightarrow> message list \<Rightarrow> (bool \<times> socket_info \<times> message list) run" where
  "prepare_message le info q =
     (if si_out info \<noteq> None then Some (True, info, q)
      else (case q of
          [] \<Rightarrow> Some (False, info, q)
        | m # q' \<Rightarrow> do {
            len \<leftarrow> header_length le (si_type info) m;
            Some (True, info\<lparr>si_out := Some m, si_outpos := 0, si_outcount := len\<rparr>, q')
          }))"

text \<open>The answers to a \<open>write\<close>: at most \<open>k\<close> bytes were accepted, the socket is full, or an error.
  \<open>sent\<close> is what went out on the connection so far.\<close>

datatype write_event = Accept nat | Full | Write_failed

fun write_loop :: "nat \<Rightarrow> message \<Rightarrow> nat \<Rightarrow> write_event list \<Rightarrow> byte list \<Rightarrow> stop \<times> nat \<times> write_event list \<times> byte list" where
  "write_loop n m count [] sent = (if count < n then Drained else Complete, count, [], sent)"
| "write_loop n m count (e # es) sent =
     (if count < n then
        (case e of
           Accept k \<Rightarrow>
             (let put = take (min k (n - count)) (drop count m) in
              write_loop n m (count + length put) es (sent @ put))
         | Full \<Rightarrow> (Drained, count, es, sent)
         | Write_failed \<Rightarrow> (Broken, count, es, sent))
      else (Complete, count, e # es, sent))"

text \<open>The counters of the data messages that wait in the gateway.\<close>

record pending =
  pending_data_messages :: u64
  pending_data_size :: u64

definition finish_write :: "nat \<Rightarrow> socket_info \<Rightarrow> pending \<Rightarrow> socket_info \<times> pending" where
  "finish_write count info pend =
     (info\<lparr>si_out_bytes := si_out_bytes info + word_of_nat count, si_out_messages := si_out_messages info + 1,
           si_out := None, si_outpos := 0, si_outcount := 0\<rparr>,
      if si_type info = TYPE_DATA then
        pend\<lparr>pending_data_messages := pending_data_messages pend - 1,
             pending_data_size := pending_data_size pend - word_of_nat count\<rparr>
      else pend)"

definition nonblock_write_message ::
  "bool \<Rightarrow> bool \<Rightarrow> int \<Rightarrow> socket_info \<Rightarrow> message list \<Rightarrow> pending \<Rightarrow> write_event list \<Rightarrow> byte list
    \<Rightarrow> (int \<times> bool \<times> socket_info \<times> message list \<times> pending \<times> write_event list \<times> byte list) run" where
  "nonblock_write_message ef le ep info q pend es sent =
     (let go = do {
        (r, i1, q1) \<leftarrow> prepare_message le info q;
        if \<not> r then do {
          i2 \<leftarrow> ensure_state_ro ef ep i1;
          Some (EMPI_SUCCESS, False, i2, q1, pend, es, sent)
        }
        else do {
          m \<leftarrow> si_out i1;
          if unat (si_outcount i1) > length m then None
          else (case write_loop (unat (si_outcount i1)) m (unat (si_outpos i1)) es sent of
              (Drained, count, es', sent') \<Rightarrow>
                Some (EMPI_SUCCESS, False, i1\<lparr>si_outpos := word_of_nat count\<rparr>, q1, pend, es', sent')
            | (Broken, count, es', sent') \<Rightarrow>
                ERROR ef (Some (EMPI_ERR_INTERN, False, i1, q1, pend, es', sent'))
            | (Complete, count, es', sent') \<Rightarrow>
                (let (i2, pend') = finish_write count i1 pend in
                 Some (EMPI_SUCCESS, True, i2, q1, pend', es', sent')))
        }
      } in
      if si_state info \<noteq> STATE_RW then ERROR ef go else go)"

text \<open>The messages a socket has still to send, the one under way first.\<close>

definition to_send :: "socket_info \<Rightarrow> message list \<Rightarrow> message list" where
  "to_send info q = (case si_out info of None \<Rightarrow> q | Some m \<Rightarrow> m # q)"

lemma prepare_message_to_send:
  "prepare_message le info q = Some (r, info', q') \<Longrightarrow> to_send info' q' = to_send info q \<and> (r \<longleftrightarrow> si_out info' \<noteq> None)"
  by (auto simp: prepare_message_def to_send_def bind_eq_Some_conv split: if_splits list.splits)

lemma write_message_shrinks:
  "nonblock_write_message ef le ep info q pend es sent = Some (error, True, info', q', pend', es', sent') \<Longrightarrow>
    length (to_send info q) = Suc (length (to_send info' q'))"
  by (auto simp: nonblock_write_message_def bind_eq_Some_conv finish_write_def to_send_def Let_def
      dest!: prepare_message_to_send split: if_splits stop.splits prod.splits option.splits)

function nonblock_write_messages ::
  "bool \<Rightarrow> bool \<Rightarrow> int \<Rightarrow> socket_info \<Rightarrow> message list \<Rightarrow> pending \<Rightarrow> write_event list \<Rightarrow> byte list
    \<Rightarrow> (int \<times> socket_info \<times> message list \<times> pending \<times> byte list) run" where
  "nonblock_write_messages ef le ep info q pend es sent =
     (case nonblock_write_message ef le ep info q pend es sent of
        None \<Rightarrow> None
      | Some (error, again, info', q', pend', es', sent') \<Rightarrow>
          if again \<and> error = EMPI_SUCCESS then nonblock_write_messages ef le ep info' q' pend' es' sent'
          else Some (error, info', q', pend', sent'))"
  by pat_completeness auto

termination nonblock_write_messages
  by (relation "measure (\<lambda>(ef, le, ep, info, q, pend, es, sent). length (to_send info q))")
     (auto dest!: write_message_shrinks)

declare nonblock_write_messages.simps [simp del]

text \<open>Before the sockets are polled every one of them fetches a message, if there is one to fetch,
  and asks to be told when it can be written: a turn of the loop of \<^verbatim>\<open>prepare_messages\<close>.\<close>

definition prepare_socket :: "bool \<Rightarrow> bool \<Rightarrow> int \<Rightarrow> socket_info \<Rightarrow> message list \<Rightarrow> (socket_info \<times> message list) run" where
  "prepare_socket ef le ep info q = do {
     (r, i1, q1) \<leftarrow> prepare_message le info q;
     i2 \<leftarrow> (if \<not> r then ensure_state_ro ef ep i1 else ensure_state_rw ef ep i1);
     Some (i2, q1)
   }"

section \<open>What the writer makes of a queue of messages\<close>

definition writing :: "bool \<Rightarrow> socket_info \<Rightarrow> message list \<Rightarrow> bool" where
  "writing le info q \<longleftrightarrow> (\<forall>m \<in> set (to_send info q). framed le (si_type info) m) \<and>
     (case si_out info of None \<Rightarrow> True | Some m \<Rightarrow> unat (si_outcount info) = length m \<and> unat (si_outpos info) \<le> length m)"

definition unsent :: "socket_info \<Rightarrow> message list \<Rightarrow> byte list" where
  "unsent info q = (case si_out info of None \<Rightarrow> concat q | Some m \<Rightarrow> drop (unat (si_outpos info)) m @ concat q)"

definition gave :: "socket_info \<Rightarrow> pending \<Rightarrow> message list \<Rightarrow> socket_info \<Rightarrow> pending \<Rightarrow> bool" where
  "gave info pend ms info' pend' \<longleftrightarrow> si_type info' = si_type info \<and>
     si_out_messages info' = si_out_messages info + word_of_nat (length ms) \<and>
     si_out_bytes info' = si_out_bytes info + word_of_nat (length (concat ms)) \<and>
     pend' = (if si_type info = TYPE_DATA then
       pend\<lparr>pending_data_messages := pending_data_messages pend - word_of_nat (length ms),
            pending_data_size := pending_data_size pend - word_of_nat (length (concat ms))\<rparr> else pend)"

definition open_socket :: "socket_info \<Rightarrow> bool" where
  "open_socket info \<longleftrightarrow> si_state info = STATE_RW \<or> si_state info = STATE_RO"

definition accepting :: "write_event list \<Rightarrow> bool" where
  "accepting es \<longleftrightarrow> Write_failed \<notin> set es"

lemma state_irrelevant [simp]:
  "to_send (info\<lparr>si_state := x\<rparr>) q = to_send info q" "unsent (info\<lparr>si_state := x\<rparr>) q = unsent info q"
  "writing le (info\<lparr>si_state := x\<rparr>) q \<longleftrightarrow> writing le info q"
  "gave a p ms (info\<lparr>si_state := x\<rparr>) p' \<longleftrightarrow> gave a p ms info p'"
  by (cases "si_out info"; simp add: to_send_def unsent_def writing_def gave_def)+

lemma gave_refl [simp]: "gave info pend [] info pend"
  by (simp add: gave_def)

lemma gave_trans: "gave a p ms b p1 \<Longrightarrow> gave b p1 ns c p2 \<Longrightarrow> gave a p (ms @ ns) c p2"
  by (auto simp: gave_def algebra_simps)

lemma write_loop_spec:
  assumes "write_loop (length m) m c es sent = (st, c', es', sent')" "c \<le> length m"
  shows "c \<le> c' \<and> c' \<le> length m \<and> sent' @ drop c' m = sent @ drop c m \<and> (st = Complete \<longleftrightarrow> c' = length m) \<and>
    (accepting es \<longrightarrow> st \<noteq> Broken \<and> accepting es')"
  using assms
proof (induction "length m" m c es sent rule: write_loop.induct)
  case (1 m c sent)
  then show ?case by (auto split: if_splits)
next
  case (2 m c e es sent)
  show ?case
  proof (cases "c < length m \<and> (\<exists>k. e = Accept k)")
    case True
    then obtain k where k: "c < length m" "e = Accept k" by blast
    let ?put = "take (min k (length m - c)) (drop c m)"
    have len: "length ?put = min k (length m - c)" by (simp add: min_def)
    have "write_loop (length m) m (c + length ?put) es (sent @ ?put) = (st, c', es', sent')"
      using 2(2) k by (auto simp: Let_def)
    from 2(1) [OF k(1,2) refl this] len k(1) have
      ih: "c + length ?put \<le> c'" "c' \<le> length m" "sent' @ drop c' m = (sent @ ?put) @ drop (c + length ?put) m"
        "st = Complete \<longleftrightarrow> c' = length m" "accepting es \<longrightarrow> st \<noteq> Broken \<and> accepting es'" by auto
    have "?put @ drop (length ?put) (drop c m) = drop c m"
      unfolding len by (rule append_take_drop_id)
    then have "sent' @ drop c' m = sent @ drop c m" using ih(3) by (simp only: drop_drop append_assoc add.commute)
    moreover have "c \<le> c'" using ih(1) by simp
    moreover have "accepting (e # es) \<longrightarrow> accepting es" by (simp add: accepting_def)
    ultimately show ?thesis using ih(2,4,5) by blast
  next
    case False
    with 2(2,3) show ?thesis by (cases e) (auto simp: accepting_def split: if_splits)
  qed
qed

lemma prepare_message_writing:
  assumes "writing le info q"
  shows "\<exists>info' q'. prepare_message le info q = Some (to_send info q \<noteq> [], info', q') \<and> writing le info' q' \<and>
    to_send info' q' = to_send info q \<and> unsent info' q' = unsent info q \<and> gave info pend [] info' pend \<and>
    si_state info' = si_state info \<and> (si_out info' = None \<longrightarrow> to_send info q = [])"
proof (cases "si_out info = None \<and> q \<noteq> []")
  case True
  then obtain m q' where q: "si_out info = None" "q = m # q'" by (cases q) auto
  with assms have f: "framed le (si_type info) m" by (simp add: writing_def to_send_def)
  then have "unat (word_of_nat (length m) :: u32) = length m" by (intro unat_length) (simp add: framed_def)
  with q f assms show ?thesis
    by (simp add: prepare_message_def framed_def writing_def to_send_def unsent_def gave_def)
next
  case False
  with assms show ?thesis
    by (cases "si_out info") (auto simp: prepare_message_def to_send_def)
qed

text \<open>A call of the writer: it finishes the first message or stops; with nothing left it stops
  listening for the socket to become writable.\<close>

definition writes_some :: "bool \<Rightarrow> socket_info \<Rightarrow> message list \<Rightarrow> pending \<Rightarrow> byte list \<Rightarrow> write_event list \<Rightarrow>
    (int \<times> bool \<times> socket_info \<times> message list \<times> pending \<times> write_event list \<times> byte list) run \<Rightarrow> bool" where
  "writes_some le info q pend sent es r \<longleftrightarrow> (\<exists>ms info' q' pend' es' sent'.
     r = Some (EMPI_SUCCESS, ms \<noteq> [], info', q', pend', es', sent') \<and> to_send info q = ms @ to_send info' q' \<and>
     writing le info' q' \<and> sent' @ unsent info' q' = sent @ unsent info q \<and> gave info pend ms info' pend' \<and>
     accepting es' \<and> open_socket info' \<and> (if ms = [] \<and> to_send info' q' = [] then True else si_state info' = STATE_RW))"

lemma write_message_writing:
  assumes w: "writing le info q" and st: "si_state info = STATE_RW" and es: "accepting es" and ep: "ep = 0"
  shows "writes_some le info q pend sent es (nonblock_write_message ef le ep info q pend es sent)"
proof -
  from prepare_message_writing [OF w, of pend] obtain i1 q1 where
    p: "prepare_message le info q = Some (to_send info q \<noteq> [], i1, q1)" "writing le i1 q1"
      "to_send i1 q1 = to_send info q" "unsent i1 q1 = unsent info q" "gave info pend [] i1 pend"
      "si_state i1 = si_state info" "si_out i1 = None \<longrightarrow> to_send info q = []"
    by (elim exE conjE) (rule that)
  show ?thesis
  proof (cases "si_out i1")
    case None
    with p(7) have none: "to_send info q = []" by simp
    with st p(1,6) ep have "nonblock_write_message ef le ep info q pend es sent =
        Some (EMPI_SUCCESS, False, i1\<lparr>si_state := STATE_RO\<rparr>, q1, pend, es, sent)"
      by (simp add: nonblock_write_message_def ensure_state_ro_def set_socket_in_epoll_to_ro_def)
    then show ?thesis using none es p(2-5) unfolding writes_some_def
      by (intro exI [of _ "[]"] exI [of _ "i1\<lparr>si_state := STATE_RO\<rparr>"] exI [of _ q1]) (simp add: open_socket_def)
  next
    case (Some m)
    with p(2,3) have pos: "unat (si_outcount i1) = length m" "unat (si_outpos i1) \<le> length m"
      and some: "to_send info q = m # q1" and f: "framed le (si_type i1) m"
      by (auto simp: writing_def to_send_def)
    from f have m: "length m < 2 ^ 32" by (simp add: framed_def)
    obtain stp c es' sent' where l: "write_loop (length m) m (unat (si_outpos i1)) es sent = (stp, c, es', sent')"
      by (metis prod_cases4)
    from write_loop_spec [OF l pos(2)] es have c: "c \<le> length m" "sent' @ drop c m = sent @ drop (unat (si_outpos i1)) m"
      "stp = Complete \<longleftrightarrow> c = length m" and nb: "stp \<noteq> Broken" and acc: "accepting es'" by auto
    have uns: "unsent info q = drop (unat (si_outpos i1)) m @ concat q1"
      using Some p(4) by (simp add: unsent_def)
    show ?thesis
    proof (cases stp)
      case Complete
      with c(3) have len: "c = length m" by simp
      obtain i2 pend' where fin: "finish_write (length m) i1 pend = (i2, pend')" by (metis prod.exhaust)
      from st p(1) some Some pos(1) l Complete len fin
      have "nonblock_write_message ef le ep info q pend es sent = Some (EMPI_SUCCESS, True, i2, q1, pend', es', sent')"
        by (simp add: nonblock_write_message_def)
      moreover have "si_out i2 = None" "si_state i2 = STATE_RW" "si_type i2 = si_type i1" "gave info pend [m] i2 pend'"
        using fin st p(5,6) by (auto simp: finish_write_def gave_def)
      moreover have "sent' @ concat q1 = sent @ unsent info q" using c(2) len uns by simp
      ultimately show ?thesis using acc some p(2) Some unfolding writes_some_def
        by (intro exI [of _ "[m]"] exI [of _ i2] exI [of _ q1])
           (simp add: open_socket_def to_send_def writing_def unsent_def)
    next
      case Drained
      let ?i = "i1\<lparr>si_outpos := word_of_nat c\<rparr>"
      have un: "unat (word_of_nat c :: u32) = c" using c(1) m by (simp add: unsigned_of_nat take_bit_nat_eq_self)
      from st p(1) some Some pos(1) l Drained
      have "nonblock_write_message ef le ep info q pend es sent = Some (EMPI_SUCCESS, False, ?i, q1, pend, es', sent')"
        by (simp add: nonblock_write_message_def)
      moreover have "to_send ?i q1 = to_send info q" using Some some by (simp add: to_send_def)
      moreover have "writing le ?i q1" using p(2) Some pos c(1) un by (simp add: writing_def to_send_def)
      moreover have "gave info pend [] ?i pend" "si_state ?i = STATE_RW" using p(5,6) st by (simp_all add: gave_def)
      moreover have "sent' @ unsent ?i q1 = sent @ unsent info q" using Some un uns c(2) by (simp add: unsent_def)
      ultimately show ?thesis using acc unfolding writes_some_def
        by (intro exI [of _ "[]"] exI [of _ ?i] exI [of _ q1]) (simp add: open_socket_def)
    next
      case Broken
      with nb show ?thesis by simp
    qed
  qed
qed

lemma write_messages_writing:
  assumes "writing le info q" "si_state info = STATE_RW" "accepting es" "ep = 0"
  shows "\<exists>ms info' q' pend' sent'. nonblock_write_messages ef le ep info q pend es sent =
      Some (EMPI_SUCCESS, info', q', pend', sent') \<and> to_send info q = ms @ to_send info' q' \<and>
    writing le info' q' \<and> sent' @ unsent info' q' = sent @ unsent info q \<and> gave info pend ms info' pend' \<and>
    open_socket info'"
  using assms
proof (induction ef le ep info q pend es sent rule: nonblock_write_messages.induct)
  case (1 ef le ep info q pend es sent)
  from write_message_writing [OF 1(2-5), of pend sent ef] obtain ms i1 q1 pend1 es1 sent1 where
    w: "nonblock_write_message ef le ep info q pend es sent = Some (EMPI_SUCCESS, ms \<noteq> [], i1, q1, pend1, es1, sent1)"
      "to_send info q = ms @ to_send i1 q1" "writing le i1 q1" "sent1 @ unsent i1 q1 = sent @ unsent info q"
      "gave info pend ms i1 pend1" "accepting es1" "open_socket i1"
      "ms \<noteq> [] \<longrightarrow> si_state i1 = STATE_RW"
    unfolding writes_some_def by (auto split: if_splits)
  show ?case
  proof (cases "ms = []")
    case True
    with w show ?thesis
      by (subst nonblock_write_messages.simps) (auto intro!: exI [of _ "[]"])
  next
    case False
    with 1(1) [OF w(1) refl refl refl refl refl refl] w(3,6,8) 1(5) obtain ns i2 q2 pend2 sent2 where
      "nonblock_write_messages ef le ep i1 q1 pend1 es1 sent1 = Some (EMPI_SUCCESS, i2, q2, pend2, sent2)"
      "to_send i1 q1 = ns @ to_send i2 q2" "writing le i2 q2" "sent2 @ unsent i2 q2 = sent1 @ unsent i1 q1"
      "gave i1 pend1 ns i2 pend2" "open_socket i2" by auto
    with False w(1,2,4) gave_trans [OF w(5)] show ?thesis
      by (subst nonblock_write_messages.simps) (auto intro!: exI [of _ "ms @ ns"])
  qed
qed

lemma prepare_socket_writing:
  assumes "writing le info q" "open_socket info" "ep = 0"
  shows "\<exists>info' q'. prepare_socket ef le ep info q = Some (info', q') \<and> writing le info' q' \<and>
    to_send info' q' = to_send info q \<and> unsent info' q' = unsent info q \<and> gave info pend [] info' pend \<and>
    si_state info' = (if to_send info q = [] then STATE_RO else STATE_RW)"
proof -
  from prepare_message_writing [OF assms(1), of pend] obtain i1 q1 where
    p: "prepare_message le info q = Some (to_send info q \<noteq> [], i1, q1)" "writing le i1 q1"
      "to_send i1 q1 = to_send info q" "unsent i1 q1 = unsent info q" "gave info pend [] i1 pend"
      "si_state i1 = si_state info" "si_out i1 = None \<longrightarrow> to_send info q = []"
    by (elim exE conjE) (rule that)
  let ?s = "if to_send info q = [] then STATE_RO else STATE_RW"
  have "prepare_socket ef le ep info q = Some (i1\<lparr>si_state := ?s\<rparr>, q1)"
    using p(1,6) assms(2,3)
    by (auto simp: prepare_socket_def ensure_state_ro_def ensure_state_rw_def set_socket_in_epoll_to_ro_def
        set_socket_in_epoll_to_rw_def open_socket_def STATE_RO_def STATE_RW_def)
  with p(2-5) show ?thesis by (intro exI [of _ "i1\<lparr>si_state := ?s\<rparr>"] exI [of _ q1]) simp
qed

text \<open>A stream that is served again and again: it is prepared, and written if the kernel was asked to
  tell when it can be.\<close>

fun write_calls ::
  "bool \<Rightarrow> bool \<Rightarrow> int \<Rightarrow> write_event list list \<Rightarrow> socket_info \<Rightarrow> message list \<Rightarrow> pending \<Rightarrow> byte list
    \<Rightarrow> (int \<times> socket_info \<times> message list \<times> pending \<times> byte list) run" where
  "write_calls ef le ep [] info q pend sent = Some (EMPI_SUCCESS, info, q, pend, sent)"
| "write_calls ef le ep (es # ess) info q pend sent = do {
     (i1, q1) \<leftarrow> prepare_socket ef le ep info q;
     if si_state i1 = STATE_RW then do {
       (error, i2, q2, pend', sent') \<leftarrow> nonblock_write_messages ef le ep i1 q1 pend es sent;
       if error = EMPI_SUCCESS then write_calls ef le ep ess i2 q2 pend' sent' else Some (error, i2, q2, pend', sent')
     }
     else write_calls ef le ep ess i1 q1 pend sent
   }"

lemma write_calls_writing:
  assumes "writing le info q" "open_socket info" "ep = 0" "\<forall>es \<in> set ess. accepting es"
  shows "\<exists>ms info' q' pend' sent'. write_calls ef le ep ess info q pend sent =
      Some (EMPI_SUCCESS, info', q', pend', sent') \<and> to_send info q = ms @ to_send info' q' \<and>
    writing le info' q' \<and> sent' @ unsent info' q' = sent @ unsent info q \<and> gave info pend ms info' pend'"
  using assms(1,2,4)
proof (induction ess arbitrary: info q pend sent)
  case Nil
  then show ?case by (auto intro!: exI [of _ "[]"])
next
  case (Cons es ess)
  from prepare_socket_writing [OF Cons.prems(1,2) assms(3), of ef pend] obtain i1 q1 where
    p: "prepare_socket ef le ep info q = Some (i1, q1)" "writing le i1 q1" "to_send i1 q1 = to_send info q"
      "unsent i1 q1 = unsent info q" "gave info pend [] i1 pend"
      "si_state i1 = (if to_send info q = [] then STATE_RO else STATE_RW)" by blast
  then have o1: "open_socket i1" by (simp add: open_socket_def)
  show ?case
  proof (cases "si_state i1 = STATE_RW")
    case True
    from Cons.prems(3) have "accepting es" by simp
    from write_messages_writing [OF p(2) True this assms(3), of ef pend sent] obtain ms i2 q2 pend2 sent2 where
      w: "nonblock_write_messages ef le ep i1 q1 pend es sent = Some (EMPI_SUCCESS, i2, q2, pend2, sent2)"
        "to_send i1 q1 = ms @ to_send i2 q2" "writing le i2 q2" "sent2 @ unsent i2 q2 = sent @ unsent i1 q1"
        "gave i1 pend ms i2 pend2" "open_socket i2" by blast
    from Cons.IH [OF w(3,6), of pend2 sent2] Cons.prems(3) obtain ns i3 q3 pend3 sent3 where
      "write_calls ef le ep ess i2 q2 pend2 sent2 = Some (EMPI_SUCCESS, i3, q3, pend3, sent3)"
      "to_send i2 q2 = ns @ to_send i3 q3" "writing le i3 q3" "sent3 @ unsent i3 q3 = sent2 @ unsent i2 q2"
      "gave i2 pend2 ns i3 pend3" by auto
    with p w True gave_trans [OF gave_trans [OF p(5) w(5)]] show ?thesis
      by (auto intro!: exI [of _ "ms @ ns"])
  next
    case False
    from Cons.IH [OF p(2) o1, of pend sent] Cons.prems(3) obtain ns i3 q3 pend3 sent3 where
      "write_calls ef le ep ess i1 q1 pend sent = Some (EMPI_SUCCESS, i3, q3, pend3, sent3)"
      "to_send i1 q1 = ns @ to_send i3 q3" "writing le i3 q3" "sent3 @ unsent i3 q3 = sent @ unsent i1 q1"
      "gave i1 pend ns i3 pend3" by auto
    with p False gave_trans [OF p(5)] show ?thesis by (auto intro!: exI [of _ ns])
  qed
qed

lemma writing_fresh:
  "\<forall>m \<in> set q. framed le typ m \<Longrightarrow> writing le (init_socket_info fd typ) q"
  "to_send (init_socket_info fd typ) q = q" "unsent (init_socket_info fd typ) q = concat q"
  "open_socket (init_socket_info fd typ)" "si_type (init_socket_info fd typ) = typ"
  "si_in_messages (init_socket_info fd typ) = 0" "si_in_bytes (init_socket_info fd typ) = 0"
  by (simp_all add: writing_def to_send_def unsent_def init_socket_info_def open_socket_def)

lemma all_sent: "to_send info q = [] \<Longrightarrow> unsent info q = []"
  by (simp add: to_send_def unsent_def split: option.splits)

section \<open>What the calls leave alone\<close>

text \<open>Whatever the kernel answers, and whether or not the socket was expected to be writable, the
  writer takes messages from the front only and counts those it finished.\<close>

lemma write_message_accounts:
  assumes w: "writing le info q"
    and r: "nonblock_write_message ef le ep info q pend es sent = Some (error, again, info', q', pend', es', sent')"
  shows "\<exists>ms. to_send info q = ms @ to_send info' q' \<and> writing le info' q' \<and> gave info pend ms info' pend'"
proof -
  from prepare_message_writing [OF w, of pend] obtain i1 q1 where
    p: "prepare_message le info q = Some (to_send info q \<noteq> [], i1, q1)" "writing le i1 q1"
      "to_send i1 q1 = to_send info q" "unsent i1 q1 = unsent info q" "gave info pend [] i1 pend"
      "si_state i1 = si_state info" "si_out i1 = None \<longrightarrow> to_send info q = []"
    by (elim exE conjE) (rule that)
  show ?thesis
  proof (cases "si_out i1")
    case None
    with p(7) r p(1) show ?thesis using p(2,3,5)
      by (auto simp: nonblock_write_message_def ensure_state_ro_def bind_eq_Some_conv Let_def split: if_splits)
  next
    case (Some m)
    with p(2,3) have pos: "unat (si_outcount i1) = length m" "unat (si_outpos i1) \<le> length m"
      and some: "to_send info q = m # q1" and f: "framed le (si_type i1) m"
      by (auto simp: writing_def to_send_def)
    obtain stp c es1 sent1 where l: "write_loop (length m) m (unat (si_outpos i1)) es sent = (stp, c, es1, sent1)"
      by (metis prod_cases4)
    from write_loop_spec [OF l pos(2)] have c: "c \<le> length m" "stp = Complete \<longleftrightarrow> c = length m" by auto
    have un: "unat (word_of_nat c :: u32) = c"
      using c(1) f by (simp add: framed_def unsigned_of_nat take_bit_nat_eq_self)
    show ?thesis
    proof (cases stp)
      case Complete
      with r p(1) some Some pos(1) l c(2) have fin: "(info', pend') = finish_write (length m) i1 pend" "q' = q1"
        by (auto simp: nonblock_write_message_def Let_def split: if_splits prod.splits)
      then have i': "si_out info' = None" "si_type info' = si_type i1" "gave info pend [m] info' pend'"
        using p(5) by (auto simp: finish_write_def gave_def)
      with some fin(2) p(2) Some show ?thesis
        by (intro exI [of _ "[m]"]) (simp add: to_send_def writing_def)
    next
      case Drained
      with r p(1) some Some pos(1) l have "info' = i1\<lparr>si_outpos := word_of_nat c\<rparr>" "q' = q1" "pend' = pend"
        by (auto simp: nonblock_write_message_def Let_def split: if_splits)
      with Some some p(2,5) pos(1) c(1) un show ?thesis
        by (intro exI [of _ "[]"]) (simp add: to_send_def writing_def gave_def)
    next
      case Broken
      with r p(1) some Some pos(1) l have "info' = i1" "q' = q1" "pend' = pend"
        by (auto simp: nonblock_write_message_def Let_def split: if_splits)
      with p(2,3,5) show ?thesis by (intro exI [of _ "[]"]) simp
    qed
  qed
qed

lemma write_messages_accounts:
  assumes "writing le info q"
    and "nonblock_write_messages ef le ep info q pend es sent = Some (error, info', q', pend', sent')"
  shows "\<exists>ms. to_send info q = ms @ to_send info' q' \<and> writing le info' q' \<and> gave info pend ms info' pend'"
  using assms
proof (induction ef le ep info q pend es sent rule: nonblock_write_messages.induct)
  case (1 ef le ep info q pend es sent)
  from 1(3) obtain e again i1 q1 p1 es1 s1 where
    one: "nonblock_write_message ef le ep info q pend es sent = Some (e, again, i1, q1, p1, es1, s1)"
    by (subst (asm) nonblock_write_messages.simps) (auto split: option.splits)
  from write_message_accounts [OF 1(2) one] obtain ms where
    ms: "to_send info q = ms @ to_send i1 q1" "writing le i1 q1" "gave info pend ms i1 p1" by blast
  show ?case
  proof (cases "again \<and> e = EMPI_SUCCESS")
    case True
    with 1(3) one have "nonblock_write_messages ef le ep i1 q1 p1 es1 s1 = Some (error, info', q', pend', sent')"
      by (subst (asm) nonblock_write_messages.simps) simp
    with 1(1) [OF one refl refl refl refl refl refl True ms(2)] obtain ns where
      "to_send i1 q1 = ns @ to_send info' q'" "writing le info' q'" "gave i1 p1 ns info' pend'" by blast
    with ms(1) gave_trans [OF ms(3)] show ?thesis by (intro exI [of _ "ms @ ns"]) simp
  next
    case False
    with 1(3) one have "info' = i1" "q' = q1" "pend' = p1"
      by (subst (asm) nonblock_write_messages.simps, auto)+
    with ms show ?thesis by blast
  qed
qed

text \<open>The reader does not touch the half of a socket that writes.\<close>

definition same_out :: "socket_info \<Rightarrow> socket_info \<Rightarrow> bool" where
  "same_out a b \<longleftrightarrow> si_type a = si_type b \<and> si_state a = si_state b \<and> si_out a = si_out b \<and>
     si_outpos a = si_outpos b \<and> si_outcount a = si_outcount b"

lemma read_message_same_out:
  "nonblock_read_message ef le al info q es s = Some (error, again, info', q', es', s') \<Longrightarrow> same_out info info'"
proof (induction ef le al info q es s rule: nonblock_read_message.induct)
  case (1 ef le al info q es s)
  from 1(2) obtain i1 b where st: "start_message al info = Some (i1, b)"
    by (subst (asm) nonblock_read_message.simps) (auto split: option.splits)
  then have same: "same_out info i1"
    by (auto simp: start_message_def same_out_def split: option.splits if_splits)
  obtain stp bs es1 s1 where l: "read_loop (unat (si_incount i1)) b es s = (stp, bs, es1, s1)" by (metis prod_cases4)
  show ?case
  proof (cases "stp = Complete \<and> length bs = sizeof_generic_message \<and>
      \<not> unat (si_incount i1) < sizeof_generic_message \<and>
      (\<exists>len. header_length le (si_type i1) bs = Some len \<and> unat len \<noteq> sizeof_generic_message) \<and> al_body al")
    case True
    then obtain len where len: "header_length le (si_type i1) bs = Some len" "unat len \<noteq> sizeof_generic_message"
      by blast
    let ?i = "i1\<lparr>si_in := if al_body al then Some bs else None, si_inpos := word_of_nat (length bs), si_incount := len\<rparr>"
    from 1(2) st l True len
    have "nonblock_read_message ef le al ?i q es1 s1 = Some (error, again, info', q', es', s')"
      by (subst (asm) nonblock_read_message.simps) simp
    moreover have "nonblock_read_message ef le al ?i q es1 s1 = Some (error, again, info', q', es', s') \<Longrightarrow> same_out ?i info'"
      using True by (intro 1(1) [OF st refl l [symmetric] _ refl refl _ _ _ len refl]) auto
    ultimately show ?thesis using same by (simp add: same_out_def)
  next
    case False
    with 1(2) st l have "same_out i1 info'"
      by (subst (asm) nonblock_read_message.simps)
         (auto simp: same_out_def deliver_def Let_def split: stop.splits if_splits option.splits)
    with same show ?thesis by (simp add: same_out_def)
  qed
qed

lemma read_messages_same_out:
  "nonblock_read_messages ef le al info q es s = Some (error, info', q', s') \<Longrightarrow> same_out info info'"
proof -
  have "read_messages_loop ef le al k info q es s = Some (error, info', q', s') \<Longrightarrow> same_out info info'" for k
  proof (induction k arbitrary: info q es s)
    case 0
    then show ?case
      by (subst (asm) read_messages_loop.simps)
         (auto simp: bind_eq_Some_conv split: if_splits dest: read_message_same_out)
  next
    case (Suc k)
    from Suc.prems [unfolded read_messages_loop.simps [of ef le al "Suc k" info q es s] nat.case]
    obtain e again i1 q1 es1 s1 where
      one: "nonblock_read_message ef le (al (Suc k)) info q es s = Some (e, again, i1, q1, es1, s1)"
      and rest: "(if again \<and> e = EMPI_SUCCESS then read_messages_loop ef le al k i1 q1 es1 s1 else Some (e, i1, q1, s1)) =
        Some (error, info', q', s')"
      by (auto simp: bind_eq_Some_conv)
    from rest Suc.IH [of i1 q1 es1 s1] have "same_out i1 info'"
      by (cases "again \<and> e = EMPI_SUCCESS") (auto simp: same_out_def)
    with read_message_same_out [OF one] show ?case by (simp add: same_out_def)
  qed
  then show "nonblock_read_messages ef le al info q es s = Some (error, info', q', s') \<Longrightarrow> same_out info info'"
    unfolding nonblock_read_messages_def .
qed

lemma same_out_writing:
  "same_out a b \<Longrightarrow> writing le b q \<longleftrightarrow> writing le a q" "same_out a b \<Longrightarrow> to_send b q = to_send a q"
  by (auto simp: same_out_def writing_def to_send_def split: option.splits)

lemma prepare_socket_accounts:
  assumes "writing le info q" "prepare_socket ef le ep info q = Some (info', q')"
  shows "writing le info' q' \<and> to_send info' q' = to_send info q \<and> si_type info' = si_type info"
proof -
  from prepare_message_writing [OF assms(1), where pend = "\<lparr>pending_data_messages = 0, pending_data_size = 0\<rparr>"]
  obtain i1 q1 where p: "prepare_message le info q = Some (to_send info q \<noteq> [], i1, q1)" "writing le i1 q1"
    "to_send i1 q1 = to_send info q" "si_type i1 = si_type info"
    unfolding gave_def by (elim exE conjE) (rule that)
  with assms(2) show ?thesis
    by (auto simp: prepare_socket_def ensure_state_ro_def ensure_state_rw_def bind_eq_Some_conv split: if_splits)
qed

lemma prepare_message_type: "prepare_message le info q = Some (r, i1, q1) \<Longrightarrow> si_type i1 = si_type info"
  by (auto simp: prepare_message_def bind_eq_Some_conv split: if_splits list.splits)

lemma write_message_type:
  assumes r: "nonblock_write_message ef le ep info q pend es sent = Some (error, again, info', q', pend', es', sent')"
  shows "si_type info' = si_type info \<and> (si_type info \<noteq> TYPE_DATA \<longrightarrow> pend' = pend)"
proof -
  from r obtain b i1 q1 where p: "prepare_message le info q = Some (b, i1, q1)"
    by (cases "prepare_message le info q") (auto simp: nonblock_write_message_def Let_def split: if_splits)
  from prepare_message_type [OF p] have ty: "si_type i1 = si_type info" .
  show ?thesis
  proof (cases b)
    case False
    with r p ty show ?thesis
      by (auto simp: nonblock_write_message_def ensure_state_ro_def bind_eq_Some_conv Let_def split: if_splits)
  next
    case True
    from prepare_message_to_send [OF p] True obtain m where m: "si_out i1 = Some m" by auto
    obtain stp c es1 sent1 where
      l: "write_loop (unat (si_outcount i1)) m (unat (si_outpos i1)) es sent = (stp, c, es1, sent1)"
      by (metis prod_cases4)
    from r p True m l ty show ?thesis
      by (cases stp) (auto simp: nonblock_write_message_def Let_def finish_write_def split: if_splits)
  qed
qed

lemma write_messages_type:
  "nonblock_write_messages ef le ep info q pend es sent = Some (error, info', q', pend', sent') \<Longrightarrow>
    si_type info' = si_type info \<and> (si_type info \<noteq> TYPE_DATA \<longrightarrow> pend' = pend)"
proof (induction ef le ep info q pend es sent rule: nonblock_write_messages.induct)
  case (1 ef le ep info q pend es sent)
  from 1(2) obtain e again i1 q1 p1 es1 s1 where
    one: "nonblock_write_message ef le ep info q pend es sent = Some (e, again, i1, q1, p1, es1, s1)"
    by (subst (asm) nonblock_write_messages.simps) (auto split: option.splits)
  show ?case
  proof (cases "again \<and> e = EMPI_SUCCESS")
    case True
    with 1(2) one have "nonblock_write_messages ef le ep i1 q1 p1 es1 s1 = Some (error, info', q', pend', sent')"
      by (subst (asm) nonblock_write_messages.simps) simp
    with 1(1) [OF one refl refl refl refl refl refl True] write_message_type [OF one] show ?thesis by auto
  next
    case False
    with 1(2) one write_message_type [OF one] show ?thesis
      by (subst (asm) nonblock_write_messages.simps) auto
  qed
qed

section \<open>A socket that keeps accepting bytes is drained\<close>

definition willing :: "write_event list \<Rightarrow> bool" where
  "willing es \<longleftrightarrow> (\<forall>e \<in> set es. \<exists>k > 0. e = Accept k)"

lemma willing_accepting: "willing es \<Longrightarrow> accepting es"
  by (auto simp: willing_def accepting_def)

lemma write_loop_completes:
  assumes "willing es" "c \<le> length m" "length m - c \<le> length es"
  shows "\<exists>es' sent'. write_loop (length m) m c es sent = (Complete, length m, es', sent') \<and> willing es' \<and>
    length es - (length m - c) \<le> length es'"
  using assms
proof (induction es arbitrary: c sent)
  case Nil
  then show ?case by (simp add: willing_def)
next
  case (Cons e es)
  show ?case
  proof (cases "c < length m")
    case True
    from Cons.prems(1) obtain k where k: "e = Accept k" "0 < k" and es: "willing es" by (auto simp: willing_def)
    define put where "put = take (min k (length m - c)) (drop c m)"
    have put: "0 < length put" "c + length put \<le> length m" using True k(2) by (auto simp: put_def)
    have "length m - (c + length put) \<le> length es" using Cons.prems(3) put(1) by (simp add: Suc_le_eq del: length_greater_0_conv)
    from Cons.IH [OF es put(2) this, of "sent @ put"] obtain es' sent' where
      r: "write_loop (length m) m (c + length put) es (sent @ put) = (Complete, length m, es', sent')" "willing es'"
        "length es - (length m - (c + length put)) \<le> length es'" by blast
    have "write_loop (length m) m c (e # es) sent = (Complete, length m, es', sent')"
      using True k(1) r(1) by (simp add: put_def Let_def)
    moreover have "length (e # es) - (length m - c) \<le> length es'" using r(3) put(1) True
      by (simp add: Suc_le_eq del: length_greater_0_conv)
    ultimately show ?thesis using r(2) by blast
  next
    case False
    with Cons.prems show ?thesis by simp
  qed
qed

lemma write_messages_drain:
  assumes "writing le info q" "si_state info = STATE_RW" "willing es" "length (unsent info q) \<le> length es"
  shows "\<exists>info' q' pend' sent'. nonblock_write_messages ef le 0 info q pend es sent =
    Some (EMPI_SUCCESS, info', q', pend', sent') \<and> to_send info' q' = []"
  using assms
proof (induction "length (to_send info q)" arbitrary: info q pend es sent)
  case 0
  from write_messages_writing [OF 0(2,3) willing_accepting [OF 0(4)] refl, of ef pend sent] 0(1) show ?case by fastforce
next
  case (Suc n)
  from prepare_message_writing [OF Suc.prems(1), of pend] obtain i1 q1 where
    p: "prepare_message le info q = Some (to_send info q \<noteq> [], i1, q1)" "writing le i1 q1"
      "to_send i1 q1 = to_send info q" "unsent i1 q1 = unsent info q" "gave info pend [] i1 pend"
      "si_state i1 = si_state info" "si_out i1 = None \<longrightarrow> to_send info q = []"
    by (elim exE conjE) (rule that)
  have ne: "to_send info q \<noteq> []" using Suc.hyps(2) by auto
  with p(7) obtain m where m: "si_out i1 = Some m" by auto
  have pos: "unat (si_outcount i1) = length m" "unat (si_outpos i1) \<le> length m"
    using p(2) m by (auto simp: writing_def)
  have uns: "unsent info q = drop (unat (si_outpos i1)) m @ concat q1" using p(4) m by (simp add: unsent_def)
  with Suc.prems(4) have "length m - unat (si_outpos i1) \<le> length es" by simp
  from write_loop_completes [OF Suc.prems(3) pos(2) this, of sent] obtain es1 sent1 where
    l: "write_loop (length m) m (unat (si_outpos i1)) es sent = (Complete, length m, es1, sent1)" "willing es1"
      "length es - (length m - unat (si_outpos i1)) \<le> length es1" by blast
  obtain i2 pend2 where fin: "finish_write (length m) i1 pend = (i2, pend2)" by (metis prod.exhaust)
  have call: "nonblock_write_message ef le 0 info q pend es sent = Some (EMPI_SUCCESS, True, i2, q1, pend2, es1, sent1)"
    using Suc.prems(2) p(1) ne m pos(1) l(1) fin by (simp add: nonblock_write_message_def)
  from fin have i2: "si_out i2 = None" "si_state i2 = si_state i1" "si_type i2 = si_type i1"
    by (auto simp: finish_write_def)
  have "writing le i2 q1" using p(2) m i2 by (simp add: writing_def to_send_def)
  moreover have "to_send i1 q1 = m # to_send i2 q1" using m i2(1) by (simp add: to_send_def)
  then have "n = length (to_send i2 q1)" using Suc.hyps(2) p(3) by simp
  moreover have "si_state i2 = STATE_RW" using i2(2) p(6) Suc.prems(2) by simp
  moreover have "length (unsent i2 q1) \<le> length es1" using uns Suc.prems(4) l(3) pos(2) i2(1) by (simp add: unsent_def)
  ultimately obtain info' q' pend' sent' where
    "nonblock_write_messages ef le 0 i2 q1 pend2 es1 sent1 = Some (EMPI_SUCCESS, info', q', pend', sent')" "to_send info' q' = []"
    using Suc.hyps(1) [of i2 q1 es1 pend2 sent1] l(2) by blast
  with call show ?case by (subst nonblock_write_messages.simps) simp
qed

end
