(* ===== verification/Gateway.thy ===== *)
theory Gateway
  imports Sockets
begin

text \<open>
  The main loop of a gateway process, the second half of \<^verbatim>\<open>src/backend/gateway.c\<close>: messages that
  arrive through MPI from the application processes of the cluster are queued for the server or for
  the gateway of another cluster, messages that arrive on the sockets are forwarded through MPI, and
  the reply to the finalization of the run ends the loop.

  The outside world is an argument: the answers of MPI to each probe (\<open>gw_probe\<close>), to each
  \<^verbatim>\<open>PMPI_Isend\<close> and \<^verbatim>\<open>PMPI_Test\<close>, of \<^verbatim>\<open>epoll\<close>, and what the kernel does with each socket. The fields
  \<open>gw_sent\<close>, \<open>gw_stream\<close> and \<open>gw_wire\<close> of the state record what was handed to MPI, what is still to
  arrive on each socket, and what was written to it.
\<close>

definition TAG_FORWARDED_DATA_MSG :: int where [const_defs]: "TAG_FORWARDED_DATA_MSG = 42"
definition TAG_SERVER_REPLY :: int where [const_defs]: "TAG_SERVER_REPLY = 45"
definition GW_FINALIZE_REPLY :: u32 where [const_defs]: "GW_FINALIZE_REPLY = 59"
definition MAX_PENDING_DATA_SIZE :: u64 where [const_defs]: "MAX_PENDING_DATA_SIZE = 1024 * 1024 * 1024"
definition MAX_PENDING_DATA_MSG :: u64 where [const_defs]: "MAX_PENDING_DATA_MSG = 128"
definition MAX_MPI_RECEIVE_SEQUENCE :: nat where [const_defs]: "MAX_MPI_RECEIVE_SEQUENCE = 16"

record gateway_connection =
  gc_sockets :: "socket_info list"
  gc_stream_count :: int
  gc_out_queue :: "message list"

datatype sock_id = Server | Stream nat nat

record gateway =
  gw_cluster_count :: u32
  gw_cluster_rank :: u32
  gw_gateway_rank :: int
  gw_my_pid :: u32
  gw_connections :: "gateway_connection list"
  gw_server_info :: socket_info
  gw_server_queue_out :: "message list"
  gw_server_queue_in :: "message list"
  gw_incoming_queue :: "message list"
  gw_mpi_messages :: "(nat \<times> message) list"
  gw_pending :: pending
  gw_sent :: "(message \<times> u32 \<times> int) list"
  gw_stream :: "sock_id \<Rightarrow> byte list"
  gw_wire :: "sock_id \<Rightarrow> byte list"

section \<open>Messages from MPI\<close>

definition enqueue_data_message :: "bool \<Rightarrow> bool \<Rightarrow> bool \<Rightarrow> message \<Rightarrow> int \<Rightarrow> gateway \<Rightarrow> (int \<times> gateway) run" where
  "enqueue_data_message ef le ok m sz gw = do {
     let pend = \<lparr>pending_data_messages = pending_data_messages (gw_pending gw) + 1,
                 pending_data_size = pending_data_size (gw_pending gw) + word_of_int sz\<rparr>;
     let gw1 = gw\<lparr>gw_pending := pend\<rparr>;
     dst \<leftarrow> word_field le m 2;
     let target = int (unat (GET_CLUSTER_RANK dst));
     c \<leftarrow> arr_read (gw_connections gw) target;
     if \<not> ok then ERROR ef (Some (EMPI_ERR_INTERN, gw1))
     else do {
       cs \<leftarrow> arr_write (gw_connections gw) target (c\<lparr>gc_out_queue := gc_out_queue c @ [m]\<rparr>);
       Some (EMPI_SUCCESS, gw1\<lparr>gw_connections := cs\<rparr>)
     }
   }"

definition enqueue_server_request :: "bool \<Rightarrow> bool \<Rightarrow> message \<Rightarrow> gateway \<Rightarrow> (int \<times> gateway) run" where
  "enqueue_server_request ef ok m gw =
     (if gw_gateway_rank gw \<noteq> 0 then ERROR ef (Some (EMPI_ERR_INTERN, gw))
      else if \<not> ok then ERROR ef (Some (EMPI_ERR_INTERN, gw))
      else Some (EMPI_SUCCESS, gw\<lparr>gw_server_queue_out := gw_server_queue_out gw @ [m]\<rparr>))"

definition process_gateway_message :: "bool \<Rightarrow> bool \<Rightarrow> message \<Rightarrow> int \<Rightarrow> (int \<times> int) run" where
  "process_gateway_message ef le m don = do {
     w \<leftarrow> word_field le m 0;
     if ntohl le w \<noteq> GW_FINALIZE_REPLY then ERROR ef (Some (EMPI_ERR_INTERN, don))
     else Some (EMPI_SUCCESS, 1)
   }"

text \<open>
  Everything that MPI and the allocator answer while one message is received: to the probe, its
  flag, the size, the buffer, the receive, the message, and the element of the queue it goes to.
\<close>

record gw_probe =
  gp_error :: int
  gp_flag :: bool
  gp_count_error :: int
  gp_alloc :: bool
  gp_recv_error :: int
  gp_message :: message
  gp_node :: bool

definition silence :: gw_probe where
  "silence = \<lparr>gp_error = 0, gp_flag = False, gp_count_error = 0, gp_alloc = True, gp_recv_error = 0,
     gp_message = [], gp_node = True\<rparr>"

text \<open>The part the three receivers have in common: the error code, \<open>*received\<close>, and the message.
  Only the data messages do not report a failing receive (\<open>quiet\<close>).\<close>

definition receive_mpi_message :: "bool \<Rightarrow> bool \<Rightarrow> gw_probe \<Rightarrow> int \<Rightarrow> (int \<times> int \<times> message option) run" where
  "receive_mpi_message ef quiet pr received =
     (if gp_error pr \<noteq> 0 then ERROR ef (Some (gp_error pr, received, None))
      else if \<not> gp_flag pr then Some (EMPI_SUCCESS, 0, None)
      else if gp_count_error pr \<noteq> 0 then ERROR ef (Some (gp_count_error pr, 1, None))
      else if \<not> gp_alloc pr then ERROR ef (Some (EMPI_ERR_INTERN, 1, None))
      else if gp_recv_error pr \<noteq> 0 then
        (if quiet then Some (gp_recv_error pr, 1, None) else ERROR ef (Some (gp_recv_error pr, 1, None)))
      else Some (EMPI_SUCCESS, 1, Some (gp_message pr)))"

definition receive_mpi_server_request :: "bool \<Rightarrow> gw_probe \<Rightarrow> int \<Rightarrow> gateway \<Rightarrow> (int \<times> int \<times> gateway) run" where
  "receive_mpi_server_request ef pr received gw = do {
     (error, received', m) \<leftarrow> receive_mpi_message ef False pr received;
     case m of
       None \<Rightarrow> Some (error, received', gw)
     | Some m \<Rightarrow> do {
         (error', gw') \<leftarrow> enqueue_server_request ef (gp_node pr) m gw;
         Some (error', received', gw')
       }
   }"

definition receive_mpi_server_reply :: "bool \<Rightarrow> bool \<Rightarrow> gw_probe \<Rightarrow> int \<Rightarrow> int \<Rightarrow> (int \<times> int \<times> int) run" where
  "receive_mpi_server_reply ef le pr don received = do {
     (error, received', m) \<leftarrow> receive_mpi_message ef False pr received;
     case m of
       None \<Rightarrow> Some (error, don, received')
     | Some m \<Rightarrow> do {
         (error', don') \<leftarrow> process_gateway_message ef le m don;
         Some (error', don', received')
       }
   }"

definition receive_mpi_data_message :: "bool \<Rightarrow> bool \<Rightarrow> gw_probe \<Rightarrow> int \<Rightarrow> gateway \<Rightarrow> (int \<times> int \<times> gateway) run" where
  "receive_mpi_data_message ef le pr received gw = do {
     (error, received', m) \<leftarrow> receive_mpi_message ef True pr received;
     case m of
       None \<Rightarrow> Some (error, received', gw)
     | Some m \<Rightarrow> do {
         (error', gw') \<leftarrow> enqueue_data_message ef le (gp_node pr) m (int (length m)) gw;
         Some (error', received', gw')
       }
   }"

section \<open>Messages to MPI\<close>

text \<open>The sends under way: the first that \<^verbatim>\<open>PMPI_Test\<close> (\<open>test\<close>: its error and its flag) reports
  complete is taken out of the list and freed, and so on; an error leaves the rest as it is.\<close>

fun poll_mpi_requests ::
  "bool \<Rightarrow> (nat \<Rightarrow> int \<times> bool) \<Rightarrow> (nat \<times> message) list \<Rightarrow> (int \<times> (nat \<times> message) list) run" where
  "poll_mpi_requests ef test [] = Some (EMPI_SUCCESS, [])"
| "poll_mpi_requests ef test ((r, m) # ms) =
     (let (error, flag) = test r in
      if error \<noteq> 0 then ERROR ef (Some (error, (r, m) # ms))
      else do {
        (error', ms') \<leftarrow> poll_mpi_requests ef test ms;
        Some (error', if flag then ms' else (r, m) # ms')
      })"

text \<open>What the allocator and \<^verbatim>\<open>PMPI_Isend\<close> answer: an element, the error code, the request.\<close>

record isend =
  is_alloc :: bool
  is_error :: int
  is_request :: nat

definition forward_mpi_message ::
  "bool \<Rightarrow> isend \<Rightarrow> message \<Rightarrow> u32 \<Rightarrow> u32 \<Rightarrow> int \<Rightarrow> gateway \<Rightarrow> (int \<times> gateway) run" where
  "forward_mpi_message ef is m pid len tag gw =
     (if GET_CLUSTER_RANK pid \<noteq> gw_cluster_rank gw then ERROR ef (Some (EMPI_ERR_INTERN, gw))
      else if \<not> is_alloc is then ERROR ef (Some (EMPI_ERR_INTERN, gw))
      else if is_error is \<noteq> 0 then ERROR ef (Some (is_error is, gw))
      else if sint len < 0 \<or> unat len > length m then None
      else Some (EMPI_SUCCESS, gw\<lparr>gw_mpi_messages := (is_request is, m) # gw_mpi_messages gw,
             gw_sent := gw_sent gw @ [(take (unat len) m, GET_PROCESS_RANK pid, tag)]\<rparr>))"

fun forward_data_loop :: "bool \<Rightarrow> bool \<Rightarrow> (nat \<Rightarrow> isend) \<Rightarrow> message list \<Rightarrow> gateway \<Rightarrow> (int \<times> gateway) run" where
  "forward_data_loop ef le is [] gw = Some (EMPI_SUCCESS, gw)"
| "forward_data_loop ef le is (m # q) gw = do {
     let gw1 = gw\<lparr>gw_incoming_queue := q\<rparr>;
     len \<leftarrow> word_field le m 3;
     pid \<leftarrow> word_field le m 2;
     (error, gw2) \<leftarrow> forward_mpi_message ef (is (length q)) m pid len TAG_FORWARDED_DATA_MSG gw1;
     if error \<noteq> 0 then ERROR ef (Some (error, gw2))
     else forward_data_loop ef le is q gw2
   }"

definition forward_data_messages_to_mpi :: "bool \<Rightarrow> bool \<Rightarrow> (nat \<Rightarrow> isend) \<Rightarrow> gateway \<Rightarrow> (int \<times> gateway) run" where
  "forward_data_messages_to_mpi ef le is gw = forward_data_loop ef le is (gw_incoming_queue gw) gw"

fun forward_server_loop ::
  "bool \<Rightarrow> bool \<Rightarrow> (nat \<Rightarrow> isend) \<Rightarrow> message list \<Rightarrow> int \<Rightarrow> gateway \<Rightarrow> (int \<times> int \<times> gateway) run" where
  "forward_server_loop ef le is [] don gw = Some (EMPI_SUCCESS, don, gw)"
| "forward_server_loop ef le is (m # q) don gw = do {
     let gw1 = gw\<lparr>gw_server_queue_in := q\<rparr>;
     len \<leftarrow> word_field le m 3;
     pid \<leftarrow> word_field le m 2;
     if ntohl le pid = gw_my_pid gw then do {
       (error, don') \<leftarrow> process_gateway_message ef le m don;
       if error \<noteq> 0 then ERROR ef (Some (error, don', gw1))
       else forward_server_loop ef le is q don' gw1
     }
     else do {
       (error, gw2) \<leftarrow> forward_mpi_message ef (is (length q)) m (ntohl le pid) (ntohl le len) TAG_SERVER_REPLY gw1;
       if error \<noteq> 0 then ERROR ef (Some (error, don, gw2))
       else forward_server_loop ef le is q don gw2
     }
   }"

definition forward_server_messages_to_mpi ::
  "bool \<Rightarrow> bool \<Rightarrow> (nat \<Rightarrow> isend) \<Rightarrow> int \<Rightarrow> gateway \<Rightarrow> (int \<times> int \<times> gateway) run" where
  "forward_server_messages_to_mpi ef le is don gw = forward_server_loop ef le is (gw_server_queue_in gw) don gw"

section \<open>One round of MPI messages\<close>

text \<open>
  One turn of the first loop: a request, a reply, and what the server sent. The two pointers of
  \<open>receive_mpi_server_reply\<close> are passed in the wrong order: \<open>receivedReply\<close> is its \<open>done\<close> and
  \<open>*done\<close> its \<open>received\<close>. The result is the error code, whether to go on, \<open>*done\<close> and the state.
\<close>

definition server_round ::
  "bool \<Rightarrow> bool \<Rightarrow> (nat \<Rightarrow> isend) \<Rightarrow> gw_probe \<Rightarrow> gw_probe \<Rightarrow> int \<Rightarrow> gateway
    \<Rightarrow> (int \<times> bool \<times> int \<times> gateway) run" where
  "server_round ef le is p1 p2 don gw = do {
     (error, receivedRequest, gw1) \<leftarrow> receive_mpi_server_request ef p1 0 gw;
     if error \<noteq> EMPI_SUCCESS then ERROR ef (Some (error, False, don, gw1))
     else do {
       (error, receivedReply, don1) \<leftarrow> receive_mpi_server_reply ef le p2 0 don;
       if error \<noteq> EMPI_SUCCESS then ERROR ef (Some (error, False, don1, gw1))
       else do {
         (error, don2, gw2) \<leftarrow> forward_server_messages_to_mpi ef le is don1 gw1;
         if error \<noteq> EMPI_SUCCESS then ERROR ef (Some (error, False, don2, gw2))
         else Some (EMPI_SUCCESS, receivedRequest + receivedReply > 0 \<and> don2 \<noteq> 1, don2, gw2)
       }
     }
   }"

text \<open>The answers to the probes of the turns; after the last there is nothing more to receive.\<close>

fun server_loop ::
  "bool \<Rightarrow> bool \<Rightarrow> (nat \<Rightarrow> nat \<Rightarrow> isend) \<Rightarrow> (gw_probe \<times> gw_probe) list \<Rightarrow> int \<Rightarrow> gateway
    \<Rightarrow> (int \<times> int \<times> gateway) run" where
  "server_loop ef le is [] don gw = do {
     (error, again, don', gw') \<leftarrow> server_round ef le (is 0) silence silence don gw;
     Some (error, don', gw')
   }"
| "server_loop ef le is ((p1, p2) # ps) don gw = do {
     (error, again, don', gw') \<leftarrow> server_round ef le (is (length ps)) p1 p2 don gw;
     if error \<noteq> EMPI_SUCCESS then Some (error, don', gw')
     else if again then server_loop ef le is ps don' gw' else Some (EMPI_SUCCESS, don', gw')
   }"

text \<open>New data is taken from MPI only while there is room; \<open>k\<close> more messages may be taken.\<close>

definition has_room :: "pending \<Rightarrow> bool" where
  "has_room pend \<longleftrightarrow> pending_data_messages pend < MAX_PENDING_DATA_MSG \<and> pending_data_size pend < MAX_PENDING_DATA_SIZE"

fun data_loop :: "bool \<Rightarrow> bool \<Rightarrow> nat \<Rightarrow> gw_probe list \<Rightarrow> gateway \<Rightarrow> (int \<times> gateway) run" where
  "data_loop ef le 0 prs gw = Some (EMPI_SUCCESS, gw)"
| "data_loop ef le (Suc k) [] gw = Some (EMPI_SUCCESS, gw)"
| "data_loop ef le (Suc k) (pr # prs) gw =
     (if has_room (gw_pending gw) then do {
        (error, receivedData, gw') \<leftarrow> receive_mpi_data_message ef le pr 0 gw;
        if error \<noteq> EMPI_SUCCESS then ERROR ef (Some (error, gw'))
        else if receivedData = 1 then data_loop ef le k prs gw' else Some (EMPI_SUCCESS, gw')
      }
      else Some (EMPI_SUCCESS, gw))"

record mpi_round =
  mr_server :: "(gw_probe \<times> gw_probe) list"
  mr_server_isend :: "nat \<Rightarrow> nat \<Rightarrow> isend"
  mr_data_isend :: "nat \<Rightarrow> isend"
  mr_test :: "nat \<Rightarrow> int \<times> bool"
  mr_data :: "gw_probe list"

definition process_mpi_messages :: "bool \<Rightarrow> bool \<Rightarrow> mpi_round \<Rightarrow> int \<Rightarrow> gateway \<Rightarrow> (int \<times> int \<times> gateway) run" where
  "process_mpi_messages ef le w don gw = do {
     (error, don1, gw1) \<leftarrow> server_loop ef le (mr_server_isend w) (mr_server w) don gw;
     if error \<noteq> EMPI_SUCCESS then Some (error, don1, gw1)
     else do {
       (error, gw2) \<leftarrow> forward_data_messages_to_mpi ef le (mr_data_isend w) gw1;
       if error \<noteq> EMPI_SUCCESS then ERROR ef (Some (error, don1, gw2))
       else do {
         (error, msgs) \<leftarrow> poll_mpi_requests ef (mr_test w) (gw_mpi_messages gw2);
         let gw3 = gw2\<lparr>gw_mpi_messages := msgs\<rparr>;
         if error \<noteq> EMPI_SUCCESS then ERROR ef (Some (error, don1, gw3))
         else if don1 = 1 then Some (EMPI_SUCCESS, don1, gw3)
         else do {
           (error, gw4) \<leftarrow> data_loop ef le MAX_MPI_RECEIVE_SEQUENCE (mr_data w) gw3;
           Some (error, don1, gw4)
         }
       }
     }
   }"

section \<open>One round of socket events\<close>

fun prepare_sockets ::
  "bool \<Rightarrow> bool \<Rightarrow> int \<Rightarrow> socket_info list \<Rightarrow> message list \<Rightarrow> (socket_info list \<times> message list) run" where
  "prepare_sockets ef le ep [] q = Some ([], q)"
| "prepare_sockets ef le ep (i # is) q = do {
     (i', q1) \<leftarrow> prepare_socket ef le ep i q;
     (is', q2) \<leftarrow> prepare_sockets ef le ep is q1;
     Some (i' # is', q2)
   }"

definition prepare_messages :: "bool \<Rightarrow> bool \<Rightarrow> int \<Rightarrow> int \<Rightarrow> gateway \<Rightarrow> gateway run" where
  "prepare_messages ef le ep index gw = do {
     c \<leftarrow> arr_read (gw_connections gw) index;
     let n = nat (gc_stream_count c);
     if n > length (gc_sockets c) then None
     else do {
       (sockets, q) \<leftarrow> prepare_sockets ef le ep (take n (gc_sockets c)) (gc_out_queue c);
       cs \<leftarrow> arr_write (gw_connections gw) index
         (c\<lparr>gc_sockets := sockets @ drop n (gc_sockets c), gc_out_queue := q\<rparr>);
       Some (gw\<lparr>gw_connections := cs\<rparr>)
     }
   }"

fun prepare_loop :: "bool \<Rightarrow> bool \<Rightarrow> int \<Rightarrow> nat \<Rightarrow> int \<Rightarrow> gateway \<Rightarrow> gateway run" where
  "prepare_loop ef le ep 0 i gw = Some gw"
| "prepare_loop ef le ep (Suc n) i gw = do {
     gw' \<leftarrow> (if word_of_int i \<noteq> gw_cluster_rank gw then prepare_messages ef le ep i gw else Some gw);
     prepare_loop ef le ep n (i + 1) gw'
   }"

text \<open>What \<^verbatim>\<open>epoll_wait\<close> tells about a socket, and what the kernel and the allocator answer while
  the event is handled.\<close>

record socket_event =
  ev_socket :: sock_id
  ev_error :: bool
  ev_out :: bool
  ev_in :: bool
  ev_reads :: "read_event list"
  ev_writes :: "write_event list"
  ev_allocs :: "nat \<Rightarrow> read_allocs"

definition handle_event ::
  "bool \<Rightarrow> bool \<Rightarrow> int \<Rightarrow> socket_event \<Rightarrow> socket_info \<Rightarrow> message list \<Rightarrow> message list \<Rightarrow> pending \<Rightarrow> byte list \<Rightarrow> byte list
    \<Rightarrow> (int \<times> socket_info \<times> message list \<times> message list \<times> pending \<times> byte list \<times> byte list) run" where
  "handle_event ef le ep ev info inq outq pend s wire =
     (if ev_error ev then ERROR ef (Some (EMPI_ERR_INTERN, info, inq, outq, pend, s, wire))
      else do {
        (error, i1, outq1, pend1, wire1) \<leftarrow>
          (if ev_out ev then nonblock_write_messages ef le ep info outq pend (ev_writes ev) wire
           else Some (0, info, outq, pend, wire));
        if error \<noteq> 0 then ERROR ef (Some (EMPI_ERR_INTERN, i1, inq, outq1, pend1, s, wire1))
        else do {
          (error, i2, inq2, s2) \<leftarrow>
            (if ev_in ev then nonblock_read_messages ef le (ev_allocs ev) i1 inq (ev_reads ev) s
             else Some (0, i1, inq, s));
          if error \<noteq> 0 then ERROR ef (Some (EMPI_ERR_INTERN, i2, inq2, outq1, pend1, s2, wire1))
          else Some (EMPI_SUCCESS, i2, inq2, outq1, pend1, s2, wire1)
        }
      })"

definition handle_socket_event :: "bool \<Rightarrow> bool \<Rightarrow> int \<Rightarrow> socket_event \<Rightarrow> gateway \<Rightarrow> (int \<times> gateway) run" where
  "handle_socket_event ef le ep ev gw =
     (let id = ev_socket ev in
      case id of
        Server \<Rightarrow> do {
          (error, info, inq, outq, pend, s, wire) \<leftarrow> handle_event ef le ep ev (gw_server_info gw)
            (gw_server_queue_in gw) (gw_server_queue_out gw) (gw_pending gw) (gw_stream gw id) (gw_wire gw id);
          Some (error, gw\<lparr>gw_server_info := info, gw_server_queue_in := inq, gw_server_queue_out := outq,
            gw_pending := pend, gw_stream := (gw_stream gw)(id := s), gw_wire := (gw_wire gw)(id := wire)\<rparr>)
        }
      | Stream c i \<Rightarrow> do {
          conn \<leftarrow> arr_read (gw_connections gw) (int c);
          info \<leftarrow> arr_read (gc_sockets conn) (int i);
          (error, info', inq, outq, pend, s, wire) \<leftarrow> handle_event ef le ep ev info
            (gw_incoming_queue gw) (gc_out_queue conn) (gw_pending gw) (gw_stream gw id) (gw_wire gw id);
          sockets \<leftarrow> arr_write (gc_sockets conn) (int i) info';
          cs \<leftarrow> arr_write (gw_connections gw) (int c) (conn\<lparr>gc_sockets := sockets, gc_out_queue := outq\<rparr>);
          Some (error, gw\<lparr>gw_connections := cs, gw_incoming_queue := inq,
            gw_pending := pend, gw_stream := (gw_stream gw)(id := s), gw_wire := (gw_wire gw)(id := wire)\<rparr>)
        })"

fun poll_socket_event :: "bool \<Rightarrow> bool \<Rightarrow> int \<Rightarrow> socket_event list \<Rightarrow> gateway \<Rightarrow> (int \<times> gateway) run" where
  "poll_socket_event ef le ep [] gw = Some (EMPI_SUCCESS, gw)"
| "poll_socket_event ef le ep (ev # evs) gw = do {
     (status, gw') \<leftarrow> handle_socket_event ef le ep ev gw;
     if status \<noteq> EMPI_SUCCESS then Some (status, gw') else poll_socket_event ef le ep evs gw'
   }"

text \<open>\<^verbatim>\<open>MAX_SOCKETS_RECEIVE_SEQUENCE\<close> is one, so the body of the loop runs once.\<close>

definition process_socket_messages :: "bool \<Rightarrow> bool \<Rightarrow> int \<Rightarrow> socket_event list \<Rightarrow> gateway \<Rightarrow> (int \<times> gateway) run" where
  "process_socket_messages ef le ep evs gw = do {
     gw1 \<leftarrow> (if gw_gateway_rank gw = 0 then do {
         (info, q) \<leftarrow> prepare_socket ef le ep (gw_server_info gw) (gw_server_queue_out gw);
         Some (gw\<lparr>gw_server_info := info, gw_server_queue_out := q\<rparr>)
       } else Some gw);
     gw2 \<leftarrow> prepare_loop ef le ep (unat (gw_cluster_count gw)) 0 gw1;
     (status, gw3) \<leftarrow> poll_socket_event ef le ep evs gw2;
     if status \<noteq> EMPI_SUCCESS then ERROR ef (Some (status, gw3)) else Some (EMPI_SUCCESS, gw3)
   }"

section \<open>The main loop\<close>

text \<open>Each round has its MPI side and its socket events. The loop is still running (\<open>None\<close>) when the
  rounds are used up; otherwise it has ended with an error code, zero when the run is finalized.\<close>

fun gateway_loop :: "bool \<Rightarrow> bool \<Rightarrow> int \<Rightarrow> (mpi_round \<times> socket_event list) list \<Rightarrow> gateway \<Rightarrow> (int option \<times> gateway) run" where
  "gateway_loop ef le ep [] gw = Some (None, gw)"
| "gateway_loop ef le ep ((w, evs) # rounds) gw = do {
     (error, don, gw1) \<leftarrow> process_mpi_messages ef le w 0 gw;
     if error \<noteq> EMPI_SUCCESS then ERROR ef (Some (Some error, gw1))
     else if don = 1 then Some (Some EMPI_SUCCESS, gw1)
     else do {
       (error, gw2) \<leftarrow> process_socket_messages ef le ep evs gw1;
       if error \<noteq> EMPI_SUCCESS then ERROR ef (Some (Some error, gw2))
       else gateway_loop ef le ep rounds gw2
     }
   }"

definition messaging_run_gateway ::
  "bool \<Rightarrow> bool \<Rightarrow> int \<Rightarrow> (mpi_round \<times> socket_event list) list \<Rightarrow> gateway \<Rightarrow> (int option \<times> gateway) run" where
  "messaging_run_gateway ef le ep rounds gw =
     gateway_loop ef le ep rounds (gw\<lparr>gw_pending := \<lparr>pending_data_messages = 0, pending_data_size = 0\<rparr>\<rparr>)"

section \<open>Forwarding\<close>

text \<open>A message for an application process of this cluster, and sends that MPI accepts.\<close>

definition message_dst :: "bool \<Rightarrow> message \<Rightarrow> u32" where
  "message_dst le m = host_word le (take 4 (drop 8 m))"

definition deliverable :: "bool \<Rightarrow> gateway \<Rightarrow> message \<Rightarrow> bool" where
  "deliverable le gw m \<longleftrightarrow> framed le TYPE_DATA m \<and> length m < 2 ^ 31 \<and>
     GET_CLUSTER_RANK (message_dst le m) = gw_cluster_rank gw"

definition sends_ok :: "(nat \<Rightarrow> isend) \<Rightarrow> bool" where
  "sends_ok is \<longleftrightarrow> (\<forall>k. is_alloc (is k) \<and> is_error (is k) = 0)"

lemma word_field_dst: "sizeof_generic_message \<le> length m \<Longrightarrow> word_field le m 2 = Some (message_dst le m)"
  by (simp add: word_field_def message_dst_def sizeof_generic_message_def)

lemma framed_length:
  "framed le TYPE_DATA m \<Longrightarrow> word_field le m 3 = Some (word_of_nat (length m))"
  by (simp add: framed_def header_length_def bind_eq_Some_conv TYPE_DATA_def TYPE_SERVER_def)

lemma forward_mpi_message_ok:
  assumes "GET_CLUSTER_RANK pid = gw_cluster_rank gw" "length m < 2 ^ 31" "sends_ok is"
  shows "forward_mpi_message ef (is k) m pid (word_of_nat (length m)) tag gw =
    Some (EMPI_SUCCESS, gw\<lparr>gw_mpi_messages := (is_request (is k), m) # gw_mpi_messages gw,
      gw_sent := gw_sent gw @ [(m, GET_PROCESS_RANK pid, tag)]\<rparr>)"
proof -
  have "unat (word_of_nat (length m) :: u32) = length m" using assms(2) by (intro unat_length) simp
  moreover have "0 \<le> sint (word_of_nat (length m) :: u32)"
    using assms(2) by (simp add: signed_of_nat signed_take_bit_int_eq_self)
  ultimately show ?thesis using assms by (simp add: forward_mpi_message_def sends_ok_def)
qed

lemma forward_data_loop_ok:
  assumes "\<forall>m \<in> set q. deliverable le gw m" "sends_ok is"
  shows "forward_data_loop ef le is q gw = Some (EMPI_SUCCESS,
    gw\<lparr>gw_incoming_queue := if q = [] then gw_incoming_queue gw else [],
       gw_mpi_messages := rev (map (\<lambda>i. (is_request (is (length q - Suc i)), q ! i)) [0 ..< length q]) @ gw_mpi_messages gw,
       gw_sent := gw_sent gw @ map (\<lambda>m. (m, GET_PROCESS_RANK (message_dst le m), TAG_FORWARDED_DATA_MSG)) q\<rparr>)"
  using assms(1)
proof (induction q arbitrary: gw)
  case Nil
  then show ?case by simp
next
  case (Cons m q)
  let ?gw1 = "gw\<lparr>gw_incoming_queue := q\<rparr>"
  let ?gw2 = "?gw1\<lparr>gw_mpi_messages := (is_request (is (length q)), m) # gw_mpi_messages ?gw1,
    gw_sent := gw_sent ?gw1 @ [(m, GET_PROCESS_RANK (message_dst le m), TAG_FORWARDED_DATA_MSG)]\<rparr>"
  have m: "framed le TYPE_DATA m" "length m < 2 ^ 31" "GET_CLUSTER_RANK (message_dst le m) = gw_cluster_rank ?gw1"
    using Cons.prems by (auto simp: deliverable_def)
  have dst: "word_field le m 2 = Some (message_dst le m)" using m(1) by (intro word_field_dst) (simp add: framed_def)
  have "\<forall>m \<in> set q. deliverable le ?gw2 m" using Cons.prems by (simp add: deliverable_def)
  from Cons.IH [OF this] forward_mpi_message_ok [OF m(3,2) assms(2)] show ?case
    by (simp add: framed_length [OF m(1)] dst upt_rec [of 0 "Suc (length q)"] map_Suc_upt [symmetric] comp_def
        del: upt_Suc)
qed

lemma poll_mpi_requests_filter:
  "\<forall>(r, m) \<in> set ms. fst (test r) = 0 \<Longrightarrow>
    poll_mpi_requests ef test ms = Some (EMPI_SUCCESS, filter (\<lambda>(r, m). \<not> snd (test r)) ms)"
  by (induction ms) (auto split: prod.splits)

section \<open>The end of the run\<close>

definition is_finalize :: "bool \<Rightarrow> message \<Rightarrow> bool" where
  "is_finalize le m \<longleftrightarrow> map_option (ntohl le) (word_field le m 0) = Some GW_FINALIZE_REPLY"

definition for_me :: "bool \<Rightarrow> gateway \<Rightarrow> message \<Rightarrow> bool" where
  "for_me le gw m \<longleftrightarrow> map_option (ntohl le) (word_field le m 2) = Some (gw_my_pid gw)"

lemma process_gateway_message_iff:
  "process_gateway_message ef le m don = Some (EMPI_SUCCESS, don') \<longleftrightarrow> is_finalize le m \<and> don' = 1"
  by (auto simp: process_gateway_message_def is_finalize_def bind_eq_Some_conv split: if_splits)

lemma forward_mpi_message_pid: 
  "forward_mpi_message ef is m pid len tag gw = Some (error, gw') \<Longrightarrow> gw_my_pid gw' = gw_my_pid gw"
  by (auto simp: forward_mpi_message_def split: if_splits)

lemma forward_server_loop_done:
  assumes "forward_server_loop ef le is q don gw = Some (EMPI_SUCCESS, don', gw')"
  shows "don' = (if \<exists>m \<in> set q. for_me le gw m then 1 else don) \<and> (\<forall>m \<in> set q. for_me le gw m \<longrightarrow> is_finalize le m)"
  using assms
proof (induction q arbitrary: don gw)
  case Nil
  then show ?case by simp
next
  case (Cons m q)
  have same: "for_me le gw1 = for_me le gw" if "gw_my_pid gw1 = gw_my_pid gw" for gw1
    using that by (simp add: for_me_def fun_eq_iff)
  from Cons.prems obtain pid where pid: "word_field le m 2 = Some pid"
    by (auto simp: bind_eq_Some_conv Let_def)
  show ?case
  proof (cases "ntohl le pid = gw_my_pid gw")
    case True
    with Cons.prems pid have "is_finalize le m"
      "forward_server_loop ef le is q 1 (gw\<lparr>gw_server_queue_in := q\<rparr>) = Some (EMPI_SUCCESS, don', gw')"
      by (auto simp: bind_eq_Some_conv Let_def process_gateway_message_iff split: if_splits)
    moreover have "for_me le gw m" using True pid by (simp add: for_me_def)
    moreover have "for_me le (gw\<lparr>gw_server_queue_in := q\<rparr>) = for_me le gw" by (rule same) simp
    ultimately show ?thesis using Cons.IH [of 1 "gw\<lparr>gw_server_queue_in := q\<rparr>"] by (auto split: if_splits)
  next
    case False
    with Cons.prems pid obtain gw2 where g:
      "gw_my_pid gw2 = gw_my_pid gw" "forward_server_loop ef le is q don gw2 = Some (EMPI_SUCCESS, don', gw')"
      by (auto simp: bind_eq_Some_conv Let_def dest: forward_mpi_message_pid split: if_splits)
    have "\<not> for_me le gw m" using False pid by (simp add: for_me_def)
    with Cons.IH [OF g(2)] same [OF g(1)] show ?thesis by simp
  qed
qed

lemma receive_request_Some:
  "receive_mpi_server_request ef pr received gw = Some (EMPI_SUCCESS, received', gw') \<Longrightarrow>
    received' = (if gp_flag pr then 1 else 0) \<and> gw_my_pid gw' = gw_my_pid gw \<and>
    gw_server_queue_in gw' = gw_server_queue_in gw"
  by (auto simp: receive_mpi_server_request_def receive_mpi_message_def enqueue_server_request_def
      bind_eq_Some_conv split: if_splits)

lemma receive_reply_Some:
  "receive_mpi_server_reply ef le pr don received = Some (EMPI_SUCCESS, don', received') \<longleftrightarrow>
    gp_error pr = 0 \<and> (if gp_flag pr then gp_count_error pr = 0 \<and> gp_alloc pr \<and> gp_recv_error pr = 0 \<and>
       is_finalize le (gp_message pr) \<and> don' = 1 \<and> received' = 1
     else don' = don \<and> received' = 0)"
  by (auto simp: receive_mpi_server_reply_def receive_mpi_message_def process_gateway_message_iff
      bind_eq_Some_conv split: if_splits)

lemma server_round_done:
  assumes "server_round ef le is p1 p2 0 gw = Some (EMPI_SUCCESS, again, don', gw')"
  shows "don' = (if gp_flag p2 \<or> (\<exists>m \<in> set (gw_server_queue_in gw). for_me le gw m) then 1 else 0) \<and>
    (gp_flag p2 \<longrightarrow> is_finalize le (gp_message p2)) \<and>
    (\<forall>m \<in> set (gw_server_queue_in gw). for_me le gw m \<longrightarrow> is_finalize le m) \<and>
    (again \<longleftrightarrow> gp_flag p1 \<and> don' = 0)"
proof -
  from assms obtain rq gw1 where a: "receive_mpi_server_request ef p1 0 gw = Some (EMPI_SUCCESS, rq, gw1)"
    by (auto simp: server_round_def bind_eq_Some_conv split: if_splits)
  with assms obtain rp d1 where b: "receive_mpi_server_reply ef le p2 0 0 = Some (EMPI_SUCCESS, rp, d1)"
    by (auto simp: server_round_def bind_eq_Some_conv split: if_splits)
  with a assms have c: "forward_server_loop ef le is (gw_server_queue_in gw1) d1 gw1 = Some (EMPI_SUCCESS, don', gw')"
    and again: "again \<longleftrightarrow> rq + rp > 0 \<and> don' \<noteq> 1"
    by (auto simp: server_round_def forward_server_messages_to_mpi_def bind_eq_Some_conv split: if_splits)
  from receive_request_Some [OF a] have a': "rq = (if gp_flag p1 then 1 else 0)"
    "gw_server_queue_in gw1 = gw_server_queue_in gw" "for_me le gw1 = for_me le gw"
    by (simp_all add: for_me_def fun_eq_iff)
  from b have b': "if gp_flag p2 then is_finalize le (gp_message p2) \<and> rp = 1 \<and> d1 = 1 else rp = 0 \<and> d1 = 0"
    by (auto simp: receive_reply_Some split: if_splits)
  from forward_server_loop_done [OF c] a' b' again show ?thesis by (auto split: if_splits)
qed

end
