(* ===== verification/Gateway_Load.thy ===== *)
theory Gateway_Load
  imports Gateway
begin

text \<open>
  The flow control of a gateway: \<open>pending_data_messages\<close> and \<open>pending_data_size\<close> of
  \<^verbatim>\<open>src/backend/gateway.c\<close> always tell the number and the size of the data messages that wait in
  the gateway for a socket, and the number does not exceed \<open>MAX_PENDING_DATA_MSG\<close>. The invariant
  is shown for every step of the main loop and by induction for all of it.
\<close>

section \<open>The counters of the waiting messages\<close>

text \<open>
  \<open>gw_load f\<close> sums \<open>f\<close> over the data messages that wait in the gateway, in the queue of a connection
  or half written to one of its streams: with the constant one it is their number, with \<open>length\<close>
  their size.
\<close>

definition load :: "(message \<Rightarrow> nat) \<Rightarrow> socket_info list \<Rightarrow> message list \<Rightarrow> nat" where
  "load f sockets q = sum_list (map (\<lambda>i. sum_list (map f (to_send i []))) sockets) + sum_list (map f q)"

definition gw_load :: "(message \<Rightarrow> nat) \<Rightarrow> gateway \<Rightarrow> nat" where
  "gw_load f gw = sum_list (map (\<lambda>c. load f (gc_sockets c) (gc_out_queue c)) (gw_connections gw))"

definition sockets_ok :: "bool \<Rightarrow> socket_info list \<Rightarrow> message list \<Rightarrow> bool" where
  "sockets_ok le sockets q \<longleftrightarrow> (\<forall>m \<in> set q. framed le TYPE_DATA m) \<and>
     (\<forall>i \<in> set sockets. si_type i = TYPE_DATA \<and> writing le i [])"

definition conn_ok :: "bool \<Rightarrow> gateway_connection \<Rightarrow> bool" where
  "conn_ok le c \<longleftrightarrow> sockets_ok le (gc_sockets c) (gc_out_queue c)"

definition gw_ok :: "bool \<Rightarrow> gateway \<Rightarrow> bool" where
  "gw_ok le gw \<longleftrightarrow> si_type (gw_server_info gw) = TYPE_SERVER \<and> (\<forall>c \<in> set (gw_connections gw). conn_ok le c) \<and>
     unat (pending_data_messages (gw_pending gw)) = gw_load (\<lambda>_. 1) gw \<and>
     unat (pending_data_size (gw_pending gw)) = gw_load length gw \<and>
     pending_data_messages (gw_pending gw) \<le> MAX_PENDING_DATA_MSG"

lemma sum_list_update_nat:
  "i < length xs \<Longrightarrow> sum_list (map f (xs[i := x])) + f (xs ! i) = sum_list (map f xs) + (f x :: nat)"
proof (induction xs arbitrary: i)
  case (Cons y ys)
  then show ?case by (cases i) (auto simp: algebra_simps)
qed simp

lemma to_send_append: "to_send i q = to_send i [] @ q"
  by (simp add: to_send_def split: option.splits)

lemma writing_split: "writing le i q \<longleftrightarrow> writing le i [] \<and> (\<forall>m \<in> set q. framed le (si_type i) m)"
  unfolding writing_def by (subst to_send_append [of i q]) auto

lemma unat_minus_nat: "k \<le> unat (p :: u64) \<Longrightarrow> unat (p - word_of_nat k) = unat p - k"
proof -
  assume k: "k \<le> unat p"
  then have "k < 2 ^ 64" using unsigned_less [of p, where ?'a = nat] by simp
  then have u: "unat (word_of_nat k :: u64) = k" by (simp add: unsigned_of_nat take_bit_nat_eq_self)
  with k have "(word_of_nat k :: u64) \<le> p" by (simp add: word_le_nat_alt)
  with u show "unat (p - word_of_nat k) = unat p - k" by (simp add: unat_sub)
qed

lemma unat_plus_nat: "unat (p :: u64) < 2 ^ 31 \<Longrightarrow> k < 2 ^ 31 \<Longrightarrow> unat (p + word_of_nat k) = unat p + k"
  by (subst unat_add_lem [THEN iffD1]) (simp_all add: unsigned_of_nat take_bit_nat_eq_self)

text \<open>A connection one of whose streams has sent the messages \<open>ms\<close>.\<close>

lemma stream_update:
  assumes ok: "sockets_ok le sockets q" and i: "i < length sockets"
    and s: "to_send (sockets ! i) q = ms @ to_send info' q'" "writing le info' q'"
      "si_type info' = si_type (sockets ! i)"
  shows "sockets_ok le (sockets[i := info']) q'"
    and "load f (sockets[i := info']) q' + sum_list (map f ms) = load f sockets q"
proof -
  let ?i = "sockets ! i"
  have "?i \<in> set sockets" using i by simp
  with ok have ty: "si_type ?i = TYPE_DATA" by (auto simp: sockets_ok_def)
  have "si_type info' = TYPE_DATA" using s(3) ty by simp
  moreover have "writing le info' []" "\<forall>m \<in> set q'. framed le TYPE_DATA m"
    using s(2) calculation writing_split [of le info' q'] by auto
  ultimately show "sockets_ok le (sockets[i := info']) q'"
    using ok by (auto simp: sockets_ok_def dest!: set_update_subset_insert [THEN subsetD])
  let ?F = "\<lambda>i. sum_list (map f (to_send i []))"
  have "sum_list (map f (to_send ?i q)) = sum_list (map f ms) + sum_list (map f (to_send info' q'))"
    using s(1) by simp
  then have "?F ?i + sum_list (map f q) = sum_list (map f ms) + (?F info' + sum_list (map f q'))"
    by (subst (asm) to_send_append [of ?i q], subst (asm) to_send_append [of info' q']) simp
  with sum_list_update_nat [OF i, of ?F info']
  show "load f (sockets[i := info']) q' + sum_list (map f ms) = load f sockets q"
    by (simp add: load_def)
qed

text \<open>Steps that leave the connections and the counters alone.\<close>

definition same_load :: "gateway \<Rightarrow> gateway \<Rightarrow> bool" where
  "same_load gw gw' \<longleftrightarrow> gw_connections gw' = gw_connections gw \<and> gw_pending gw' = gw_pending gw \<and>
     gw_server_info gw' = gw_server_info gw"

lemma same_load_ok: "same_load gw gw' \<Longrightarrow> gw_ok le gw' \<longleftrightarrow> gw_ok le gw"
  by (simp add: same_load_def gw_ok_def gw_load_def)

lemma same_load_trans: "same_load a b \<Longrightarrow> same_load b c \<Longrightarrow> same_load a c"
  by (simp add: same_load_def)

lemma forward_mpi_message_load:
  "forward_mpi_message ef is m pid len tag gw = Some (error, gw') \<Longrightarrow> same_load gw gw'"
  by (auto simp: forward_mpi_message_def same_load_def split: if_splits)

lemma forward_data_load: "forward_data_loop ef le is q gw = Some (error, gw') \<Longrightarrow> same_load gw gw'"
proof (induction q arbitrary: gw)
  case Nil
  then show ?case by (simp add: same_load_def)
next
  case (Cons m q)
  from Cons.prems obtain e gw2 len pid where
    f: "forward_mpi_message ef (is (length q)) m pid len TAG_FORWARDED_DATA_MSG (gw\<lparr>gw_incoming_queue := q\<rparr>) = Some (e, gw2)"
    and r: "gw' = gw2 \<or> forward_data_loop ef le is q gw2 = Some (error, gw')"
    by (auto simp: bind_eq_Some_conv Let_def split: if_splits)
  from r Cons.IH have "same_load gw2 gw'" by (auto simp: same_load_def)
  with forward_mpi_message_load [OF f] show ?case by (simp add: same_load_def)
qed

lemma forward_server_load: "forward_server_loop ef le is q don gw = Some (error, don', gw') \<Longrightarrow> same_load gw gw'"
proof (induction q arbitrary: don gw)
  case Nil
  then show ?case by (simp add: same_load_def)
next
  case (Cons m q)
  let ?gw1 = "gw\<lparr>gw_server_queue_in := q\<rparr>"
  from Cons.prems obtain len pid where w: "word_field le m 3 = Some len" "word_field le m 2 = Some pid"
    by (auto simp: bind_eq_Some_conv Let_def)
  show ?case
  proof (cases "ntohl le pid = gw_my_pid gw")
    case True
    with Cons.prems w obtain d where "gw' = ?gw1 \<or> forward_server_loop ef le is q d ?gw1 = Some (error, don', gw')"
      by (auto simp: bind_eq_Some_conv Let_def split: if_splits)
    then have "same_load ?gw1 gw'" using Cons.IH by (auto simp: same_load_def)
    then show ?thesis by (simp add: same_load_def)
  next
    case False
    with Cons.prems w obtain e gw2 where
      f: "forward_mpi_message ef (is (length q)) m (ntohl le pid) (ntohl le len) TAG_SERVER_REPLY ?gw1 = Some (e, gw2)"
      and r: "gw' = gw2 \<or> forward_server_loop ef le is q don gw2 = Some (error, don', gw')"
      by (auto simp: bind_eq_Some_conv Let_def split: if_splits)
    from r Cons.IH have "same_load gw2 gw'" by (auto simp: same_load_def)
    with forward_mpi_message_load [OF f] show ?thesis by (simp add: same_load_def)
  qed
qed

lemma server_round_load:
  assumes "server_round ef le is p1 p2 don gw = Some (error, again, don', gw')"
  shows "same_load gw gw'"
proof -
  from assms obtain e rq gw1 where a: "receive_mpi_server_request ef p1 0 gw = Some (e, rq, gw1)"
    and r1: "gw' = gw1 \<or> e = 0"
    by (auto simp: server_round_def bind_eq_Some_conv split: if_splits)
  have r: "gw' = gw1 \<or> (\<exists>d e' d'. forward_server_loop ef le is (gw_server_queue_in gw1) d gw1 = Some (e', d', gw'))"
  proof (cases "e = 0")
    case True
    with assms a obtain e2 rp d1 where "receive_mpi_server_reply ef le p2 0 don = Some (e2, rp, d1)"
      "gw' = gw1 \<or> e2 = 0" by (auto simp: server_round_def bind_eq_Some_conv split: if_splits)
    with assms a True show ?thesis
      by (cases "e2 = 0") (auto simp: server_round_def forward_server_messages_to_mpi_def bind_eq_Some_conv split: if_splits)
  qed (use r1 in simp)
  from a have "same_load gw gw1"
    by (auto simp: receive_mpi_server_request_def receive_mpi_message_def enqueue_server_request_def same_load_def
        bind_eq_Some_conv split: if_splits)
  moreover from r have "same_load gw1 gw'" using forward_server_load by (auto simp: same_load_def)
  ultimately show ?thesis by (rule same_load_trans)
qed

lemma server_loop_load: "server_loop ef le is ps don gw = Some (error, don', gw') \<Longrightarrow> same_load gw gw'"
proof (induction ef le "is" ps don gw rule: server_loop.induct)
  case (1 ef le "is" don gw)
  then show ?case by (auto simp: bind_eq_Some_conv dest: server_round_load)
next
  case (2 ef le "is" p1 p2 ps don gw)
  let ?r = "server_round ef le (is (length ps)) p1 p2 don gw"
  from 2(2) obtain e again d gw1 where s: "?r = Some (e, again, d, gw1)"
    by (cases ?r) auto
  from server_round_load [OF s] have one: "same_load gw gw1" .
  show ?case
  proof (cases "e = EMPI_SUCCESS \<and> again")
    case True
    with 2(2) s have "server_loop ef le is ps d gw1 = Some (error, don', gw')" by simp
    with 2(1) [of "(e, again, d, gw1)" e "(again, d, gw1)" again "(d, gw1)" d gw1] True s
    have "same_load gw1 gw'" by simp
    with one show ?thesis by (rule same_load_trans)
  next
    case False
    with 2(2) s one show ?thesis by (auto split: if_splits)
  qed
qed

text \<open>Data from MPI: what a probe may deliver, and the step that queues it.\<close>

definition data_probe :: "bool \<Rightarrow> gw_probe \<Rightarrow> bool" where
  "data_probe le pr \<longleftrightarrow> gp_flag pr \<longrightarrow> framed le TYPE_DATA (gp_message pr) \<and> length (gp_message pr) < 2 ^ 31"

lemma sum_list_update_eq:
  "i < length xs \<Longrightarrow> f x = f (xs ! i) + (d :: nat) \<Longrightarrow> sum_list (map f (xs[i := x])) = sum_list (map f xs) + d"
  using sum_list_update_nat [of i xs f x] by simp

lemma conn_ok_update:
  "\<forall>c \<in> set cs. conn_ok le c \<Longrightarrow> conn_ok le c' \<Longrightarrow> \<forall>c \<in> set (cs[i := c']). conn_ok le c"
  using set_update_subset_insert [of cs i c'] by blast

lemma load_enqueue: "load f sockets (q @ [m]) = load f sockets q + f m"
  by (simp add: load_def)

lemma enqueue_data_ok:
  assumes ok: "gw_ok le gw" and room: "has_room (gw_pending gw)"
    and m: "framed le TYPE_DATA m" "length m < 2 ^ 31"
    and r: "enqueue_data_message ef le nd m (int (length m)) gw = Some (EMPI_SUCCESS, gw')"
  shows "gw_ok le gw'"
proof -
  from r obtain dst where dst: "word_field le m 2 = Some dst"
    by (auto simp: enqueue_data_message_def bind_eq_Some_conv Let_def)
  define i where "i = unat (GET_CLUSTER_RANK dst)"
  define c where "c = gw_connections gw ! i"
  have ix: "uint (GET_CLUSTER_RANK dst) = int i" by (simp add: i_def)
  from r dst have i: "i < length (gw_connections gw)" "c = gw_connections gw ! i"
    by (auto simp: enqueue_data_message_def ix c_def bind_eq_Some_conv Let_def arr_read_def split: if_splits)
  with r dst have gw': "gw' = gw\<lparr>gw_pending := \<lparr>pending_data_messages = pending_data_messages (gw_pending gw) + 1,
        pending_data_size = pending_data_size (gw_pending gw) + word_of_nat (length m)\<rparr>,
      gw_connections := (gw_connections gw)[i := c\<lparr>gc_out_queue := gc_out_queue c @ [m]\<rparr>]\<rparr>"
    by (auto simp: enqueue_data_message_def ix bind_eq_Some_conv Let_def arr_read_def arr_write_def split: if_splits)
  have "c \<in> set (gw_connections gw)" using i by simp
  with ok have "conn_ok le c" by (simp add: gw_ok_def)
  with m(1) have "conn_ok le (c\<lparr>gc_out_queue := gc_out_queue c @ [m]\<rparr>)"
    by (simp add: conn_ok_def sockets_ok_def)
  from conn_ok_update [OF _ this, of "gw_connections gw" i] ok
  have conns: "\<forall>c \<in> set (gw_connections gw'). conn_ok le c" by (simp add: gw' gw_ok_def)
  have load: "gw_load f gw' = gw_load f gw + f m" for f
    unfolding gw_load_def gw' by (simp add: i sum_list_update_eq load_enqueue)
  have small: "unat (pending_data_messages (gw_pending gw)) < 128" "unat (pending_data_size (gw_pending gw)) < 2 ^ 31"
    using room by (simp_all add: has_room_def const_defs word_less_nat_alt)
  have "unat (pending_data_messages (gw_pending gw) + 1) = unat (pending_data_messages (gw_pending gw)) + 1"
    using unat_plus_nat [of "pending_data_messages (gw_pending gw)" 1] small(1) by simp
  moreover have "unat (pending_data_size (gw_pending gw) + word_of_nat (length m)) =
      unat (pending_data_size (gw_pending gw)) + length m"
    using unat_plus_nat [OF small(2) m(2)] .
  ultimately show ?thesis using ok conns load small(1)
    by (simp add: gw_ok_def gw' const_defs word_le_nat_alt)
qed

lemma data_loop_ok:
  assumes "\<forall>pr \<in> set prs. data_probe le pr" "gw_ok le gw"
    and "data_loop ef le k prs gw = Some (EMPI_SUCCESS, gw')"
  shows "gw_ok le gw'"
  using assms
proof (induction ef le k prs gw rule: data_loop.induct)
  case (3 ef le k pr prs gw)
  show ?case
  proof (cases "has_room (gw_pending gw)")
    case True
    with 3(4) obtain e rd gw1 where r: "receive_mpi_data_message ef le pr 0 gw = Some (e, rd, gw1)"
      by (cases "receive_mpi_data_message ef le pr 0 gw") auto
    with 3(4) True have e: "e = EMPI_SUCCESS" by (auto split: if_splits)
    have "gw_ok le gw1"
    proof (cases "gp_flag pr")
      case f: True
      with r e have "enqueue_data_message ef le (gp_node pr) (gp_message pr) (int (length (gp_message pr))) gw =
          Some (EMPI_SUCCESS, gw1)"
        by (auto simp: receive_mpi_data_message_def receive_mpi_message_def bind_eq_Some_conv split: if_splits)
      moreover from f 3(2) have "framed le TYPE_DATA (gp_message pr)" "length (gp_message pr) < 2 ^ 31"
        by (auto simp: data_probe_def)
      ultimately show ?thesis using enqueue_data_ok [OF 3(3) True] by blast
    next
      case False
      with r e have "gw1 = gw"
        by (auto simp: receive_mpi_data_message_def receive_mpi_message_def bind_eq_Some_conv split: if_splits)
      with 3(3) show ?thesis by simp
    qed
    with 3 True r e show ?thesis by (auto split: if_splits)
  next
    case False
    with 3(3,4) show ?thesis by simp
  qed
qed simp_all

lemma process_mpi_messages_ok:
  assumes "gw_ok le gw" "\<forall>pr \<in> set (mr_data w). data_probe le pr"
    and r: "process_mpi_messages ef le w don gw = Some (EMPI_SUCCESS, don', gw')"
  shows "gw_ok le gw'"
proof -
  from r obtain d gw1 where a: "server_loop ef le (mr_server_isend w) (mr_server w) don gw = Some (EMPI_SUCCESS, d, gw1)"
    by (auto simp: process_mpi_messages_def bind_eq_Some_conv split: if_splits)
  with r obtain gw2 where b: "forward_data_messages_to_mpi ef le (mr_data_isend w) gw1 = Some (EMPI_SUCCESS, gw2)"
    by (auto simp: process_mpi_messages_def bind_eq_Some_conv split: if_splits)
  with r a obtain msgs where c: "gw' = gw2\<lparr>gw_mpi_messages := msgs\<rparr> \<or>
      data_loop ef le MAX_MPI_RECEIVE_SEQUENCE (mr_data w) (gw2\<lparr>gw_mpi_messages := msgs\<rparr>) = Some (EMPI_SUCCESS, gw')"
    by (auto simp: process_mpi_messages_def bind_eq_Some_conv Let_def split: if_splits)
  have "same_load gw (gw2\<lparr>gw_mpi_messages := msgs\<rparr>)"
    using server_loop_load [OF a] forward_data_load [OF b [unfolded forward_data_messages_to_mpi_def]]
    by (simp add: same_load_def)
  with assms(1) have "gw_ok le (gw2\<lparr>gw_mpi_messages := msgs\<rparr>)" using same_load_ok by blast
  with c data_loop_ok [OF assms(2)] show ?thesis by blast
qed

text \<open>Preparing the sockets moves messages from a queue to a stream, which does not change the load.\<close>

lemma sockets_ok_Cons:
  "sockets_ok le (i # sockets) q \<longleftrightarrow> si_type i = TYPE_DATA \<and> writing le i [] \<and> sockets_ok le sockets q"
  by (auto simp: sockets_ok_def)

lemma prepare_sockets_ok:
  assumes "prepare_sockets ef le ep sockets q = Some (sockets', q')" "sockets_ok le sockets q"
  shows "sockets_ok le sockets' q' \<and> load f sockets' q' = load f sockets q"
  using assms
proof (induction sockets arbitrary: q sockets' q')
  case Nil
  then show ?case by simp
next
  case (Cons i sockets)
  from Cons.prems(1) obtain i1 q1 rest where p: "prepare_socket ef le ep i q = Some (i1, q1)"
    "prepare_sockets ef le ep sockets q1 = Some (rest, q')" and s': "sockets' = i1 # rest"
    by (auto simp: bind_eq_Some_conv)
  from Cons.prems(2) have i: "si_type i = TYPE_DATA" "writing le i q" and rest: "sockets_ok le sockets q"
    using writing_split [of le i q] by (auto simp: sockets_ok_def)
  from prepare_socket_accounts [OF i(2) p(1)] have
    one: "writing le i1 q1" "to_send i1 q1 = [] @ to_send i1 q1" "to_send i q = [] @ to_send i1 q1" "si_type i1 = si_type i"
    by auto
  from stream_update(1) [OF Cons.prems(2), where i = 0 and ms = "[]" and info' = i1 and q' = q1]
    stream_update(2) [OF Cons.prems(2), where i = 0 and ms = "[]" and info' = i1 and q' = q1 and f = f] one have
    all: "sockets_ok le (i1 # sockets) q1" "load f (i1 # sockets) q1 = load f (i # sockets) q" by simp_all
  then have "sockets_ok le sockets q1" by (simp add: sockets_ok_Cons)
  from Cons.IH [OF p(2) this] all s' show ?case by (simp add: sockets_ok_Cons load_def)
qed

lemma load_append: "load f (xs @ ys) q = load f xs q + load f ys []"
  by (simp add: load_def)

lemma sockets_ok_append: "sockets_ok le (xs @ ys) q \<longleftrightarrow> sockets_ok le xs q \<and> sockets_ok le ys []"
  by (auto simp: sockets_ok_def)

lemma gw_ok_connection:
  assumes ok: "gw_ok le gw" and i: "i < length (gw_connections gw)" "c = gw_connections gw ! i"
    and c': "conn_ok le c'" and load: "\<And>f. load f (gc_sockets c') (gc_out_queue c') + sum_list (map f ms) =
      load f (gc_sockets c) (gc_out_queue c)"
    and gw': "gw_connections gw' = (gw_connections gw)[i := c']" "gw_server_info gw' = gw_server_info gw"
    and pend: "gw_pending gw' = (gw_pending gw)
      \<lparr>pending_data_messages := pending_data_messages (gw_pending gw) - word_of_nat (length ms),
       pending_data_size := pending_data_size (gw_pending gw) - word_of_nat (length (concat ms))\<rparr>"
  shows "gw_ok le gw'"
proof -
  from conn_ok_update [OF _ c', of "gw_connections gw" i] ok
  have conns: "\<forall>c \<in> set (gw_connections gw'). conn_ok le c" by (simp add: gw' gw_ok_def)
  have gl: "gw_load f gw' + sum_list (map f ms) = gw_load f gw" for f
    using sum_list_update_nat [OF i(1), of "\<lambda>c. load f (gc_sockets c) (gc_out_queue c)" c'] load [of f] i(2)
    by (simp add: gw_load_def gw'(1))
  let ?p = "gw_pending gw"
  have n: "gw_load (\<lambda>_. 1) gw' + length ms = unat (pending_data_messages ?p)"
    using gl [of "\<lambda>_. 1"] ok by (simp add: gw_ok_def sum_list_triv)
  have sz: "gw_load length gw' + length (concat ms) = unat (pending_data_size ?p)"
    using gl [of length] ok by (simp add: gw_ok_def length_concat)
  have "unat (pending_data_messages ?p - word_of_nat (length ms)) = gw_load (\<lambda>_. 1) gw'"
    using n by (subst unat_minus_nat) simp_all
  moreover have "unat (pending_data_size ?p - word_of_nat (length (concat ms))) = gw_load length gw'"
    using sz by (subst unat_minus_nat) simp_all
  moreover have "gw_load (\<lambda>_. 1) gw' \<le> unat MAX_PENDING_DATA_MSG"
    using ok n by (simp add: gw_ok_def word_le_nat_alt)
  ultimately show ?thesis using ok conns gw' pend
    by (simp add: gw_ok_def word_le_nat_alt)
qed

lemma prepare_messages_ok:
  assumes ok: "gw_ok le gw" and r: "prepare_messages ef le ep (int i) gw = Some gw'"
  shows "gw_ok le gw'"
proof -
  define c where "c = gw_connections gw ! i"
  define n where "n = nat (gc_stream_count c)"
  from r have i: "i < length (gw_connections gw)"
    by (auto simp: prepare_messages_def arr_read_def bind_eq_Some_conv split: if_splits)
  with r obtain sockets q where p: "prepare_sockets ef le ep (take n (gc_sockets c)) (gc_out_queue c) = Some (sockets, q)"
    and gw': "gw' = gw\<lparr>gw_connections := (gw_connections gw)[i :=
      c\<lparr>gc_sockets := sockets @ drop n (gc_sockets c), gc_out_queue := q\<rparr>]\<rparr>"
    by (auto simp: prepare_messages_def arr_read_def arr_write_def n_def c_def bind_eq_Some_conv Let_def split: if_splits)
  from ok i have "conn_ok le c" by (simp add: gw_ok_def c_def)
  then have s: "sockets_ok le (take n (gc_sockets c) @ drop n (gc_sockets c)) (gc_out_queue c)"
    by (simp add: conn_ok_def)
  note prep = prepare_sockets_ok [OF p s [unfolded sockets_ok_append, THEN conjunct1]]
  have "load f (gc_sockets c) (gc_out_queue c) = load f (take n (gc_sockets c) @ drop n (gc_sockets c)) (gc_out_queue c)" for f
    by simp
  then have "load f (sockets @ drop n (gc_sockets c)) q = load f (gc_sockets c) (gc_out_queue c)" for f
    using prep [of f] by (simp add: load_append del: append_take_drop_id)
  then show ?thesis using s [unfolded sockets_ok_append, THEN conjunct2] prep
    by (intro gw_ok_connection [OF ok i refl, of _ "[]"]) (simp_all add: gw' conn_ok_def sockets_ok_append c_def)
qed

lemma prepare_loop_ok:
  "gw_ok le gw \<Longrightarrow> prepare_loop ef le ep n (int i) gw = Some gw' \<Longrightarrow> gw_ok le gw'"
proof (induction n arbitrary: i gw)
  case (Suc n)
  from Suc.prems(2) obtain gw1 where
    one: "gw1 = gw \<or> prepare_messages ef le ep (int i) gw = Some gw1" and r: "prepare_loop ef le ep n (int (Suc i)) gw1 = Some gw'"
    by (auto simp: bind_eq_Some_conv add.commute split: if_splits)
  from one Suc.prems(1) prepare_messages_ok have "gw_ok le gw1" by blast
  from Suc.IH [OF this r] show ?case .
qed simp

lemma handle_event_parts:
  assumes "handle_event ef le ep ev info inq outq pend s wire = Some (EMPI_SUCCESS, info', inq', outq', pend', s', wire')"
  obtains i1 where "same_out i1 info'"
    "if ev_out ev then nonblock_write_messages ef le ep info outq pend (ev_writes ev) wire =
        Some (EMPI_SUCCESS, i1, outq', pend', wire')
     else i1 = info \<and> outq' = outq \<and> pend' = pend"
proof -
  have "\<exists>i1. same_out i1 info' \<and> (if ev_out ev then nonblock_write_messages ef le ep info outq pend (ev_writes ev) wire =
        Some (EMPI_SUCCESS, i1, outq', pend', wire')
     else i1 = info \<and> outq' = outq \<and> pend' = pend)"
  proof (cases "ev_in ev")
    case True
    with assms show ?thesis
      by (auto simp: handle_event_def bind_eq_Some_conv dest: read_messages_same_out split: if_splits)
  next
    case False
    with assms show ?thesis
      by (auto simp: handle_event_def bind_eq_Some_conv same_out_def split: if_splits)
  qed
  then show ?thesis using that by blast
qed

lemma handle_stream_ok:
  assumes ok: "gw_ok le gw" and ev: "ev_socket ev = Stream c i"
    and r: "handle_socket_event ef le ep ev gw = Some (EMPI_SUCCESS, gw')"
  shows "gw_ok le gw'"
proof -
  define conn where "conn = gw_connections gw ! c"
  define info where "info = gc_sockets conn ! i"
  from r ev have c: "c < length (gw_connections gw)"
    by (auto simp: handle_socket_event_def Let_def bind_eq_Some_conv arr_read_def split: if_splits)
  with r ev have i: "i < length (gc_sockets conn)"
    by (auto simp: handle_socket_event_def Let_def bind_eq_Some_conv arr_read_def conn_def split: if_splits)
  from r ev c i obtain info' inq outq pend s wire where
    h: "handle_event ef le ep ev info (gw_incoming_queue gw) (gc_out_queue conn) (gw_pending gw)
        (gw_stream gw (Stream c i)) (gw_wire gw (Stream c i)) = Some (EMPI_SUCCESS, info', inq, outq, pend, s, wire)"
    and gw': "gw_connections gw' = (gw_connections gw)[c := conn\<lparr>gc_sockets := (gc_sockets conn)[i := info'], gc_out_queue := outq\<rparr>]"
      "gw_server_info gw' = gw_server_info gw" "gw_pending gw' = pend"
    by (auto simp: handle_socket_event_def Let_def bind_eq_Some_conv arr_read_def arr_write_def conn_def info_def split: if_splits)
  from ok c have s: "sockets_ok le (gc_sockets conn) (gc_out_queue conn)"
    by (simp add: gw_ok_def conn_def conn_ok_def)
  then have info: "si_type info = TYPE_DATA" "writing le info (gc_out_queue conn)"
    using i writing_split [of le info "gc_out_queue conn"] by (auto simp: sockets_ok_def info_def)
  from h obtain i1 where i1: "same_out i1 info'"
    "if ev_out ev then nonblock_write_messages ef le ep info (gc_out_queue conn) (gw_pending gw) (ev_writes ev)
        (gw_wire gw (Stream c i)) = Some (EMPI_SUCCESS, i1, outq, pend, wire)
     else i1 = info \<and> outq = gc_out_queue conn \<and> pend = gw_pending gw"
    by (rule handle_event_parts)
  have "\<exists>ms. to_send info (gc_out_queue conn) = ms @ to_send i1 outq \<and> writing le i1 outq \<and> gave info (gw_pending gw) ms i1 pend"
  proof (cases "ev_out ev")
    case True
    with i1(2) write_messages_accounts [OF info(2)] show ?thesis by simp
  next
    case False
    with i1(2) info(2) show ?thesis by (intro exI [of _ "[]"]) simp
  qed
  then obtain ms where ms: "to_send info (gc_out_queue conn) = ms @ to_send i1 outq" "writing le i1 outq"
    "gave info (gw_pending gw) ms i1 pend" by blast
  have w: "to_send (gc_sockets conn ! i) (gc_out_queue conn) = ms @ to_send info' outq" "writing le info' outq"
    "si_type info' = si_type (gc_sockets conn ! i)"
    using ms i1(1) same_out_writing [OF i1(1)] by (simp_all add: info_def gave_def same_out_def)
  have conn': "conn_ok le (conn\<lparr>gc_sockets := (gc_sockets conn)[i := info'], gc_out_queue := outq\<rparr>)"
    using stream_update(1) [OF s i w] by (simp add: conn_ok_def)
  have load: "load f (gc_sockets (conn\<lparr>gc_sockets := (gc_sockets conn)[i := info'], gc_out_queue := outq\<rparr>))
      (gc_out_queue (conn\<lparr>gc_sockets := (gc_sockets conn)[i := info'], gc_out_queue := outq\<rparr>)) + sum_list (map f ms) =
      load f (gc_sockets conn) (gc_out_queue conn)" for f
    using stream_update(2) [OF s i w] by simp
  from ms(3) info(1) gw'(3) have "gw_pending gw' = (gw_pending gw)
      \<lparr>pending_data_messages := pending_data_messages (gw_pending gw) - word_of_nat (length ms),
       pending_data_size := pending_data_size (gw_pending gw) - word_of_nat (length (concat ms))\<rparr>"
    by (simp add: gave_def)
  from gw_ok_connection [OF ok c conn_def conn' load gw'(1,2) this] show ?thesis .
qed

lemma handle_server_ok:
  assumes ok: "gw_ok le gw" and ev: "ev_socket ev = Server"
    and r: "handle_socket_event ef le ep ev gw = Some (EMPI_SUCCESS, gw')"
  shows "gw_ok le gw'"
proof -
  from r ev obtain info' inq outq pend s wire where
    h: "handle_event ef le ep ev (gw_server_info gw) (gw_server_queue_in gw) (gw_server_queue_out gw) (gw_pending gw)
        (gw_stream gw Server) (gw_wire gw Server) = Some (EMPI_SUCCESS, info', inq, outq, pend, s, wire)"
    and gw': "gw_connections gw' = gw_connections gw" "gw_server_info gw' = info'" "gw_pending gw' = pend"
    by (auto simp: handle_socket_event_def Let_def bind_eq_Some_conv)
  from h obtain i1 where i1: "same_out i1 info'"
    "if ev_out ev then nonblock_write_messages ef le ep (gw_server_info gw) (gw_server_queue_out gw) (gw_pending gw)
        (ev_writes ev) (gw_wire gw Server) = Some (EMPI_SUCCESS, i1, outq, pend, wire)
     else i1 = gw_server_info gw \<and> outq = gw_server_queue_out gw \<and> pend = gw_pending gw"
    by (rule handle_event_parts)
  have "si_type i1 = si_type (gw_server_info gw)" "pend = gw_pending gw"
    using i1(2) ok by (auto simp: gw_ok_def TYPE_SERVER_def TYPE_DATA_def dest!: write_messages_type split: if_splits)
  with i1(1) gw' ok show ?thesis by (simp add: gw_ok_def gw_load_def same_out_def)
qed

lemma poll_socket_event_ok:
  "gw_ok le gw \<Longrightarrow> poll_socket_event ef le ep evs gw = Some (EMPI_SUCCESS, gw') \<Longrightarrow> gw_ok le gw'"
proof (induction evs arbitrary: gw)
  case (Cons ev evs)
  from Cons.prems(2) obtain gw1 where one: "handle_socket_event ef le ep ev gw = Some (EMPI_SUCCESS, gw1)"
    and r: "poll_socket_event ef le ep evs gw1 = Some (EMPI_SUCCESS, gw')"
    by (auto simp: bind_eq_Some_conv split: if_splits)
  have "gw_ok le gw1"
    by (cases "ev_socket ev") (use handle_stream_ok handle_server_ok Cons.prems(1) one in blast)+
  from Cons.IH [OF this r] show ?case .
qed simp

lemma process_socket_messages_ok:
  assumes ok: "gw_ok le gw" and r: "process_socket_messages ef le ep evs gw = Some (EMPI_SUCCESS, gw')"
  shows "gw_ok le gw'"
proof -
  from r obtain gw1 gw2 where
    a: "gw1 = gw \<or> (\<exists>info q. prepare_socket ef le ep (gw_server_info gw) (gw_server_queue_out gw) = Some (info, q) \<and>
      gw1 = gw\<lparr>gw_server_info := info, gw_server_queue_out := q\<rparr>)"
    and b: "prepare_loop ef le ep (unat (gw_cluster_count gw)) (int 0) gw1 = Some gw2"
    and c: "poll_socket_event ef le ep evs gw2 = Some (EMPI_SUCCESS, gw')"
    by (auto simp: process_socket_messages_def bind_eq_Some_conv split: if_splits)
  have "si_type info = si_type i" if "prepare_socket ef le ep i q = Some (info, q')" for i info q q'
    using that prepare_message_type
    by (auto simp: prepare_socket_def ensure_state_ro_def ensure_state_rw_def bind_eq_Some_conv split: if_splits)
  with a ok have "gw_ok le gw1" by (auto simp: gw_ok_def gw_load_def)
  from poll_socket_event_ok [OF prepare_loop_ok [OF this b] c] show ?thesis .
qed

definition rounds_ok :: "bool \<Rightarrow> (mpi_round \<times> socket_event list) list \<Rightarrow> bool" where
  "rounds_ok le rounds \<longleftrightarrow> (\<forall>(w, evs) \<in> set rounds. \<forall>pr \<in> set (mr_data w). data_probe le pr)"

lemma gateway_loop_ok:
  assumes "gw_ok le gw" "rounds_ok le rounds" "gateway_loop ef le ep rounds gw = Some (result, gw')"
    and "result = None \<or> result = Some EMPI_SUCCESS"
  shows "gw_ok le gw'"
  using assms
proof (induction rounds arbitrary: gw)
  case (Cons round rounds)
  obtain w evs where round: "round = (w, evs)" by (cases round)
  from Cons.prems(2) have w: "\<forall>pr \<in> set (mr_data w). data_probe le pr" and rest: "rounds_ok le rounds"
    by (auto simp: rounds_ok_def round)
  from Cons.prems(3,4) obtain don gw1 where m: "process_mpi_messages ef le w 0 gw = Some (EMPI_SUCCESS, don, gw1)"
    by (auto simp: round bind_eq_Some_conv split: if_splits)
  from process_mpi_messages_ok [OF Cons.prems(1) w m] have g1: "gw_ok le gw1" .
  show ?case
  proof (cases "don = 1")
    case True
    with Cons.prems(3) m g1 show ?thesis by (simp add: round)
  next
    case False
    with Cons.prems(3,4) m obtain gw2 where s: "process_socket_messages ef le ep evs gw1 = Some (EMPI_SUCCESS, gw2)"
      and r: "gateway_loop ef le ep rounds gw2 = Some (result, gw')"
      by (auto simp: round bind_eq_Some_conv split: if_splits)
    from Cons.IH [OF process_socket_messages_ok [OF g1 s] rest r Cons.prems(4)] show ?thesis .
  qed
qed simp

end
