(* ===== verification/Gateway_Properties.thy ===== *)
theory Gateway_Properties
  imports Gateway_Load
begin

text \<open>
  The properties of the gateway: what a socket makes of the byte stream, how data messages are
  counted and forwarded, and when the main loop ends.
\<close>

section \<open>Messages for the witnesses\<close>

text \<open>Data messages of 20 and 16 bytes on a little-endian host, from cluster 0 to process 5 of cluster 1.\<close>

definition ex_long :: message where
  "ex_long = [50, 0, 0, 0, 0, 0, 0, 0, 5, 0, 0, 1, 20, 0, 0, 0, 7, 8, 9, 10]"

definition ex_short :: message where
  "ex_short = [50, 0, 0, 0, 0, 0, 0, 0, 5, 0, 0, 1, 16, 0, 0, 0]"

definition ex_finalize :: message where
  "ex_finalize = [0, 0, 0, 59, 255, 255, 255, 255, 1, 0, 0, 2, 0, 0, 0, 16]"

lemmas word_at_defs = word_field_def host_word_def be_word_def GET_CLUSTER_RANK_def GET_PROCESS_RANK_def

lemma ex_framed: "framed True TYPE_DATA ex_long" "framed True TYPE_DATA ex_short"
  by (simp_all add: framed_def header_length_def ex_long_def ex_short_def word_at_defs const_defs)

lemma ex_dst: "GET_CLUSTER_RANK (message_dst True ex_long) = 1" "GET_PROCESS_RANK (message_dst True ex_long) = 5"
  "GET_CLUSTER_RANK (message_dst True ex_short) = 1" "GET_PROCESS_RANK (message_dst True ex_short) = 5"
  by (simp_all add: message_dst_def ex_long_def ex_short_def word_at_defs)

definition ex_allocs :: "nat \<Rightarrow> read_allocs" where
  "ex_allocs k = \<lparr>al_header = True, al_body = True, al_node = True\<rparr>"

lemma ex_allocs_plenty: "\<forall>k. plenty (ex_allocs k)"
  by (simp add: ex_allocs_def plenty_def)

section \<open>Sockets\<close>

text \<open>
  C20: However the kernel cuts the stream into pieces, the reader of a socket queues exactly the
  messages that were sent, in their order: polled again and again it has queued a beginning of
  them, and all of them once the stream has been read to its end. It counts what it queued.
\<close>

theorem gateway_reads_frames:
  assumes "\<forall>m \<in> set ms. framed le typ m" "\<forall>k. plenty (al k)" "\<forall>es \<in> set ess. calm es"
  shows "\<exists>ms1 ms2 info s. read_calls ef le al ess (init_socket_info fd typ) q (concat ms) =
      Some (EMPI_SUCCESS, info, q @ ms1, s) \<and> ms = ms1 @ ms2 \<and> (s = [] \<longrightarrow> ms2 = []) \<and>
    si_in_messages info = word_of_nat (length ms1) \<and> si_in_bytes info = word_of_nat (length (concat ms1))"
proof -
  from read_calls_reading [OF reading_fresh [OF assms(1), of fd] assms(2,3), of ef q] obtain ms1 ms2 info s where
    "read_calls ef le al ess (init_socket_info fd typ) q (concat ms) = Some (EMPI_SUCCESS, info, q @ ms1, s)"
    "ms = ms1 @ ms2" "reading le info ms2 s" "took (init_socket_info fd typ) ms1 info" by blast
  moreover from this(3) have "s = [] \<longrightarrow> ms2 = []" using reading_end by blast
  ultimately show ?thesis by (auto simp: took_def init_socket_info_def)
qed

theorem gateway_reads_frames_witness:
  "\<exists>ms1 ms2 info s. read_calls True True ex_allocs [[Chunk 3, Would_block], [Chunk 100, Chunk 2, Chunk 40, Chunk 40]]
      (init_socket_info 4 TYPE_DATA) [] (concat [ex_long, ex_short]) = Some (EMPI_SUCCESS, info, ms1, s) \<and>
    [ex_long, ex_short] = ms1 @ ms2 \<and> (s = [] \<longrightarrow> ms2 = [])"
proof -
  have "\<forall>es \<in> set [[Chunk 3, Would_block], [Chunk 100, Chunk 2, Chunk 40, Chunk 40]]. calm es"
    by (simp add: calm_def)
  from gateway_reads_frames [OF _ ex_allocs_plenty this, of "[ex_long, ex_short]" True TYPE_DATA True 4 "[]"] ex_framed
  show ?thesis by auto
qed

text \<open>
  C21: A stream between two gateways delivers: when the sending gateway has written all of its
  queue and the receiving one has read all that was written, the messages received are the messages
  that were queued, in the same order, and the counters of the sender have gone down by their
  number and their size. Both gateways have the same byte order.
\<close>

theorem gateway_link_delivers:
  assumes "\<forall>m \<in> set ms. framed le TYPE_DATA m" "\<forall>k. plenty (al k)"
    and "\<forall>es \<in> set wess. accepting es" "\<forall>es \<in> set ress. calm es"
    and "write_calls ef le 0 wess (init_socket_info fd TYPE_DATA) ms pend [] = Some (e1, out_info, rest, pend', wire)"
    and "to_send out_info rest = []"
    and "read_calls ef' le al ress (init_socket_info fd' TYPE_DATA) [] wire = Some (e2, in_info, received, [])"
  shows "e1 = EMPI_SUCCESS \<and> e2 = EMPI_SUCCESS \<and> received = ms \<and>
    pending_data_messages pend' = pending_data_messages pend - word_of_nat (length ms) \<and>
    pending_data_size pend' = pending_data_size pend - word_of_nat (length (concat ms))"
proof -
  from write_calls_writing [OF writing_fresh(1) [OF assms(1), of fd] writing_fresh(4) refl assms(3),
      where ef = ef and pend = pend and sent = "[]"] assms(5)
  have "e1 = EMPI_SUCCESS" "wire @ unsent out_info rest = concat ms" "\<exists>ms'. ms = ms' @ to_send out_info rest \<and>
      gave (init_socket_info fd TYPE_DATA) pend ms' out_info pend'" by (auto simp: writing_fresh)
  with assms(6) have w: "e1 = EMPI_SUCCESS" "wire = concat ms" "gave (init_socket_info fd TYPE_DATA) pend ms out_info pend'"
    using all_sent [OF assms(6)] by auto
  from read_calls_reading [OF reading_fresh [OF assms(1), of fd'] assms(2,4), of ef' "[]"] assms(7) w(2)
  obtain ms1 ms2 where "e2 = EMPI_SUCCESS" "received = ms1" "ms = ms1 @ ms2" "reading le in_info ms2 []" by auto
  with w reading_end show ?thesis by (auto simp: gave_def writing_fresh)
qed

theorem gateway_link_delivers_witness:
  "\<exists>out_info pend' wire in_info received.
    write_calls True True 0 [[Accept 10, Full], [Accept 50, Accept 50, Accept 50]] (init_socket_info 3 TYPE_DATA)
      [ex_long, ex_short] \<lparr>pending_data_messages = 5, pending_data_size = 90\<rparr> [] = Some (EMPI_SUCCESS, out_info, [], pend', wire) \<and>
    read_calls True True ex_allocs [[Chunk 16, Chunk 3], [Chunk 1, Chunk 16]] (init_socket_info 4 TYPE_DATA) [] wire =
      Some (EMPI_SUCCESS, in_info, received, []) \<and>
    received = [ex_long, ex_short] \<and> pending_data_messages pend' = 3 \<and> pending_data_size pend' = 54"
proof -
  let ?p = "\<lparr>pending_data_messages = 5, pending_data_size = 90\<rparr>"
  let ?w = "write_calls True True 0 [[Accept 10, Full], [Accept 50, Accept 50, Accept 50]] (init_socket_info 3 TYPE_DATA)
      [ex_long, ex_short] ?p []"
  let ?r = "read_calls True True ex_allocs [[Chunk 16, Chunk 3], [Chunk 1, Chunk 16]] (init_socket_info 4 TYPE_DATA) []
      (ex_long @ ex_short)"
  have "map_option (\<lambda>(e, i, q, p, w). (e, to_send i q, q, w)) ?w = Some (EMPI_SUCCESS, [], [], ex_long @ ex_short)"
    by code_simp
  then obtain i p where wr: "?w = Some (EMPI_SUCCESS, i, [], p, ex_long @ ex_short)" "to_send i [] = []" by auto
  have "map_option (\<lambda>(e, i, q, s). (e, s)) ?r = Some (EMPI_SUCCESS, [])" by code_simp
  then obtain j q where rd: "?r = Some (EMPI_SUCCESS, j, q, [])" by auto
  from gateway_link_delivers [OF _ ex_allocs_plenty _ _ wr rd] ex_framed
  show ?thesis using wr rd by (auto simp: accepting_def calm_def ex_long_def ex_short_def)
qed

text \<open>
  A socket that keeps accepting bytes, however few at a time, is drained: with as many
  accepting answers as there are bytes to write, one call of the writer sends everything that was
  waiting, the message under way and the whole queue.
\<close>

lemma gateway_writer_drains:
  assumes "writing le info q" "si_state info = STATE_RW" "willing es" "length (unsent info q) \<le> length es"
  shows "\<exists>info' pend'. nonblock_write_messages ef le 0 info q pend es sent =
    Some (EMPI_SUCCESS, info', [], pend', sent @ unsent info q) \<and> si_out info' = None"
proof -
  from write_messages_drain [OF assms, of ef pend sent] obtain info' q' pend' sent' where
    d: "nonblock_write_messages ef le 0 info q pend es sent = Some (EMPI_SUCCESS, info', q', pend', sent')"
      "to_send info' q' = []" by blast
  with write_messages_writing [OF assms(1,2) willing_accepting [OF assms(3)] refl, of ef pend sent]
  have "sent' @ unsent info' q' = sent @ unsent info q" by auto
  with d all_sent [OF d(2)] show ?thesis by (auto simp: to_send_def split: option.splits)
qed

lemma gateway_writer_drains_witness:
  "\<exists>info' pend'. nonblock_write_messages True True 0 ((init_socket_info 3 TYPE_DATA)\<lparr>si_state := STATE_RW\<rparr>)
     [ex_short, ex_long] \<lparr>pending_data_messages = 2, pending_data_size = 36\<rparr> (replicate 36 (Accept 1)) [] =
     Some (EMPI_SUCCESS, info', [], pend', ex_short @ ex_long) \<and> si_out info' = None"
proof -
  have "writing True ((init_socket_info 3 TYPE_DATA)\<lparr>si_state := STATE_RW\<rparr>) [ex_short, ex_long]"
    using writing_fresh(1) [of "[ex_short, ex_long]" True TYPE_DATA 3] ex_framed by simp
  moreover have "unsent ((init_socket_info 3 TYPE_DATA)\<lparr>si_state := STATE_RW\<rparr>) [ex_short, ex_long] = ex_short @ ex_long"
    by (simp add: writing_fresh)
  moreover have "length (ex_short @ ex_long) = 36" by (simp add: ex_short_def ex_long_def)
  moreover have "willing (replicate 36 (Accept 1))" by (simp add: willing_def)
  ultimately show ?thesis
    using gateway_writer_drains [of True "(init_socket_info 3 TYPE_DATA)\<lparr>si_state := STATE_RW\<rparr>" "[ex_short, ex_long]"
      "replicate 36 (Accept 1)" True "\<lparr>pending_data_messages = 2, pending_data_size = 36\<rparr>" "[]"]
    by simp
qed

section \<open>The main loop\<close>

definition ex_probe_data :: "message \<Rightarrow> gw_probe" where
  "ex_probe_data m = silence\<lparr>gp_flag := True, gp_message := m\<rparr>"

definition ex_gateway :: gateway where
  "ex_gateway = \<lparr>gw_cluster_count = 2, gw_cluster_rank = 0, gw_gateway_rank = 0, gw_my_pid = 0x01000002,
     gw_connections = [\<lparr>gc_sockets = [], gc_stream_count = 0, gc_out_queue = []\<rparr>,
       \<lparr>gc_sockets = [init_socket_info 7 TYPE_DATA], gc_stream_count = 1, gc_out_queue = []\<rparr>],
     gw_server_info = init_socket_info 3 TYPE_SERVER, gw_server_queue_out = [], gw_server_queue_in = [],
     gw_incoming_queue = [], gw_mpi_messages = [], gw_pending = \<lparr>pending_data_messages = 9, pending_data_size = 9\<rparr>,
     gw_sent = [], gw_stream = (\<lambda>_. []), gw_wire = (\<lambda>_. [])\<rparr>"




text \<open>
  C23: What has arrived from the other gateways is handed to MPI completely: the incoming queue is
  emptied, every message is sent once, in the order of the queue, with all its bytes and to the
  process its destination names, and it stays in the list of the sends under way.
\<close>

theorem gateway_forwards_in_order:
  assumes "\<forall>m \<in> set (gw_incoming_queue gw). deliverable le gw m" "sends_ok is"
  shows "\<exists>gw'. forward_data_messages_to_mpi ef le is gw = Some (EMPI_SUCCESS, gw') \<and> gw_incoming_queue gw' = [] \<and>
    gw_sent gw' = gw_sent gw @
      map (\<lambda>m. (m, GET_PROCESS_RANK (message_dst le m), TAG_FORWARDED_DATA_MSG)) (gw_incoming_queue gw) \<and>
    map snd (gw_mpi_messages gw') = rev (gw_incoming_queue gw) @ map snd (gw_mpi_messages gw)"
proof -
  have "map (\<lambda>i. q ! i) [0 ..< length q] = q" for q :: "message list" by (rule map_nth)
  then show ?thesis
    using forward_data_loop_ok [OF assms, of ef]
    by (auto simp: forward_data_messages_to_mpi_def rev_map [symmetric] comp_def)
qed

theorem gateway_forwards_in_order_witness:
  "\<exists>gw'. forward_data_messages_to_mpi True True (\<lambda>k. \<lparr>is_alloc = True, is_error = 0, is_request = k\<rparr>)
      (ex_gateway\<lparr>gw_cluster_rank := 1, gw_incoming_queue := [ex_short, ex_long]\<rparr>) = Some (EMPI_SUCCESS, gw') \<and>
    gw_sent gw' = [(ex_short, 5, 42), (ex_long, 5, 42)]"
proof -
  let ?gw = "ex_gateway\<lparr>gw_cluster_rank := 1, gw_incoming_queue := [ex_short, ex_long]\<rparr>"
  have d: "\<forall>m \<in> set (gw_incoming_queue ?gw). deliverable True ?gw m"
    using ex_framed ex_dst by (simp add: deliverable_def ex_short_def ex_long_def)
  have k: "sends_ok (\<lambda>k. \<lparr>is_alloc = True, is_error = 0, is_request = k\<rparr>)" by (simp add: sends_ok_def)
  have sent: "gw_sent ?gw = []" by (simp add: ex_gateway_def)
  from gateway_forwards_in_order [OF d k, of True] show ?thesis
    by (auto simp: ex_dst sent TAG_FORWARDED_DATA_MSG_def)
qed

text \<open>
  C24: The end of the run is recognised although the arguments of \<open>receive_mpi_server_reply\<close> are
  swapped: a turn of the loop that succeeds leaves \<open>done\<close> set exactly when a reply of the server
  arrived through MPI or was addressed to this process, all these replies are replies to the
  finalization, and the turn is repeated exactly when it forwarded a request and the run goes on.
\<close>

theorem gateway_finalize:
  assumes "server_round ef le is p1 p2 0 gw = Some (EMPI_SUCCESS, again, don, gw')"
  shows "(don = 1 \<longleftrightarrow> gp_flag p2 \<or> (\<exists>m \<in> set (gw_server_queue_in gw). for_me le gw m)) \<and> don \<in> {0, 1} \<and>
    (gp_flag p2 \<longrightarrow> is_finalize le (gp_message p2)) \<and>
    (\<forall>m \<in> set (gw_server_queue_in gw). for_me le gw m \<longrightarrow> is_finalize le m) \<and>
    (again \<longleftrightarrow> gp_flag p1 \<and> don = 0)"
  using server_round_done [OF assms] by (auto split: if_splits)

theorem gateway_finalize_witness:
  "\<exists>again gw'. server_round True True (\<lambda>k. \<lparr>is_alloc = True, is_error = 0, is_request = k\<rparr>)
      (ex_probe_data ex_short) silence 0 (ex_gateway\<lparr>gw_server_queue_in := [ex_finalize]\<rparr>) =
      Some (EMPI_SUCCESS, again, 1, gw') \<and> \<not> again \<and> is_finalize True ex_finalize"
proof -
  let ?gw = "ex_gateway\<lparr>gw_server_queue_in := [ex_finalize]\<rparr>"
  have me: "for_me True ?gw ex_finalize"
    by (simp add: for_me_def ex_finalize_def word_at_defs ntohl_def host_bytes_def be_bytes_def ex_gateway_def)
  have "map_option (\<lambda>(e, a, d, g). e) (server_round True True (\<lambda>k. \<lparr>is_alloc = True, is_error = 0, is_request = k\<rparr>)
      (ex_probe_data ex_short) silence 0 ?gw) = Some EMPI_SUCCESS"
    by code_simp
  then obtain again don gw' where r: "server_round True True (\<lambda>k. \<lparr>is_alloc = True, is_error = 0, is_request = k\<rparr>)
      (ex_probe_data ex_short) silence 0 ?gw = Some (EMPI_SUCCESS, again, don, gw')" by auto
  from gateway_finalize [OF r] me have "don = 1" "\<not> again" "is_finalize True ex_finalize"
    by (auto simp: ex_gateway_def)
  with r show ?thesis by auto
qed

end
