(* ===== verification/Reduce_Ops.thy ===== *)
theory Reduce_Ops
  imports Operations
begin

text \<open>
  The predefined reduction functions, \<^verbatim>\<open>src/backend/reduce_ops.c\<close>: the macros that compute on two
  elements, the loops generated from them for every C type, and the twelve functions that choose the
  loop by the handle of the datatype. The part of the file behind \<^verbatim>\<open>#if 0\<close> is not compiled.

  Integer types are those of the supported compilers (\<^verbatim>\<open>char\<close> signed, \<^verbatim>\<open>long\<close> of 64 bits); an integer
  element is its value. Arithmetic is done in the promoted type, where signed overflow has no defined
  result, and converted back. Floating-point arithmetic is an argument: \<open>fp\<close> gives the operations of
  each precision on values of type \<open>'f\<close>.
\<close>

section \<open>Elements\<close>

datatype precision = Single | Double | Extended

datatype stype = CI nat bool | CF precision

datatype 'f scalar = SI int | SF 'f

datatype 'f elem = S "'f scalar" | Cpx 'f 'f | Loc "'f scalar" "'f scalar"

record 'f float_ops =
  f_gt :: "'f \<Rightarrow> 'f \<Rightarrow> bool"
  f_lt :: "'f \<Rightarrow> 'f \<Rightarrow> bool"
  f_eq :: "'f \<Rightarrow> 'f \<Rightarrow> bool"
  f_add :: "'f \<Rightarrow> 'f \<Rightarrow> 'f"
  f_sub :: "'f \<Rightarrow> 'f \<Rightarrow> 'f"
  f_mul :: "'f \<Rightarrow> 'f \<Rightarrow> 'f"

type_synonym 'f floats = "precision \<Rightarrow> 'f float_ops"

datatype ctype =
    C_CHAR | C_SHORT | C_INT | C_LONG | C_LONG_LONG | C_SIGNED_CHAR
  | C_UNSIGNED_CHAR | C_UNSIGNED_SHORT | C_UNSIGNED | C_UNSIGNED_LONG | C_UNSIGNED_LONG_LONG
  | C_FLOAT | C_DOUBLE | C_LONG_DOUBLE | C_COMPLEX | C_DOUBLE_COMPLEX
  | C_2REAL | C_2DOUBLE_PRECISION | C_2INT | C_FLOAT_INT | C_DOUBLE_INT | C_SHORT_INT | C_LONG_INT
  | C_LONG_DOUBLE_INT

fun scalar_type :: "ctype \<Rightarrow> stype option" where
  "scalar_type C_CHAR = Some (CI 8 True)"
| "scalar_type C_SHORT = Some (CI 16 True)"
| "scalar_type C_INT = Some (CI 32 True)"
| "scalar_type C_LONG = Some (CI 64 True)"
| "scalar_type C_LONG_LONG = Some (CI 64 True)"
| "scalar_type C_SIGNED_CHAR = Some (CI 8 True)"
| "scalar_type C_UNSIGNED_CHAR = Some (CI 8 False)"
| "scalar_type C_UNSIGNED_SHORT = Some (CI 16 False)"
| "scalar_type C_UNSIGNED = Some (CI 32 False)"
| "scalar_type C_UNSIGNED_LONG = Some (CI 64 False)"
| "scalar_type C_UNSIGNED_LONG_LONG = Some (CI 64 False)"
| "scalar_type C_FLOAT = Some (CF Single)"
| "scalar_type C_DOUBLE = Some (CF Double)"
| "scalar_type C_LONG_DOUBLE = Some (CF Extended)"
| "scalar_type _ = None"

text \<open>The structures of pairs: the type of the value and of the location. The structure for
  \<^verbatim>\<open>MPI_LONG_DOUBLE_INT\<close> is declared with a \<^verbatim>\<open>double\<close>.\<close>

fun pair_type :: "ctype \<Rightarrow> (stype \<times> stype) option" where
  "pair_type C_2REAL = Some (CF Single, CF Single)"
| "pair_type C_2DOUBLE_PRECISION = Some (CF Double, CF Double)"
| "pair_type C_2INT = Some (CI 32 True, CI 32 True)"
| "pair_type C_FLOAT_INT = Some (CF Single, CI 32 True)"
| "pair_type C_DOUBLE_INT = Some (CF Double, CI 32 True)"
| "pair_type C_SHORT_INT = Some (CI 16 True, CI 32 True)"
| "pair_type C_LONG_INT = Some (CI 64 True, CI 32 True)"
| "pair_type C_LONG_DOUBLE_INT = Some (CF Double, CI 32 True)"
| "pair_type _ = None"

fun complex_type :: "ctype \<Rightarrow> precision option" where
  "complex_type C_COMPLEX = Some Single"
| "complex_type C_DOUBLE_COMPLEX = Some Double"
| "complex_type _ = None"

section \<open>C integer arithmetic\<close>

definition int_range :: "nat \<Rightarrow> bool \<Rightarrow> int \<Rightarrow> bool" where
  "int_range n sg v \<longleftrightarrow> (if sg then - (2 ^ (n - 1)) \<le> v \<and> v < 2 ^ (n - 1) else 0 \<le> v \<and> v < 2 ^ n)"

definition int_wrap :: "nat \<Rightarrow> bool \<Rightarrow> int \<Rightarrow> int" where
  "int_wrap n sg v = (if sg then signed_take_bit (n - 1) v else take_bit n v)"

text \<open>An arithmetic result \<open>v\<close> of operands of the type, stored into a variable of the type.\<close>

definition int_result :: "nat \<Rightarrow> bool \<Rightarrow> int \<Rightarrow> int run" where
  "int_result n sg v =
     (let (pn, ps) = (if n < 32 then (32, True) else (n, sg)) in
      if ps then (if int_range pn True v then Some (int_wrap n sg v) else None)
      else Some (int_wrap n sg (take_bit pn v)))"

lemma int_range_wrap: "0 < n \<Longrightarrow> int_range n sg v \<Longrightarrow> int_wrap n sg v = v"
  by (cases n) (auto simp: int_range_def int_wrap_def signed_take_bit_int_eq_self take_bit_int_eq_self)

section \<open>The macros\<close>

fun MACRO_MAX :: "'f floats \<Rightarrow> stype \<Rightarrow> 'f scalar \<Rightarrow> 'f scalar \<Rightarrow> 'f scalar run" where
  "MACRO_MAX fp (CI n s) (SI a) (SI b) = Some (SI (if a > b then a else b))"
| "MACRO_MAX fp (CF k) (SF a) (SF b) = Some (SF (if f_gt (fp k) a b then a else b))"
| "MACRO_MAX fp _ _ _ = None"

fun MACRO_MIN :: "'f floats \<Rightarrow> stype \<Rightarrow> 'f scalar \<Rightarrow> 'f scalar \<Rightarrow> 'f scalar run" where
  "MACRO_MIN fp (CI n s) (SI a) (SI b) = Some (SI (if a < b then a else b))"
| "MACRO_MIN fp (CF k) (SF a) (SF b) = Some (SF (if f_lt (fp k) a b then a else b))"
| "MACRO_MIN fp _ _ _ = None"

fun MACRO_SUM :: "'f floats \<Rightarrow> stype \<Rightarrow> 'f scalar \<Rightarrow> 'f scalar \<Rightarrow> 'f scalar run" where
  "MACRO_SUM fp (CI n s) (SI a) (SI b) = map_option SI (int_result n s (a + b))"
| "MACRO_SUM fp (CF k) (SF a) (SF b) = Some (SF (f_add (fp k) a b))"
| "MACRO_SUM fp _ _ _ = None"

fun MACRO_PROD :: "'f floats \<Rightarrow> stype \<Rightarrow> 'f scalar \<Rightarrow> 'f scalar \<Rightarrow> 'f scalar run" where
  "MACRO_PROD fp (CI n s) (SI a) (SI b) = map_option SI (int_result n s (a * b))"
| "MACRO_PROD fp (CF k) (SF a) (SF b) = Some (SF (f_mul (fp k) a b))"
| "MACRO_PROD fp _ _ _ = None"

definition truth :: "bool \<Rightarrow> int" where
  "truth b = (if b then 1 else 0)"

fun int_macro :: "(int \<Rightarrow> int \<Rightarrow> int) \<Rightarrow> stype \<Rightarrow> 'f scalar \<Rightarrow> 'f scalar \<Rightarrow> 'f scalar run" where
  "int_macro f (CI n s) (SI a) (SI b) = Some (SI (f a b))"
| "int_macro f _ _ _ = None"

definition MACRO_LAND :: "int \<Rightarrow> int \<Rightarrow> int" where
  "MACRO_LAND a b = truth (a \<noteq> 0 \<and> b \<noteq> 0)"

definition MACRO_LOR :: "int \<Rightarrow> int \<Rightarrow> int" where
  "MACRO_LOR a b = truth (a \<noteq> 0 \<or> b \<noteq> 0)"

definition MACRO_LXOR :: "int \<Rightarrow> int \<Rightarrow> int" where
  "MACRO_LXOR a b = truth ((a \<noteq> 0 \<and> b = 0) \<or> (a = 0 \<and> b \<noteq> 0))"

definition MACRO_BAND :: "int \<Rightarrow> int \<Rightarrow> int" where "MACRO_BAND a b = a AND b"
definition MACRO_BOR :: "int \<Rightarrow> int \<Rightarrow> int" where "MACRO_BOR a b = a OR b"
definition MACRO_BXOR :: "int \<Rightarrow> int \<Rightarrow> int" where "MACRO_BXOR a b = a XOR b"

text \<open>The comparisons of \<^verbatim>\<open>MAXLOC\<close> and \<^verbatim>\<open>MINLOC\<close>.\<close>

fun scalar_eq :: "'f floats \<Rightarrow> stype \<Rightarrow> 'f scalar \<Rightarrow> 'f scalar \<Rightarrow> bool run" where
  "scalar_eq fp (CI n s) (SI a) (SI b) = Some (a = b)"
| "scalar_eq fp (CF k) (SF a) (SF b) = Some (f_eq (fp k) a b)"
| "scalar_eq fp _ _ _ = None"

fun scalar_less :: "'f floats \<Rightarrow> stype \<Rightarrow> 'f scalar \<Rightarrow> 'f scalar \<Rightarrow> bool run" where
  "scalar_less fp (CI n s) (SI a) (SI b) = Some (a < b)"
| "scalar_less fp (CF k) (SF a) (SF b) = Some (f_lt (fp k) a b)"
| "scalar_less fp _ _ _ = None"

fun scalar_greater :: "'f floats \<Rightarrow> stype \<Rightarrow> 'f scalar \<Rightarrow> 'f scalar \<Rightarrow> bool run" where
  "scalar_greater fp (CI n s) (SI a) (SI b) = Some (a > b)"
| "scalar_greater fp (CF k) (SF a) (SF b) = Some (f_gt (fp k) a b)"
| "scalar_greater fp _ _ _ = None"

section \<open>The loops\<close>

fun reduce_loop ::
  "('f elem \<Rightarrow> 'f elem \<Rightarrow> 'f elem run) \<Rightarrow> 'f elem list \<Rightarrow> nat \<Rightarrow> int \<Rightarrow> 'f elem list \<Rightarrow> 'f elem list run" where
  "reduce_loop f invec 0 i inoutvec = Some inoutvec"
| "reduce_loop f invec (Suc n) i inoutvec = do {
     x \<leftarrow> arr_read invec i;
     y \<leftarrow> arr_read inoutvec i;
     z \<leftarrow> f x y;
     inoutvec' \<leftarrow> arr_write inoutvec i z;
     reduce_loop f invec n (i + 1) inoutvec'
   }"

text \<open>What the body of each kind of loop makes of \<open>invec[i]\<close> and \<open>inoutvec[i]\<close>.\<close>

fun REDUCE_FUNC :: "('f scalar \<Rightarrow> 'f scalar \<Rightarrow> 'f scalar run) \<Rightarrow> 'f elem \<Rightarrow> 'f elem \<Rightarrow> 'f elem run" where
  "REDUCE_FUNC m (S x) (S y) = map_option S (m x y)"
| "REDUCE_FUNC m _ _ = None"

fun COMPLEX_SUM_FUNC :: "'f float_ops \<Rightarrow> 'f elem \<Rightarrow> 'f elem \<Rightarrow> 'f elem run" where
  "COMPLEX_SUM_FUNC fo (Cpx br bi) (Cpx ar ai) = Some (Cpx (f_add fo ar br) (f_add fo ai bi))"
| "COMPLEX_SUM_FUNC fo _ _ = None"

fun COMPLEX_PROD_FUNC :: "'f float_ops \<Rightarrow> 'f elem \<Rightarrow> 'f elem \<Rightarrow> 'f elem run" where
  "COMPLEX_PROD_FUNC fo (Cpx br bi) (Cpx cr ci) =
     Some (Cpx (f_sub fo (f_mul fo cr br) (f_mul fo ci bi)) (f_add fo (f_mul fo ci br) (f_mul fo cr bi)))"
| "COMPLEX_PROD_FUNC fo _ _ = None"

fun MAXLOC_FUNC :: "'f floats \<Rightarrow> stype \<Rightarrow> stype \<Rightarrow> 'f elem \<Rightarrow> 'f elem \<Rightarrow> 'f elem run" where
  "MAXLOC_FUNC fp vt lt (Loc iv il) (Loc ov ol) = do {
     eq \<leftarrow> scalar_eq fp vt ov iv;
     if eq then do { l \<leftarrow> MACRO_MIN fp lt ol il; Some (Loc ov l) }
     else do {
       less \<leftarrow> scalar_less fp vt ov iv;
       Some (if less then Loc iv il else Loc ov ol)
     }
   }"
| "MAXLOC_FUNC fp vt lt _ _ = None"

fun MINLOC_FUNC :: "'f floats \<Rightarrow> stype \<Rightarrow> stype \<Rightarrow> 'f elem \<Rightarrow> 'f elem \<Rightarrow> 'f elem run" where
  "MINLOC_FUNC fp vt lt (Loc iv il) (Loc ov ol) = do {
     eq \<leftarrow> scalar_eq fp vt ov iv;
     if eq then do { l \<leftarrow> MACRO_MIN fp lt ol il; Some (Loc ov l) }
     else do {
       greater \<leftarrow> scalar_greater fp vt ov iv;
       Some (if greater then Loc iv il else Loc ov ol)
     }
   }"
| "MINLOC_FUNC fp vt lt _ _ = None"

section \<open>The functions on each type\<close>

text \<open>The loops that are generated, by operation and C type.\<close>

definition loop_instances :: "(op_function \<times> ctype) list" where
  "loop_instances = [
    (EMPI_REDUCE_MAX, C_CHAR), (EMPI_REDUCE_MIN, C_CHAR), (EMPI_REDUCE_SUM, C_CHAR),
    (EMPI_REDUCE_PROD, C_CHAR), (EMPI_REDUCE_BAND, C_CHAR), (EMPI_REDUCE_BOR, C_CHAR),
    (EMPI_REDUCE_BXOR, C_CHAR), (EMPI_REDUCE_LAND, C_CHAR), (EMPI_REDUCE_LOR, C_CHAR),
    (EMPI_REDUCE_LXOR, C_CHAR), (EMPI_REDUCE_MAX, C_SHORT), (EMPI_REDUCE_MIN, C_SHORT),
    (EMPI_REDUCE_SUM, C_SHORT), (EMPI_REDUCE_PROD, C_SHORT), (EMPI_REDUCE_BAND, C_SHORT),
    (EMPI_REDUCE_BOR, C_SHORT), (EMPI_REDUCE_BXOR, C_SHORT), (EMPI_REDUCE_LAND, C_SHORT),
    (EMPI_REDUCE_LOR, C_SHORT), (EMPI_REDUCE_LXOR, C_SHORT), (EMPI_REDUCE_MAX, C_INT),
    (EMPI_REDUCE_MIN, C_INT), (EMPI_REDUCE_SUM, C_INT), (EMPI_REDUCE_PROD, C_INT),
    (EMPI_REDUCE_BAND, C_INT), (EMPI_REDUCE_BOR, C_INT), (EMPI_REDUCE_BXOR, C_INT),
    (EMPI_REDUCE_LAND, C_INT), (EMPI_REDUCE_LOR, C_INT), (EMPI_REDUCE_LXOR, C_INT),
    (EMPI_REDUCE_MAX, C_LONG), (EMPI_REDUCE_MIN, C_LONG), (EMPI_REDUCE_SUM, C_LONG),
    (EMPI_REDUCE_PROD, C_LONG), (EMPI_REDUCE_BAND, C_LONG), (EMPI_REDUCE_BOR, C_LONG),
    (EMPI_REDUCE_BXOR, C_LONG), (EMPI_REDUCE_LAND, C_LONG), (EMPI_REDUCE_LOR, C_LONG),
    (EMPI_REDUCE_LXOR, C_LONG), (EMPI_REDUCE_MAX, C_LONG_LONG), (EMPI_REDUCE_MIN, C_LONG_LONG),
    (EMPI_REDUCE_SUM, C_LONG_LONG), (EMPI_REDUCE_PROD, C_LONG_LONG), (EMPI_REDUCE_BAND, C_LONG_LONG),
    (EMPI_REDUCE_BOR, C_LONG_LONG), (EMPI_REDUCE_BXOR, C_LONG_LONG), (EMPI_REDUCE_LAND, C_LONG_LONG),
    (EMPI_REDUCE_LOR, C_LONG_LONG), (EMPI_REDUCE_LXOR, C_LONG_LONG), (EMPI_REDUCE_MAX, C_SIGNED_CHAR),
    (EMPI_REDUCE_MIN, C_SIGNED_CHAR), (EMPI_REDUCE_SUM, C_SIGNED_CHAR),
    (EMPI_REDUCE_PROD, C_SIGNED_CHAR), (EMPI_REDUCE_BAND, C_SIGNED_CHAR),
    (EMPI_REDUCE_BOR, C_SIGNED_CHAR), (EMPI_REDUCE_BXOR, C_SIGNED_CHAR),
    (EMPI_REDUCE_LAND, C_SIGNED_CHAR), (EMPI_REDUCE_LOR, C_SIGNED_CHAR),
    (EMPI_REDUCE_LXOR, C_SIGNED_CHAR), (EMPI_REDUCE_MAX, C_UNSIGNED_CHAR),
    (EMPI_REDUCE_MIN, C_UNSIGNED_CHAR), (EMPI_REDUCE_SUM, C_UNSIGNED_CHAR),
    (EMPI_REDUCE_PROD, C_UNSIGNED_CHAR), (EMPI_REDUCE_BAND, C_UNSIGNED_CHAR),
    (EMPI_REDUCE_BOR, C_UNSIGNED_CHAR), (EMPI_REDUCE_BXOR, C_UNSIGNED_CHAR),
    (EMPI_REDUCE_LAND, C_UNSIGNED_CHAR), (EMPI_REDUCE_LOR, C_UNSIGNED_CHAR),
    (EMPI_REDUCE_LXOR, C_UNSIGNED_CHAR), (EMPI_REDUCE_MAX, C_UNSIGNED_SHORT),
    (EMPI_REDUCE_MIN, C_UNSIGNED_SHORT), (EMPI_REDUCE_SUM, C_UNSIGNED_SHORT),
    (EMPI_REDUCE_PROD, C_UNSIGNED_SHORT), (EMPI_REDUCE_BAND, C_UNSIGNED_SHORT),
    (EMPI_REDUCE_BOR, C_UNSIGNED_SHORT), (EMPI_REDUCE_BXOR, C_UNSIGNED_SHORT),
    (EMPI_REDUCE_LAND, C_UNSIGNED_SHORT), (EMPI_REDUCE_LOR, C_UNSIGNED_SHORT),
    (EMPI_REDUCE_LXOR, C_UNSIGNED_SHORT), (EMPI_REDUCE_MAX, C_UNSIGNED), (EMPI_REDUCE_MIN, C_UNSIGNED),
    (EMPI_REDUCE_SUM, C_UNSIGNED), (EMPI_REDUCE_PROD, C_UNSIGNED), (EMPI_REDUCE_BAND, C_UNSIGNED),
    (EMPI_REDUCE_BOR, C_UNSIGNED), (EMPI_REDUCE_BXOR, C_UNSIGNED), (EMPI_REDUCE_LAND, C_UNSIGNED),
    (EMPI_REDUCE_LOR, C_UNSIGNED), (EMPI_REDUCE_LXOR, C_UNSIGNED), (EMPI_REDUCE_MAX, C_UNSIGNED_LONG),
    (EMPI_REDUCE_MIN, C_UNSIGNED_LONG), (EMPI_REDUCE_SUM, C_UNSIGNED_LONG),
    (EMPI_REDUCE_PROD, C_UNSIGNED_LONG), (EMPI_REDUCE_BAND, C_UNSIGNED_LONG),
    (EMPI_REDUCE_BOR, C_UNSIGNED_LONG), (EMPI_REDUCE_BXOR, C_UNSIGNED_LONG),
    (EMPI_REDUCE_LAND, C_UNSIGNED_LONG), (EMPI_REDUCE_LOR, C_UNSIGNED_LONG),
    (EMPI_REDUCE_LXOR, C_UNSIGNED_LONG), (EMPI_REDUCE_MAX, C_UNSIGNED_LONG_LONG),
    (EMPI_REDUCE_MIN, C_UNSIGNED_LONG_LONG), (EMPI_REDUCE_SUM, C_UNSIGNED_LONG_LONG),
    (EMPI_REDUCE_PROD, C_UNSIGNED_LONG_LONG), (EMPI_REDUCE_BAND, C_UNSIGNED_LONG_LONG),
    (EMPI_REDUCE_BOR, C_UNSIGNED_LONG_LONG), (EMPI_REDUCE_BXOR, C_UNSIGNED_LONG_LONG),
    (EMPI_REDUCE_LAND, C_UNSIGNED_LONG_LONG), (EMPI_REDUCE_LOR, C_UNSIGNED_LONG_LONG),
    (EMPI_REDUCE_LXOR, C_UNSIGNED_LONG_LONG), (EMPI_REDUCE_MAX, C_FLOAT), (EMPI_REDUCE_MIN, C_FLOAT),
    (EMPI_REDUCE_SUM, C_FLOAT), (EMPI_REDUCE_PROD, C_FLOAT), (EMPI_REDUCE_MAX, C_DOUBLE),
    (EMPI_REDUCE_MIN, C_DOUBLE), (EMPI_REDUCE_SUM, C_DOUBLE), (EMPI_REDUCE_PROD, C_DOUBLE),
    (EMPI_REDUCE_MAX, C_LONG_DOUBLE), (EMPI_REDUCE_MIN, C_LONG_DOUBLE),
    (EMPI_REDUCE_SUM, C_LONG_DOUBLE), (EMPI_REDUCE_PROD, C_LONG_DOUBLE), (EMPI_REDUCE_SUM, C_COMPLEX),
    (EMPI_REDUCE_SUM, C_DOUBLE_COMPLEX), (EMPI_REDUCE_PROD, C_COMPLEX),
    (EMPI_REDUCE_PROD, C_DOUBLE_COMPLEX), (EMPI_REDUCE_MAXLOC, C_2REAL),
    (EMPI_REDUCE_MAXLOC, C_2DOUBLE_PRECISION), (EMPI_REDUCE_MAXLOC, C_2INT),
    (EMPI_REDUCE_MAXLOC, C_FLOAT_INT), (EMPI_REDUCE_MAXLOC, C_DOUBLE_INT),
    (EMPI_REDUCE_MAXLOC, C_SHORT_INT), (EMPI_REDUCE_MAXLOC, C_LONG_INT),
    (EMPI_REDUCE_MAXLOC, C_LONG_DOUBLE_INT), (EMPI_REDUCE_MINLOC, C_2REAL),
    (EMPI_REDUCE_MINLOC, C_2DOUBLE_PRECISION), (EMPI_REDUCE_MINLOC, C_2INT),
    (EMPI_REDUCE_MINLOC, C_FLOAT_INT), (EMPI_REDUCE_MINLOC, C_DOUBLE_INT),
    (EMPI_REDUCE_MINLOC, C_SHORT_INT), (EMPI_REDUCE_MINLOC, C_LONG_INT),
    (EMPI_REDUCE_MINLOC, C_LONG_DOUBLE_INT)]"

text \<open>The cases of the switch of each function: the handle of a datatype and the type of the loop called.\<close>

definition MAX_types :: "(int \<times> ctype) list" where
  "MAX_types = [
    (1, C_CHAR), (2, C_SHORT), (32, C_SHORT), (3, C_INT), (24, C_INT), (33, C_INT), (4, C_LONG),
    (5, C_LONG_LONG), (34, C_LONG_LONG), (6, C_SIGNED_CHAR), (31, C_SIGNED_CHAR), (7, C_UNSIGNED_CHAR),
    (8, C_UNSIGNED_SHORT), (15, C_UNSIGNED_SHORT), (9, C_UNSIGNED), (10, C_UNSIGNED_LONG),
    (11, C_UNSIGNED_LONG_LONG), (12, C_FLOAT), (25, C_FLOAT), (36, C_FLOAT), (13, C_DOUBLE),
    (26, C_DOUBLE), (37, C_DOUBLE), (14, C_LONG_DOUBLE), (38, C_LONG_DOUBLE)]"

definition MIN_types :: "(int \<times> ctype) list" where
  "MIN_types = [
    (1, C_CHAR), (2, C_SHORT), (32, C_SHORT), (3, C_INT), (24, C_INT), (33, C_INT), (4, C_LONG),
    (5, C_LONG_LONG), (34, C_LONG_LONG), (6, C_SIGNED_CHAR), (31, C_SIGNED_CHAR), (7, C_UNSIGNED_CHAR),
    (8, C_UNSIGNED_SHORT), (15, C_UNSIGNED_SHORT), (9, C_UNSIGNED), (10, C_UNSIGNED_LONG),
    (11, C_UNSIGNED_LONG_LONG), (12, C_FLOAT), (25, C_FLOAT), (36, C_FLOAT), (13, C_DOUBLE),
    (26, C_DOUBLE), (37, C_DOUBLE), (14, C_LONG_DOUBLE), (38, C_LONG_DOUBLE)]"

definition SUM_types :: "(int \<times> ctype) list" where
  "SUM_types = [
    (1, C_CHAR), (2, C_SHORT), (32, C_SHORT), (3, C_INT), (24, C_INT), (33, C_INT), (4, C_LONG),
    (5, C_LONG_LONG), (34, C_LONG_LONG), (6, C_SIGNED_CHAR), (7, C_UNSIGNED_CHAR),
    (8, C_UNSIGNED_SHORT), (15, C_UNSIGNED_SHORT), (9, C_UNSIGNED), (10, C_UNSIGNED_LONG),
    (11, C_UNSIGNED_LONG_LONG), (12, C_FLOAT), (25, C_FLOAT), (36, C_FLOAT), (13, C_DOUBLE),
    (26, C_DOUBLE), (37, C_DOUBLE), (14, C_LONG_DOUBLE), (38, C_LONG_DOUBLE), (27, C_COMPLEX),
    (30, C_DOUBLE_COMPLEX)]"

definition PROD_types :: "(int \<times> ctype) list" where
  "PROD_types = [
    (1, C_CHAR), (2, C_SHORT), (32, C_SHORT), (3, C_INT), (24, C_INT), (33, C_INT), (4, C_LONG),
    (5, C_LONG_LONG), (34, C_LONG_LONG), (6, C_SIGNED_CHAR), (7, C_UNSIGNED_CHAR),
    (8, C_UNSIGNED_SHORT), (15, C_UNSIGNED_SHORT), (9, C_UNSIGNED), (10, C_UNSIGNED_LONG),
    (11, C_UNSIGNED_LONG_LONG), (12, C_FLOAT), (25, C_FLOAT), (36, C_FLOAT), (13, C_DOUBLE),
    (26, C_DOUBLE), (37, C_DOUBLE), (14, C_LONG_DOUBLE), (38, C_LONG_DOUBLE), (27, C_COMPLEX),
    (30, C_DOUBLE_COMPLEX)]"

definition LAND_types :: "(int \<times> ctype) list" where
  "LAND_types = [
    (1, C_CHAR), (2, C_SHORT), (3, C_INT), (28, C_INT), (4, C_LONG), (5, C_LONG_LONG),
    (6, C_SIGNED_CHAR), (7, C_UNSIGNED_CHAR), (8, C_UNSIGNED_SHORT), (15, C_UNSIGNED_SHORT),
    (9, C_UNSIGNED), (10, C_UNSIGNED_LONG), (11, C_UNSIGNED_LONG_LONG)]"

definition LOR_types :: "(int \<times> ctype) list" where
  "LOR_types = [
    (1, C_CHAR), (2, C_SHORT), (3, C_INT), (28, C_INT), (4, C_LONG), (5, C_LONG_LONG),
    (6, C_SIGNED_CHAR), (7, C_UNSIGNED_CHAR), (8, C_UNSIGNED_SHORT), (15, C_UNSIGNED_SHORT),
    (9, C_UNSIGNED), (10, C_UNSIGNED_LONG), (11, C_UNSIGNED_LONG_LONG)]"

definition LXOR_types :: "(int \<times> ctype) list" where
  "LXOR_types = [
    (1, C_CHAR), (2, C_SHORT), (3, C_INT), (28, C_INT), (4, C_LONG), (5, C_LONG_LONG),
    (6, C_SIGNED_CHAR), (7, C_UNSIGNED_CHAR), (8, C_UNSIGNED_SHORT), (15, C_UNSIGNED_SHORT),
    (9, C_UNSIGNED), (10, C_UNSIGNED_LONG), (11, C_UNSIGNED_LONG_LONG)]"

definition BAND_types :: "(int \<times> ctype) list" where
  "BAND_types = [
    (1, C_CHAR), (2, C_SHORT), (3, C_INT), (24, C_INT), (4, C_LONG), (5, C_LONG_LONG),
    (6, C_SIGNED_CHAR), (7, C_UNSIGNED_CHAR), (16, C_UNSIGNED_CHAR), (8, C_UNSIGNED_SHORT),
    (15, C_UNSIGNED_SHORT), (9, C_UNSIGNED), (10, C_UNSIGNED_LONG), (11, C_UNSIGNED_LONG_LONG)]"

definition BOR_types :: "(int \<times> ctype) list" where
  "BOR_types = [
    (1, C_CHAR), (2, C_SHORT), (3, C_INT), (24, C_INT), (4, C_LONG), (5, C_LONG_LONG),
    (6, C_SIGNED_CHAR), (7, C_UNSIGNED_CHAR), (16, C_UNSIGNED_CHAR), (8, C_UNSIGNED_SHORT),
    (15, C_UNSIGNED_SHORT), (9, C_UNSIGNED), (10, C_UNSIGNED_LONG), (11, C_UNSIGNED_LONG_LONG)]"

definition BXOR_types :: "(int \<times> ctype) list" where
  "BXOR_types = [
    (1, C_CHAR), (2, C_SHORT), (3, C_INT), (24, C_INT), (4, C_LONG), (5, C_LONG_LONG),
    (6, C_SIGNED_CHAR), (7, C_UNSIGNED_CHAR), (16, C_UNSIGNED_CHAR), (8, C_UNSIGNED_SHORT),
    (15, C_UNSIGNED_SHORT), (9, C_UNSIGNED), (10, C_UNSIGNED_LONG), (11, C_UNSIGNED_LONG_LONG)]"

definition MAXLOC_types :: "(int \<times> ctype) list" where
  "MAXLOC_types = [
    (39, C_2REAL), (40, C_2DOUBLE_PRECISION), (21, C_2INT), (41, C_2INT), (18, C_FLOAT_INT),
    (19, C_DOUBLE_INT), (20, C_LONG_INT), (22, C_SHORT_INT), (23, C_LONG_DOUBLE_INT)]"

definition MINLOC_types :: "(int \<times> ctype) list" where
  "MINLOC_types = [
    (39, C_2REAL), (40, C_2DOUBLE_PRECISION), (21, C_2INT), (41, C_2INT), (18, C_FLOAT_INT),
    (19, C_DOUBLE_INT), (20, C_LONG_INT), (22, C_SHORT_INT), (23, C_LONG_DOUBLE_INT)]"

lemmas type_tables = MAX_types_def MIN_types_def SUM_types_def PROD_types_def LAND_types_def LOR_types_def LXOR_types_def BAND_types_def BOR_types_def BXOR_types_def MAXLOC_types_def MINLOC_types_def

fun reduce_types :: "op_function \<Rightarrow> (int \<times> ctype) list" where
  "reduce_types EMPI_REDUCE_MAX = MAX_types"
| "reduce_types EMPI_REDUCE_MIN = MIN_types"
| "reduce_types EMPI_REDUCE_SUM = SUM_types"
| "reduce_types EMPI_REDUCE_PROD = PROD_types"
| "reduce_types EMPI_REDUCE_LAND = LAND_types"
| "reduce_types EMPI_REDUCE_LOR = LOR_types"
| "reduce_types EMPI_REDUCE_LXOR = LXOR_types"
| "reduce_types EMPI_REDUCE_BAND = BAND_types"
| "reduce_types EMPI_REDUCE_BOR = BOR_types"
| "reduce_types EMPI_REDUCE_BXOR = BXOR_types"
| "reduce_types EMPI_REDUCE_MAXLOC = MAXLOC_types"
| "reduce_types EMPI_REDUCE_MINLOC = MINLOC_types"
| "reduce_types _ = []"

definition int_macro_of :: "op_function \<Rightarrow> int \<Rightarrow> int \<Rightarrow> int" where
  "int_macro_of op = (case op of
       EMPI_REDUCE_LAND \<Rightarrow> MACRO_LAND | EMPI_REDUCE_LOR \<Rightarrow> MACRO_LOR | EMPI_REDUCE_LXOR \<Rightarrow> MACRO_LXOR
     | EMPI_REDUCE_BAND \<Rightarrow> MACRO_BAND | EMPI_REDUCE_BOR \<Rightarrow> MACRO_BOR | _ \<Rightarrow> MACRO_BXOR)"

text \<open>What the loop for an operation and a C type does with two elements.\<close>

definition element_function :: "'f floats \<Rightarrow> op_function \<Rightarrow> ctype \<Rightarrow> 'f elem \<Rightarrow> 'f elem \<Rightarrow> 'f elem run" where
  "element_function fp op ct x y =
     (case (scalar_type ct, complex_type ct, pair_type ct) of
        (Some t, _, _) \<Rightarrow>
          (case op of
             EMPI_REDUCE_MAX \<Rightarrow> REDUCE_FUNC (MACRO_MAX fp t) x y
           | EMPI_REDUCE_MIN \<Rightarrow> REDUCE_FUNC (MACRO_MIN fp t) x y
           | EMPI_REDUCE_SUM \<Rightarrow> REDUCE_FUNC (MACRO_SUM fp t) x y
           | EMPI_REDUCE_PROD \<Rightarrow> REDUCE_FUNC (MACRO_PROD fp t) x y
           | _ \<Rightarrow> REDUCE_FUNC (int_macro (int_macro_of op) t) x y)
      | (None, Some k, _) \<Rightarrow>
          (if op = EMPI_REDUCE_SUM then COMPLEX_SUM_FUNC (fp k) x y else COMPLEX_PROD_FUNC (fp k) x y)
      | (None, None, Some (vt, lt)) \<Rightarrow>
          (if op = EMPI_REDUCE_MAXLOC then MAXLOC_FUNC fp vt lt x y else MINLOC_FUNC fp vt lt x y)
      | (None, None, None) \<Rightarrow> None)"

text \<open>
  A call of a reduction function with its four arguments: a datatype without a case stops the
  process, and so does the null function of \<^verbatim>\<open>EMPI_OP_NULL\<close>. \<open>user\<close> stands for the functions of the
  application.
\<close>

definition reduce ::
  "'f floats \<Rightarrow> (nat \<Rightarrow> 'f elem list \<Rightarrow> 'f elem list \<Rightarrow> int \<Rightarrow> int \<Rightarrow> 'f elem list run) \<Rightarrow> op_function
    \<Rightarrow> 'f elem list \<Rightarrow> 'f elem list \<Rightarrow> int \<Rightarrow> int \<Rightarrow> 'f elem list run" where
  "reduce fp user op invec inoutvec len type =
     (case op of
        NO_FUNCTION \<Rightarrow> None
      | USER_FUNCTION f \<Rightarrow> user f invec inoutvec len type
      | _ \<Rightarrow>
          (case map_of (reduce_types op) type of
             None \<Rightarrow> FATAL (Some inoutvec)
           | Some ct \<Rightarrow> reduce_loop (element_function fp op ct) invec (nat len) 0 inoutvec))"

section \<open>Lemmas\<close>

lemma reduce_loop_from:
  assumes "k + n \<le> length invec" "k + n \<le> length inoutvec"
    and "\<And>i. k \<le> i \<Longrightarrow> i < k + n \<Longrightarrow> f (invec ! i) (inoutvec ! i) = Some (g i)"
  shows "reduce_loop f invec n (int k) inoutvec =
    Some (take k inoutvec @ map g [k ..< k + n] @ drop (k + n) inoutvec)"
  using assms
proof (induction n arbitrary: k inoutvec)
  case 0
  then show ?case by simp
next
  case (Suc n)
  let ?v = "inoutvec[k := g k]"
  have step: "f (invec ! k) (inoutvec ! k) = Some (g k)" using Suc.prems(3) [of k] by simp
  have "reduce_loop f invec n (int (Suc k)) ?v =
      Some (take (Suc k) ?v @ map g [Suc k ..< Suc k + n] @ drop (Suc k + n) ?v)"
    using Suc.prems by (intro Suc.IH) auto
  moreover have "take (Suc k) ?v = take k inoutvec @ [g k]" using Suc.prems(2) by (simp add: take_Suc_conv_app_nth)
  moreover have "[k ..< k + Suc n] = k # [Suc k ..< Suc k + n]" by (simp add: upt_conv_Cons)
  ultimately show ?case
    using Suc.prems(1,2) step by (simp add: arr_write_def add.commute)
qed

lemma reduce_loop_all:
  assumes "n \<le> length invec" "n \<le> length inoutvec" "\<And>i. i < n \<Longrightarrow> f (invec ! i) (inoutvec ! i) = Some (g i)"
  shows "reduce_loop f invec n 0 inoutvec = Some (map g [0 ..< n] @ drop n inoutvec)"
  using reduce_loop_from [of 0 n invec inoutvec f g] assms by simp

end
