(* ===== verification/Reduce_Properties.thy ===== *)
theory Reduce_Properties
  imports Reduce_Ops Datatypes
begin

text \<open>
  The properties of the reduction functions: elementwise application, integer overflow, the locations
  of extrema in whatever order the contributions arrive, and the tables of datatypes.
\<close>

section \<open>Lemmas\<close>


lemma reduce_loop_of:
  assumes "map_of (reduce_types op) t = Some ct"
  shows "reduce fp user op invec inoutvec len t = reduce_loop (element_function fp op ct) invec (nat len) 0 inoutvec"
  using assms by (cases op) (simp_all add: reduce_def)

lemma reduce_loop_bad:
  assumes "k + n \<le> length invec" "k + n \<le> length inoutvec" "k \<le> i" "i < k + n"
    and "f (invec ! i) (inoutvec ! i) = None"
  shows "reduce_loop f invec n (int k) inoutvec = None"
  using assms
proof (induction n arbitrary: k inoutvec)
  case 0
  then show ?case by simp
next
  case (Suc n)
  show ?case
  proof (cases "i = k")
    case True
    with Suc.prems show ?thesis by simp
  next
    case False
    have "reduce_loop f invec n (int (Suc k)) (inoutvec[k := z]) = None" for z
      using Suc.prems False by (intro Suc.IH) auto
    with Suc.prems(1,2) show ?thesis by (auto simp: arr_write_def add.commute bind_eq_None_conv split: Option.bind_split)
  qed
qed

text \<open>Adding integers of a type: where the sum is defined, and what it is.\<close>

definition sum_defined :: "nat \<Rightarrow> bool \<Rightarrow> int \<Rightarrow> bool" where
  "sum_defined n s v \<longleftrightarrow> n < 32 \<or> \<not> s \<or> int_range n True v"

lemma scalar_type_bits: "scalar_type ct = Some (CI n s) \<Longrightarrow> n \<in> {8, 16, 32, 64}"
  by (cases ct) auto

lemma int_result_sum:
  assumes "n \<in> {8, 16, 32, 64}" "int_range n s a" "int_range n s b"
  shows "int_result n s (a + b) = (if sum_defined n s (a + b) then Some (int_wrap n s (a + b)) else None)"
proof (cases "n < 32")
  case True
  then have "int_range 32 True (a + b)" using assms by (auto simp: int_range_def split: if_splits)
  with True show ?thesis by (simp add: int_result_def sum_defined_def)
next
  case False
  then show ?thesis by (auto simp: int_result_def sum_defined_def int_wrap_def Let_def)
qed

text \<open>The reduction of several contributions, one after the other, into the first.\<close>

definition reduce_all ::
  "'f floats \<Rightarrow> (nat \<Rightarrow> 'f elem list \<Rightarrow> 'f elem list \<Rightarrow> int \<Rightarrow> int \<Rightarrow> 'f elem list run) \<Rightarrow> op_function \<Rightarrow> int \<Rightarrow> int
    \<Rightarrow> 'f elem list list \<Rightarrow> 'f elem list \<Rightarrow> 'f elem list run" where
  "reduce_all fp user op len t contribs acc =
     foldl (\<lambda>r c. Option.bind r (\<lambda>v. reduce fp user op c v len t)) (Some acc) contribs"

definition int_pair :: "int \<times> int \<Rightarrow> 'f elem" where
  "int_pair p = Loc (SI (fst p)) (SI (snd p))"

text \<open>The largest value and the least location that has it.\<close>

definition max_loc :: "(int \<times> int) set \<Rightarrow> int \<times> int" where
  "max_loc P = (Max (fst ` P), Min {l. (Max (fst ` P), l) \<in> P})"

text \<open>The handles of the pairs of integers.\<close>

definition int_pairs :: "int list" where
  "int_pairs = [20, 21, 22, 41]"

lemma maxloc_step:
  assumes "t \<in> set int_pairs"
  shows "reduce fp user EMPI_REDUCE_MAXLOC [int_pair p] [int_pair q] 1 t =
     Some [int_pair (if fst q = fst p then (fst q, min (snd q) (snd p)) else if fst q < fst p then p else q)]"
proof -
  from assms obtain ct n m where ct: "map_of (reduce_types EMPI_REDUCE_MAXLOC) t = Some ct"
    "scalar_type ct = None" "complex_type ct = None" "pair_type ct = Some (CI n True, CI m True)"
    by (auto simp: int_pairs_def MAXLOC_types_def)
  show ?thesis
    by (cases p; cases q) (simp add: reduce_loop_of [OF ct(1)] ct(2-4) int_pair_def element_function_def
        arr_read_def arr_write_def min_def)
qed

lemma max_loc_insert:
  assumes "finite P" "P \<noteq> {}"
  shows "max_loc (insert p P) = (let q = max_loc P in
    if fst q = fst p then (fst q, min (snd q) (snd p)) else if fst q < fst p then p else q)"
proof -
  obtain v l where p: "p = (v, l)" by (cases p)
  define m where "m = Max (fst ` P)"
  have fin: "finite (fst ` P)" "fst ` P \<noteq> {}" using assms by auto
  have ge: "v' \<le> m" if "(v', l') \<in> P" for v' l' using Max_ge [OF fin(1)] that by (force simp: m_def)
  from Max_in [OF fin] obtain l0 where l0: "(m, l0) \<in> P" by (auto simp: m_def)
  have f: "finite {l. (m, l) \<in> P}" using finite_imageI [OF assms(1), of snd] by (rule rev_finite_subset) force
  have mx: "Max (fst ` insert p P) = max v m" using fin by (simp add: p m_def)
  consider "m = v" | "m < v" | "v < m" by linarith
  then show ?thesis
  proof cases
    case 1
    have "{l'. (v, l') \<in> insert p P} = insert l {l. (m, l) \<in> P}" using 1 p by auto
    moreover have "Min (insert l {l. (m, l) \<in> P}) = min l (Min {l. (m, l) \<in> P})" using f l0 by (intro Min_insert) auto
    ultimately show ?thesis using 1 mx by (simp add: max_loc_def p m_def [symmetric] min.commute)
  next
    case 2
    then have "{l'. (v, l') \<in> insert p P} = {l}" using ge by (fastforce simp: p)
    with 2 mx show ?thesis by (simp add: max_loc_def p m_def [symmetric] max_def)
  next
    case 3
    then have "{l'. (m, l') \<in> insert p P} = {l. (m, l) \<in> P}" by (auto simp: p)
    with 3 mx show ?thesis by (simp add: max_loc_def p m_def [symmetric] max_def)
  qed
qed

lemma maxloc_fold:
  assumes t: "t \<in> set int_pairs" and P: "finite P" "P \<noteq> {}"
  shows "reduce_all fp user EMPI_REDUCE_MAXLOC 1 t (map (\<lambda>p. [int_pair p]) ps) [int_pair (max_loc P)] =
    Some [int_pair (max_loc (P \<union> set ps))]"
  using P
proof (induction ps arbitrary: P)
  case Nil
  then show ?case by (simp add: reduce_all_def)
next
  case (Cons p ps)
  have "reduce fp user EMPI_REDUCE_MAXLOC [int_pair p] [int_pair (max_loc P)] 1 t = Some [int_pair (max_loc (insert p P))]"
    using maxloc_step [OF t, of fp user p "max_loc P"] max_loc_insert [OF Cons.prems, of p] by (simp add: Let_def)
  with Cons.IH [of "insert p P"] Cons.prems(1) show ?case by (simp add: reduce_all_def)
qed

section \<open>Properties\<close>

text \<open>
  C25: A reduction function works element by element: for a datatype that its switch knows, the first
  \<open>len\<close> elements of the result are those its macro computes from the two vectors, and the rest of
  the vector stays as it was.
\<close>

theorem reduce_elementwise:
  assumes "map_of (reduce_types op) t = Some ct" "len \<le> length invec" "len \<le> length inoutvec"
    and "\<forall>i < len. element_function fp op ct (invec ! i) (inoutvec ! i) = Some (result i)"
  shows "reduce fp user op invec inoutvec (int len) t = Some (map result [0 ..< len] @ drop len inoutvec)"
  using reduce_loop_all [OF assms(2,3), of "element_function fp op ct" result] assms(4)
  by (simp add: reduce_loop_of [OF assms(1)])

definition ex_floats :: "int floats" where
  "ex_floats k = \<lparr>f_gt = (>), f_lt = (<), f_eq = (=), f_add = (+), f_sub = (-), f_mul = (*)\<rparr>"

theorem reduce_elementwise_witness:
  "reduce ex_floats (\<lambda>_ _ _ _ _. None) EMPI_REDUCE_PROD [Cpx 1 2, Cpx 0 1] [Cpx 3 4, Cpx 5 0, Cpx 9 9] 2 27 =
     Some [Cpx (-5) 10, Cpx 0 5, Cpx 9 9]"
  using reduce_elementwise [of EMPI_REDUCE_PROD 27 C_COMPLEX 2 "[Cpx 1 2, Cpx 0 1]" "[Cpx 3 4, Cpx 5 0, Cpx 9 9]"
      ex_floats "\<lambda>i. if i = 0 then Cpx (-5) 10 else Cpx 0 5" "\<lambda>_ _ _ _ _. None"]
  by (simp add: PROD_types_def element_function_def ex_floats_def less_2_cases_iff numeral_2_eq_2)

text \<open>
  C26: A sum of integers is exact up to the width of the type: it has a result unless some
  sum overflows a signed type at least as wide as \<^verbatim>\<open>int\<close>, and then every element is the sum, reduced
  to the width of the type. Unsigned and short types therefore always wrap.
\<close>

theorem reduce_sum_integers:
  assumes "map_of SUM_types t = Some ct" "scalar_type ct = Some (CI n s)" "length b = length a"
    and "list_all (int_range n s) a" "list_all (int_range n s) b"
  shows "reduce fp user EMPI_REDUCE_SUM (map (\<lambda>x. S (SI x)) a) (map (\<lambda>x. S (SI x)) b) (int (length a)) t =
    (if list_all (sum_defined n s) (map2 (+) a b) then Some (map2 (\<lambda>x y. S (SI (int_wrap n s (x + y)))) a b) else None)"
proof -
  let ?a = "map (\<lambda>x. S (SI x)) a" and ?b = "map (\<lambda>x. S (SI x)) b"
  let ?f = "element_function fp EMPI_REDUCE_SUM ct"
  have f: "?f (?a ! i) (?b ! i) = (if sum_defined n s (a ! i + b ! i)
      then Some (S (SI (int_wrap n s (a ! i + b ! i)))) else None)" if "i < length a" for i
    using int_result_sum [OF scalar_type_bits [OF assms(2)], of s "a ! i" "b ! i"] assms(2-5) that
    by (simp add: element_function_def list_all_length)
  have call: "reduce fp user EMPI_REDUCE_SUM ?a ?b (int (length a)) t = reduce_loop ?f ?a (length a) 0 ?b"
    by (subst reduce_loop_of [where ct = ct]) (simp_all add: assms(1))
  show ?thesis
  proof (cases "list_all (sum_defined n s) (map2 (+) a b)")
    case True
    let ?g = "\<lambda>i. S (SI (int_wrap n s (a ! i + b ! i)))"
    have "?f (?a ! i) (?b ! i) = Some (?g i)" if "i < length a" for i
      using f [OF that] True that assms(3) by (simp add: list_all_length)
    then have "reduce_loop ?f ?a (length a) 0 ?b = Some (map ?g [0 ..< length a] @ drop (length a) ?b)"
      using assms(3) by (intro reduce_loop_all) simp_all
    moreover have "map ?g [0 ..< length a] = map2 (\<lambda>x y. S (SI (int_wrap n s (x + y)))) a b"
      by (rule nth_equalityI) (simp_all add: assms(3))
    ultimately show ?thesis unfolding call using True assms(3) by simp
  next
    case False
    then obtain i where i: "i < length a" "\<not> sum_defined n s (a ! i + b ! i)"
      using assms(3) by (auto simp: list_all_length)
    then have "?f (?a ! i) (?b ! i) = None" using f by (simp del: nth_map)
    then have "reduce_loop ?f ?a (length a) (int 0) ?b = None"
      using i(1) assms(3) by (intro reduce_loop_bad [where i = i]) simp_all
    then show ?thesis unfolding call using False by simp
  qed
qed

theorem reduce_sum_integers_witness:
  "reduce ex_floats (\<lambda>_ _ _ _ _. None) EMPI_REDUCE_SUM (map (\<lambda>x. S (SI x)) [200, 1]) (map (\<lambda>x. S (SI x)) [100, 2]) 2 7 =
     Some [S (SI 44), S (SI 3)] \<and>
   reduce ex_floats (\<lambda>_ _ _ _ _. None) EMPI_REDUCE_SUM (map (\<lambda>x. S (SI x)) [2147483647]) (map (\<lambda>x. S (SI x)) [1]) 1 3 = None"
  using reduce_sum_integers [of 7 C_UNSIGNED_CHAR 8 False "[100, 2]" "[200, 1]" ex_floats "\<lambda>_ _ _ _ _. None"]
    reduce_sum_integers [of 3 C_INT 32 True "[1]" "[2147483647]" ex_floats "\<lambda>_ _ _ _ _. None"]
  by (simp add: SUM_types_def int_range_def int_wrap_def sum_defined_def)

text \<open>
  C27: The location of an extremum does not depend on the order in which the contributions arrive:
  reducing pairs of integers one after the other with \<^verbatim>\<open>MPI_MAXLOC\<close> gives the largest value and the
  least of the locations that have it, for the set of all contributions.
\<close>

theorem maxloc_any_order:
  assumes "t \<in> set int_pairs"
  shows "reduce_all fp user EMPI_REDUCE_MAXLOC 1 t (map (\<lambda>p. [int_pair p]) ps) [int_pair p] =
    Some [int_pair (max_loc (set (p # ps)))]"
proof -
  have "max_loc {p} = p" by (cases p) (simp add: max_loc_def)
  with maxloc_fold [OF assms, of "{p}" fp user ps] show ?thesis by simp
qed

theorem maxloc_any_order_witness:
  "reduce_all ex_floats (\<lambda>_ _ _ _ _. None) EMPI_REDUCE_MAXLOC 1 21 [[int_pair (5, 3)], [int_pair (5, 1)], [int_pair (2, 0)]]
     [int_pair (4, 2)] = Some [int_pair (5, 1)]"
proof -
  have "{l. (5 :: int, l :: int) \<in> {(4, 2), (5, 3), (5, 1), (2, 0)}} = {3, 1}" by auto
  then have "max_loc {(4, 2), (5, 3), (5, 1), (2, 0)} = (5, 1)" by (simp add: max_loc_def)
  with maxloc_any_order [of 21 ex_floats "\<lambda>_ _ _ _ _. None" "[(5, 3), (5, 1), (2, 0)]" "(4, 2)"]
  show ?thesis by (simp add: int_pairs_def)
qed


end
