(* ===== verification/Acts.thy ===== *)
theory Acts
  imports Prelude
begin

text \<open>
  Acts: steps of a program over a state. An act takes the state to its result, if it has come to one,
  and the state afterwards; \<open>None\<close> in place of the result: the environment answers no more and the call
  still waits. As elsewhere an act without value (\<open>None\<close>) has stopped the process.
\<close>

type_synonym ('r, 's) act = "'s \<Rightarrow> ('r option \<times> 's) run"

named_theorems act_simps \<open>executing acts\<close>

definition ret :: "'r \<Rightarrow> ('r, 's) act" where
  "ret r s = Some (Some r, s)"

definition andthen :: "('a, 's) act \<Rightarrow> ('a \<Rightarrow> ('b, 's) act) \<Rightarrow> ('b, 's) act" where
  "andthen m f s = (case m s of None \<Rightarrow> None | Some (None, s') \<Rightarrow> Some (None, s') | Some (Some a, s') \<Rightarrow> f a s')"

text \<open>A computation that does not touch the process; an act that waits for ever.\<close>

definition lift :: "'a run \<Rightarrow> ('a, 's) act" where
  "lift x s = map_option (\<lambda>a. (Some a, s)) x"

definition wait_more :: "('r, 's) act" where
  "wait_more s = Some (None, s)"

definition the_state :: "('s, 's) act" where
  "the_state s = Some (Some s, s)"

text \<open>The logging macros in front of what follows them.\<close>

definition after_ERROR :: "bool \<Rightarrow> ('r, 's) act \<Rightarrow> ('r, 's) act" where
  "after_ERROR ef a s = ERROR ef (a s)"

definition after_IERROR :: "('r, 's) act \<Rightarrow> ('r, 's) act" where
  "after_IERROR a s = IERROR (a s)"

lemma ret_run [simp]: "ret r s = Some (Some r, s)" by (simp add: ret_def)
lemma lift_run [simp]: "lift (Some a) s = Some (Some a, s)" "lift None s = None" by (simp_all add: lift_def)
lemma wait_more_run [simp]: "wait_more s = Some (None, s)" by (simp add: wait_more_def)
lemma the_state_run [simp]: "the_state s = Some (Some s, s)" by (simp add: the_state_def)
lemma after_ERROR_run [simp]: "after_ERROR ef a s = ERROR ef (a s)" by (simp add: after_ERROR_def)
lemma after_IERROR_run [simp]: "after_IERROR a s = None" by (simp add: after_IERROR_def)

lemma andthen_run [act_simps]:
  "m s = Some (Some a, s') \<Longrightarrow> andthen m f s = f a s'"
  "m s = Some (None, s') \<Longrightarrow> andthen m f s = Some (None, s')"
  "m s = None \<Longrightarrow> andthen m f s = None"
  by (simp_all add: andthen_def)

lemma andthen_ret [simp]: "andthen (ret a) f = f a"
  by (rule ext) (simp add: andthen_def)

lemma andthen_lift [simp]: "andthen (lift (Some a)) f = f a" "andthen (lift None) f = (\<lambda>s. None)"
  by (rule ext, simp add: andthen_def)+

lemma andthen_state [simp]: "andthen the_state f s = f s s"
  by (simp add: andthen_def)

lemma andthen_assoc: "andthen (andthen m f) g = andthen m (\<lambda>x. andthen (f x) g)"
  by (rule ext) (auto simp: andthen_def split: option.splits prod.splits)

lemma andthen_Some:
  "andthen m f s = Some (Some b, s'') \<longleftrightarrow> (\<exists>a s'. m s = Some (Some a, s') \<and> f a s' = Some (Some b, s''))"
  by (auto simp: andthen_def split: option.splits prod.splits)

section \<open>Loops\<close>

text \<open>\<^verbatim>\<open>for\<close> loops whose body returns an error code and that end with the first one that is not 0.\<close>

fun for_each :: "('b \<Rightarrow> (int, 's) act) \<Rightarrow> 'b list \<Rightarrow> (int, 's) act" where
  "for_each body [] = ret 0"
| "for_each body (x # xs) = andthen (body x) (\<lambda>e. if e \<noteq> 0 then ret e else for_each body xs)"

lemma for_each_append:
  "for_each body (xs @ ys) = andthen (for_each body xs) (\<lambda>e. if e \<noteq> 0 then ret e else for_each body ys)"
proof (induction xs)
  case (Cons x xs)
  have "(\<lambda>e. andthen (if e \<noteq> 0 then ret e else for_each body xs) (\<lambda>e. if e \<noteq> 0 then ret e else for_each body ys)) =
      (\<lambda>e. if e \<noteq> 0 then ret e else for_each body (xs @ ys))"
    by (rule ext) (auto simp: Cons.IH)
  then show ?case by (simp add: andthen_assoc)
qed (simp del: ret_run)

text \<open>A body that always succeeds and changes the state by \<open>step\<close>.\<close>

lemma for_each_fold:
  assumes "\<And>x s. x \<in> set xs \<Longrightarrow> P s \<Longrightarrow> body x s = Some (Some 0, step x s) \<and> P (step x s)" "P s"
  shows "for_each body xs s = Some (Some 0, fold step xs s) \<and> P (fold step xs s)"
  using assms
proof (induction xs arbitrary: s)
  case (Cons x xs)
  from Cons.prems have b: "body x s = Some (Some 0, step x s)" "P (step x s)" by simp_all
  from Cons.IH [of "step x s"] Cons.prems(1) b(2)
  have "for_each body xs (step x s) = Some (Some 0, fold step xs (step x s)) \<and> P (fold step xs (step x s))" by simp
  with b(1) show ?case by (simp add: andthen_def)
qed simp

text \<open>An invariant of the turns of a loop that succeeds as a whole.\<close>

lemma for_each_success:
  assumes "for_each body xs s = Some (Some 0, s')" "I 0 s"
    and "\<And>j t t'. j < length xs \<Longrightarrow> I j t \<Longrightarrow> body (xs ! j) t = Some (Some 0, t') \<Longrightarrow> I (Suc j) t'"
  shows "I (length xs) s'"
  using assms
proof (induction xs arbitrary: s I)
  case (Cons x xs)
  from Cons.prems(1) obtain e t where t: "body x s = Some (Some e, t)"
    "(if e \<noteq> 0 then ret e else for_each body xs) t = Some (Some 0, s')"
    by (auto simp: andthen_Some)
  then have e: "e = 0" by (auto split: if_splits)
  have "I (Suc 0) t" using Cons.prems(3) [of 0 s t] Cons.prems(2) t(1) e by simp
  moreover have "I (Suc (Suc j)) u'" if "j < length xs" "I (Suc j) u" "body (xs ! j) u = Some (Some 0, u')" for j u u'
    using Cons.prems(3) [of "Suc j" u u'] that by simp
  moreover have "for_each body xs t = Some (Some 0, s')" using t(2) e by simp
  ultimately show ?case using Cons.IH [of t "\<lambda>j. I (Suc j)"] by simp
qed simp

text \<open>An invariant that makes every turn of a loop succeed.\<close>

lemma for_each_reaches:
  assumes "I 0 s"
    and "\<And>j t. j < length xs \<Longrightarrow> I j t \<Longrightarrow> \<exists>t'. body (xs ! j) t = Some (Some 0, t') \<and> I (Suc j) t'"
  shows "\<exists>s'. for_each body xs s = Some (Some 0, s') \<and> I (length xs) s'"
  using assms
proof (induction xs arbitrary: s I)
  case (Cons x xs)
  from Cons.prems(2) [of 0 s] Cons.prems(1) obtain t where t: "body x s = Some (Some 0, t)" "I (Suc 0) t" by auto
  have "\<exists>u'. body (xs ! j) u = Some (Some 0, u') \<and> I (Suc (Suc j)) u'" if "j < length xs" "I (Suc j) u" for j u
    using Cons.prems(2) [of "Suc j" u] that by simp
  with Cons.IH [of "\<lambda>j. I (Suc j)", OF t(2)] t(1) show ?case by (auto simp: andthen_run)
qed simp

end
