(* ===== verification/Process_State.thy ===== *)
theory Process_State
  imports Acts Messaging Operations Files_Infos Server_Messages
begin

text \<open>
  An application process, as the entry points of \<^verbatim>\<open>src/backend/empi.c\<close> see it: its registries, the
  messages that arrive from and leave for the gateway, the buffers of its pending receives, and the
  local MPI library. A call of that library is a value of type \<open>pmpi\<close>; the argument \<open>E\<close> answers it
  and changes the \<open>'w\<close> world behind it. Memory that holds application data is a list of cells of type
  \<open>'a\<close>; the extent of a datatype is counted in cells, so that a cell may be a byte or an element.
\<close>

section \<open>Cells\<close>

text \<open>Reading and writing cells at an offset, and the cells from a pointer into a buffer on.\<close>

definition get_cells :: "'a list \<Rightarrow> int \<Rightarrow> int \<Rightarrow> 'a list run" where
  "get_cells buf off n =
     (if 0 \<le> off \<and> 0 \<le> n \<and> off + n \<le> int (length buf) then Some (take (nat n) (drop (nat off) buf)) else None)"

definition put_cells :: "'a list \<Rightarrow> int \<Rightarrow> 'a list \<Rightarrow> 'a list run" where
  "put_cells buf off xs =
     (if 0 \<le> off \<and> off + int (length xs) \<le> int (length buf)
      then Some (take (nat off) buf @ xs @ drop (nat off + length xs) buf) else None)"

definition cells_from :: "'a list \<Rightarrow> int \<Rightarrow> 'a list run" where
  "cells_from buf off = (if 0 \<le> off \<and> off \<le> int (length buf) then Some (drop (nat off) buf) else None)"

lemma length_put_cells: "put_cells buf off xs = Some buf' \<Longrightarrow> length buf' = length buf"
  by (auto simp: put_cells_def split: if_splits)

lemma put_cells_nat:
  "off + length xs \<le> length buf \<Longrightarrow>
   put_cells buf (int off) xs = Some (take off buf @ xs @ drop (off + length xs) buf)"
  by (simp add: put_cells_def nat_add_distrib)

lemma get_cells_nat: "off + n \<le> length buf \<Longrightarrow> get_cells buf (int off) (int n) = Some (take n (drop off buf))"
  by (simp add: get_cells_def)

section \<open>The local MPI library\<close>

text \<open>\<^verbatim>\<open>MPI_Status\<close>, the null pointer \<^verbatim>\<open>MPI_STATUS_IGNORE\<close> apart.\<close>

record mpi_status =
  ms_source :: int
  ms_tag :: int
  ms_error :: int

type_synonym mpi_handle = "nat option"

text \<open>
  The calls that the entry points make, with the arguments that they hand over: data are the cells
  behind the pointer to the send buffer, followed by count, type, destination or source, and tag;
  the communicator comes last. A call only names its receive buffer when the library keeps the
  address.
\<close>

datatype 'a p2p_call =
    PMPI_Send "'a list" int mpi_object int int mpi_handle
  | PMPI_Ssend "'a list" int mpi_object int int mpi_handle
  | PMPI_Isend "'a list" int mpi_object int int mpi_handle
  | PMPI_Issend "'a list" int mpi_object int int mpi_handle
  | PMPI_Recv int mpi_object int int mpi_handle
  | PMPI_Irecv "addr option" int mpi_object int int mpi_handle
  | PMPI_Sendrecv "'a list" int mpi_object int int int mpi_object int int mpi_handle

datatype request_call =
    PMPI_Wait mpi_handle
  | PMPI_Test mpi_handle
  | PMPI_Cancel mpi_handle
  | PMPI_Request_free mpi_handle
  | PMPI_Request_get_status mpi_handle
  | PMPI_Test_cancelled mpi_status
  | PMPI_Get_count mpi_status mpi_object
  | PMPI_Type_extent mpi_object

datatype 'a collective_call =
    PMPI_Barrier mpi_handle
  | PMPI_Bcast "'a list" int mpi_object int mpi_handle
  | PMPI_Gather "'a list" int mpi_object int mpi_object int mpi_handle
  | PMPI_Gatherv "'a list" int mpi_object "int list" "int list" mpi_object int mpi_handle
  | PMPI_Allgather "'a list" int mpi_object int mpi_object mpi_handle
  | PMPI_Allgatherv "'a list" int mpi_object "int list" "int list" mpi_object mpi_handle
  | PMPI_Scatter "'a list" int mpi_object int mpi_object int mpi_handle
  | PMPI_Scatterv "'a list" "int list" "int list" mpi_object int mpi_object int mpi_handle

datatype 'a reduction_call =
    PMPI_Reduce "'a list" int mpi_object mpi_object int mpi_handle
  | PMPI_Allreduce "'a list" int mpi_object mpi_object mpi_handle
  | PMPI_Scan "'a list" int mpi_object mpi_object mpi_handle
  | PMPI_Alltoall "'a list" int mpi_object int mpi_object mpi_handle
  | PMPI_Alltoallv "'a list" "int list" "int list" mpi_object "int list" "int list" mpi_object mpi_handle
  | PMPI_Alltoallw "'a list" "int list" "int list" "mpi_object list" "int list" "int list" "mpi_object list" mpi_handle

datatype comm_call =
    PMPI_Comm_dup mpi_handle
  | PMPI_Comm_split mpi_handle int int
  | PMPI_Comm_group mpi_handle
  | PMPI_Group_incl mpi_handle "int list"
  | PMPI_Comm_create mpi_handle mpi_handle
  | PMPI_Comm_rank mpi_handle
  | PMPI_Comm_size mpi_handle

datatype object_call =
    PMPI_Type_free mpi_object
  | PMPI_Type_get_envelope mpi_object
  | PMPI_Type_create_indexed_block int int "int list" mpi_object
  | PMPI_Type_contiguous int mpi_object
  | PMPI_Type_commit mpi_object
  | PMPI_Type_get_name mpi_object
  | PMPI_Type_size mpi_object
  | PMPI_Type_hvector int int int mpi_object
  | PMPI_Type_indexed int "int list" "int list" mpi_object
  | PMPI_Type_ub mpi_object

datatype 'a io_call =
    PMPI_File_open mpi_handle string int mpi_handle
  | PMPI_File_close mpi_handle
  | PMPI_File_read_all mpi_handle int mpi_object bool
  | PMPI_File_read_at mpi_handle int int mpi_object bool
  | PMPI_File_write_at mpi_handle int "'a list" int mpi_object bool
  | PMPI_File_set_view mpi_handle int mpi_object mpi_object string mpi_handle
  | PMPI_File_write_all mpi_handle "'a list" int mpi_object bool

datatype 'a other_call =
    PMPI_Info_create
  | PMPI_Info_delete mpi_handle string
  | PMPI_Info_set mpi_handle string string
  | PMPI_Info_free mpi_handle
  | PMPI_Op_create op_function int
  | PMPI_Pack "'a list" int mpi_object int int mpi_handle
  | PMPI_Pack_size int mpi_object mpi_handle
  | PMPI_Unpack "'a list" int int int mpi_object mpi_handle
  | PMPI_Abort mpi_handle int
  | PMPI_Initialized
  | PMPI_Finalized
  | PMPI_Error_string int
  | PMPI_Get_processor_name

datatype 'a pmpi =
    Point_To_Point "'a p2p_call"
  | Request request_call
  | Collective "'a collective_call"
  | Reduction "'a reduction_call"
  | Comm comm_call
  | Object object_call
  | IO "'a io_call"
  | Other "'a other_call"

text \<open>
  What a call returned: the error code, the data written to the receive buffer, the status, a flag, a
  number, further numbers, a string, a handle, and a datatype or operation; only those are looked at
  that the call has.
\<close>

record 'a answer =
  an_error :: int
  an_data :: "'a list"
  an_status :: mpi_status
  an_flag :: bool
  an_value :: int
  an_values :: "int list"
  an_name :: string
  an_handle :: mpi_handle
  an_type :: mpi_object

text \<open>
  What a process keeps for its lifetime: the build option for errors, the byte order, its
  identity and place, and its environment. \<open>e_pack\<close>: packing and handing data over to the gateway, for
  a broadcast once per cluster; \<open>e_block\<close>: malloc of a buffer of that many cells; \<open>e_server\<close>: what sending
  a request to the server returned, which arrays were allocated, and what receiving its reply returned;
  \<open>e_group\<close>: the allocations for a new group; \<open>e_byte\<close>: the cells of a byte with value 42; \<open>e_junk\<close> and
  \<open>e_junk_int\<close>: what malloc leaves in fields that are not written.
\<close>

record ('a, 'w) env =
  e_ef :: bool
  e_le :: bool
  e_my_pid :: u32
  e_my_gateway :: int
  e_cluster_rank :: u32
  e_cluster_count :: int
  e_ANY_TAG :: int
  e_ANY_SOURCE :: int
  e_UNDEFINED :: int
  e_junk :: "data_message option"
  e_junk_int :: int
  e_call :: "'a pmpi \<Rightarrow> 'w \<Rightarrow> 'a answer \<times> 'w"
  e_pack :: "'a list \<Rightarrow> int \<Rightarrow> mpi_object \<Rightarrow> mpi_handle \<Rightarrow> 'w \<Rightarrow> (int \<Rightarrow> mpi_pack) \<times> 'w"
  e_unpack :: "'a list unpacker"
  e_malloc :: "'w \<Rightarrow> addr option \<times> 'w"
  e_block :: "int \<Rightarrow> 'w \<Rightarrow> 'a list option \<times> 'w"
  e_server :: "'w \<Rightarrow> (int \<times> (nat \<Rightarrow> bool) \<times> mpi_recv) \<times> 'w"
  e_group :: "'w \<Rightarrow> (bool \<times> group_alloc) \<times> 'w"
  e_byte :: "'a list"

record ('a, 'w) proc =
  ps_comms :: comm_reg
  ps_types :: dt_reg
  ps_ops :: op_reg
  ps_groups :: group_reg
  ps_requests :: req_reg
  ps_files :: file_reg
  ps_infos :: info_reg
  ps_memory :: "addr \<Rightarrow> 'a list option"
  ps_arrivals :: "mpi_probe list"
  ps_sent :: "(int \<times> data_message) list"
  ps_requested :: "byte list list"
  ps_world :: 'w

type_synonym ('r, 'a, 'w) proc_act = "('r, ('a, 'w) proc) act"

definition pmpi :: "('a, 'w) env \<Rightarrow> 'a pmpi \<Rightarrow> ('a answer, 'a, 'w) proc_act" where
  "pmpi E call s = (let (a, w) = e_call E call (ps_world s) in Some (Some a, s\<lparr>ps_world := w\<rparr>))"

definition malloc :: "('a, 'w) env \<Rightarrow> (addr option, 'a, 'w) proc_act" where
  "malloc E s = (let (p, w) = e_malloc E (ps_world s) in Some (Some p, s\<lparr>ps_world := w\<rparr>))"

definition malloc_cells :: "('a, 'w) env \<Rightarrow> int \<Rightarrow> ('a list option, 'a, 'w) proc_act" where
  "malloc_cells E n s = (let (b, w) = e_block E n (ps_world s) in Some (Some b, s\<lparr>ps_world := w\<rparr>))"

text \<open>A receive buffer that a pending request names is written.\<close>

definition write_memory :: "addr option \<Rightarrow> 'a list \<Rightarrow> (unit, 'a, 'w) proc_act" where
  "write_memory po xs s = do {
     p \<leftarrow> po;
     buf \<leftarrow> ps_memory s p;
     buf' \<leftarrow> put_cells buf 0 xs;
     Some (Some (), s\<lparr>ps_memory := (ps_memory s)(p \<mapsto> buf')\<rparr>)
   }"

section \<open>The macros that look a handle up\<close>

text \<open>
  \<^verbatim>\<open>src/backend/macros.h\<close>: \<open>bad\<close> is what the entry point returns when the handle is unknown, \<open>k\<close> the
  rest of it, given the pointer and what it points to.
\<close>

definition H2C ::
  "('a, 'w) env \<Rightarrow> int \<Rightarrow> 'r \<Rightarrow> (addr \<Rightarrow> communicator \<Rightarrow> ('r, 'a, 'w) proc_act) \<Rightarrow> ('r, 'a, 'w) proc_act" where
  "H2C E h bad k s = do {
     po \<leftarrow> handle_to_communicator (e_ef E) (ps_comms s) h;
     case po of
       None \<Rightarrow> ERROR (e_ef E) (Some (Some bad, s))
     | Some p \<Rightarrow> do { c \<leftarrow> heap (ps_comms s) p; k p c s }
   }"

definition H2T ::
  "('a, 'w) env \<Rightarrow> int \<Rightarrow> 'r \<Rightarrow> (addr \<Rightarrow> datatype_s \<Rightarrow> ('r, 'a, 'w) proc_act) \<Rightarrow> ('r, 'a, 'w) proc_act" where
  "H2T E h bad k s = do {
     po \<leftarrow> handle_to_datatype (e_ef E) (ps_types s) h;
     case po of
       None \<Rightarrow> ERROR (e_ef E) (Some (Some bad, s))
     | Some p \<Rightarrow> do { t \<leftarrow> heap (ps_types s) p; k p t s }
   }"

definition H2R ::
  "('a, 'w) env \<Rightarrow> int \<Rightarrow> 'r \<Rightarrow> (addr \<Rightarrow> request \<Rightarrow> ('r, 'a, 'w) proc_act) \<Rightarrow> ('r, 'a, 'w) proc_act" where
  "H2R E h bad k s = do {
     po \<leftarrow> handle_to_request (e_ef E) (ps_requests s) h;
     case po of
       None \<Rightarrow> ERROR (e_ef E) (Some (Some bad, s))
     | Some p \<Rightarrow> do { r \<leftarrow> heap (ps_requests s) p; k p r s }
   }"

definition H2O ::
  "('a, 'w) env \<Rightarrow> int \<Rightarrow> 'r \<Rightarrow> (addr \<Rightarrow> operation \<Rightarrow> ('r, 'a, 'w) proc_act) \<Rightarrow> ('r, 'a, 'w) proc_act" where
  "H2O E h bad k s = do {
     po \<leftarrow> handle_to_operation (e_ef E) (ps_ops s) h;
     case po of
       None \<Rightarrow> ERROR (e_ef E) (Some (Some bad, s))
     | Some p \<Rightarrow> do { x \<leftarrow> heap (ps_ops s) p; k p x s }
   }"

definition H2G ::
  "('a, 'w) env \<Rightarrow> int \<Rightarrow> 'r \<Rightarrow> (addr \<Rightarrow> group_s \<Rightarrow> ('r, 'a, 'w) proc_act) \<Rightarrow> ('r, 'a, 'w) proc_act" where
  "H2G E h bad k s = do {
     po \<leftarrow> handle_to_group (e_ef E) (ps_groups s) h;
     case po of
       None \<Rightarrow> ERROR (e_ef E) (Some (Some bad, s))
     | Some p \<Rightarrow> do { g \<leftarrow> heap (ps_groups s) p; k p g s }
   }"

section \<open>Calls of the messaging layer\<close>

definition wa_send ::
  "('a, 'w) env \<Rightarrow> 'a list \<Rightarrow> int \<Rightarrow> datatype_s \<Rightarrow> int \<Rightarrow> int \<Rightarrow> communicator \<Rightarrow> (int, 'a, 'w) proc_act" where
  "wa_send E buf count t dest tag c s =
     (let (mp, w) = e_pack E buf count (dt_type t) (c_comm c) (ps_world s) in do {
        (error, mo) \<leftarrow> messaging_send (e_ef E) (e_my_pid E) (e_my_gateway E) (mp 0) count dest tag c;
        Some (Some error, s\<lparr>ps_world := w, ps_sent := ps_sent s @ (case mo of None \<Rightarrow> [] | Some m \<Rightarrow> [m])\<rparr>)
      })"

definition wa_bcast ::
  "('a, 'w) env \<Rightarrow> 'a list \<Rightarrow> int \<Rightarrow> datatype_s \<Rightarrow> communicator \<Rightarrow> (int, 'a, 'w) proc_act" where
  "wa_bcast E buf count t c s =
     (let (mp, w) = e_pack E buf count (dt_type t) (c_comm c) (ps_world s) in do {
        (error, ms) \<leftarrow> messaging_bcast (e_ef E) (e_my_pid E) (e_my_gateway E) (e_cluster_count E)
                         (uint (e_cluster_rank E)) mp count c;
        Some (Some error, s\<lparr>ps_world := w, ps_sent := ps_sent s @ ms\<rparr>)
      })"

text \<open>The result: the error code, the data received, and the status.\<close>

definition wa_receive ::
  "('a, 'w) env \<Rightarrow> int \<Rightarrow> datatype_s \<Rightarrow> int \<Rightarrow> int \<Rightarrow> status option \<Rightarrow> addr
    \<Rightarrow> (int \<times> 'a list option \<times> status option, 'a, 'w) proc_act" where
  "wa_receive E count t source tag st p s = do {
     (res, prs, r) \<leftarrow> messaging_receive (e_ef E) (e_unpack E) count t source tag st p (ps_arrivals s) (ps_comms s);
     Some (res, s\<lparr>ps_arrivals := prs, ps_comms := r\<rparr>)
   }"

definition wa_bcast_receive ::
  "('a, 'w) env \<Rightarrow> int \<Rightarrow> datatype_s \<Rightarrow> int \<Rightarrow> addr \<Rightarrow> (int \<times> 'a list option, 'a, 'w) proc_act" where
  "wa_bcast_receive E count t root p s = do {
     (res, prs, r) \<leftarrow> messaging_bcast_receive (e_ef E) (e_unpack E) count t root p (ps_arrivals s) (ps_comms s);
     Some (map_option (\<lambda>(e, d, st). (e, d)) res, s\<lparr>ps_arrivals := prs, ps_comms := r\<rparr>)
   }"

definition wa_probe_receive :: "('a, 'w) env \<Rightarrow> addr \<Rightarrow> bool \<Rightarrow> (int, 'a, 'w) proc_act" where
  "wa_probe_receive E q blocking s = do {
     (res, prs, rr, r) \<leftarrow>
       messaging_probe_receive (e_ef E) q blocking (ps_arrivals s) (ps_requests s, ps_comms s);
     Some (res, s\<lparr>ps_arrivals := prs, ps_requests := rr, ps_comms := r\<rparr>)
   }"

text \<open>Data that a pending receive gets go to the buffer its request names.\<close>

definition wa_finalize_receive ::
  "('a, 'w) env \<Rightarrow> addr \<Rightarrow> status option \<Rightarrow> (int \<times> status option, 'a, 'w) proc_act" where
  "wa_finalize_receive E q st s = do {
     rq \<leftarrow> heap (ps_requests s) q;
     (error, buf, st', rr) \<leftarrow>
       messaging_finalize_receive (e_unpack E) q st (ps_types s) (ps_comms s) (ps_requests s);
     let s' = s\<lparr>ps_requests := rr\<rparr>;
     case buf of
       None \<Rightarrow> Some (Some (error, st'), s')
     | Some xs \<Rightarrow> andthen (write_memory (rq_buf rq) xs) (\<lambda>_. ret (error, st')) s'
   }"

section \<open>Lemmas\<close>

lemma wa_send_ok:
  assumes "e_pack E buf count (dt_type t) (c_comm c) (ps_world s) = (mp, w)" "pack_ok (mp 0)"
    and "0 \<le> dest" "dest < int (length (c_members c))"
  shows "wa_send E buf count t dest tag c s = Some (Some EMPI_SUCCESS, s\<lparr>ps_world := w, ps_sent := ps_sent s @
      [(e_my_gateway E, sent_message (e_my_pid E) OPCODE_DATA (mp 0) count dest tag c)]\<rparr>)"
  using assms do_send_ok [OF assms(2-4)] by (simp add: wa_send_def messaging_send_def)

end
