(* ===== verification/Example_Process.thy ===== *)
theory Example_Process
  imports Process_State
begin

text \<open>
  A small run for the witnesses of the properties: the registries of a process, the messages that arrive
  for it, and a process with its environment.
\<close>

section \<open>Communicators and messages\<close>

text \<open>
  Two clusters, of two processes and of one; the calling process is rank 0 of cluster 0. The
  backend has just been initialised: the three predefined communicators live at 10, 11 and 12.
\<close>

definition ex_comms :: comm_reg where
  "ex_comms = world_regs [2, 1] 0 0 2 (Some 5) (SET_PID 0 0) (\<lambda>_. 0) 10 11 12
     \<lparr>heap = \<lambda>_. None, slots = \<lambda>_. None\<rparr>"

definition ex_type :: datatype_s where
  "ex_type = \<lparr>dt_handle = 3, dt_type = Predef ''MPI_INT''\<rparr>"

definition ex_message :: "int \<Rightarrow> int \<Rightarrow> int \<Rightarrow> byte list \<Rightarrow> data_message" where
  "ex_message comm source tag bs =
     \<lparr>header = \<lparr>opcode = OPCODE_DATA, src_pid = SET_PID 1 0, dst_pid = SET_PID 0 0,
                msg_length = word_of_int (DATA_MESSAGE_SIZE + int (length bs))\<rparr>,
      m_comm = comm, m_source = source, m_dest = 0, m_tag = tag, m_count = 1, payload = bs\<rparr>"

definition ex_probe :: "data_message \<Rightarrow> mpi_probe" where
  "ex_probe m = \<lparr>pr_error = 0, pr_flag = True, pr_count_error = 0, pr_alloc = True,
     pr_recv_error = 0, pr_message = m, pr_store = True\<rparr>"

definition ex_unpack :: "byte list unpacker" where
  "ex_unpack bs count t c = (0, bs)"

definition ex_arrivals :: "mpi_probe list" where
  "ex_arrivals = [ex_probe (ex_message 1 0 7 [1]), ex_probe (ex_message 0 2 9 [2]),
     ex_probe (ex_message 0 2 7 [3]), ex_probe (ex_message 0 2 7 [4])]"

lemma ex_unpack_simps [simp]: "fst (ex_unpack bs n t c) = EMPI_SUCCESS" "snd (ex_unpack bs n t c) = bs"
  by (simp_all add: ex_unpack_def)

lemma ex_message_simps [simp]:
  "m_comm (ex_message comm source tag bs) = comm" "payload (ex_message comm source tag bs) = bs"
  "match_message (ex_message comm source tag bs) h src t \<longleftrightarrow>
     h = comm \<and> (src = EMPI_ANY_SOURCE \<or> src = source) \<and> (t = EMPI_ANY_TAG \<or> t = tag)"
  by (simp_all add: ex_message_def match_message_def)

lemma ex_sizes: "valid_sizes [2, 1] 0 0"
  by (simp add: valid_sizes_def MAX_CLUSTERS_def MAX_PROCESSES_PER_CLUSTER_def)

lemma ex_comms_ok: "comm_ok ex_comms"
  unfolding ex_comms_def using ex_sizes by (rule world_regs_ok) simp_all

lemma ex_comms_slots:
  "slots ex_comms 0 = Some 10" "slots ex_comms 1 = Some 11"
  "heap ex_comms 10 = Some ((world_of [2, 1] 0 0 2 (Some 5))\<lparr>c_my_coordinator := 0\<rparr>)"
  "pending ex_comms 0 = []"
  by (simp_all add: ex_comms_def world_regs_def pending_def world_of_def world_communicator_def)

lemma ex_arrivals_good: "\<forall>pr \<in> set ex_arrivals. good_probe ex_comms pr"
  by (simp add: ex_arrivals_def ex_probe_def good_probe_def ex_comms_slots)

lemma ex_message_sound: "length bs < 1000 \<Longrightarrow> msg_sound (ex_message comm source tag bs)"
  by (rule msg_soundI) (simp_all add: ex_message_def DATA_MESSAGE_SIZE_def MESSAGE_HEADER_SIZE_def)

lemma ex_backlog:
  "backlog ex_comms ex_arrivals 0 = [ex_message 0 2 9 [2], ex_message 0 2 7 [3], ex_message 0 2 7 [4]]"
  "backlog ex_comms ex_arrivals 1 = [ex_message 1 0 7 [1]]"
  by (simp_all add: backlog_def ex_comms_slots ex_arrivals_def ex_probe_def)
     (simp add: pending_def ex_comms_def world_regs_def self_communicator_def)

lemma ex_backlog_sound:
  "\<forall>m \<in> set (backlog ex_comms ex_arrivals 0). msg_sound m \<and> fst (ex_unpack (payload m) n t c) = EMPI_SUCCESS"
  by (simp add: ex_backlog ex_message_sound)

section \<open>Replies of the server\<close>

definition ex_recv :: "byte list \<Rightarrow> mpi_recv" where
  "ex_recv bs = \<lparr>rv_probe_error = 0, rv_count_error = 0, rv_alloc = True, rv_nomem = 17, rv_error = 0, rv_data = bs\<rparr>"

lemma ex_recv_simps [simp]: "recv_ok (ex_recv bs)" "rv_data (ex_recv bs) = bs"
  by (simp_all add: ex_recv_def recv_ok_def)

definition ex_arrays :: reply_arrays where
  "ex_arrays = \<lparr>ra_coordinators = [0, 1], ra_cluster_sizes = [1, 1], ra_cluster_ranks = [0, 2],
     ra_members = [0, 33554432], ra_member_cluster_index = [0, 1], ra_local_ranks = [0, 0]\<rparr>"

lemma ex_arrays_fit: "arrays_fit 2 2 ex_arrays"
  by (simp add: arrays_fit_def ex_arrays_def int_ok_def)

definition ex_split_reply :: comm_reply where
  "ex_split_reply = \<lparr>cr_newComm = 3, cr_rank = 0, cr_size = 2, cr_color = 1, cr_key = -5, cr_cluster_count = 2,
     cr_flags = 3, cr_arrays = ex_arrays\<rparr>"

section \<open>A process\<close>

text \<open>
  The local library of \<open>ex_env\<close> succeeds; a receive from process \<open>l\<close> brings cells with value \<open>100 + l\<close>, and a
  cell of the application is one byte. Addresses count up from 50.
\<close>

definition ex_answer :: "byte list \<Rightarrow> int \<Rightarrow> byte answer" where
  "ex_answer data k = \<lparr>an_error = 0, an_data = data, an_status = \<lparr>ms_source = 0, ms_tag = 0, ms_error = 0\<rparr>,
     an_flag = True, an_value = k, an_values = [], an_name = [], an_handle = Some 6, an_type = Predef ''MPI_INT''\<rparr>"

fun ex_call :: "byte pmpi \<Rightarrow> nat \<Rightarrow> byte answer \<times> nat" where
  "ex_call (Point_To_Point (PMPI_Recv n t l tag c)) w = (ex_answer (replicate (nat n) (100 + word_of_int l)) 0, w)"
| "ex_call call w = (ex_answer [] 1, w)"

definition ex_junk :: group_s where
  "ex_junk = \<lparr>g_handle = 0, g_rank = 0, g_size = 0, g_members = []\<rparr>"

definition ex_env :: "(byte, nat) env" where
  "ex_env = \<lparr>e_ef = False, e_le = True, e_my_pid = SET_PID 0 0, e_my_gateway = 0, e_cluster_rank = 0,
     e_cluster_count = 2, e_ANY_TAG = -11, e_ANY_SOURCE = -12, e_UNDEFINED = -13, e_junk = None, e_junk_int = 0,
     e_call = ex_call,
     e_pack = (\<lambda>xs n t c w. (\<lambda>i. \<lparr>mp_size_error = 0, mp_alloc = True, mp_pack_error = 0, mp_data = xs, mp_send_error = 0\<rparr>, w)),
     e_unpack = ex_unpack, e_malloc = (\<lambda>w. (Some w, w + 1)), e_block = (\<lambda>n w. (Some (replicate (nat n) 0), w)),
     e_server = (\<lambda>w. ((0, \<lambda>_. True, ex_recv (SplitReply_write 0 ex_split_reply)), w)),
     e_group = (\<lambda>w. ((True, \<lparr>ga_new = Some w, ga_members_ok = True, ga_junk = ex_junk, ga_fill = \<lambda>_. 0\<rparr>), w + 1)),
     e_byte = [42]\<rparr>"

definition empty_reg :: "'a reg" where
  "empty_reg = \<lparr>heap = \<lambda>_. None, slots = \<lambda>_. None\<rparr>"


text \<open>A process with that registry of communicators, the datatype \<open>ex_type\<close>, and a buffer of four cells.\<close>

definition ex_process :: "mpi_probe list \<Rightarrow> (byte, nat) proc" where
  "ex_process prs = \<lparr>ps_comms = ex_comms, ps_types = \<lparr>heap = [20 \<mapsto> ex_type], slots = [3 \<mapsto> 20]\<rparr>,
     ps_ops = \<lparr>heap = \<lambda>_. None, slots = \<lambda>_. None, next_operation = 0\<rparr>, ps_groups = \<lparr>heap = \<lambda>_. None, slots = \<lambda>_. None, next_group = 0\<rparr>, ps_requests = empty_reg,
     ps_files = \<lparr>heap = \<lambda>_. None, slots = \<lambda>_. None, next_file = 0\<rparr>,
     ps_infos = \<lparr>heap = \<lambda>_. None, slots = \<lambda>_. None, next_info = 0\<rparr>,
     ps_memory = [60 \<mapsto> [0, 0, 0, 0]], ps_arrivals = prs, ps_sent = [], ps_requested = [], ps_world = 50\<rparr>"

definition ex_world :: communicator where
  "ex_world = (world_of [2, 1] 0 0 2 (Some 5))\<lparr>c_my_coordinator := 0\<rparr>"

lemma ex_world_slot: "heap ex_comms 10 = Some ex_world"
  unfolding ex_world_def by (rule ex_comms_slots)

lemma ex_world_places:
  "\<not> comm_is_local ex_world" "c_global_rank ex_world = 0" "c_global_size ex_world = 3"
  "rank_is_local 0 ex_world 1 = Some True" "get_local_rank ex_world 1 = Some 1" "rank_is_local 0 ex_world 2 = Some False"
  by code_simp+

lemma ex_env_fields [simp]:
  "e_ef ex_env = False" "e_cluster_rank ex_env = 0" "e_cluster_count ex_env = 2" "e_call ex_env = ex_call"
  "e_server ex_env w = ((0, \<lambda>_. True, ex_recv (SplitReply_write 0 ex_split_reply)), w)" "e_UNDEFINED ex_env = -13"
  "e_unpack ex_env = ex_unpack" "e_malloc ex_env w = (Some w, w + 1)" "e_junk ex_env = None"
  by (simp_all add: ex_env_def)

lemma ex_process_fields [simp]:
  "ps_comms (ex_process prs) = ex_comms" "heap (ps_types (ex_process prs)) = [20 \<mapsto> ex_type]"
  "slots (ps_types (ex_process prs)) = [3 \<mapsto> 20]" "ps_requests (ex_process prs) = empty_reg"
  "ps_memory (ex_process prs) = [60 \<mapsto> [0, 0, 0, 0]]" "ps_arrivals (ex_process prs) = prs" "ps_world (ex_process prs) = 50"
  by (simp_all add: ex_process_def)

end
