(* ===== verification/Gateway_Setup.thy ===== *)
theory Gateway_Setup
  imports Acts Gateway
begin

text \<open>
  The beginning of a gateway process, the first third of \<^verbatim>\<open>src/backend/gateway.c\<close>: where the
  configuration comes from, how a socket is connected, accepted and prepared, and how a message is sent
  or received as a whole while the sockets still block.

  The state \<open>gw_setup\<close> adds to the state of a running gateway (record \<open>gateway\<close>) the variables that only the
  initialization uses, what the kernel holds for each descriptor (\<open>su_wires\<close>), and the calls made
  so far (\<open>su_trace\<close>). A call of the system or of the local MPI library is a value of type \<open>call\<close>; the
  argument \<open>S\<close> of type \<open>sys\<close> answers it and may look at all the calls before.
\<close>

definition MAX_LENGTH_CLUSTER_NAME :: nat where [const_defs]: "MAX_LENGTH_CLUSTER_NAME = 128"
definition MAX_STREAMS :: nat where [const_defs]: "MAX_STREAMS = 16"

definition CONNECT_OK :: int where [const_defs]: "CONNECT_OK = 0"
definition CONNECT_ERROR_CREATE_SOCKET :: int where [const_defs]: "CONNECT_ERROR_CREATE_SOCKET = 1"
definition CONNECT_ERROR_CONNECT :: int where [const_defs]: "CONNECT_ERROR_CONNECT = 2"
definition CONNECT_ERROR_OPTIONS :: int where [const_defs]: "CONNECT_ERROR_OPTIONS = 3"
definition CONNECT_ERROR_BIND :: int where [const_defs]: "CONNECT_ERROR_BIND = 4"
definition CONNECT_ERROR_LISTEN :: int where [const_defs]: "CONNECT_ERROR_LISTEN = 5"
definition CONNECT_ERROR_ACCEPT :: int where [const_defs]: "CONNECT_ERROR_ACCEPT = 6"
definition CONNECT_ERROR_HOST :: int where [const_defs]: "CONNECT_ERROR_HOST = 7"
definition CONNECT_ERROR_HOST_NOT_FOUND :: int where [const_defs]: "CONNECT_ERROR_HOST_NOT_FOUND = 8"
definition CONNECT_ERROR_ADDRESS_TYPE :: int where [const_defs]: "CONNECT_ERROR_ADDRESS_TYPE = 9"
definition CONNECT_ERROR_SEND_FAILED :: int where [const_defs]: "CONNECT_ERROR_SEND_FAILED = 10"
definition CONNECT_ERROR_RECEIVE_FAILED :: int where [const_defs]: "CONNECT_ERROR_RECEIVE_FAILED = 11"
definition CONNECT_ERROR_HANDSHAKE_FAILED :: int where [const_defs]: "CONNECT_ERROR_HANDSHAKE_FAILED = 12"
definition CONNECT_ERROR_ALLOCATE :: int where [const_defs]: "CONNECT_ERROR_ALLOCATE = 13"
definition CONNECT_ERROR_CANNOT_FIND_IP :: int where [const_defs]: "CONNECT_ERROR_CANNOT_FIND_IP = 14"
definition CONNECT_ERROR_GATEWAY :: int where [const_defs]: "CONNECT_ERROR_GATEWAY = 15"

section \<open>The state\<close>

record gateway_address =
  ga_ipv4 :: u64
  ga_port :: u16
  ga_streams :: u16

text \<open>What one process sends another within the cluster while the gateways are set up.\<close>

datatype setup_message = Count int | Addresses "u32 list" | Table "gateway_address list"

datatype call =
    GETADDRINFO string
  | SOCKET
  | CONNECT int u32 u16
  | SLEEP
  | SETSOCKOPT int string
  | BIND int u16
  | LISTEN int
  | ACCEPT int
  | CLOSE int
  | F_GETFL int
  | F_SETFL int u32
  | EPOLL_CREATE
  | EPOLL_ADD int sock_id
  | WRITE int "byte list"
  | READ int "byte list"
  | MALLOC int
  | SEND setup_message int int
  | RECV int int
  | BCAST "int list"
  | COMM_DUP
  | COMM_SPLIT int int
  | BARRIER
  | MPI_INIT
  | MPI_RANK
  | MPI_SIZE
  | MPI_FINALIZE

text \<open>
  The answers: what a call returns, the host of an accepted connection, the family and the address of a
  resolved name, and the data and the communicator that an MPI call delivers. Further the environment of
  the process: the configuration file (unset, or the words of the file if it can be opened), the
  network interfaces, how many bytes a block of \<open>malloc\<close> really has, and what
  memory holds before it is written.
\<close>

datatype sockaddr = AF_INET u32 | AF_OTHER

record sys =
  sy_ret :: "call list \<Rightarrow> call \<Rightarrow> int"
  sy_peer :: "call list \<Rightarrow> u32"
  sy_resolved :: "string \<Rightarrow> sockaddr"
  sy_message :: "call list \<Rightarrow> setup_message"
  sy_bcast :: "call list \<Rightarrow> int list"
  sy_comm :: "call list \<Rightarrow> nat option"
  sy_config :: "string list option option"
  sy_interfaces :: "(string \<times> sockaddr option) list"
  sy_room :: "nat \<Rightarrow> nat"
  sy_junk_word :: "nat \<Rightarrow> u32"
  sy_junk_socket :: "socket_info \<times> int"

text \<open>What the kernel does with the bytes of one descriptor.\<close>

record wire =
  w_reads :: "read_event list"
  w_stream :: "byte list"
  w_writes :: "write_event list"

record gw_setup = gateway +
  su_cluster_name :: "string option"
  su_server_name :: "string option"
  su_server_port :: u16
  su_server_ipv4 :: u64
  su_serverfd :: int
  su_local_application_size :: u32
  su_gateway_count :: u32
  su_cluster_sizes :: "int list"
  su_cluster_offsets :: "int list"
  su_addresses :: "gateway_address list"
  su_epollfd :: int
  su_my_gateway :: int
  su_server_gateway :: int
  su_applications_only :: "nat option"
  su_gateways_only :: "nat option"
  su_gateways_and_applications :: "nat option"
  su_wires :: "int \<Rightarrow> wire"
  su_trace :: "call list"

type_synonym 'r setup_act = "('r, gw_setup) act"

definition sys_call :: "sys \<Rightarrow> call \<Rightarrow> int setup_act" where
  "sys_call S c s = Some (Some (sy_ret S (su_trace s) c), s\<lparr>su_trace := su_trace s @ [c]\<rparr>)"

definition change :: "(gw_setup \<Rightarrow> gw_setup) \<Rightarrow> unit setup_act" where
  "change f s = Some (Some (), f s)"

lemma sys_call_run [simp]:
  "andthen (sys_call S c) f s = f (sy_ret S (su_trace s) c) (s\<lparr>su_trace := su_trace s @ [c]\<rparr>)"
  by (simp add: andthen_def sys_call_def)

lemma change_run [simp]: "andthen (change g) f s = f () (g s)"
  by (simp add: andthen_def change_def)

section \<open>Half words and long words\<close>

definition be_half :: "byte list \<Rightarrow> u16" where
  "be_half bs = push_bit 8 (ucast (bs ! 0)) OR ucast (bs ! 1)"

definition half_bytes :: "u16 \<Rightarrow> byte list" where
  "half_bytes w = [ucast (drop_bit 8 w), ucast w]"

definition host_half :: "bool \<Rightarrow> byte list \<Rightarrow> u16" where
  "host_half le bs = be_half (if le then rev bs else bs)"

definition ntohs :: "bool \<Rightarrow> u16 \<Rightarrow> u16" where
  "ntohs le w = be_half (if le then rev (half_bytes w) else half_bytes w)"

definition host_long :: "bool \<Rightarrow> byte list \<Rightarrow> u64" where
  "host_long le bs =
     (let bs' = (if le then rev bs else bs) in
      push_bit 32 (ucast (be_word (take 4 bs'))) OR ucast (be_word (drop 4 bs')))"

lemma be_half_bytes [simp]: "be_half (half_bytes w) = w"
proof (rule bit_word_eqI)
  fix n assume "n < LENGTH(16)"
  then consider "n < 8" | "8 \<le> n" "n < 16" by force
  then show "bit (be_half (half_bytes w)) n = bit w n"
    by cases (auto simp: be_half_def half_bytes_def bit_simps)
qed

lemma two_cases: "length bs = 2 \<Longrightarrow> \<exists>a b. bs = [a, b]"
  by (auto simp: length_Suc_conv numeral_eq_Suc)

lemma half_bytes_half: "length bs = 2 \<Longrightarrow> half_bytes (be_half bs) = bs"
  by (drule two_cases) (auto simp: be_half_def half_bytes_def bit_eq_iff bit_simps)

lemma length_half_bytes [simp]: "length (half_bytes w) = 2"
  by (simp add: half_bytes_def)

lemma ntohs_host_half [simp]: "length bs = 2 \<Longrightarrow> ntohs le (host_half le bs) = be_half bs"
  using half_bytes_half [of "rev bs"] half_bytes_half [of bs] by (simp add: ntohs_def host_half_def)

text \<open>The low word of a long that lies behind four bytes, on a little-endian host, is in these bytes.\<close>

lemma low_long_word: "ucast (push_bit 32 (ucast (a :: u32)) OR ucast (b :: u32) :: u64) = b"
  by (rule bit_word_eqI) (auto simp: bit_simps)

lemma low_host_long:
  assumes "length bs = 4" "length rest = 4"
  shows "ucast (host_long True (bs @ rest)) = host_word True bs"
    "ucast (host_long False (bs @ rest)) = host_word False rest"
  using assms by (simp_all add: host_long_def host_word_def low_long_word)

section \<open>Socket operations\<close>

definition O_NONBLOCK :: u32 where [const_defs]: "O_NONBLOCK = 2048"

definition set_socket_flags :: "bool \<Rightarrow> sys \<Rightarrow> (u32 \<Rightarrow> u32) \<Rightarrow> int \<Rightarrow> int setup_act" where
  "set_socket_flags ef S f fd =
     andthen (sys_call S (F_GETFL fd)) (\<lambda>flags.
     if flags = -1 then after_ERROR ef (ret EMPI_ERR_INTERN)
     else andthen (sys_call S (F_SETFL fd (f (word_of_int flags)))) (\<lambda>error.
       if error = -1 then after_ERROR ef (ret EMPI_ERR_INTERN) else ret EMPI_SUCCESS))"

definition set_socket_non_blocking :: "bool \<Rightarrow> sys \<Rightarrow> int \<Rightarrow> int setup_act" where
  "set_socket_non_blocking ef S fd = set_socket_flags ef S (\<lambda>flags. flags OR O_NONBLOCK) fd"

definition set_socket_blocking :: "bool \<Rightarrow> sys \<Rightarrow> int \<Rightarrow> int setup_act" where
  "set_socket_blocking ef S fd = set_socket_flags ef S (\<lambda>flags. flags XOR O_NONBLOCK) fd"

definition add_socket_to_epoll :: "bool \<Rightarrow> sys \<Rightarrow> int \<Rightarrow> sock_id \<Rightarrow> int setup_act" where
  "add_socket_to_epoll ef S fd data =
     andthen (sys_call S (EPOLL_ADD fd data)) (\<lambda>error.
     if error = -1 then after_ERROR ef (ret EMPI_ERR_INTERN) else ret EMPI_SUCCESS)"

text \<open>The failures of the three options are only reported.\<close>

definition set_socket_options :: "sys \<Rightarrow> int \<Rightarrow> int setup_act" where
  "set_socket_options S fd =
     andthen (sys_call S (SETSOCKOPT fd ''SO_RCVBUF'')) (\<lambda>_.
     andthen (sys_call S (SETSOCKOPT fd ''SO_SNDBUF'')) (\<lambda>_.
     andthen (sys_call S (SETSOCKOPT fd ''TCP_NODELAY'')) (\<lambda>_. ret CONNECT_OK)))"

text \<open>
  The loop that connects: \<open>attempts\<close> bounds it and is never counted up, so that a host that always refuses
  is tried for ever, and the loop then has no value.
\<close>

partial_function (option) connect_loop :: "sys \<Rightarrow> call \<Rightarrow> int \<Rightarrow> bool setup_act" where
  "connect_loop S c attempts s =
     (if attempts < 1000 then
        (if sy_ret S (su_trace s) c \<noteq> 0 then connect_loop S c attempts (s\<lparr>su_trace := su_trace s @ [c, SLEEP]\<rparr>)
         else Some (Some True, s\<lparr>su_trace := su_trace s @ [c]\<rparr>))
      else Some (Some False, s))"

text \<open>The result: the error code and the descriptor.\<close>

definition socket_connect :: "bool \<Rightarrow> sys \<Rightarrow> u64 \<Rightarrow> u16 \<Rightarrow> (int \<times> int) setup_act" where
  "socket_connect ef S ipv4 port =
     andthen (sys_call S SOCKET) (\<lambda>fd.
     if fd < 0 then after_ERROR ef (ret (CONNECT_ERROR_CREATE_SOCKET, fd))
     else andthen (connect_loop S (CONNECT fd (ucast ipv4) port) 0) (\<lambda>connected.
     if \<not> connected then
       andthen (sys_call S (CLOSE fd)) (\<lambda>_. after_ERROR ef (ret (CONNECT_ERROR_CONNECT, fd)))
     else andthen (set_socket_options S fd) (\<lambda>error.
     if error \<noteq> 0 then andthen (sys_call S (CLOSE fd)) (\<lambda>_. after_ERROR ef (ret (CONNECT_ERROR_OPTIONS, fd)))
     else ret (CONNECT_OK, fd))))"

text \<open>The descriptor of the accepted connection is only stored at the very end; before, it is \<open>old\<close>.\<close>

definition socket_accept :: "bool \<Rightarrow> sys \<Rightarrow> u16 \<Rightarrow> u32 \<Rightarrow> int \<Rightarrow> (int \<times> int) setup_act" where
  "socket_accept ef S local_port expected_host old =
     andthen (sys_call S SOCKET) (\<lambda>sd.
     if sd < 0 then after_ERROR ef (ret (CONNECT_ERROR_CREATE_SOCKET, old))
     else
       let fail = (\<lambda>fd error. andthen (sys_call S (CLOSE fd)) (\<lambda>_. after_ERROR ef (ret (error, old)))) in
       andthen (sys_call S (SETSOCKOPT sd ''SO_REUSEADDR'')) (\<lambda>error.
       if error \<noteq> 0 then fail sd CONNECT_ERROR_BIND
       else andthen (sys_call S (BIND sd local_port)) (\<lambda>error.
       if error \<noteq> 0 then fail sd CONNECT_ERROR_BIND
       else andthen (sys_call S (LISTEN sd)) (\<lambda>error.
       if error \<noteq> 0 then fail sd CONNECT_ERROR_LISTEN
       else andthen the_state (\<lambda>s.
       let host = sy_peer S (su_trace s) in
       andthen (sys_call S (ACCEPT sd)) (\<lambda>new_socket.
       andthen (sys_call S (CLOSE sd)) (\<lambda>_.
       if new_socket < 0 then after_ERROR ef (ret (CONNECT_ERROR_ACCEPT, old))
       else if expected_host \<noteq> host then fail new_socket CONNECT_ERROR_HOST
       else andthen (set_socket_options S new_socket) (\<lambda>error.
       if error \<noteq> 0 then fail new_socket CONNECT_ERROR_OPTIONS
       else ret (CONNECT_OK, new_socket)))))))))"

section \<open>Sending and receiving as a whole\<close>

text \<open>
  While the socket blocks, a call of \<^verbatim>\<open>read\<close> waits until some bytes have arrived; the closed connection
  answers 0 bytes at once, and the loop goes on asking. A call beyond the events never returns.
\<close>

fun receivefully_loop :: "nat \<Rightarrow> byte list \<Rightarrow> read_event list \<Rightarrow> byte list \<Rightarrow> stop \<times> byte list \<times> read_event list \<times> byte list" where
  "receivefully_loop n bs [] s = (if length bs < n then Drained else Complete, bs, [], s)"
| "receivefully_loop n bs (e # es) s =
     (if length bs < n then
        (case e of
           Chunk k \<Rightarrow>
             (let got = take (min k (n - length bs)) s in receivefully_loop n (bs @ got) es (drop (length got) s))
         | Eof \<Rightarrow> receivefully_loop n bs es s
         | _ \<Rightarrow> (Broken, bs, es, s))
      else (Complete, bs, e # es, s))"

fun sendfully_loop :: "nat \<Rightarrow> byte list \<Rightarrow> nat \<Rightarrow> write_event list \<Rightarrow> stop \<times> nat \<times> write_event list" where
  "sendfully_loop n m w [] = (if w < n then Drained else Complete, w, [])"
| "sendfully_loop n m w (e # es) =
     (if w < n then
        (case e of
           Accept k \<Rightarrow> sendfully_loop n m (w + min k (n - w)) es
         | _ \<Rightarrow> (Broken, w, es))
      else (Complete, w, e # es))"

text \<open>The bytes that were received belong to the result, also when it is an error.\<close>

definition socket_receivefully :: "bool \<Rightarrow> int \<Rightarrow> nat \<Rightarrow> (int \<times> byte list) setup_act" where
  "socket_receivefully ef fd n s =
     (let w = su_wires s fd; (st, bs, es, rest) = receivefully_loop n [] (w_reads w) (w_stream w);
          s' = s\<lparr>su_wires := (su_wires s)(fd := w\<lparr>w_reads := es, w_stream := rest\<rparr>), su_trace := su_trace s @ [READ fd bs]\<rparr> in
      case st of
        Complete \<Rightarrow> ret (CONNECT_OK, bs) s'
      | Drained \<Rightarrow> wait_more s'
      | Broken \<Rightarrow> after_ERROR ef (ret (CONNECT_ERROR_RECEIVE_FAILED, bs)) s')"

definition socket_sendfully :: "bool \<Rightarrow> int \<Rightarrow> byte list \<Rightarrow> int setup_act" where
  "socket_sendfully ef fd m s =
     (let w = su_wires s fd; (st, n, es) = sendfully_loop (length m) m 0 (w_writes w);
          s' = s\<lparr>su_wires := (su_wires s)(fd := w\<lparr>w_writes := es\<rparr>), su_trace := su_trace s @ [WRITE fd (take n m)]\<rparr> in
      case st of
        Complete \<Rightarrow> ret CONNECT_OK s'
      | Drained \<Rightarrow> wait_more s'
      | Broken \<Rightarrow> after_ERROR ef (ret CONNECT_ERROR_SEND_FAILED) s')"

section \<open>Numbers in text\<close>

definition digit :: "char \<Rightarrow> int option" where
  "digit c = map_of (zip ''0123456789'' [0, 1, 2, 3, 4, 5, 6, 7, 8, 9]) c"

fun scan_digits :: "int \<Rightarrow> string \<Rightarrow> int" where
  "scan_digits v [] = v"
| "scan_digits v (c # cs) = (case digit c of None \<Rightarrow> v | Some d \<Rightarrow> scan_digits (10 * v + d) cs)"

text \<open>The decimal number that a word begins with.\<close>

definition scan_int :: "string \<Rightarrow> int option" where
  "scan_int cs =
     (case cs of
        [] \<Rightarrow> None
      | c # ds \<Rightarrow>
          (let body = (if c = CHR ''-'' \<or> c = CHR ''+'' then ds else cs) in
           if body = [] \<or> digit (body ! 0) = None then None
           else Some (if c = CHR ''-'' then - scan_digits 0 body else scan_digits 0 body)))"

text \<open>\<^verbatim>\<open>atoi\<close> and the conversion \<^verbatim>\<open>%hu\<close> are not defined for a number out of range.\<close>

definition atoi :: "string \<Rightarrow> int run" where
  "atoi cs = (case scan_int cs of None \<Rightarrow> Some 0 | Some v \<Rightarrow> if int_ok v then Some v else None)"

definition scan_hu :: "string \<Rightarrow> u16 option run" where
  "scan_hu cs = (case scan_int cs of None \<Rightarrow> Some None
     | Some v \<Rightarrow> if 0 \<le> v \<and> v < 65536 then Some (Some (word_of_int v)) else None)"

section \<open>The configuration\<close>

text \<open>\<^verbatim>\<open>malloc\<close> and \<^verbatim>\<open>strcpy\<close>: copying more bytes than the block has is not defined.\<close>

definition copy_string :: "sys \<Rightarrow> nat \<Rightarrow> string \<Rightarrow> string run" where
  "copy_string S n cs = (if length cs + 1 \<le> sy_room S n then Some cs else None)"

text \<open>The next word of the file; the buffer has 1024 bytes.\<close>

definition scan_word :: "string list \<Rightarrow> string option run" where
  "scan_word ws = (case ws of [] \<Rightarrow> Some None | w # _ \<Rightarrow> if length w < 1024 then Some (Some w) else None)"

definition read_config_file :: "bool \<Rightarrow> sys \<Rightarrow> int setup_act" where
  "read_config_file ef S =
     (case sy_config S of
        None \<Rightarrow> ret 0
      | Some None \<Rightarrow> after_ERROR ef (ret 0)
      | Some (Some ws) \<Rightarrow>
          andthen (lift (scan_word ws)) (\<lambda>w.
          case w of None \<Rightarrow> after_ERROR ef (ret 0) | Some name \<Rightarrow>
          andthen (sys_call S (MALLOC (int (length name) + 1))) (\<lambda>p.
          if p = 0 then after_ERROR ef (andthen (change (su_cluster_name_update (\<lambda>_. None))) (\<lambda>_. ret 0))
          else andthen (lift (copy_string S (length name + 1) name)) (\<lambda>name.
          andthen (change (su_cluster_name_update (\<lambda>_. Some name))) (\<lambda>_.
          andthen (lift (scan_word (drop 1 ws))) (\<lambda>w.
          case w of None \<Rightarrow> after_ERROR ef (ret 0) | Some server \<Rightarrow>
          andthen (sys_call S (MALLOC (int (length server) - 1))) (\<lambda>p.
          if p = 0 then after_ERROR ef (andthen (change (su_server_name_update (\<lambda>_. None))) (\<lambda>_. ret 0))
          else andthen (lift (copy_string S (length server - 1) server)) (\<lambda>server.
          andthen (change (su_server_name_update (\<lambda>_. Some server))) (\<lambda>_.
          case drop 2 ws of
            [] \<Rightarrow> after_ERROR ef (ret 0)
          | w # _ \<Rightarrow> andthen (lift (scan_hu w)) (\<lambda>port.
              case port of
                None \<Rightarrow> after_ERROR ef (ret 0)
              | Some port \<Rightarrow> andthen (change (su_server_port_update (\<lambda>_. port))) (\<lambda>_. ret 1)))))))))))"

text \<open>
  The command line: \<open>kept\<close> are the arguments before the index \<^verbatim>\<open>i\<close>, \<open>rest\<close> those from \<^verbatim>\<open>i\<close> on.
  \<^verbatim>\<open>DELETE_ARG\<close> takes the first of them out. The value of \<^verbatim>\<open>--wa-cluster-name\<close> stays, and is looked
  at in the next turn. The blocks for the copies are not checked before they are written.
\<close>

definition DELETE_ARG :: "string list \<Rightarrow> string list" where
  "DELETE_ARG rest = drop 1 rest"

definition copy_arg :: "sys \<Rightarrow> string \<Rightarrow> string setup_act" where
  "copy_arg S cs = andthen (sys_call S (MALLOC (int (length cs) + 1))) (\<lambda>p.
     if p = 0 then lift None else lift (copy_string S (length cs + 1) cs))"

function arguments_loop :: "bool \<Rightarrow> sys \<Rightarrow> string list \<Rightarrow> string list \<Rightarrow> (int \<times> string list) setup_act" where
  "arguments_loop ef S kept [] = ret (1, kept)"
| "arguments_loop ef S kept (a # later) =
     (if a = ''--wa-server'' then
        (case later of
           [] \<Rightarrow> after_ERROR ef (ret (0, kept @ [a]))
         | v # _ \<Rightarrow>
             andthen (copy_arg S v) (\<lambda>name.
             andthen (change (su_server_name_update (\<lambda>_. Some name))) (\<lambda>_.
             arguments_loop ef S kept (DELETE_ARG (DELETE_ARG (a # later))))))
      else if a = ''--wa-server-port'' then
        (case later of
           [] \<Rightarrow> after_ERROR ef (ret (0, kept @ [a]))
         | v # _ \<Rightarrow>
             andthen (lift (atoi v)) (\<lambda>port.
             andthen (change (su_server_port_update (\<lambda>_. word_of_int port))) (\<lambda>_.
             arguments_loop ef S kept (DELETE_ARG (DELETE_ARG (a # later))))))
      else if a = ''--wa-cluster-name'' then
        (case later of
           [] \<Rightarrow> after_ERROR ef (ret (0, kept @ [a]))
         | v # ws \<Rightarrow>
             if length v \<ge> MAX_LENGTH_CLUSTER_NAME then after_ERROR ef (ret (0, kept @ a # v # ws))
             else andthen (copy_arg S v) (\<lambda>name.
             andthen (change (su_cluster_name_update (\<lambda>_. Some name))) (\<lambda>_.
             arguments_loop ef S kept (DELETE_ARG (a # later)))))
      else arguments_loop ef S (kept @ [a]) later)"
  by pat_completeness auto

termination
  by (relation "measure (\<lambda>(ef, S, kept, rest). length rest)") (auto simp: DELETE_ARG_def)

text \<open>The result: whether the configuration could be read, and the arguments that are left.\<close>

definition init_cluster_info :: "bool \<Rightarrow> sys \<Rightarrow> string list \<Rightarrow> (int \<times> string list) setup_act" where
  "init_cluster_info ef S argv =
     andthen (change (\<lambda>s. s\<lparr>su_cluster_name := None, su_server_name := None, su_server_port := - 1\<rparr>)) (\<lambda>_.
     andthen (read_config_file ef S) (\<lambda>status.
     if status = 1 then ret (1, argv) else arguments_loop ef S (take 1 argv) (drop 1 argv)))"

definition get_server_address :: "bool \<Rightarrow> sys \<Rightarrow> string \<Rightarrow> int setup_act" where
  "get_server_address ef S name =
     andthen (sys_call S (GETADDRINFO name)) (\<lambda>error.
     if error \<noteq> 0 then after_ERROR ef (ret CONNECT_ERROR_HOST_NOT_FOUND)
     else case sy_resolved S name of
            AF_OTHER \<Rightarrow> after_ERROR ef (ret CONNECT_ERROR_ADDRESS_TYPE)
          | AF_INET a \<Rightarrow> andthen (change (su_server_ipv4_update (\<lambda>_. ucast a))) (\<lambda>_. ret CONNECT_OK))"

text \<open>
  The addresses of this host. The loop that collects them does not move on at an interface without
  address.
\<close>

definition usable :: "string \<times> sockaddr option \<Rightarrow> u32 option" where
  "usable i = (case i of (name, Some (AF_INET a)) \<Rightarrow> if name \<noteq> ''lo'' then Some a else None | _ \<Rightarrow> None)"

fun collect_ips :: "(string \<times> sockaddr option) list \<Rightarrow> u32 list setup_act" where
  "collect_ips [] = ret []"
| "collect_ips (i # is) =
     (if snd i = None then wait_more
      else andthen (collect_ips is) (\<lambda>out. ret (case usable i of None \<Rightarrow> out | Some a \<Rightarrow> a # out)))"

definition get_local_ips :: "bool \<Rightarrow> sys \<Rightarrow> (int \<times> u32 list) setup_act" where
  "get_local_ips ef S =
     (let found = sy_interfaces S; n = length (filter (\<lambda>i. usable i \<noteq> None) found) in
      if found = [] then after_ERROR ef (ret (CONNECT_ERROR_CANNOT_FIND_IP, []))
      else if n = 0 then after_ERROR ef (ret (CONNECT_ERROR_CANNOT_FIND_IP, []))
      else andthen (sys_call S (MALLOC (int n * 4))) (\<lambda>p.
        if p = 0 then after_ERROR ef (ret (CONNECT_ERROR_ALLOCATE, []))
        else andthen (collect_ips found) (\<lambda>out. ret (0, out))))"

section \<open>Lemmas\<close>

text \<open>A kernel that hands out bytes in pieces of any size, and reports no error.\<close>

definition steady :: "read_event list \<Rightarrow> bool" where
  "steady es \<longleftrightarrow> (\<forall>e \<in> set es. \<exists>k > 0. e = Chunk k)"

lemma receivefully_loop_steady:
  assumes "steady es" "length bs \<le> n" "n - length bs \<le> length es" "n - length bs \<le> length s"
  shows "\<exists>es'. receivefully_loop n bs es s = (Complete, bs @ take (n - length bs) s, es', drop (n - length bs) s) \<and>
    steady es' \<and> length es - (n - length bs) \<le> length es'"
  using assms
proof (induction es arbitrary: bs s)
  case Nil
  then show ?case by (simp add: steady_def)
next
  case (Cons e es)
  show ?case
  proof (cases "length bs < n")
    case True
    from Cons.prems(1) obtain k where k: "e = Chunk k" "0 < k" and es: "steady es" by (auto simp: steady_def)
    define got where "got = take (min k (n - length bs)) s"
    have len: "0 < length got" "length bs + length got \<le> n" "length got \<le> length s"
      using True k(2) Cons.prems(4) by (auto simp: got_def)
    let ?m = "n - length (bs @ got)"
    have m: "n - length bs = length got + ?m" using len(2) by simp
    have "length (bs @ got) \<le> n" "?m \<le> length es" "?m \<le> length (drop (length got) s)"
      using len Cons.prems(3,4) by (simp_all add: Suc_le_eq del: length_greater_0_conv)
    from Cons.IH [OF es this] obtain es' where
      r: "receivefully_loop n (bs @ got) es (drop (length got) s) =
          (Complete, (bs @ got) @ take ?m (drop (length got) s), es', drop ?m (drop (length got) s))" "steady es'"
        "length es - ?m \<le> length es'" by blast
    have "got @ take ?m (drop (length got) s) = take (n - length bs) s"
      unfolding m take_add by (simp add: got_def min_def)
    moreover have "drop ?m (drop (length got) s) = drop (n - length bs) s"
      unfolding m by (simp add: add.commute)
    moreover have "receivefully_loop n bs (e # es) s = receivefully_loop n (bs @ got) es (drop (length got) s)"
      using True k(1) by (simp add: got_def Let_def)
    moreover have "length (e # es) - (n - length bs) \<le> length es'"
      using r(3) len(1,2) unfolding length_append list.size by arith
    ultimately show ?thesis using r(1,2) by simp
  next
    case False
    with Cons.prems show ?thesis by simp
  qed
qed

lemma sendfully_loop_willing:
  assumes "willing es" "w \<le> length m" "length m - w \<le> length es"
  shows "\<exists>es'. sendfully_loop (length m) m w es = (Complete, length m, es') \<and> willing es' \<and>
    length es - (length m - w) \<le> length es'"
  using assms
proof (induction es arbitrary: w)
  case Nil
  then show ?case by (simp add: willing_def)
next
  case (Cons e es)
  show ?case
  proof (cases "w < length m")
    case True
    from Cons.prems(1) obtain k where k: "e = Accept k" "0 < k" and es: "willing es" by (auto simp: willing_def)
    let ?w = "w + min k (length m - w)"
    have "?w \<le> length m" "length m - ?w \<le> length es" "length es - (length m - ?w) \<ge> length (e # es) - (length m - w)"
      using True k(2) Cons.prems(3) by auto
    with Cons.IH [OF es, of ?w] True k(1) show ?thesis by (auto intro: order_trans)
  next
    case False
    with Cons.prems show ?thesis by simp
  qed
qed

text \<open>On a closed connection, and on one where nothing more comes, the receiver never returns.\<close>

lemma receivefully_loop_short:
  assumes "\<forall>e \<in> set es. e = Eof \<or> (\<exists>k. e = Chunk k)" "length bs + length s < n"
  shows "\<exists>bs' rest. receivefully_loop n bs es s = (Drained, bs', [], rest) \<and> bs' @ rest = bs @ s"
  using assms
proof (induction es arbitrary: bs s)
  case (Cons e es)
  have lt: "length bs < n" using Cons.prems(2) by simp
  from Cons.prems(1) consider "e = Eof" | k where "e = Chunk k" by auto
  then show ?case
  proof cases
    case 1
    with Cons lt show ?thesis by simp
  next
    case (2 k)
    let ?got = "take (min k (n - length bs)) s"
    have "length (bs @ ?got) + length (drop (length ?got) s) < n" using Cons.prems(2) by simp
    from Cons.IH [OF _ this] Cons.prems(1) obtain bs' rest where
      "receivefully_loop n (bs @ ?got) es (drop (length ?got) s) = (Drained, bs', [], rest)"
      "bs' @ rest = (bs @ ?got) @ drop (length ?got) s" by auto
    moreover have "(bs @ ?got) @ drop (length ?got) s = bs @ s" by (simp add: min_def)
    ultimately show ?thesis using lt 2 by (simp add: Let_def del: length_take)
  qed
qed simp

lemma receivefully_steady:
  assumes "steady (w_reads (su_wires s fd))" "n \<le> length (w_reads (su_wires s fd))"
    and "w_stream (su_wires s fd) = m @ rest" "length m = n"
  obtains es where "steady es" "length (w_reads (su_wires s fd)) - n \<le> length es"
    "socket_receivefully ef fd n s = Some (Some (CONNECT_OK, m),
       s\<lparr>su_wires := (su_wires s)(fd := (su_wires s fd)\<lparr>w_reads := es, w_stream := rest\<rparr>),
         su_trace := su_trace s @ [READ fd m]\<rparr>)"
proof -
  from receivefully_loop_steady [OF assms(1), of "[]" n "m @ rest"] assms(2,4) obtain es where
    "receivefully_loop n [] (w_reads (su_wires s fd)) (m @ rest) = (Complete, m, es, rest)"
    "steady es" "length (w_reads (su_wires s fd)) - n \<le> length es" by auto
  with assms(3) that show thesis by (simp add: socket_receivefully_def)
qed

lemma sendfully_willing:
  assumes "willing (w_writes (su_wires s fd))" "length m \<le> length (w_writes (su_wires s fd))"
  obtains es where "willing es" "length (w_writes (su_wires s fd)) - length m \<le> length es"
    "socket_sendfully ef fd m s = Some (Some CONNECT_OK,
       s\<lparr>su_wires := (su_wires s)(fd := (su_wires s fd)\<lparr>w_writes := es\<rparr>), su_trace := su_trace s @ [WRITE fd m]\<rparr>)"
proof -
  from sendfully_loop_willing [OF assms(1), of 0 m] assms(2) obtain es where
    "sendfully_loop (length m) m 0 (w_writes (su_wires s fd)) = (Complete, length m, es)"
    "willing es" "length (w_writes (su_wires s fd)) - length m \<le> length es" by auto
  with that show thesis by (simp add: socket_sendfully_def)
qed

text \<open>The calls of \<open>n\<close> refused attempts.\<close>

definition refused :: "call \<Rightarrow> nat \<Rightarrow> call list" where
  "refused c n = concat (replicate n [c, SLEEP])"

lemma refused_simps [simp]: "refused c 0 = []" "[c, SLEEP] @ refused c n = refused c (Suc n)"
  by (simp_all add: refused_def)

lemma refused_Suc: "refused c (Suc n) = [c, SLEEP] @ refused c n"
  by (simp add: refused_def)

lemma connect_loop_result:
  assumes "connect_loop S c a s = Some y"
  shows "a < 1000 \<longrightarrow> (\<exists>n. y = (Some True, s\<lparr>su_trace := su_trace s @ refused c n @ [c]\<rparr>) \<and>
    sy_ret S (su_trace s @ refused c n) c = 0)"
proof (rule connect_loop.raw_induct [OF _ assms], goal_cases)
  case (1 loop S c a s y)
  show ?case
  proof (cases "a < 1000 \<and> sy_ret S (su_trace s) c \<noteq> 0")
    case True
    with 1(2) have "loop S c a (s\<lparr>su_trace := su_trace s @ [c, SLEEP]\<rparr>) = Some y" by simp
    from 1(1) [OF this] True obtain n where
      "y = (Some True, s\<lparr>su_trace := su_trace s @ refused c (Suc n) @ [c]\<rparr>)"
      "sy_ret S (su_trace s @ refused c (Suc n)) c = 0"
      by (auto simp: refused_Suc)
    then show ?thesis by blast
  next
    case False
    with 1(2) show ?thesis by (intro impI exI [of _ 0]) auto
  qed
qed

lemma connect_loop_accepted:
  assumes "a < 1000" "sy_ret S (su_trace s @ refused c n) c = 0" "\<forall>k < n. sy_ret S (su_trace s @ refused c k) c \<noteq> 0"
  shows "connect_loop S c a s = Some (Some True, s\<lparr>su_trace := su_trace s @ refused c n @ [c]\<rparr>)"
  using assms
proof (induction n arbitrary: s)
  case 0
  then show ?case by (subst connect_loop.simps) simp
next
  case (Suc n)
  have "sy_ret S (su_trace s) c \<noteq> 0" using Suc.prems(3) by (auto dest: spec [of _ 0])
  moreover have "\<forall>k < n. sy_ret S ((su_trace s @ [c, SLEEP]) @ refused c k) c \<noteq> 0"
    using Suc.prems(3) by (auto simp: refused_Suc dest: spec [of _ "Suc k" for k])
  ultimately show ?case
    using Suc.IH [of "s\<lparr>su_trace := su_trace s @ [c, SLEEP]\<rparr>"] Suc.prems(1,2)
    by (subst connect_loop.simps) (simp add: refused_Suc)
qed

text \<open>An allocator that always succeeds.\<close>

definition allocates :: "sys \<Rightarrow> bool" where
  "allocates S \<longleftrightarrow> (\<forall>t n. sy_ret S t (MALLOC n) \<noteq> 0) \<and> (\<forall>n. n \<le> sy_room S n)"

text \<open>Between \<open>s\<close> and \<open>s'\<close> only calls were made and bytes sent and received.\<close>

definition io_only :: "gw_setup \<Rightarrow> gw_setup \<Rightarrow> bool" where
  "io_only s s' \<longleftrightarrow> (\<exists>w t. s' = s\<lparr>su_wires := w, su_trace := su_trace s @ t\<rparr>)"

lemma io_only_refl [intro]: "io_only s s"
  unfolding io_only_def by (rule exI [of _ "su_wires s"], rule exI [of _ "[]"]) simp

lemma io_only_trans: "io_only s s' \<Longrightarrow> io_only s' s'' \<Longrightarrow> io_only s s''"
  by (fastforce simp: io_only_def)

lemma io_only_fields:
  assumes "io_only s s'"
  shows "su_serverfd s' = su_serverfd s" "gw_cluster_rank s' = gw_cluster_rank s" "gw_cluster_count s' = gw_cluster_count s"
    "su_gateway_count s' = su_gateway_count s" "su_local_application_size s' = su_local_application_size s"
    "su_addresses s' = su_addresses s" "su_cluster_name s' = su_cluster_name s"
  using assms by (auto simp: io_only_def)

text \<open>The partner behind \<open>fd\<close> has sent \<open>bs\<close>, and the kernel hands at least \<open>n\<close> bytes of it out.\<close>

definition serves :: "gw_setup \<Rightarrow> int \<Rightarrow> byte list \<Rightarrow> nat \<Rightarrow> bool" where
  "serves s fd bs n \<longleftrightarrow> steady (w_reads (su_wires s fd)) \<and> n \<le> length (w_reads (su_wires s fd)) \<and> w_stream (su_wires s fd) = bs"

lemma served:
  assumes "serves s fd (m @ rest) n" "length m = k" "k \<le> n"
  obtains s' where "socket_receivefully ef fd k s = Some (Some (CONNECT_OK, m), s')" "serves s' fd rest (n - k)"
    "io_only s s'"
proof -
  from assms have s: "steady (w_reads (su_wires s fd))" "k \<le> length (w_reads (su_wires s fd))"
    "w_stream (su_wires s fd) = m @ rest" by (auto simp: serves_def)
  obtain es where es: "steady es" "length (w_reads (su_wires s fd)) - k \<le> length es"
    "socket_receivefully ef fd k s = Some (Some (CONNECT_OK, m),
       s\<lparr>su_wires := (su_wires s)(fd := (su_wires s fd)\<lparr>w_reads := es, w_stream := rest\<rparr>),
         su_trace := su_trace s @ [READ fd m]\<rparr>)"
    by (rule receivefully_steady [OF s assms(2)])
  show thesis
  proof (rule that [OF es(3)])
    show "serves (s\<lparr>su_wires := (su_wires s)(fd := (su_wires s fd)\<lparr>w_reads := es, w_stream := rest\<rparr>),
         su_trace := su_trace s @ [READ fd m]\<rparr>) fd rest (n - k)"
      using es(1,2) assms(1) by (auto simp: serves_def)
    show "io_only s (s\<lparr>su_wires := (su_wires s)(fd := (su_wires s fd)\<lparr>w_reads := es, w_stream := rest\<rparr>),
         su_trace := su_trace s @ [READ fd m]\<rparr>)"
      unfolding io_only_def by blast
  qed
qed

definition takes :: "gw_setup \<Rightarrow> int \<Rightarrow> nat \<Rightarrow> bool" where
  "takes s fd n \<longleftrightarrow> willing (w_writes (su_wires s fd)) \<and> n \<le> length (w_writes (su_wires s fd))"

lemma taken:
  assumes "takes s fd n" "length m \<le> n" "serves s fd bs k"
  obtains s' where "socket_sendfully ef fd m s = Some (Some CONNECT_OK, s')" "serves s' fd bs k"
    "io_only s s'" "WRITE fd m \<in> set (su_trace s')"
proof -
  from assms have s: "willing (w_writes (su_wires s fd))" "length m \<le> length (w_writes (su_wires s fd))"
    by (auto simp: takes_def)
  obtain es where es: "socket_sendfully ef fd m s = Some (Some CONNECT_OK,
      s\<lparr>su_wires := (su_wires s)(fd := (su_wires s fd)\<lparr>w_writes := es\<rparr>), su_trace := su_trace s @ [WRITE fd m]\<rparr>)"
    by (rule sendfully_willing [OF s])
  show thesis
  proof (rule that [OF es])
    show "serves (s\<lparr>su_wires := (su_wires s)(fd := (su_wires s fd)\<lparr>w_writes := es\<rparr>), su_trace := su_trace s @ [WRITE fd m]\<rparr>) fd bs k"
      using assms(3) by (simp add: serves_def)
  qed (auto simp: io_only_def)
qed

end
