(* ===== verification/Gateway_Init.thy ===== *)
theory Gateway_Init
  imports Gateway_Setup
begin

text \<open>
  The initialization of the gateways, the second third of \<^verbatim>\<open>src/backend/gateway.c\<close>: the handshake of the
  master gateway with the server, the exchange of the addresses of all gateways, the connections between
  the gateways of different clusters, and the functions that put these together.
\<close>

definition OPCODE_HANDSHAKE :: u32 where [const_defs]: "OPCODE_HANDSHAKE = 42"
definition OPCODE_HANDSHAKE_ACCEPTED :: u32 where [const_defs]: "OPCODE_HANDSHAKE_ACCEPTED = 43"
definition OPCODE_GATEWAY_INFO :: u32 where [const_defs]: "OPCODE_GATEWAY_INFO = 45"
definition OPCODE_GATEWAY_READY :: u32 where [const_defs]: "OPCODE_GATEWAY_READY = 46"

section \<open>The handshake with the server\<close>

definition char_bytes :: "string \<Rightarrow> byte list" where
  "char_bytes cs = map of_char cs"

definition handshake_message :: "bool \<Rightarrow> string \<Rightarrow> byte list" where
  "handshake_message le name =
     struct_bytes le [htonl le OPCODE_HANDSHAKE, htonl le (word_of_nat (length name))] @ char_bytes name"

text \<open>What is left of the function after a call that may have failed.\<close>

definition if_ok :: "bool \<Rightarrow> int \<Rightarrow> int \<Rightarrow> int setup_act \<Rightarrow> int setup_act" where
  "if_ok ef error code k = (if error \<noteq> CONNECT_OK then after_ERROR ef (ret code) else k)"

definition check :: "bool \<Rightarrow> bool \<Rightarrow> int setup_act \<Rightarrow> int setup_act" where
  "check ef bad k = (if bad then after_ERROR ef (ret CONNECT_ERROR_HANDSHAKE_FAILED) else k)"

definition handshake :: "bool \<Rightarrow> bool \<Rightarrow> int setup_act" where
  "handshake ef le =
     andthen the_state (\<lambda>s.
     case su_cluster_name s of
       None \<Rightarrow> lift None
     | Some name \<Rightarrow>
         if length name + 1 > MAX_LENGTH_CLUSTER_NAME then lift None
         else andthen (socket_sendfully ef (su_serverfd s) (handshake_message le name)) (\<lambda>error.
         if_ok ef error CONNECT_ERROR_HANDSHAKE_FAILED
        (andthen (socket_receivefully ef (su_serverfd s) 4) (\<lambda>(error, bs).
         if_ok ef error CONNECT_ERROR_HANDSHAKE_FAILED
        (check ef (ntohl le (host_word le bs) \<noteq> OPCODE_HANDSHAKE_ACCEPTED)
        (andthen (socket_receivefully ef (su_serverfd s) (4 * 4)) (\<lambda>(error, bs).
         if_ok ef error CONNECT_ERROR_HANDSHAKE_FAILED
        (let reply = (\<lambda>i. ntohl le (host_word le (take 4 (drop (4 * i) bs))));
             cluster_rank = reply 0; cluster_count = reply 1; local_size = reply 2; gateway_count = reply 3 in
         andthen (change (\<lambda>s. s\<lparr>gw_cluster_rank := cluster_rank, gw_cluster_count := cluster_count,
            su_local_application_size := local_size, su_gateway_count := gateway_count\<rparr>)) (\<lambda>_.
         check ef (cluster_count = 0 \<or> cluster_count \<ge> word_of_nat MAX_CLUSTERS)
        (check ef (cluster_rank \<ge> cluster_count)
        (check ef (local_size = 0 \<or> local_size \<ge> word_of_nat MAX_PROCESSES_PER_CLUSTER)
        (check ef (gateway_count = 0) (ret CONNECT_OK)))))))))))))"

fun read_sizes :: "bool \<Rightarrow> nat \<Rightarrow> byte list \<Rightarrow> int list" where
  "read_sizes le 0 bs = []"
| "read_sizes le (Suc n) bs = sint (ntohl le (host_word le (take 4 bs))) # read_sizes le n (drop 4 bs)"

text \<open>The sums of the sizes; adding two \<^verbatim>\<open>int\<close>s must not overflow.\<close>

fun cluster_offsets_loop :: "int \<Rightarrow> int list \<Rightarrow> int list run" where
  "cluster_offsets_loop v [] = Some [v]"
| "cluster_offsets_loop v (x # xs) = (if int_ok (v + x) then map_option ((#) v) (cluster_offsets_loop (v + x) xs) else None)"

definition receive_cluster_sizes :: "bool \<Rightarrow> bool \<Rightarrow> int setup_act" where
  "receive_cluster_sizes ef le =
     andthen the_state (\<lambda>s.
     andthen (socket_receivefully ef (su_serverfd s) (unat (gw_cluster_count s * 4))) (\<lambda>(error, bs).
     if_ok ef error CONNECT_ERROR_HANDSHAKE_FAILED
    (let sizes = read_sizes le (unat (gw_cluster_count s)) bs in
     andthen (lift (cluster_offsets_loop 0 sizes)) (\<lambda>offsets.
     andthen (change (\<lambda>s. s\<lparr>su_cluster_sizes := sizes, su_cluster_offsets := offsets\<rparr>)) (\<lambda>_. ret CONNECT_OK)))))"

section \<open>The addresses of the gateways\<close>

text \<open>
  The four bytes of the address go to the beginning of an \<^verbatim>\<open>unsigned long\<close> of eight that is not
  initialized.
\<close>

definition receive_gateway :: "bool \<Rightarrow> bool \<Rightarrow> sys \<Rightarrow> int \<Rightarrow> int setup_act" where
  "receive_gateway ef le S index =
     andthen the_state (\<lambda>s.
     andthen (socket_receivefully ef (su_serverfd s) 4) (\<lambda>(error, ip).
     if_ok ef error CONNECT_ERROR_HANDSHAKE_FAILED
    (andthen (socket_receivefully ef (su_serverfd s) 2) (\<lambda>(error, port).
     if_ok ef error CONNECT_ERROR_HANDSHAKE_FAILED
    (andthen (socket_receivefully ef (su_serverfd s) 2) (\<lambda>(error, streams).
     if_ok ef error CONNECT_ERROR_HANDSHAKE_FAILED
    (let ipv4 = host_long le (ip @ host_bytes le (sy_junk_word S (nat index)));
         a = \<lparr>ga_ipv4 = ipv4, ga_port = ntohs le (host_half le port), ga_streams = ntohs le (host_half le streams)\<rparr> in
     andthen (lift (arr_write (su_addresses s) index a)) (\<lambda>as.
     andthen (change (su_addresses_update (\<lambda>_. as))) (\<lambda>_. ret CONNECT_OK)))))))))"

definition address_index :: "u32 \<Rightarrow> u32 \<Rightarrow> nat \<Rightarrow> int" where
  "address_index gateway_count j i = sint (word_of_nat i * gateway_count + j)"

definition receive_gateway_info :: "bool \<Rightarrow> bool \<Rightarrow> sys \<Rightarrow> int setup_act" where
  "receive_gateway_info ef le S =
     andthen the_state (\<lambda>s.
     for_each (\<lambda>(i, j).
       andthen (receive_gateway ef le S (address_index (su_gateway_count s) (word_of_nat j) i)) (\<lambda>error.
       if_ok ef error CONNECT_ERROR_HANDSHAKE_FAILED (ret CONNECT_OK)))
     (List.product [0 ..< unat (gw_cluster_count s)] [0 ..< unat (su_gateway_count s)]))"

definition send_gateway_info :: "bool \<Rightarrow> bool \<Rightarrow> int \<Rightarrow> u32 list \<Rightarrow> int \<Rightarrow> int setup_act" where
  "send_gateway_info ef le rank ip4ads ip4count =
     andthen the_state (\<lambda>s.
     let req = struct_bytes le (map (htonl le)
                 [OPCODE_GATEWAY_INFO, gw_cluster_rank s, word_of_int rank, word_of_int ip4count]) in
     andthen (socket_sendfully ef (su_serverfd s) req) (\<lambda>error.
     if_ok ef error EMPI_ERR_INTERN
    (andthen (socket_sendfully ef (su_serverfd s) (struct_bytes le ip4ads)) (\<lambda>error.
     if_ok ef error EMPI_ERR_INTERN (ret CONNECT_OK)))))"

section \<open>Connecting the gateways\<close>

text \<open>The result is only compared with -1, which the function that receives never returns.\<close>

definition receive_gateway_ready_opcode :: "bool \<Rightarrow> int \<Rightarrow> int setup_act" where
  "receive_gateway_ready_opcode ef fd =
     andthen (socket_receivefully ef fd 4) (\<lambda>(status, bs).
     if status = -1 then after_ERROR ef (ret CONNECT_ERROR_GATEWAY) else ret CONNECT_OK)"

definition send_gateway_ready_opcode :: "bool \<Rightarrow> bool \<Rightarrow> int \<Rightarrow> int setup_act" where
  "send_gateway_ready_opcode ef le fd =
     andthen (socket_sendfully ef fd (host_bytes le OPCODE_GATEWAY_READY)) (\<lambda>status.
     if_ok ef status CONNECT_ERROR_HANDSHAKE_FAILED (ret CONNECT_OK))"

definition change_connection :: "nat \<Rightarrow> (gateway_connection \<Rightarrow> gateway_connection run) \<Rightarrow> unit setup_act" where
  "change_connection i f s = do {
     c \<leftarrow> arr_read (gw_connections s) (int i);
     c' \<leftarrow> f c;
     cs \<leftarrow> arr_write (gw_connections s) (int i) c';
     Some (Some (), s\<lparr>gw_connections := cs\<rparr>)
   }"

definition start_connection :: "nat \<Rightarrow> gateway_address \<Rightarrow> unit setup_act" where
  "start_connection i a = change_connection i (\<lambda>c. Some (c\<lparr>gc_stream_count := uint (ga_streams a), gc_out_queue := []\<rparr>))"

definition set_stream :: "nat \<Rightarrow> nat \<Rightarrow> int \<Rightarrow> unit setup_act" where
  "set_stream i k fd = change_connection i (\<lambda>c. do {
     socks \<leftarrow> arr_write (gc_sockets c) (int k) (init_socket_info fd TYPE_DATA);
     Some (c\<lparr>gc_sockets := socks\<rparr>)
   })"

text \<open>One turn of the loop over the streams to the gateway with address \<open>a\<close> in cluster \<open>i\<close>: its side that
  connects, and its side that accepts.\<close>

definition connect_stream :: "bool \<Rightarrow> sys \<Rightarrow> nat \<Rightarrow> gateway_address \<Rightarrow> nat \<Rightarrow> int setup_act" where
  "connect_stream ef S i a k =
     andthen (socket_connect ef S (ga_ipv4 a) (ga_port a + word_of_nat k)) (\<lambda>(status, fd).
     if status \<noteq> CONNECT_OK then after_ERROR ef (ret status)
     else andthen (set_stream i k fd) (\<lambda>_. ret CONNECT_OK))"

definition accept_stream :: "bool \<Rightarrow> sys \<Rightarrow> u16 \<Rightarrow> nat \<Rightarrow> gateway_address \<Rightarrow> nat \<Rightarrow> int setup_act" where
  "accept_stream ef S local_port i a k =
     andthen (socket_accept ef S (local_port + word_of_nat k) (ucast (ga_ipv4 a)) 0) (\<lambda>(status, fd).
     if status \<noteq> CONNECT_OK then after_ERROR ef (ret status)
     else andthen (set_stream i k fd) (\<lambda>_. ret CONNECT_OK))"

definition remote_address :: "gw_setup \<Rightarrow> nat \<Rightarrow> gateway_address run" where
  "remote_address s i =
     arr_read (su_addresses s) (address_index (su_gateway_count s) (word_of_int (gw_gateway_rank s)) i)"

definition first_fd :: "gw_setup \<Rightarrow> nat \<Rightarrow> int run" where
  "first_fd s i = do {
     c \<leftarrow> arr_read (gw_connections s) (int i);
     info \<leftarrow> arr_read (gc_sockets c) 0;
     Some (si_socketfd info)
   }"

definition connect_to_gateways :: "bool \<Rightarrow> bool \<Rightarrow> sys \<Rightarrow> nat \<Rightarrow> u16 \<Rightarrow> int setup_act" where
  "connect_to_gateways ef le S crank local_port =
     andthen the_state (\<lambda>s.
     let me = gw_cluster_rank s; later = [unat me + 1 ..< unat (gw_cluster_count s)] in
     if word_of_nat crank = me then
       andthen (for_each (\<lambda>i.
           andthen the_state (\<lambda>s.
           andthen (lift (remote_address s i)) (\<lambda>a.
           andthen (start_connection i a) (\<lambda>_.
           for_each (connect_stream ef S i a) [0 ..< unat (ga_streams a)])))) later) (\<lambda>status.
       if status \<noteq> CONNECT_OK then ret status
       else for_each (\<lambda>i.
           andthen the_state (\<lambda>s.
           andthen (lift (first_fd s i)) (\<lambda>fd.
           andthen (send_gateway_ready_opcode ef le fd) (\<lambda>_. ret CONNECT_OK)))) later)
     else if word_of_nat crank < me then
       andthen (lift (remote_address s crank)) (\<lambda>a.
       andthen (start_connection crank a) (\<lambda>_.
       andthen (for_each (accept_stream ef S local_port crank a) [0 ..< unat (ga_streams a)]) (\<lambda>status.
       if status \<noteq> CONNECT_OK then ret status
       else andthen the_state (\<lambda>s.
         andthen (lift (first_fd s crank)) (\<lambda>fd.
         andthen (receive_gateway_ready_opcode ef fd) (\<lambda>_. ret CONNECT_OK))))))
     else ret CONNECT_OK)"

definition add_gateway_to_epoll :: "bool \<Rightarrow> sys \<Rightarrow> nat \<Rightarrow> int setup_act" where
  "add_gateway_to_epoll ef S index =
     andthen the_state (\<lambda>s.
     if word_of_nat index = gw_cluster_rank s then ret 0
     else andthen (lift (arr_read (gw_connections s) (int index))) (\<lambda>c.
       for_each (\<lambda>k.
         andthen (lift (arr_read (gc_sockets c) (int k))) (\<lambda>info.
         andthen (set_socket_non_blocking ef S (si_socketfd info)) (\<lambda>status.
         if status \<noteq> EMPI_SUCCESS then after_ERROR ef (ret status)
         else andthen (add_socket_to_epoll ef S (si_socketfd info) (Stream index k)) (\<lambda>status.
         if status \<noteq> EMPI_SUCCESS then after_ERROR ef (ret status) else ret 0))))
       [0 ..< nat (gc_stream_count c)]))"

definition fresh_connections :: "sys \<Rightarrow> nat \<Rightarrow> gateway_connection list" where
  "fresh_connections S n = replicate n
     \<lparr>gc_sockets = replicate MAX_STREAMS (fst (sy_junk_socket S)), gc_stream_count = snd (sy_junk_socket S), gc_out_queue = []\<rparr>"

definition connect_gateways :: "bool \<Rightarrow> bool \<Rightarrow> sys \<Rightarrow> int setup_act" where
  "connect_gateways ef le S =
     andthen the_state (\<lambda>s.
     let n = unat (gw_cluster_count s) in
     andthen (sys_call S (MALLOC (int n))) (\<lambda>p.
     if p = 0 then after_ERROR ef (ret CONNECT_ERROR_ALLOCATE)
     else andthen (change (gw_connections_update (\<lambda>_. fresh_connections S n))) (\<lambda>_.
       andthen (lift (remote_address s (unat (gw_cluster_rank s)))) (\<lambda>mine.
       andthen (for_each (\<lambda>i.
           andthen (connect_to_gateways ef le S i (ga_port mine)) (\<lambda>status. if_ok ef status status (ret 0))) [0 ..< n])
         (\<lambda>status. if status \<noteq> 0 then ret status
       else for_each (\<lambda>i.
           andthen (add_gateway_to_epoll ef S i) (\<lambda>status. if_ok ef status status (ret 0))) [0 ..< n])))))"

definition disconnect_gateway :: "sys \<Rightarrow> nat \<Rightarrow> int setup_act" where
  "disconnect_gateway S index =
     andthen the_state (\<lambda>s.
     if word_of_nat index = gw_cluster_rank s then ret CONNECT_OK
     else andthen (lift (arr_read (gw_connections s) (int index))) (\<lambda>c.
       for_each (\<lambda>k.
         andthen (lift (arr_read (gc_sockets c) (int k))) (\<lambda>info.
         andthen (sys_call S (CLOSE (si_socketfd info))) (\<lambda>_. ret CONNECT_OK)))
       [0 ..< nat (gc_stream_count c)]))"

definition disconnect_gateways :: "sys \<Rightarrow> int setup_act" where
  "disconnect_gateways S =
     andthen the_state (\<lambda>s.
     for_each (\<lambda>i. andthen (disconnect_gateway S i) (\<lambda>_. ret CONNECT_OK)) [0 ..< unat (gw_cluster_count s)])"

section \<open>The master gateway\<close>

text \<open>The master gateway, the last process of the cluster, gets the configuration of the run from the
  server. The result: the error code, and the arguments that are left.\<close>

definition master_reset :: "gw_setup \<Rightarrow> gw_setup" where
  "master_reset s = s\<lparr>gw_cluster_count := 0, gw_cluster_rank := - 1, gw_mpi_messages := [],
     gw_server_queue_out := [], gw_server_queue_in := []\<rparr>"

definition give_up :: "sys \<Rightarrow> int \<Rightarrow> int setup_act" where
  "give_up S fd = andthen (sys_call S (CLOSE fd)) (\<lambda>_. ret EMPI_ERR_INTERN)"

definition get_cluster_info :: "bool \<Rightarrow> bool \<Rightarrow> sys \<Rightarrow> int \<Rightarrow> int setup_act" where
  "get_cluster_info ef le S sz =
     andthen the_state (\<lambda>s.
     let fd = su_serverfd s in
     andthen (handshake ef le) (\<lambda>status.
     if status \<noteq> CONNECT_OK then give_up S fd
     else andthen the_state (\<lambda>s.
       if su_local_application_size s + su_gateway_count s \<noteq> word_of_int sz then give_up S fd
       else andthen (sys_call S (MALLOC (uint (gw_cluster_count s) * 4))) (\<lambda>sizes.
         andthen (sys_call S (MALLOC (uint (gw_cluster_count s + 1) * 4))) (\<lambda>offsets.
         if sizes = 0 \<or> offsets = 0 then give_up S fd
         else andthen (receive_cluster_sizes ef le) (\<lambda>status.
           if status \<noteq> CONNECT_OK then give_up S fd else ret EMPI_SUCCESS))))))"

definition master_gateway_init :: "bool \<Rightarrow> bool \<Rightarrow> sys \<Rightarrow> int \<Rightarrow> int \<Rightarrow> string list \<Rightarrow> (int \<times> string list) setup_act" where
  "master_gateway_init ef le S rank sz argv =
     andthen (change master_reset) (\<lambda>_.
     andthen (init_cluster_info ef S argv) (\<lambda>(status, argv).
     if status = 0 then ret (EMPI_ERR_INTERN, argv)
     else andthen the_state (\<lambda>s.
     case (su_cluster_name s, su_server_name s) of
       (Some name, Some server) \<Rightarrow>
         if uint (su_server_port s) \<le> 0 \<or> uint (su_server_port s) > 65535 then ret (EMPI_ERR_INTERN, argv)
         else andthen (get_server_address ef S server) (\<lambda>status.
         if status \<noteq> CONNECT_OK then ret (EMPI_ERR_INTERN, argv)
         else andthen the_state (\<lambda>s.
         andthen (socket_connect ef S (su_server_ipv4 s) (su_server_port s)) (\<lambda>(status, fd).
         andthen (change (su_serverfd_update (\<lambda>_. fd))) (\<lambda>_.
         if status \<noteq> CONNECT_OK then ret (EMPI_ERR_INTERN, argv)
         else andthen (change (gw_server_info_update (\<lambda>_. init_socket_info fd TYPE_SERVER))) (\<lambda>_.
           andthen (get_cluster_info ef le S sz) (\<lambda>status. ret (status, argv)))))))
     | _ \<Rightarrow> ret (EMPI_ERR_INTERN, argv))))"

section \<open>All gateways\<close>

text \<open>
  The exchange of the addresses within the cluster: what gateway 0 does for each other gateway, and
  what each other gateway does. Each message is one call of the local MPI library.
\<close>

definition pmpi_send :: "bool \<Rightarrow> sys \<Rightarrow> setup_message \<Rightarrow> int \<Rightarrow> int \<Rightarrow> int setup_act \<Rightarrow> int setup_act \<Rightarrow> int setup_act" where
  "pmpi_send ef S m dst tag failed k =
     andthen (sys_call S (SEND m dst tag)) (\<lambda>error. if error \<noteq> 0 then after_ERROR ef failed else k)"

definition pmpi_recv :: "bool \<Rightarrow> sys \<Rightarrow> int \<Rightarrow> int \<Rightarrow> int setup_act \<Rightarrow> (setup_message \<Rightarrow> int setup_act) \<Rightarrow> int setup_act" where
  "pmpi_recv ef S src tag failed k =
     andthen the_state (\<lambda>s.
     let m = sy_message S (su_trace s) in
     andthen (sys_call S (RECV src tag)) (\<lambda>error. if error \<noteq> 0 then after_ERROR ef failed else k m))"

definition forward_gateway_info :: "bool \<Rightarrow> bool \<Rightarrow> sys \<Rightarrow> nat \<Rightarrow> int setup_act" where
  "forward_gateway_info ef le S src =
     andthen the_state (\<lambda>s.
     let failed = give_up S (su_serverfd s) in
     pmpi_recv ef S (int src) 0 failed (\<lambda>m.
     case m of
       Count n \<Rightarrow>
         andthen (sys_call S (MALLOC (n * 4))) (\<lambda>p.
         if p = 0 then after_ERROR ef failed
         else pmpi_recv ef S (int src) 0 failed (\<lambda>m.
           case m of
             Addresses ips \<Rightarrow>
               if int (length ips) \<noteq> n then lift None
               else andthen (send_gateway_info ef le (int src) ips n) (\<lambda>status.
                 if status \<noteq> CONNECT_OK then after_ERROR ef failed else ret 0)
           | _ \<Rightarrow> lift None))
     | _ \<Rightarrow> lift None))"

definition publish_addresses :: "bool \<Rightarrow> bool \<Rightarrow> sys \<Rightarrow> u32 list \<Rightarrow> int setup_act" where
  "publish_addresses ef le S ips =
     andthen the_state (\<lambda>s.
     if gw_gateway_rank s = 0 then
       andthen (send_gateway_info ef le 0 ips (int (length ips))) (\<lambda>status.
       if status \<noteq> CONNECT_OK then after_ERROR ef (give_up S (su_serverfd s))
       else for_each (forward_gateway_info ef le S) [1 ..< unat (su_gateway_count s)])
     else
       pmpi_send ef S (Count (int (length ips))) 0 0 (ret EMPI_ERR_INTERN)
      (pmpi_send ef S (Addresses ips) 0 0 (ret EMPI_ERR_INTERN) (ret 0)))"

definition receive_addresses :: "bool \<Rightarrow> bool \<Rightarrow> sys \<Rightarrow> int setup_act" where
  "receive_addresses ef le S =
     andthen the_state (\<lambda>s.
     if gw_gateway_rank s = 0 then
       andthen (receive_gateway_info ef le S) (\<lambda>status.
       if status \<noteq> CONNECT_OK then after_ERROR ef (give_up S (su_serverfd s))
       else andthen the_state (\<lambda>s.
         andthen (for_each (\<lambda>dst. pmpi_send ef S (Table (su_addresses s)) (int dst) 1 (give_up S (su_serverfd s)) (ret 0))
           [1 ..< unat (su_gateway_count s)]) (\<lambda>status.
         if status \<noteq> 0 then ret status
         else let fd = si_socketfd (gw_server_info s) in
           andthen (set_socket_non_blocking ef S fd) (\<lambda>_.
           andthen (add_socket_to_epoll ef S fd Server) (\<lambda>_. ret 0)))))
     else pmpi_recv ef S 0 1 (ret EMPI_ERR_INTERN) (\<lambda>m.
       case m of
         Table as \<Rightarrow>
           if length as \<noteq> length (su_addresses s) then lift None
           else andthen (change (su_addresses_update (\<lambda>_. as))) (\<lambda>_. ret 0)
       | _ \<Rightarrow> lift None))"

definition no_address :: gateway_address where
  "no_address = \<lparr>ga_ipv4 = 0, ga_port = 0, ga_streams = 0\<rparr>"

definition generic_gateway_init :: "bool \<Rightarrow> bool \<Rightarrow> sys \<Rightarrow> int setup_act" where
  "generic_gateway_init ef le S =
     andthen (sys_call S EPOLL_CREATE) (\<lambda>epollfd.
     andthen (change (\<lambda>s. s\<lparr>su_epollfd := epollfd, gw_incoming_queue := []\<rparr>)) (\<lambda>_.
     andthen (get_local_ips ef S) (\<lambda>(status, ips).
     if status \<noteq> CONNECT_OK then after_ERROR ef (ret EMPI_ERR_INTERN)
     else andthen (publish_addresses ef le S ips) (\<lambda>status.
     if status \<noteq> 0 then ret status
     else andthen the_state (\<lambda>s.
     let n = unat (gw_cluster_count s) * unat (su_gateway_count s) in
     andthen (sys_call S (MALLOC (int n))) (\<lambda>p.
     if p = 0 then after_ERROR ef (ret CONNECT_ERROR_HANDSHAKE_FAILED)
     else andthen (change (su_addresses_update (\<lambda>_. replicate n no_address))) (\<lambda>_.
       andthen (receive_addresses ef le S) (\<lambda>status.
       if status \<noteq> 0 then ret status
       else andthen (connect_gateways ef le S) (\<lambda>error.
       if error \<noteq> CONNECT_OK then after_ERROR ef (ret EMPI_ERR_INTERN) else ret EMPI_SUCCESS)))))))))"

end
