(* ===== verification/Gateway_Links.thy ===== *)
theory Gateway_Links
  imports Gateway_Init
begin

text \<open>
  What the set-up of the connections between the gateways does, read off the calls it makes: the order in
  which a gateway connects, accepts, and waits for the others, and the state its connections are left
  in. At the end, why the gateways of all clusters together always finish.
\<close>

section \<open>Actions\<close>

text \<open>
  The calls that concern another gateway: connecting to a host and port, accepting on a port, and sending
  and receiving while the links are set up. A call followed by \<open>SLEEP\<close> was refused and is tried again.
\<close>

datatype action = Out u32 u16 | In u16 | Ready_out | Ready_in

definition shows_as :: "call \<Rightarrow> action list" where
  "shows_as c = (case c of CONNECT fd ip port \<Rightarrow> [Out ip port] | BIND fd port \<Rightarrow> [In port]
     | WRITE fd bs \<Rightarrow> [Ready_out] | READ fd bs \<Rightarrow> [Ready_in] | _ \<Rightarrow> [])"

fun visible :: "call list \<Rightarrow> action list" where
  "visible [] = []"
| "visible (c # t) = (if t \<noteq> [] \<and> t ! 0 = SLEEP then visible t else shows_as c @ visible t)"

definition settled :: "call list \<Rightarrow> bool" where
  "settled t \<longleftrightarrow> t = [] \<or> t ! 0 \<noteq> SLEEP"

lemma settled_simps [simp]: "settled []" "settled (c # t) \<longleftrightarrow> c \<noteq> SLEEP"
  by (simp_all add: settled_def)

lemma settled_append [intro]: "settled xs \<Longrightarrow> settled ys \<Longrightarrow> settled (xs @ ys)"
  by (cases xs) auto

lemma visible_append: "settled ys \<Longrightarrow> visible (xs @ ys) = visible xs @ visible ys"
  by (induction xs) (auto simp: settled_def nth_append)

lemma shows_as_simps [simp]:
  "shows_as (CONNECT fd ip port) = [Out ip port]" "shows_as (BIND fd port) = [In port]"
  "shows_as (WRITE fd bs) = [Ready_out]" "shows_as (READ fd bs) = [Ready_in]"
  "shows_as SLEEP = []" "shows_as SOCKET = []" "shows_as (SETSOCKOPT fd name) = []" "shows_as (LISTEN fd) = []"
  "shows_as (ACCEPT fd) = []" "shows_as (CLOSE fd) = []" "shows_as (F_GETFL fd) = []" "shows_as (F_SETFL fd fl) = []"
  "shows_as (EPOLL_ADD fd i) = []" "shows_as (MALLOC n) = []"
  by (simp_all add: shows_as_def)

lemma visible_attempts: "c \<noteq> SLEEP \<Longrightarrow> visible (refused c n @ [c]) = shows_as c"
proof (induction n)
  case (Suc n)
  have "refused c n @ [c] \<noteq> [] \<and> (refused c n @ [c]) ! 0 = c" by (cases n) (simp_all add: refused_Suc)
  with Suc show ?case by (simp add: refused_Suc)
qed simp

lemma settled_attempts: "c \<noteq> SLEEP \<Longrightarrow> settled (refused c n @ [c])"
  by (cases n) (simp_all add: refused_Suc)

text \<open>From \<open>s\<close> to \<open>s'\<close> only calls were made, that show as \<open>as\<close>.\<close>

definition calls_only :: "action list \<Rightarrow> gw_setup \<Rightarrow> gw_setup \<Rightarrow> bool" where
  "calls_only as s s' \<longleftrightarrow> (\<exists>t. s' = s\<lparr>su_trace := su_trace s @ t\<rparr> \<and> settled t \<and> visible t = as)"

lemma calls_onlyI: "s' = s\<lparr>su_trace := su_trace s @ t\<rparr> \<Longrightarrow> settled t \<Longrightarrow> visible t = as \<Longrightarrow> calls_only as s s'"
  by (auto simp: calls_only_def)

lemma calls_only_trans [trans]: "calls_only as s s' \<Longrightarrow> calls_only bs s' s'' \<Longrightarrow> calls_only (as @ bs) s s''"
  by (fastforce simp: calls_only_def visible_append)

lemma set_socket_options_run:
  "set_socket_options S fd s = Some (Some CONNECT_OK, s\<lparr>su_trace := su_trace s @
     [SETSOCKOPT fd ''SO_RCVBUF'', SETSOCKOPT fd ''SO_SNDBUF'', SETSOCKOPT fd ''TCP_NODELAY'']\<rparr>)"
  by (simp add: set_socket_options_def)

lemma set_socket_options_then [simp]:
  "andthen (set_socket_options S fd) f s = f CONNECT_OK (s\<lparr>su_trace := su_trace s @
     [SETSOCKOPT fd ''SO_RCVBUF'', SETSOCKOPT fd ''SO_SNDBUF'', SETSOCKOPT fd ''TCP_NODELAY'']\<rparr>)"
  by (simp add: andthen_def set_socket_options_run)

lemma socket_connect_ok:
  assumes "socket_connect ef S ipv4 port s = Some (Some (CONNECT_OK, fd), s')"
  shows "calls_only [Out (ucast ipv4) port] s s'"
proof -
  let ?fd = "sy_ret S (su_trace s) SOCKET" and ?s1 = "s\<lparr>su_trace := su_trace s @ [SOCKET]\<rparr>"
  let ?c = "CONNECT ?fd (ucast ipv4) port"
  from assms obtain b t where loop: "connect_loop S ?c 0 ?s1 = Some (b, t)"
    by (cases "connect_loop S ?c 0 ?s1") (auto simp: socket_connect_def andthen_run const_defs split: if_splits)
  with connect_loop_result [OF loop] obtain n where n: "b = Some True"
    "t = s\<lparr>su_trace := su_trace s @ ([SOCKET] @ refused ?c n @ [?c])\<rparr>" by auto
  let ?o = "[SETSOCKOPT ?fd ''SO_RCVBUF'', SETSOCKOPT ?fd ''SO_SNDBUF'', SETSOCKOPT ?fd ''TCP_NODELAY'']"
  from assms loop n have s': "s' = s\<lparr>su_trace := su_trace s @ ([SOCKET] @ (refused ?c n @ [?c]) @ ?o)\<rparr>"
    by (auto simp: socket_connect_def andthen_run const_defs split: if_splits)
  have "visible ([SOCKET] @ (refused ?c n @ [?c]) @ ?o) = visible [SOCKET] @ visible (refused ?c n @ [?c]) @ visible ?o"
    by (intro trans [OF visible_append] arg_cong2 [where f = append] refl settled_append settled_attempts) simp_all
  then have "visible ([SOCKET] @ (refused ?c n @ [?c]) @ ?o) = [Out (ucast ipv4) port]"
    by (simp add: visible_attempts)
  with s' show ?thesis by (intro calls_onlyI) auto
qed

lemma socket_accept_ok:
  assumes "socket_accept ef S port host old s = Some (Some (CONNECT_OK, fd), s')"
  shows "calls_only [In port] s s'"
proof -
  let ?sd = "sy_ret S (su_trace s) SOCKET"
  from assms have "s' = s\<lparr>su_trace := su_trace s @
      ([SOCKET, SETSOCKOPT ?sd ''SO_REUSEADDR'', BIND ?sd port, LISTEN ?sd, ACCEPT ?sd, CLOSE ?sd] @
       [SETSOCKOPT fd ''SO_RCVBUF'', SETSOCKOPT fd ''SO_SNDBUF'', SETSOCKOPT fd ''TCP_NODELAY''])\<rparr>"
    by (auto simp: socket_accept_def Let_def const_defs split: if_splits)
  then show ?thesis by (rule calls_onlyI) simp_all
qed

section \<open>Connections\<close>

definition idle :: "socket_info \<Rightarrow> bool" where
  "idle info \<longleftrightarrow> (\<exists>fd. info = init_socket_info fd TYPE_DATA)"

definition linked :: "nat \<Rightarrow> gateway_address \<Rightarrow> gateway_connection \<Rightarrow> bool" where
  "linked n a c \<longleftrightarrow> gc_stream_count c = uint (ga_streams a) \<and> gc_out_queue c = [] \<and>
     (\<forall>k < n. k < length (gc_sockets c) \<and> idle (gc_sockets c ! k))"

definition linked_to :: "gw_setup \<Rightarrow> nat \<Rightarrow> gateway_connection \<Rightarrow> bool" where
  "linked_to s i c \<longleftrightarrow> (\<exists>a. remote_address s i = Some a \<and> linked (unat (ga_streams a)) a c)"

text \<open>From \<open>s\<close> to \<open>s'\<close> calls were made that show as \<open>as\<close>, bytes were sent and received, and the
  connections with the clusters of \<open>I\<close>, and no others, were set up.\<close>

definition progress :: "action list \<Rightarrow> nat set \<Rightarrow> gw_setup \<Rightarrow> gw_setup \<Rightarrow> bool" where
  "progress as I s s' \<longleftrightarrow> (\<exists>t w cs. s' = s\<lparr>gw_connections := cs, su_wires := w, su_trace := su_trace s @ t\<rparr> \<and>
     settled t \<and> visible t = as \<and> length cs = length (gw_connections s) \<and>
     (\<forall>i \<in> I. i < length cs \<and> linked_to s i (cs ! i)) \<and> (\<forall>i. i \<notin> I \<longrightarrow> cs ! i = gw_connections s ! i))"

lemma remote_address_frame [simp]:
  "remote_address (s\<lparr>gw_connections := cs, su_wires := w, su_trace := t\<rparr>) i = remote_address s i"
  by (simp add: remote_address_def)

lemma linked_to_frame [simp]:
  "linked_to (s\<lparr>gw_connections := cs, su_wires := w, su_trace := t\<rparr>) i c = linked_to s i c"
  by (simp add: linked_to_def)

lemma progress_refl: "progress [] {} s s"
  unfolding progress_def
  by (rule exI [of _ "[]"], rule exI [of _ "su_wires s"], rule exI [of _ "gw_connections s"]) simp

lemma progress_trans [trans]:
  assumes "progress as I s s'" "progress bs J s' s''"
  shows "progress (as @ bs) (I \<union> J) s s''"
proof -
  from assms(1) obtain t w cs where 1: "s' = s\<lparr>gw_connections := cs, su_wires := w, su_trace := su_trace s @ t\<rparr>"
    "settled t" "visible t = as" "length cs = length (gw_connections s)"
    "\<forall>i \<in> I. i < length cs \<and> linked_to s i (cs ! i)" "\<forall>i. i \<notin> I \<longrightarrow> cs ! i = gw_connections s ! i"
    unfolding progress_def by blast
  from assms(2) obtain t' w' cs' where 2: "s'' = s'\<lparr>gw_connections := cs', su_wires := w', su_trace := su_trace s' @ t'\<rparr>"
    "settled t'" "visible t' = bs" "length cs' = length (gw_connections s')"
    "\<forall>i \<in> J. i < length cs' \<and> linked_to s' i (cs' ! i)" "\<forall>i. i \<notin> J \<longrightarrow> cs' ! i = gw_connections s' ! i"
    unfolding progress_def by blast
  have "s'' = s\<lparr>gw_connections := cs', su_wires := w', su_trace := su_trace s @ (t @ t')\<rparr>" using 1(1) 2(1) by simp
  moreover have "\<forall>i \<in> I \<union> J. i < length cs' \<and> linked_to s i (cs' ! i)"
  proof
    fix i assume "i \<in> I \<union> J"
    then show "i < length cs' \<and> linked_to s i (cs' ! i)"
      using 1(1,4,5) 2(4,5,6) by (cases "i \<in> J") auto
  qed
  moreover have "\<forall>i. i \<notin> I \<union> J \<longrightarrow> cs' ! i = gw_connections s ! i" using 1(1,6) 2(6) by auto
  ultimately show ?thesis unfolding progress_def using 1 2(2-4)
    by (intro exI [of _ "t @ t'"] exI [of _ w'] exI [of _ cs']) (auto simp: visible_append)
qed

lemma calls_only_progress: "calls_only as s s' \<Longrightarrow> progress as {} s s'"
proof -
  assume "calls_only as s s'"
  then obtain t where t: "s' = s\<lparr>su_trace := su_trace s @ t\<rparr>" "settled t" "visible t = as" by (auto simp: calls_only_def)
  then have "s' = s\<lparr>gw_connections := gw_connections s, su_wires := su_wires s, su_trace := su_trace s @ t\<rparr>" by simp
  with t(2,3) show ?thesis unfolding progress_def
    by (intro exI [of _ t] exI [of _ "su_wires s"] exI [of _ "gw_connections s"]) simp
qed

lemma progress_same:
  assumes "progress as I s s'"
  shows "remote_address s' = remote_address s" "length (gw_connections s') = length (gw_connections s)"
    "gw_cluster_rank s' = gw_cluster_rank s" "gw_cluster_count s' = gw_cluster_count s"
    "su_addresses s' = su_addresses s" "gw_gateway_rank s' = gw_gateway_rank s" "su_gateway_count s' = su_gateway_count s"
    "su_serverfd s' = su_serverfd s" "gw_server_info s' = gw_server_info s"
  using assms by (auto simp: progress_def remote_address_def intro!: ext)

lemma change_connection_Some:
  "change_connection i f s = Some (r, s') \<longleftrightarrow>
    (\<exists>c. i < length (gw_connections s) \<and> f (gw_connections s ! i) = Some c \<and> r = Some () \<and>
       s' = s\<lparr>gw_connections := (gw_connections s)[i := c]\<rparr>)"
  by (auto simp: change_connection_def arr_read_def arr_write_def bind_eq_Some_conv split: if_splits)

text \<open>The loop over the streams of one connection, whichever side it is.\<close>

definition opens :: "nat \<Rightarrow> (nat \<Rightarrow> action) \<Rightarrow> (nat \<Rightarrow> int setup_act) \<Rightarrow> bool" where
  "opens i act body \<longleftrightarrow> (\<forall>k s s'. body k s = Some (Some 0, s') \<longrightarrow>
     (\<exists>fd t. calls_only [act k] s t \<and> set_stream i k fd t = Some (Some (), s')))"

lemma opens_connect: "opens i (\<lambda>k. Out (ucast (ga_ipv4 a)) (ga_port a + word_of_nat k)) (connect_stream ef S i a)"
  unfolding opens_def
proof (intro allI impI)
  fix k s s' assume "connect_stream ef S i a k s = Some (Some 0, s')"
  then obtain fd t where "socket_connect ef S (ga_ipv4 a) (ga_port a + word_of_nat k) s = Some (Some (CONNECT_OK, fd), t)"
    "set_stream i k fd t = Some (Some (), s')"
    by (auto simp: connect_stream_def andthen_Some split: if_splits) (auto simp: const_defs)
  with socket_connect_ok show "\<exists>fd t. calls_only [Out (ucast (ga_ipv4 a)) (ga_port a + word_of_nat k)] s t \<and>
      set_stream i k fd t = Some (Some (), s')" by blast
qed

lemma opens_accept: "opens i (\<lambda>k. In (port + word_of_nat k)) (accept_stream ef S port i a)"
  unfolding opens_def
proof (intro allI impI)
  fix k s s' assume "accept_stream ef S port i a k s = Some (Some 0, s')"
  then obtain fd t where "socket_accept ef S (port + word_of_nat k) (ucast (ga_ipv4 a)) 0 s = Some (Some (CONNECT_OK, fd), t)"
    "set_stream i k fd t = Some (Some (), s')"
    by (auto simp: accept_stream_def andthen_Some split: if_splits) (auto simp: const_defs)
  with socket_accept_ok show "\<exists>fd t. calls_only [In (port + word_of_nat k)] s t \<and>
      set_stream i k fd t = Some (Some (), s')" by blast
qed

lemma streams_opened:
  assumes "opens i act body" "remote_address s i = Some a"
    and "andthen (start_connection i a) (\<lambda>_. for_each body [0 ..< unat (ga_streams a)]) s = Some (Some 0, s')"
  shows "progress (map act [0 ..< unat (ga_streams a)]) {i} s s'"
proof -
  from assms(3) obtain s1 where st: "start_connection i a s = Some (Some (), s1)"
    and loop: "for_each body [0 ..< unat (ga_streams a)] s1 = Some (Some 0, s')" by (auto simp: andthen_Some)
  let ?c = "(gw_connections s ! i)\<lparr>gc_stream_count := uint (ga_streams a), gc_out_queue := []\<rparr>"
  from st have i: "i < length (gw_connections s)" and s1: "s1 = s\<lparr>gw_connections := (gw_connections s)[i := ?c]\<rparr>"
    by (auto simp: start_connection_def change_connection_Some)
  define I where "I j u \<longleftrightarrow> (\<exists>t c. u = s\<lparr>gw_connections := (gw_connections s)[i := c], su_trace := su_trace s @ t\<rparr> \<and>
    settled t \<and> visible t = map act [0 ..< j] \<and> linked j a c)" for j u
  have "I (length [0 ..< unat (ga_streams a)]) s'"
  proof (rule for_each_success [OF loop])
    show "I 0 s1" unfolding I_def s1
      by (rule exI [of _ "[]"], rule exI [of _ ?c]) (simp add: linked_def)
  next
    fix j t t' assume j: "j < length [0 ..< unat (ga_streams a)]" "I j t"
      "body ([0 ..< unat (ga_streams a)] ! j) t = Some (Some 0, t')"
    from j(2) obtain tr c where t: "t = s\<lparr>gw_connections := (gw_connections s)[i := c], su_trace := su_trace s @ tr\<rparr>"
      "settled tr" "visible tr = map act [0 ..< j]" "linked j a c" unfolding I_def by blast
    from assms(1) j(1,3) obtain fd u where u: "calls_only [act j] t u" "set_stream i j fd u = Some (Some (), t')"
      unfolding opens_def by fastforce
    from u(1) obtain more where more: "u = t\<lparr>su_trace := su_trace t @ more\<rparr>" "settled more" "visible more = [act j]"
      by (auto simp: calls_only_def)
    from u(2) more(1) t(1) i have len: "j < length (gc_sockets c)" and
      t': "t' = s\<lparr>gw_connections := (gw_connections s)[i := c\<lparr>gc_sockets := (gc_sockets c)[j := init_socket_info fd TYPE_DATA]\<rparr>],
        su_trace := su_trace s @ (tr @ more)\<rparr>"
      by (auto simp: set_stream_def change_connection_Some arr_write_def bind_eq_Some_conv split: if_splits)
    have "linked (Suc j) a (c\<lparr>gc_sockets := (gc_sockets c)[j := init_socket_info fd TYPE_DATA]\<rparr>)"
      using t(4) len by (auto simp: linked_def idle_def nth_list_update less_Suc_eq)
    moreover have "settled (tr @ more)" "visible (tr @ more) = map act [0 ..< Suc j]"
      using t(2,3) more(2,3) by (auto simp: visible_append)
    ultimately show "I (Suc j) t'" unfolding I_def using t' by blast
  qed
  then obtain t c where r: "s' = s\<lparr>gw_connections := (gw_connections s)[i := c], su_trace := su_trace s @ t\<rparr>"
    "settled t" "visible t = map act [0 ..< unat (ga_streams a)]" "linked (unat (ga_streams a)) a c"
    unfolding I_def by auto
  then show ?thesis using i assms(2) unfolding progress_def
    by (intro exI [of _ t] exI [of _ "su_wires s"] exI [of _ "(gw_connections s)[i := c]"]) (auto simp: linked_to_def)
qed

section \<open>One gateway\<close>

lemma receivefully_progress:
  "socket_receivefully ef fd n s = Some (Some r, s') \<Longrightarrow> progress [Ready_in] {} s s'"
  unfolding progress_def
  by (intro exI [of _ "[READ fd (snd r)]"] exI [of _ "su_wires s'"] exI [of _ "gw_connections s"])
     (auto simp: socket_receivefully_def Let_def split: prod.splits stop.splits)

lemma sendfully_progress:
  assumes "socket_sendfully ef fd m s = Some (Some r, s')"
  shows "progress [Ready_out] {} s s'"
proof -
  from assms obtain n where "s' = s\<lparr>gw_connections := gw_connections s, su_wires := su_wires s', su_trace := su_trace s @ [WRITE fd (take n m)]\<rparr>"
    by (auto simp: socket_sendfully_def Let_def split: prod.splits stop.splits)
  then show ?thesis unfolding progress_def
    by (intro exI [of _ "[WRITE fd (take n m)]"] exI [of _ "su_wires s'"] exI [of _ "gw_connections s"]) simp
qed

lemma ready_received: "receive_gateway_ready_opcode ef fd s = Some (Some r, s') \<Longrightarrow> progress [Ready_in] {} s s'"
  by (auto simp: receive_gateway_ready_opcode_def andthen_Some split: if_splits dest: receivefully_progress)

lemma ready_sent: "send_gateway_ready_opcode ef le fd s = Some (Some r, s') \<Longrightarrow> progress [Ready_out] {} s s'"
  by (auto simp: send_gateway_ready_opcode_def if_ok_def andthen_Some split: if_splits dest: sendfully_progress)

text \<open>What connecting to the gateway of cluster \<open>i\<close> shows, and what accepting its connections shows.\<close>

definition outgoing :: "gw_setup \<Rightarrow> nat \<Rightarrow> action list" where
  "outgoing s i = (case remote_address s i of None \<Rightarrow> []
     | Some a \<Rightarrow> map (\<lambda>k. Out (ucast (ga_ipv4 a)) (ga_port a + word_of_nat k)) [0 ..< unat (ga_streams a)])"

definition incoming :: "gw_setup \<Rightarrow> u16 \<Rightarrow> nat \<Rightarrow> action list" where
  "incoming s port i = (case remote_address s i of None \<Rightarrow> []
     | Some a \<Rightarrow> map (\<lambda>k. In (port + word_of_nat k)) [0 ..< unat (ga_streams a)])"

lemma progress_loop:
  assumes "for_each body xs s = Some (Some 0, s')"
    and "\<And>x t t' r. x \<in> set xs \<Longrightarrow> body x t = Some (Some 0, t') \<Longrightarrow> remote_address t = remote_address s \<Longrightarrow>
      gw_cluster_rank t = gw_cluster_rank s \<Longrightarrow> gw_cluster_count t = gw_cluster_count s \<Longrightarrow> progress (f x) (I x) t t'"
  shows "progress (concat (map f xs)) (\<Union>x \<in> set xs. I x) s s'"
proof -
  have "progress (concat (map f (take (length xs) xs))) (\<Union>x \<in> set (take (length xs) xs). I x) s s'"
  proof (rule for_each_success [OF assms(1), of "\<lambda>j. progress (concat (map f (take j xs))) (\<Union>x \<in> set (take j xs). I x) s"])
    show "progress (concat (map f (take 0 xs))) (\<Union>x \<in> set (take 0 xs). I x) s s" by (simp add: progress_refl)
  next
    fix j t t' assume j: "j < length xs" "progress (concat (map f (take j xs))) (\<Union>x \<in> set (take j xs). I x) s t"
      "body (xs ! j) t = Some (Some 0, t')"
    from progress_same [OF j(2)] assms(2) [of "xs ! j" t t'] j(1,3)
    have "progress (f (xs ! j)) (I (xs ! j)) t t'" by simp
    from progress_trans [OF j(2) this] j(1)
    show "progress (concat (map f (take (Suc j) xs))) (\<Union>x \<in> set (take (Suc j) xs). I x) s t'"
      by (simp add: take_Suc_conv_app_nth Un_commute)
  qed
  then show ?thesis by simp
qed

lemma connect_one:
  assumes "andthen the_state (\<lambda>s. andthen (lift (remote_address s i)) (\<lambda>a. andthen (start_connection i a) (\<lambda>_.
      for_each (connect_stream ef S i a) [0 ..< unat (ga_streams a)]))) s = Some (Some 0, s')"
  shows "progress (outgoing s i) {i} s s'"
proof -
  from assms obtain a where a: "remote_address s i = Some a"
    by (cases "remote_address s i") simp_all
  with assms have "andthen (start_connection i a) (\<lambda>_. for_each (connect_stream ef S i a) [0 ..< unat (ga_streams a)]) s = Some (Some 0, s')"
    by simp
  from streams_opened [OF opens_connect a this] a show ?thesis by (simp add: outgoing_def)
qed

definition actions_at :: "gw_setup \<Rightarrow> u16 \<Rightarrow> nat \<Rightarrow> action list" where
  "actions_at s port crank =
     (let me = unat (gw_cluster_rank s); later = [Suc me ..< unat (gw_cluster_count s)] in
      if crank = me then concat (map (outgoing s) later) @ map (\<lambda>i. Ready_out) later
      else if crank < me then incoming s port crank @ [Ready_in] else [])"

definition links_at :: "gw_setup \<Rightarrow> nat \<Rightarrow> nat set" where
  "links_at s crank =
     (let me = unat (gw_cluster_rank s) in
      if crank = me then {Suc me ..< unat (gw_cluster_count s)} else if crank < me then {crank} else {})"

lemma unat_of_nat_below: "n < unat (w :: u32) \<Longrightarrow> unat (word_of_nat n :: u32) = n"
  using unsigned_less [of w, where ?'a = nat] by (simp add: unsigned_of_nat take_bit_nat_eq_self)

lemma word_of_nat_rank:
  assumes "n < unat (w :: u32)"
  shows "word_of_nat n = (v :: u32) \<longleftrightarrow> n = unat v" "word_of_nat n < v \<longleftrightarrow> n < unat v"
  using unat_of_nat_below [OF assms] by (auto simp: word_less_nat_alt)

lemma connect_to_gateways_progress:
  assumes "connect_to_gateways ef le S crank port s = Some (Some 0, s')" "crank < unat (gw_cluster_count s)"
  shows "progress (actions_at s port crank) (links_at s crank) s s'"
proof -
  let ?me = "unat (gw_cluster_rank s)" let ?later = "[Suc ?me ..< unat (gw_cluster_count s)]"
  note rank = word_of_nat_rank [OF assms(2)]
  consider (eq) "crank = ?me" | (less) "crank < ?me" | (greater) "?me < crank" by linarith
  then show ?thesis
  proof cases
    case eq
    then have me: "word_of_nat crank = gw_cluster_rank s" using rank(1) by simp
    let ?connect = "\<lambda>i. andthen the_state (\<lambda>s. andthen (lift (remote_address s i)) (\<lambda>a. andthen (start_connection i a)
      (\<lambda>_. for_each (connect_stream ef S i a) [0 ..< unat (ga_streams a)])))"
    let ?ready = "\<lambda>i. andthen the_state (\<lambda>s. andthen (lift (first_fd s i)) (\<lambda>fd.
      andthen (send_gateway_ready_opcode ef le fd) (\<lambda>_. ret CONNECT_OK)))"
    from assms(1) me obtain e t where t: "for_each ?connect ?later s = Some (Some e, t)"
      "(if e \<noteq> CONNECT_OK then ret e else for_each ?ready ?later) t = Some (Some 0, s')"
      by (simp add: connect_to_gateways_def Let_def andthen_Some del: andthen_state) blast
    have e: "e = 0" using t(2) by (auto simp: const_defs split: if_splits)
    have 1: "progress (concat (map (outgoing s) ?later)) (\<Union>i \<in> set ?later. {i}) s t"
    proof (rule progress_loop [where I = "\<lambda>i. {i}"])
      show "for_each ?connect ?later s = Some (Some 0, t)" using t(1) e by simp
    next
      fix i u u' assume u: "?connect i u = Some (Some 0, u')" "remote_address u = remote_address s"
      from connect_one [OF u(1)] u(2) show "progress (outgoing s i) {i} u u'" by (simp add: outgoing_def)
    qed
    have 2: "progress (concat (map (\<lambda>i. [Ready_out]) ?later)) (\<Union>i \<in> set ?later. {}) t s'"
    proof (rule progress_loop [where I = "\<lambda>i. {}"])
      show "for_each ?ready ?later t = Some (Some 0, s')" using t(2) e by (simp add: const_defs)
    next
      fix i u u' assume u: "?ready i u = Some (Some 0, u')"
      then obtain fd r v where "send_gateway_ready_opcode ef le fd u = Some (Some r, u')"
        by (cases "first_fd u i") (auto simp: andthen_Some)
      then show "progress [Ready_out] {} u u'" by (rule ready_sent)
    qed
    have "links_at s crank = (\<Union>i \<in> set ?later. {i}) \<union> (\<Union>i \<in> set ?later. {})" using eq by (auto simp: links_at_def Let_def)
    moreover have "actions_at s port crank = concat (map (outgoing s) ?later) @ concat (map (\<lambda>i. [Ready_out]) ?later)"
      using eq by (simp add: actions_at_def Let_def concat_map_singleton del: upt_Suc)
    ultimately show ?thesis using progress_trans [OF 1 2] by simp
  next
    case less
    then have w: "word_of_nat crank \<noteq> gw_cluster_rank s" "word_of_nat crank < gw_cluster_rank s" using rank by auto
    from assms(1) w obtain a where a: "remote_address s crank = Some a"
      by (cases "remote_address s crank") (auto simp: connect_to_gateways_def Let_def)
    from assms(1) w a obtain e t where t:
      "andthen (start_connection crank a) (\<lambda>_. for_each (accept_stream ef S port crank a) [0 ..< unat (ga_streams a)]) s = Some (Some e, t)"
      "(if e \<noteq> CONNECT_OK then ret e else andthen the_state (\<lambda>s. andthen (lift (first_fd s crank)) (\<lambda>fd.
         andthen (receive_gateway_ready_opcode ef fd) (\<lambda>_. ret CONNECT_OK)))) t = Some (Some 0, s')"
      by (simp add: connect_to_gateways_def Let_def andthen_assoc [symmetric] del: andthen_state)
         (auto simp: andthen_Some simp del: andthen_state)
    have e: "e = 0" using t(2) by (auto simp: const_defs split: if_splits)
    from streams_opened [OF opens_accept a] t(1) e have 1: "progress (incoming s port crank) {crank} s t"
      using a by (auto simp: incoming_def)
    from t(2) e obtain fd r where "receive_gateway_ready_opcode ef fd t = Some (Some r, s')"
      by (cases "first_fd t crank") (auto simp: andthen_Some const_defs)
    then have "progress [Ready_in] {} t s'" by (rule ready_received)
    from progress_trans [OF 1 this] less show ?thesis by (simp add: actions_at_def links_at_def Let_def)
  next
    case greater
    then have "word_of_nat crank \<noteq> gw_cluster_rank s" "\<not> word_of_nat crank < gw_cluster_rank s" using rank by auto
    with assms(1) have "s' = s" by (simp add: connect_to_gateways_def Let_def)
    with greater show ?thesis by (simp add: actions_at_def links_at_def Let_def progress_refl)
  qed
qed

text \<open>The sockets are then polled: the descriptor does not block any more and is in the set of \<^verbatim>\<open>epoll\<close>.\<close>

definition polled :: "gw_setup \<Rightarrow> int \<Rightarrow> sock_id \<Rightarrow> bool" where
  "polled s fd i \<longleftrightarrow> EPOLL_ADD fd i \<in> set (su_trace s) \<and> (\<exists>flags. F_SETFL fd (flags OR O_NONBLOCK) \<in> set (su_trace s))"

lemma polled_later: "polled s fd i \<Longrightarrow> calls_only as s s' \<Longrightarrow> polled s' fd i"
  by (auto simp: polled_def calls_only_def)

definition all_polled :: "nat \<Rightarrow> gateway_connection \<Rightarrow> nat \<Rightarrow> gw_setup \<Rightarrow> bool" where
  "all_polled i c n s \<longleftrightarrow> (\<forall>k < n. k < length (gc_sockets c) \<and> polled s (si_socketfd (gc_sockets c ! k)) (Stream i k))"

lemma calls_only_same: "calls_only as s s' \<Longrightarrow> gw_connections s' = gw_connections s \<and> gw_cluster_rank s' = gw_cluster_rank s"
  by (auto simp: calls_only_def)

lemma poll_one:
  assumes "andthen (set_socket_non_blocking ef S fd) (\<lambda>status.
      if status \<noteq> EMPI_SUCCESS then after_ERROR ef (ret status)
      else andthen (add_socket_to_epoll ef S fd i) (\<lambda>status.
        if status \<noteq> EMPI_SUCCESS then after_ERROR ef (ret status) else ret 0)) s = Some (Some 0, s')"
  shows "calls_only [] s s' \<and> polled s' fd i"
proof -
  let ?fl = "word_of_int (sy_ret S (su_trace s) (F_GETFL fd)) :: u32"
  from assms have s': "s' = s\<lparr>su_trace := su_trace s @ [F_GETFL fd, F_SETFL fd (?fl OR O_NONBLOCK), EPOLL_ADD fd i]\<rparr>"
    by (auto simp: set_socket_non_blocking_def set_socket_flags_def add_socket_to_epoll_def andthen_assoc Let_def
        andthen_Some sys_call_def split: if_splits)
  then have "calls_only [] s s'" by (rule calls_onlyI) simp_all
  with s' show ?thesis by (auto simp: polled_def)
qed

lemma add_gateway_polled:
  assumes "add_gateway_to_epoll ef S i s = Some (Some 0, s')" "word_of_nat i \<noteq> gw_cluster_rank s"
    "i < length (gw_connections s)"
  shows "calls_only [] s s' \<and> all_polled i (gw_connections s ! i) (nat (gc_stream_count (gw_connections s ! i))) s'"
proof -
  let ?c = "gw_connections s ! i"
  let ?body = "\<lambda>k. andthen (lift (arr_read (gc_sockets ?c) (int k))) (\<lambda>info.
      andthen (set_socket_non_blocking ef S (si_socketfd info)) (\<lambda>status.
      if status \<noteq> EMPI_SUCCESS then after_ERROR ef (ret status)
      else andthen (add_socket_to_epoll ef S (si_socketfd info) (Stream i k)) (\<lambda>status.
        if status \<noteq> EMPI_SUCCESS then after_ERROR ef (ret status) else ret 0)))"
  from assms have loop: "for_each ?body [0 ..< nat (gc_stream_count ?c)] s = Some (Some 0, s')"
    by (simp add: add_gateway_to_epoll_def arr_read_def)
  define I where "I j t \<longleftrightarrow> calls_only [] s t \<and> all_polled i ?c j t" for j t
  have "I (length [0 ..< nat (gc_stream_count ?c)]) s'"
  proof (rule for_each_success [OF loop])
    show "I 0 s" unfolding I_def by (auto simp: all_polled_def intro!: calls_onlyI [of _ _ "[]"])
  next
    fix j t t' assume j: "j < length [0 ..< nat (gc_stream_count ?c)]" "I j t"
      "?body ([0 ..< nat (gc_stream_count ?c)] ! j) t = Some (Some 0, t')"
    have nth: "[0 ..< nat (gc_stream_count ?c)] ! j = j" using j(1) by simp
    note turn = j(3) [unfolded nth]
    from turn have len: "j < length (gc_sockets ?c)" by (cases "j < length (gc_sockets ?c)") (simp_all add: arr_read_def)
    with turn have "calls_only [] t t' \<and> polled t' (si_socketfd (gc_sockets ?c ! j)) (Stream i j)"
      by (intro poll_one [of ef S]) (simp add: arr_read_def)
    with j(2) len calls_only_trans [of "[]" s t "[]" t'] show "I (Suc j) t'"
      unfolding I_def all_polled_def by (auto simp: less_Suc_eq intro: polled_later)
  qed
  then show ?thesis by (simp add: I_def)
qed

text \<open>What a gateway has done, and what it is left with, when it is connected to the other clusters.\<close>

definition actions_of :: "gw_setup \<Rightarrow> u16 \<Rightarrow> action list" where
  "actions_of s port = concat (map (actions_at s port) [0 ..< unat (gw_cluster_count s)])"

definition link_ready :: "gw_setup \<Rightarrow> nat \<Rightarrow> bool" where
  "link_ready s i \<longleftrightarrow> i < length (gw_connections s) \<and> linked_to s i (gw_connections s ! i) \<and>
     all_polled i (gw_connections s ! i) (nat (gc_stream_count (gw_connections s ! i))) s"

lemma swap_updates: "s\<lparr>su_trace := t, gw_connections := cs\<rparr> = s\<lparr>gw_connections := cs, su_trace := t\<rparr>"
  by (cases s) simp

lemma connect_gateways_ok:
  assumes run: "connect_gateways ef le S s = Some (Some 0, s')"
  obtains mine t w cs where "remote_address s (unat (gw_cluster_rank s)) = Some mine"
    "s' = s\<lparr>gw_connections := cs, su_wires := w, su_trace := su_trace s @ t\<rparr>"
    "settled t" "visible t = actions_of s (ga_port mine)" "length cs = unat (gw_cluster_count s)"
    "\<And>i. i < unat (gw_cluster_count s) \<Longrightarrow> i \<noteq> unat (gw_cluster_rank s) \<Longrightarrow>
      (i < unat (gw_cluster_rank s) \<or> unat (gw_cluster_rank s) < unat (gw_cluster_count s)) \<Longrightarrow> link_ready s' i"
proof -
  let ?n = "unat (gw_cluster_count s)" and ?me = "unat (gw_cluster_rank s)"
  let ?s0 = "s\<lparr>gw_connections := fresh_connections S ?n, su_trace := su_trace s @ [MALLOC (int ?n)]\<rparr>"
  let ?connect = "\<lambda>port i. andthen (connect_to_gateways ef le S i port) (\<lambda>status. if_ok ef status status (ret 0))"
  let ?add = "\<lambda>i. andthen (add_gateway_to_epoll ef S i) (\<lambda>status. if_ok ef status status (ret 0))"
  from run obtain mine where mine: "remote_address s ?me = Some mine"
    by (cases "remote_address s ?me") (auto simp: connect_gateways_def Let_def const_defs split: if_splits)
  from run mine have "andthen (for_each (?connect (ga_port mine)) [0 ..< ?n])
      (\<lambda>e. if e \<noteq> 0 then ret e else for_each ?add [0 ..< ?n]) ?s0 = Some (Some 0, s')"
    by (auto simp: connect_gateways_def Let_def CONNECT_ERROR_ALLOCATE_def swap_updates split: if_splits)
  then obtain e u where u: "for_each (?connect (ga_port mine)) [0 ..< ?n] ?s0 = Some (Some e, u)"
    "(if e \<noteq> 0 then ret e else for_each ?add [0 ..< ?n]) u = Some (Some 0, s')"
    unfolding andthen_Some by blast
  then have e: "e = 0" by (auto split: if_splits)
  have "outgoing ?s0 = outgoing s" by (rule ext) (simp add: outgoing_def remote_address_def)
  then have actions: "actions_at ?s0 (ga_port mine) i = actions_at s (ga_port mine) i" "links_at ?s0 i = links_at s i" for i
    by (simp_all add: actions_at_def links_at_def incoming_def remote_address_def Let_def)
  have 1: "progress (concat (map (actions_at s (ga_port mine)) [0 ..< ?n])) (\<Union>i \<in> set [0 ..< ?n]. links_at s i) ?s0 u"
  proof (rule progress_loop [where I = "links_at s"])
    show "for_each (?connect (ga_port mine)) [0 ..< ?n] ?s0 = Some (Some 0, u)" using u(1) e by simp
  next
    fix i v v' assume i: "i \<in> set [0 ..< ?n]" "?connect (ga_port mine) i v = Some (Some 0, v')"
      "remote_address v = remote_address ?s0" "gw_cluster_rank v = gw_cluster_rank ?s0" "gw_cluster_count v = gw_cluster_count ?s0"
    from i(2) have "connect_to_gateways ef le S i (ga_port mine) v = Some (Some 0, v')"
      by (auto simp: andthen_Some if_ok_def const_defs split: if_splits)
    from connect_to_gateways_progress [OF this] i(1,5)
    have "progress (actions_at v (ga_port mine) i) (links_at v i) v v'" by simp
    moreover have "actions_at v (ga_port mine) i = actions_at ?s0 (ga_port mine) i" "links_at v i = links_at ?s0 i"
      unfolding actions_at_def links_at_def outgoing_def incoming_def i(3,4,5) by simp_all
    ultimately show "progress (actions_at s (ga_port mine) i) (links_at s i) v v'" by (simp only: actions)
  qed
  from 1 obtain t w cs where p: "u = s\<lparr>gw_connections := cs, su_wires := w, su_trace := su_trace s @ ([MALLOC (int ?n)] @ t)\<rparr>"
    "settled t" "visible t = actions_of s (ga_port mine)" "length cs = ?n"
    "\<forall>i \<in> (\<Union>i \<in> set [0 ..< ?n]. links_at s i). i < length cs \<and> linked_to ?s0 i (cs ! i)"
    unfolding progress_def actions_of_def by (auto simp: fresh_connections_def)
  have lk: "linked_to ?s0 i c = linked_to s i c" for i c by (simp add: linked_to_def remote_address_def)
  define J where "J j v \<longleftrightarrow> calls_only [] u v \<and>
    (\<forall>i < j. i \<noteq> ?me \<longrightarrow> all_polled i (cs ! i) (nat (gc_stream_count (cs ! i))) v)" for j v
  have "J (length [0 ..< ?n]) s'"
  proof (rule for_each_success [of ?add "[0 ..< ?n]" u])
    show "for_each ?add [0 ..< ?n] u = Some (Some 0, s')" using u(2) e by simp
    show "J 0 u" unfolding J_def by (auto intro!: calls_onlyI [of _ _ "[]"])
  next
    fix j v v' assume j: "j < length [0 ..< ?n]" "J j v" "?add ([0 ..< ?n] ! j) v = Some (Some 0, v')"
    from j(1,3) have add: "add_gateway_to_epoll ef S j v = Some (Some 0, v')"
      by (auto simp: andthen_Some if_ok_def const_defs split: if_splits)
    from j(2) have v: "calls_only [] u v" by (simp add: J_def)
    from calls_only_same [OF v] p(1) have same: "gw_connections v = cs" "gw_cluster_rank v = gw_cluster_rank s" by simp_all
    from j(1) word_of_nat_rank(1) [of j "gw_cluster_count s"] have eq: "word_of_nat j = gw_cluster_rank s \<longleftrightarrow> j = ?me" by simp
    have step: "calls_only [] v v' \<and> (j \<noteq> ?me \<longrightarrow> all_polled j (cs ! j) (nat (gc_stream_count (cs ! j))) v')"
    proof (cases "j = ?me")
      case True
      with add eq same(2) have "v' = v" by (simp add: add_gateway_to_epoll_def)
      with True show ?thesis by (auto intro!: calls_onlyI [of _ _ "[]"])
    next
      case False
      with add_gateway_polled [OF add] eq same j(1) p(4) show ?thesis by simp
    qed
    from j(2) step calls_only_trans [OF v, of "[]" v'] show "J (Suc j) v'"
      unfolding J_def all_polled_def by (auto simp: less_Suc_eq intro: polled_later)
  qed
  then obtain t' where t': "s' = u\<lparr>su_trace := su_trace u @ t'\<rparr>" "settled t'" "visible t' = []"
    and po: "\<forall>i < ?n. i \<noteq> ?me \<longrightarrow> all_polled i (cs ! i) (nat (gc_stream_count (cs ! i))) s'"
    unfolding J_def by (auto simp: calls_only_def)
  show thesis
  proof (rule that [OF mine])
    show s': "s' = s\<lparr>gw_connections := cs, su_wires := w, su_trace := su_trace s @ ([MALLOC (int ?n)] @ t @ t')\<rparr>"
      using t'(1) p(1) by simp
    show "settled ([MALLOC (int ?n)] @ t @ t')" by simp
    have "visible ([MALLOC (int ?n)] @ t @ t') = visible [MALLOC (int ?n)] @ visible t @ visible t'"
      using p(2) t'(2) by (simp add: visible_append settled_append)
    then show "visible ([MALLOC (int ?n)] @ t @ t') = actions_of s (ga_port mine)" using p(3) t'(3) by simp
    show "length cs = ?n" by (rule p(4))
  next
    fix i assume i: "i < ?n" "i \<noteq> ?me" "i < ?me \<or> ?me < ?n"
    have "i \<in> links_at s (min i ?me)" using i by (auto simp: links_at_def Let_def min_def)
    moreover have "min i ?me < ?n" using i by auto
    ultimately have "linked_to s i (cs ! i)" using p(5) lk by (metis UN_I atLeast_upt lessThan_iff)
    with i po t'(1) p(1,4) show "link_ready s' i" unfolding link_ready_def by simp
  qed
qed

end
