(* ===== verification/Rendezvous.thy ===== *)
theory Rendezvous
  imports Gateway_Links
begin

text \<open>
  All gateways together. Connecting and accepting, sending and awaiting the ready message are meetings of
  two gateways; a gateway takes part in its meetings one after the other (its script). The scripts of all
  gateways are the restrictions of one sequence of meetings, and therefore a deadlock cannot occur.
\<close>

section \<open>Processes that meet\<close>

text \<open>A meeting takes place when it is the next of each party.\<close>

inductive meet :: "('e \<Rightarrow> nat set) \<Rightarrow> (nat \<Rightarrow> 'e list) \<Rightarrow> (nat \<Rightarrow> 'e list) \<Rightarrow> bool" for parties where
  meeting: "parties e \<noteq> {} \<Longrightarrow> \<forall>p \<in> parties e. \<exists>rest. sc p = e # rest \<Longrightarrow>
    meet parties sc (\<lambda>p. if p \<in> parties e then drop 1 (sc p) else sc p)"

definition agreed :: "('e \<Rightarrow> nat set) \<Rightarrow> 'e list \<Rightarrow> nat \<Rightarrow> 'e list" where
  "agreed parties es p = filter (\<lambda>e. p \<in> parties e) es"

lemma agreed_remove1:
  assumes "p \<in> parties e" "agreed parties es p = e # rest"
  shows "agreed parties (remove1 e es) p = rest"
  using assms by (simp add: agreed_def filter_remove1)

lemma agreed_remove1_other: "p \<notin> parties e \<Longrightarrow> agreed parties (remove1 e es) p = agreed parties es p"
  by (simp add: agreed_def filter_remove1 remove1_idem)

lemma meet_agreed:
  assumes "meet parties (agreed parties es) sc"
  obtains e where "e \<in> set es" "sc = agreed parties (remove1 e es)"
  using assms
proof cases
  case (meeting e)
  then obtain p rest where p: "p \<in> parties e" "agreed parties es p = e # rest" by blast
  then have "e \<in> set (agreed parties es p)" by simp
  then have "e \<in> set es" by (simp add: agreed_def)
  moreover have "sc = agreed parties (remove1 e es)"
  proof
    fix q
    show "sc q = agreed parties (remove1 e es) q"
    proof (cases "q \<in> parties e")
      case True
      with meeting(3) obtain rest where "agreed parties es q = e # rest" by blast
      with agreed_remove1 [OF True this] True show ?thesis by (simp add: meeting(1))
    qed (simp add: meeting(1) agreed_remove1_other)
  qed
  ultimately show thesis by (rule that)
qed

lemma agreed_moves:
  assumes "es \<noteq> []" "\<forall>e \<in> set es. parties e \<noteq> {}"
  shows "\<exists>sc. meet parties (agreed parties es) sc"
proof -
  from assms obtain e rest where "es = e # rest" "parties e \<noteq> {}" by (cases es) auto
  then have "\<forall>p \<in> parties e. \<exists>rest. agreed parties es p = e # rest" by (simp add: agreed_def)
  from meet.intros [of parties e "agreed parties es", OF \<open>parties e \<noteq> {}\<close> this] show ?thesis by blast
qed

text \<open>However the meetings are scheduled: there are at most \<open>length es\<close> of them, and when none is possible
  any more, every process has come to the end.\<close>

theorem agreed_run:
  assumes "(meet parties ^^ k) (agreed parties es) sc" "\<forall>e \<in> set es. parties e \<noteq> {}"
  shows "k \<le> length es \<and> ((\<forall>p. sc p = []) \<or> (\<exists>sc'. meet parties sc sc'))"
proof -
  have "\<exists>es'. sc = agreed parties es' \<and> set es' \<subseteq> set es \<and> length es' + k = length es"
    using assms(1)
  proof (induction k arbitrary: sc)
    case (Suc k)
    from Suc.prems obtain sc1 where sc1: "(meet parties ^^ k) (agreed parties es) sc1" "meet parties sc1 sc" by auto
    from Suc.IH [OF sc1(1)] obtain es' where es': "sc1 = agreed parties es'" "set es' \<subseteq> set es" "length es' + k = length es"
      by blast
    from meet_agreed [OF sc1(2) [unfolded es'(1)]] obtain e where e: "e \<in> set es'" "sc = agreed parties (remove1 e es')" .
    moreover have "set (remove1 e es') \<subseteq> set es" using es'(2) set_remove1_subset by fast
    moreover have "length (remove1 e es') + Suc k = length es" using es'(3) e(1) by (simp add: length_remove1) (metis Suc_pred length_pos_if_in_set add_Suc)
    ultimately show ?case by blast
  qed auto
  then obtain es' where es': "sc = agreed parties es'" "set es' \<subseteq> set es" "length es' + k = length es" by blast
  show ?thesis
  proof (cases "es' = []")
    case True
    with es' show ?thesis by (simp add: agreed_def)
  next
    case False
    with es' assms(2) agreed_moves [of es' parties] show ?thesis by (auto simp: subset_iff)
  qed
qed

section \<open>The meetings of the gateways\<close>

text \<open>\<open>Link i j k\<close>: the gateway of cluster \<open>i\<close> connects stream \<open>k\<close> to that of cluster \<open>j\<close>; \<open>Ready i j\<close>: it
  tells it that it is ready.\<close>

datatype meeting = Link nat nat nat | Ready nat nat

fun parties :: "meeting \<Rightarrow> nat set" where
  "parties (Link i j k) = {i, j}"
| "parties (Ready i j) = {i, j}"

lemma parties_nonempty: "parties e \<noteq> {}"
  by (cases e) simp_all

text \<open>The meetings that the gateway of cluster \<open>i\<close> starts, with \<open>m\<close> streams and \<open>n\<close> clusters.\<close>

definition started_by :: "nat \<Rightarrow> nat \<Rightarrow> nat \<Rightarrow> meeting list" where
  "started_by n m i = concat (map (\<lambda>j. map (Link i j) [0 ..< m]) [Suc i ..< n]) @ map (Ready i) [Suc i ..< n]"

definition all_meetings :: "nat \<Rightarrow> nat \<Rightarrow> meeting list" where
  "all_meetings n m = concat (map (started_by n m) [0 ..< n])"

definition script :: "nat \<Rightarrow> nat \<Rightarrow> nat \<Rightarrow> meeting list" where
  "script n m c = agreed parties (all_meetings n m) c"

lemma filter_upt_single:
  "filter (\<lambda>j. j = c) [a ..< n] = (if a \<le> c \<and> c < n then [c] else [])"
  by (induction n) auto

lemma filter_concat_map_eq:
  assumes "\<And>j. filter P (f j) = (if j = c then g j else [])"
  shows "filter P (concat (map f [a ..< n])) = (if a \<le> c \<and> c < n then g c else [])"
  by (induction n) (auto simp: assms)

lemma started_involves:
  assumes "i < n" "c < n"
  shows "filter (\<lambda>e. c \<in> parties e) (started_by n m i) =
    (if c = i then started_by n m i else if i < c then map (Link i c) [0 ..< m] @ [Ready i c] else [])"
proof (cases "c = i")
  case True
  have "\<forall>e \<in> set (started_by n m i). i \<in> parties e" by (auto simp: started_by_def)
  with True show ?thesis by (simp add: filter_True)
next
  case False
  have "filter (\<lambda>e. c \<in> parties e) (map (Link i j) [0 ..< m]) = (if j = c then map (Link i j) [0 ..< m] else [])" for j
    using False by (auto simp: filter_map comp_def)
  then have 1: "filter (\<lambda>e. c \<in> parties e) (concat (map (\<lambda>j. map (Link i j) [0 ..< m]) [Suc i ..< n])) =
      (if Suc i \<le> c \<and> c < n then map (Link i c) [0 ..< m] else [])"
    by (rule filter_concat_map_eq)
  have "(\<lambda>j. c \<in> parties (Ready i j)) = (\<lambda>j. j = c)" using False by auto
  then have 2: "filter (\<lambda>e. c \<in> parties e) (map (Ready i) [Suc i ..< n]) = (if Suc i \<le> c \<and> c < n then [Ready i c] else [])"
    by (simp add: filter_map comp_def filter_upt_single)
  show ?thesis using False assms unfolding started_by_def filter_append 1 2 by auto
qed

lemma script_blocks:
  assumes "c < n"
  shows "script n m c = concat (map (\<lambda>i. if c = i then started_by n m i
      else if i < c then map (Link i c) [0 ..< m] @ [Ready i c] else []) [0 ..< n])"
proof -
  have "script n m c = concat (map (\<lambda>i. filter (\<lambda>e. c \<in> parties e) (started_by n m i)) [0 ..< n])"
    by (simp add: script_def agreed_def all_meetings_def filter_concat comp_def)
  also have "\<dots> = concat (map (\<lambda>i. if c = i then started_by n m i
      else if i < c then map (Link i c) [0 ..< m] @ [Ready i c] else []) [0 ..< n])"
    by (intro arg_cong [where f = concat] map_cong refl started_involves) (use assms in auto)
  finally show ?thesis .
qed

text \<open>How a meeting shows in the calls of the gateway of cluster \<open>c\<close>, given the addresses of all.\<close>

fun shows_at :: "(nat \<Rightarrow> gateway_address) \<Rightarrow> nat \<Rightarrow> meeting \<Rightarrow> action" where
  "shows_at adr c (Link i j k) =
     (if c = i then Out (ucast (ga_ipv4 (adr j))) (ga_port (adr j) + word_of_nat k) else In (ga_port (adr j) + word_of_nat k))"
| "shows_at adr c (Ready i j) = (if c = i then Ready_out else Ready_in)"

lemma actions_follow_script:
  assumes "\<And>i. i < n \<Longrightarrow> remote_address s i = Some (adr i) \<and> unat (ga_streams (adr i)) = m"
    and "unat (gw_cluster_rank s) = c" "unat (gw_cluster_count s) = n" "c < n"
  shows "actions_of s (ga_port (adr c)) = map (shows_at adr c) (script n m c)"
proof -
  have "actions_at s (ga_port (adr c)) i = map (shows_at adr c) (if c = i then started_by n m i
      else if i < c then map (Link i c) [0 ..< m] @ [Ready i c] else [])" if "i < n" for i
  proof -
    have "map (shows_at adr c) (started_by n m c) = concat (map (outgoing s) [Suc c ..< n]) @ map (\<lambda>i. Ready_out) [Suc c ..< n]"
      using assms(1) by (auto simp: started_by_def map_concat comp_def outgoing_def intro!: arg_cong [where f = concat])
    moreover have "incoming s (ga_port (adr c)) i = map (\<lambda>k. In (ga_port (adr c) + word_of_nat k)) [0 ..< m]"
      using assms(1) [OF that] by (simp add: incoming_def)
    ultimately show ?thesis using assms(2,3) by (auto simp: actions_at_def Let_def)
  qed
  then show ?thesis unfolding script_blocks [OF assms(4)] actions_of_def assms(3)
    by (auto simp: map_concat comp_def intro!: arg_cong [where f = concat])
qed

end
