(* ===== verification/Process_Init.thy ===== *)
theory Process_Init
  imports Gateway_Init Process_State
begin

text \<open>
  The beginning of every process: \<open>messaging_init\<close> of \<^verbatim>\<open>src/backend/messaging.c\<close>, which learns the
  configuration of the run and makes the last processes of the cluster its gateways, and \<open>EMPI_Init\<close> of
  \<^verbatim>\<open>src/backend/empi.c\<close>, which fills the registries of an application process and turns a gateway
  process into the gateway. Further the end of a gateway, when its main loop is done.
\<close>

section \<open>The messaging layer\<close>

text \<open>
  A broadcast of \<open>n\<close> integers by the last process: it keeps its own \<open>xs\<close>, the others get what the
  library delivers.
\<close>

definition bcast :: "bool \<Rightarrow> sys \<Rightarrow> bool \<Rightarrow> nat \<Rightarrow> int list \<Rightarrow> 'r setup_act \<Rightarrow> (int list \<Rightarrow> 'r setup_act) \<Rightarrow> 'r setup_act" where
  "bcast ef S root n xs failed k =
     andthen the_state (\<lambda>s.
     let xs' = (if root then xs else sy_bcast S (su_trace s)) in
     andthen (sys_call S (BCAST (if root then xs else []))) (\<lambda>error.
     if error \<noteq> 0 then after_ERROR ef failed
     else if length xs' \<noteq> n then lift None
     else k xs'))"

text \<open>The process is an application process or a gateway; the result: the error code of the call that
  splits the communicator, the rank for the application, and the application's communicator.\<close>

definition choose_role :: "sys \<Rightarrow> int \<Rightarrow> int \<Rightarrow> (int \<times> int \<times> nat option) setup_act" where
  "choose_role S rank sz =
     andthen the_state (\<lambda>s.
     let las = su_local_application_size s in
     if word_of_int rank \<ge> las then
       let g = sz - (rank + 1) in
       andthen (change (\<lambda>s. s\<lparr>su_applications_only := None, su_my_gateway := -1, su_server_gateway := 0,
         gw_gateway_rank := g, su_gateways_only := sy_comm S (su_trace s)\<rparr>)) (\<lambda>_.
       andthen (sys_call S (COMM_SPLIT 0 g)) (\<lambda>error. ret (error, -1, None)))
     else if su_gateway_count s = 0 then lift None
     else
       let world = sy_comm S (su_trace s) in
       andthen (change (\<lambda>s. s\<lparr>su_gateways_only := None,
         su_my_gateway := sint (las + (word_of_int rank mod su_gateway_count s)), su_server_gateway := sz - 1,
         gw_gateway_rank := -1, su_applications_only := world\<rparr>)) (\<lambda>_.
       andthen (sys_call S (COMM_SPLIT 1 rank)) (\<lambda>error. ret (error, rank, world))))"

definition share_word :: "bool \<Rightarrow> sys \<Rightarrow> bool \<Rightarrow> (gw_setup \<Rightarrow> u32) \<Rightarrow> (u32 \<Rightarrow> gw_setup \<Rightarrow> gw_setup) \<Rightarrow> 'r setup_act \<Rightarrow> 'r setup_act \<Rightarrow> 'r setup_act" where
  "share_word ef S root get put failed k =
     andthen the_state (\<lambda>s. bcast ef S root 1 [sint (get s)] failed (\<lambda>xs. andthen (change (put (word_of_int (xs ! 0)))) (\<lambda>_. k)))"

definition share_array :: "bool \<Rightarrow> sys \<Rightarrow> bool \<Rightarrow> u32 \<Rightarrow> (gw_setup \<Rightarrow> int list) \<Rightarrow> (int list \<Rightarrow> gw_setup \<Rightarrow> gw_setup) \<Rightarrow> 'r setup_act \<Rightarrow> 'r setup_act \<Rightarrow> 'r setup_act" where
  "share_array ef S root n get put failed k =
     andthen the_state (\<lambda>s. bcast ef S root (unat n) (get s) failed (\<lambda>xs. andthen (change (put xs)) (\<lambda>_. k)))"

definition share_configuration :: "bool \<Rightarrow> sys \<Rightarrow> bool \<Rightarrow> 'r setup_act \<Rightarrow> 'r setup_act \<Rightarrow> 'r setup_act" where
  "share_configuration ef S root failed k =
     share_word ef S root gw_cluster_count (\<lambda>x. gw_cluster_count_update (\<lambda>_. x)) failed
    (share_word ef S root gw_cluster_rank (\<lambda>x. gw_cluster_rank_update (\<lambda>_. x)) failed
    (share_word ef S root su_local_application_size (\<lambda>x. su_local_application_size_update (\<lambda>_. x)) failed
    (share_word ef S root su_gateway_count (\<lambda>x. su_gateway_count_update (\<lambda>_. x)) failed
    (andthen the_state (\<lambda>s.
     let n = gw_cluster_count s in
     andthen (if root then ret 1 else sys_call S (MALLOC (uint n * 4))) (\<lambda>sizes.
     andthen (if root then ret 1 else sys_call S (MALLOC (uint (n + 1) * 4))) (\<lambda>offsets.
     if sizes = 0 \<or> offsets = 0 then after_ERROR ef failed
     else share_array ef S root n su_cluster_sizes (\<lambda>xs. su_cluster_sizes_update (\<lambda>_. xs)) failed
         (share_array ef S root (n + 1) su_cluster_offsets (\<lambda>xs. su_cluster_offsets_update (\<lambda>_. xs)) failed k))))))))"

text \<open>
  The result: the error code, and the rank, the size and the communicator for the application, if they
  have been set. What \<open>generic_gateway_init\<close> returns is not looked at.
\<close>

type_synonym init_values = "int \<times> (int \<times> int \<times> nat option) option"

definition messaging_init :: "bool \<Rightarrow> bool \<Rightarrow> sys \<Rightarrow> int \<Rightarrow> int \<Rightarrow> string list \<Rightarrow> (init_values \<times> string list) setup_act" where
  "messaging_init ef le S rank sz argv =
     andthen (change (\<lambda>s. s\<lparr>gw_cluster_count := 0, gw_cluster_rank := - 1\<rparr>)) (\<lambda>_.
     let root = (rank = sz - 1) in
     andthen (if root then master_gateway_init ef le S rank sz argv else ret (EMPI_SUCCESS, argv)) (\<lambda>(status, argv).
     let failed = ret ((EMPI_ERR_INTERN, None), argv) in
     bcast ef S root 1 [status] failed (\<lambda>xs.
     if xs ! 0 \<noteq> EMPI_SUCCESS then after_ERROR ef failed
     else share_configuration ef S root failed
    (andthen (change (\<lambda>s. s\<lparr>su_gateways_and_applications := sy_comm S (su_trace s)\<rparr>)) (\<lambda>_.
     andthen (sys_call S COMM_DUP) (\<lambda>error.
     if error \<noteq> 0 then after_ERROR ef failed
     else andthen the_state (\<lambda>s.
     let adjusted_size = sint (su_local_application_size s) in
     andthen (choose_role S rank sz) (\<lambda>(error, adjusted_rank, world).
     if error \<noteq> 0 then after_ERROR ef failed
     else andthen (change (\<lambda>s. s\<lparr>gw_my_pid := SET_PID (gw_cluster_rank s) (word_of_int rank)\<rparr>)) (\<lambda>_.
     andthen the_state (\<lambda>s.
     andthen (if gw_gateway_rank s \<ge> 0 then generic_gateway_init ef le S else ret 0) (\<lambda>_.
     andthen (sys_call S BARRIER) (\<lambda>error.
     if error \<noteq> 0 then after_ERROR ef (ret ((EMPI_ERR_INTERN, Some (adjusted_rank, adjusted_size, world)), argv))
     else ret ((EMPI_SUCCESS, Some (adjusted_rank, adjusted_size, world)), argv)))))))))))))"

section \<open>The end of a gateway\<close>

definition OPCODE_CLOSE_LINK :: u32 where [const_defs]: "OPCODE_CLOSE_LINK = 127"

definition cleanup :: "bool \<Rightarrow> bool \<Rightarrow> sys \<Rightarrow> unit setup_act" where
  "cleanup ef le S =
     andthen the_state (\<lambda>s.
     let fd = su_serverfd s in
     andthen (if gw_gateway_rank s = 0 then
         andthen (set_socket_blocking ef S fd) (\<lambda>_.
         andthen (socket_sendfully ef fd (host_bytes le (htonl le OPCODE_CLOSE_LINK))) (\<lambda>_.
         andthen (socket_receivefully ef fd 4) (\<lambda>_.
         sys_call S (CLOSE fd))))
       else ret 0) (\<lambda>_.
     andthen (sys_call S BARRIER) (\<lambda>_.
     andthen (disconnect_gateways S) (\<lambda>_.
     andthen the_state (\<lambda>s.
     andthen (sys_call S (CLOSE (su_epollfd s))) (\<lambda>_. ret ()))))))"

text \<open>The gateway of the running process: the main loop, given the rounds of its environment, then the end.\<close>

definition run_gateway ::
  "bool \<Rightarrow> bool \<Rightarrow> sys \<Rightarrow> int \<Rightarrow> (mpi_round \<times> socket_event list) list \<Rightarrow> int setup_act" where
  "run_gateway ef le S ep rounds s = do {
     (result, gw) \<leftarrow> messaging_run_gateway ef le ep rounds (gateway.truncate s);
     let s' = gateway.extend gw (gateway.more s);
     case result of
       None \<Rightarrow> wait_more s'
     | Some error \<Rightarrow>
         if error \<noteq> EMPI_SUCCESS then ret error s'
         else andthen (sys_call S BARRIER) (\<lambda>error.
           if error \<noteq> 0 then after_ERROR ef (ret error)
           else andthen (cleanup ef le S) (\<lambda>_.
             andthen (sys_call S MPI_FINALIZE) (\<lambda>error.
             if error \<noteq> 0 then after_ERROR ef (ret error) else ret EMPI_SUCCESS))) s'
   }"

section \<open>EMPI_Init\<close>

text \<open>
  The environment of the registries: the addresses that \<^verbatim>\<open>malloc\<close> returns for the predefined objects,
  what memory holds before, and the answers of the server when a process gives up.
\<close>

record init_env =
  in_ok :: "nat \<Rightarrow> bool"
  in_world :: "addr option"
  in_self :: "addr option"
  in_null :: "addr option"
  in_junk :: "nat \<Rightarrow> int"
  in_group :: "addr option"
  in_junk_group :: group_s
  in_types :: "addr option list"
  in_ops :: "addr option list"
  in_finalize :: "int \<times> int \<times> int"
  in_epoll :: int
  in_rounds :: "(mpi_round \<times> socket_event list) list"

datatype outcome = Returns int | Exits

type_synonym ('r, 'a, 'w) init_act = "('r, gw_setup \<times> ('a, 'w) proc) act"

definition on_setup :: "'r setup_act \<Rightarrow> ('r, 'a, 'w) init_act" where
  "on_setup m = (\<lambda>(s, p). map_option (\<lambda>(r, s'). (r, (s', p))) (m s))"

definition on_process :: "(('a, 'w) proc \<Rightarrow> ('r \<times> ('a, 'w) proc) run) \<Rightarrow> ('r, 'a, 'w) init_act" where
  "on_process f = (\<lambda>(s, p). map_option (\<lambda>(r, p'). (Some r, (s, p'))) (f p))"

text \<open>The registries after the communicators, in the order the code initializes them.\<close>

definition init_registries :: "bool \<Rightarrow> init_env \<Rightarrow> (('a, 'w) proc \<Rightarrow> (int \<times> ('a, 'w) proc) run) list" where
  "init_registries ef A =
     [\<lambda>p. do { (e, r) \<leftarrow> init_groups ef (in_group A) (in_junk_group A) (ps_groups p); Some (e, p\<lparr>ps_groups := r\<rparr>) },
      \<lambda>p. let (e, r) = init_request (ps_requests p) in Some (e, p\<lparr>ps_requests := r\<rparr>),
      \<lambda>p. do { (e, r) \<leftarrow> init_datatypes ef (in_types A) (ps_types p); Some (e, p\<lparr>ps_types := r\<rparr>) },
      \<lambda>p. do { (e, r) \<leftarrow> init_operations ef (in_ops A) (ps_ops p); Some (e, p\<lparr>ps_ops := r\<rparr>) },
      \<lambda>p. let (e, r) = init_files (ps_files p) in Some (e, p\<lparr>ps_files := r\<rparr>),
      \<lambda>p. let (e, r) = init_infos (ps_infos p) in Some (e, p\<lparr>ps_infos := r\<rparr>)]"

definition init_comms :: "bool \<Rightarrow> init_env \<Rightarrow> int \<Rightarrow> int \<Rightarrow> nat option \<Rightarrow> gw_setup \<Rightarrow> comm_reg \<Rightarrow> (int \<times> comm_reg) run" where
  "init_comms ef A rank sz world s r =
     init_communicators ef (in_ok A) (in_world A) (in_self A) (in_null A) (in_junk A) (gw_my_pid s) rank sz world
       (sint (gw_cluster_rank s)) (sint (gw_cluster_count s)) (su_cluster_sizes s) (su_cluster_offsets s) r"

definition EMPI_Init :: "bool \<Rightarrow> bool \<Rightarrow> sys \<Rightarrow> init_env \<Rightarrow> string list \<Rightarrow> (outcome, 'a, 'w) init_act" where
  "EMPI_Init ef le S A argv =
     andthen (on_setup (sys_call S MPI_INIT)) (\<lambda>status.
     if status \<noteq> 0 then after_ERROR ef (ret (Returns EMPI_ERR_INTERN))
     else andthen (on_setup (sys_call S MPI_RANK)) (\<lambda>rank.
     andthen (on_setup (sys_call S MPI_SIZE)) (\<lambda>sz.
     andthen (on_setup (messaging_init ef le S rank sz argv)) (\<lambda>((status, vs), argv).
     let failed = (\<lambda>code. andthen (on_setup (sys_call S MPI_FINALIZE)) (\<lambda>_. after_ERROR ef (ret (Returns code)))) in
     if status \<noteq> EMPI_SUCCESS then failed EMPI_ERR_INTERN
     else case vs of None \<Rightarrow> lift None | Some (empi_rank, empi_size, world) \<Rightarrow>
     if empi_rank = -1 then
       andthen (on_setup (run_gateway ef le S (in_epoll A) (in_rounds A))) (\<lambda>status.
       if status \<noteq> EMPI_SUCCESS then after_ERROR ef (ret Exits) else ret Exits)
     else
       andthen (\<lambda>(s, p). map_option (\<lambda>(e, r). (Some e, (s, p\<lparr>ps_comms := r\<rparr>)))
           (init_comms ef A empi_rank empi_size world s (ps_comms p))) (\<lambda>status.
       if status \<noteq> EMPI_SUCCESS then
         andthen (\<lambda>(s, p). case in_finalize A of (e1, e2, e3) \<Rightarrow>
             map_option (\<lambda>(e, sent). (Some e, (s, p))) (messaging_finalize ef le (gw_my_pid s) e1 e2 e3 (ps_comms p)))
           (\<lambda>_. failed status)
       else andthen (for_each on_process (init_registries ef A)) (\<lambda>status.
         if status \<noteq> EMPI_SUCCESS then failed status else ret (Returns EMPI_SUCCESS)))))))"

end
