(* ===== verification/Example_Setup.thy ===== *)
theory Example_Setup
  imports Rendezvous Process_Init Example_Process
begin

text \<open>
  A small run for the witnesses of the set-up: two clusters with one gateway each, two streams between them, and a
  kernel that accepts and hands out one byte at a time.
\<close>

definition ex_ret :: "call list \<Rightarrow> call \<Rightarrow> int" where
  "ex_ret t c = (case c of SOCKET \<Rightarrow> 5 + int (length t) | ACCEPT fd \<Rightarrow> 5 + int (length t) | MALLOC n \<Rightarrow> 1
     | EPOLL_CREATE \<Rightarrow> 4 | F_GETFL fd \<Rightarrow> 2 | MPI_SIZE \<Rightarrow> 3 | _ \<Rightarrow> 0)"

definition bcasts :: "call list \<Rightarrow> nat" where
  "bcasts t = length (filter (\<lambda>c. case c of BCAST xs \<Rightarrow> True | _ \<Rightarrow> False) t)"

definition ex_config :: "int list list" where
  "ex_config = [[0], [2], [0], [2], [1], [2, 1], [0, 2, 3]]"

definition ex_sys :: sys where
  "ex_sys = \<lparr>sy_ret = ex_ret, sy_peer = \<lambda>t. 1, sy_resolved = \<lambda>name. AF_INET 1, sy_message = \<lambda>t. Count 0,
     sy_bcast = \<lambda>t. ex_config ! bcasts t, sy_comm = \<lambda>t. Some 7, sy_config = None, sy_interfaces = [], sy_room = \<lambda>n. n,
     sy_junk_word = \<lambda>k. 0xFFFFFFFF, sy_junk_socket = (init_socket_info 99 7, 3)\<rparr>"

definition ex_wire :: "byte list \<Rightarrow> wire" where
  "ex_wire bs = \<lparr>w_reads = replicate 50 (Chunk 1), w_stream = bs, w_writes = replicate 50 (Accept 1)\<rparr>"

definition ex_table :: "gateway_address list" where
  "ex_table = [\<lparr>ga_ipv4 = 1, ga_port = 5000, ga_streams = 2\<rparr>, \<lparr>ga_ipv4 = 2, ga_port = 6000, ga_streams = 2\<rparr>]"

definition ex_setup :: "nat \<Rightarrow> byte list \<Rightarrow> gw_setup" where
  "ex_setup c bs = \<lparr>gw_cluster_count = 2, gw_cluster_rank = word_of_nat c, gw_gateway_rank = 0, gw_my_pid = 0,
     gw_connections = [], gw_server_info = init_socket_info 3 TYPE_SERVER, gw_server_queue_out = [],
     gw_server_queue_in = [], gw_incoming_queue = [], gw_mpi_messages = [],
     gw_pending = \<lparr>pending_data_messages = 0, pending_data_size = 0\<rparr>, gw_sent = [], gw_stream = \<lambda>i. [], gw_wire = \<lambda>i. [],
     su_cluster_name = Some ''das'', su_server_name = Some ''head'', su_server_port = 5678, su_server_ipv4 = 1,
     su_serverfd = 3, su_local_application_size = 2, su_gateway_count = 1, su_cluster_sizes = [], su_cluster_offsets = [],
     su_addresses = ex_table, su_epollfd = 4, su_my_gateway = 0, su_server_gateway = 0, su_applications_only = None,
     su_gateways_only = None, su_gateways_and_applications = None, su_wires = \<lambda>fd. ex_wire bs, su_trace = []\<rparr>"

lemma ex_setup_fields [simp]:
  "gw_cluster_count (ex_setup c bs) = 2" "gw_cluster_rank (ex_setup c bs) = word_of_nat c" "su_serverfd (ex_setup c bs) = 3"
  "su_gateway_count (ex_setup c bs) = 1" "su_addresses (ex_setup c bs) = ex_table" "su_trace (ex_setup c bs) = []"
  "su_wires (ex_setup c bs) = (\<lambda>fd. ex_wire bs)" "su_cluster_name (ex_setup c bs) = Some ''das''"
  "gw_gateway_rank (ex_setup c bs) = 0"
  by (simp_all add: ex_setup_def)

lemma ex_sys_fields [simp]:
  "sy_ret ex_sys = ex_ret" "sy_config ex_sys = None" "sy_bcast ex_sys t = ex_config ! bcasts t" "sy_comm ex_sys t = Some 7"
  by (simp_all add: ex_sys_def)

lemma ex_wire_fields [simp]:
  "w_stream (ex_wire bs) = bs" "w_reads (ex_wire bs) = replicate 50 (Chunk 1)" "w_writes (ex_wire bs) = replicate 50 (Accept 1)"
  by (simp_all add: ex_wire_def)

lemma ex_wire_steady: "0 < k \<Longrightarrow> steady (replicate n (Chunk k))" "0 < k \<Longrightarrow> willing (replicate n (Accept k))"
  by (auto simp: steady_def willing_def)

lemma ex_setup_wires: "n \<le> 50 \<Longrightarrow> serves (ex_setup c bs) fd bs n" "n \<le> 50 \<Longrightarrow> takes (ex_setup c bs) fd n"
  by (simp_all add: serves_def takes_def ex_wire_steady)

lemma ex_remote: "i < 2 \<Longrightarrow> remote_address (ex_setup c bs) i = Some (ex_table ! i)"
  by (drule less_2_cases) (auto simp: remote_address_def address_index_def arr_read_def ex_table_def)

declare connect_loop.simps [code]

lemma ex_connected:
  "c < 2 \<Longrightarrow> map_option fst (connect_gateways True True ex_sys (ex_setup c [46, 0, 0, 0])) = Some (Some 0)"
proof -
  have "map_option fst (connect_gateways True True ex_sys (ex_setup 0 [46, 0, 0, 0])) = Some (Some 0)"
    "map_option fst (connect_gateways True True ex_sys (ex_setup 1 [46, 0, 0, 0])) = Some (Some 0)" by code_simp+
  then show "c < 2 \<Longrightarrow> map_option fst (connect_gateways True True ex_sys (ex_setup c [46, 0, 0, 0])) = Some (Some 0)"
    by (auto simp: less_2_cases_iff)
qed

end
