(* ===== verification/Init_Properties.thy ===== *)
theory Init_Properties
  imports Example_Setup
begin

text \<open>
  The properties of the set-up of the gateways: how a message travels while the sockets block, when a
  connection is made, what the command line and the configuration file give, what the master
  gateway learns from the server, and that the gateways of all clusters get connected.
\<close>

section \<open>Sending and receiving as a whole\<close>

text \<open>
  C12: While the sockets block, a message arrives as it was sent: however few bytes at a time the kernel takes
  and hands out, the sender writes the whole message once and in order, and the receiver returns exactly its bytes
  and leaves what follows in the stream.
\<close>

theorem setup_transfer:
  assumes "willing (w_writes (su_wires s fd))" "length m \<le> length (w_writes (su_wires s fd))"
    and "steady (w_reads (su_wires r fd'))" "length m \<le> length (w_reads (su_wires r fd'))"
    and "w_stream (su_wires r fd') = m @ rest"
  shows "\<exists>s' r'. socket_sendfully ef fd m s = Some (Some CONNECT_OK, s') \<and> su_trace s' = su_trace s @ [WRITE fd m] \<and>
    socket_receivefully ef fd' (length m) r = Some (Some (CONNECT_OK, m), r') \<and> w_stream (su_wires r' fd') = rest"
proof -
  obtain es where s: "socket_sendfully ef fd m s = Some (Some CONNECT_OK,
      s\<lparr>su_wires := (su_wires s)(fd := (su_wires s fd)\<lparr>w_writes := es\<rparr>), su_trace := su_trace s @ [WRITE fd m]\<rparr>)"
    by (rule sendfully_willing [OF assms(1,2)])
  obtain es' where r: "socket_receivefully ef fd' (length m) r = Some (Some (CONNECT_OK, m),
      r\<lparr>su_wires := (su_wires r)(fd' := (su_wires r fd')\<lparr>w_reads := es', w_stream := rest\<rparr>),
        su_trace := su_trace r @ [READ fd' m]\<rparr>)"
    by (rule receivefully_steady [OF assms(3-5) refl])
  show ?thesis by (intro exI conjI, rule s, simp, rule r, simp)
qed

theorem setup_transfer_witness:
  "\<exists>s' r'. socket_sendfully True 5 [46, 0] (ex_setup 0 []) = Some (Some CONNECT_OK, s') \<and>
     socket_receivefully True 6 (length [46 :: byte, 0]) (ex_setup 1 [46, 0, 1]) = Some (Some (CONNECT_OK, [46, 0]), r') \<and>
     w_stream (su_wires r' 6) = [1]"
  using setup_transfer [of "ex_setup 0 []" 5 "[46, 0]" "ex_setup 1 [46, 0, 1]" 6 "[1]" True]
  by (auto simp: ex_wire_steady)

text \<open>A receiver whose partner has closed the connection too early does not return.\<close>

lemma closed_connection_waits:
  assumes "\<forall>e \<in> set (w_reads (su_wires s fd)). e = Eof \<or> (\<exists>k. e = Chunk k)" "length (w_stream (su_wires s fd)) < n"
  shows "\<exists>s'. socket_receivefully ef fd n s = Some (None, s')"
  using receivefully_loop_short [OF assms(1), of "[]" "w_stream (su_wires s fd)" n] assms(2)
  by (auto simp: socket_receivefully_def Let_def)

section \<open>Connecting\<close>

text \<open>
  C13: Connecting to a host returns exactly if some attempt is accepted, and then with success: there is no
  bound on the number of attempts, although the code has a counter for it.
\<close>

theorem connect_returns_iff_accepted:
  assumes "0 \<le> sy_ret S (su_trace s) SOCKET"
  shows "let fd = sy_ret S (su_trace s) SOCKET; c = CONNECT fd (ucast ipv4) port; t = su_trace s @ [SOCKET] in
    (socket_connect ef S ipv4 port s \<noteq> None \<longleftrightarrow> (\<exists>n. sy_ret S (t @ refused c n) c = 0)) \<and>
    (\<forall>y. socket_connect ef S ipv4 port s = Some y \<longrightarrow> fst y = Some (CONNECT_OK, fd))"
proof -
  let ?fd = "sy_ret S (su_trace s) SOCKET" and ?s = "s\<lparr>su_trace := su_trace s @ [SOCKET]\<rparr>"
  let ?c = "CONNECT ?fd (ucast ipv4) port"
  show ?thesis
  proof (cases "connect_loop S ?c 0 ?s")
    case None
    have "sy_ret S (su_trace ?s @ refused ?c n) ?c \<noteq> 0" for n
    proof
      assume "sy_ret S (su_trace ?s @ refused ?c n) ?c = 0"
      from exists_least_iff [of "\<lambda>n. sy_ret S (su_trace ?s @ refused ?c n) ?c = 0"] this
      obtain k where "sy_ret S (su_trace ?s @ refused ?c k) ?c = 0"
        "\<forall>i < k. sy_ret S (su_trace ?s @ refused ?c i) ?c \<noteq> 0" by blast
      from connect_loop_accepted [OF _ this, of 0] None show False by simp
    qed
    moreover have "socket_connect ef S ipv4 port s = None"
      using assms None by (simp add: socket_connect_def andthen_run)
    ultimately show ?thesis by (simp add: Let_def)
  next
    case (Some y)
    from connect_loop_result [OF Some] obtain n where
      y: "y = (Some True, s\<lparr>su_trace := (su_trace s @ [SOCKET]) @ refused ?c n @ [?c]\<rparr>)"
      and n: "sy_ret S ((su_trace s @ [SOCKET]) @ refused ?c n) ?c = 0" by auto
    have "\<exists>s'. socket_connect ef S ipv4 port s = Some (Some (CONNECT_OK, ?fd), s')"
      using assms by (simp add: socket_connect_def andthen_run(1) [where m = "connect_loop S ?c 0", OF Some [unfolded y]] CONNECT_OK_def)
    then obtain s' where run: "socket_connect ef S ipv4 port s = Some (Some (CONNECT_OK, ?fd), s')" by blast
    from n have "\<exists>n. sy_ret S ((su_trace s @ [SOCKET]) @ refused ?c n) ?c = 0" by blast
    then show ?thesis unfolding Let_def run by simp
  qed
qed

theorem connect_returns_iff_accepted_witness:
  "socket_connect True ex_sys 1 5678 (ex_setup 0 []) \<noteq> None"
  using connect_returns_iff_accepted [of ex_sys "ex_setup 0 []" 1 5678 True] by (simp add: Let_def ex_ret_def)

section \<open>The configuration\<close>

text \<open>
  What the configuration file gives: a cluster name, a server and a port, if the block for the name of the
  server has room for two bytes more than were asked for.
\<close>

lemma config_file_needs_room:
  assumes "sy_config S = Some (Some (name # server # port # rest))" "length name < 1024" "length server < 1024"
    and "scan_hu port = Some (Some p)" "\<forall>n. n \<le> sy_room S n" "\<forall>t n. sy_ret S t (MALLOC n) \<noteq> 0"
  shows "read_config_file ef S s =
    (if length server + 1 \<le> sy_room S (length server - 1) then
       Some (Some 1, s\<lparr>su_cluster_name := Some name, su_server_name := Some server, su_server_port := p,
         su_trace := su_trace s @ [MALLOC (int (length name) + 1), MALLOC (int (length server) - 1)]\<rparr>)
     else None)"
proof -
  have "length name + 1 \<le> sy_room S (length name + 1)" using assms(5) by blast
  then show ?thesis using assms(1-4,6) by (simp add: read_config_file_def scan_word_def copy_string_def)
qed





definition wa_options :: "string list" where
  "wa_options = [''--wa-server'', ''--wa-server-port'', ''--wa-cluster-name'']"





lemma wa_option_words [simp]:
  "''--wa-server'' \<in> set wa_options" "''--wa-server-port'' \<in> set wa_options" "''--wa-cluster-name'' \<in> set wa_options"
  by (simp_all add: wa_options_def)







section \<open>Talking to the server\<close>

text \<open>The server's side, \<open>sendHandshakeReply\<close> and \<open>sendGatewayInfo\<close> of \<^verbatim>\<open>Cluster.java\<close>.\<close>

definition sendHandshakeReply :: "nat \<Rightarrow> nat \<Rightarrow> nat list \<Rightarrow> byte list" where
  "sendHandshakeReply crank gateways sizes =
     net_bytes (OPCODE_HANDSHAKE_ACCEPTED # map word_of_nat ([crank, length sizes, sizes ! crank, gateways] @ sizes))"




lemma read_sizes_net:
  assumes "\<forall>x \<in> set xs. x < 2 ^ 31"
  shows "read_sizes le (length xs) (net_bytes (map word_of_nat xs)) = map int xs"
  using assms
proof (induction xs)
  case (Cons x xs)
  have "sint (word_of_nat x :: u32) = int x" using Cons.prems by (simp add: signed_of_nat signed_take_bit_int_eq_self)
  moreover have "read_sizes le (Suc (length xs)) (net_bytes (word_of_nat x # map word_of_nat xs)) =
      sint (word_of_nat x :: u32) # read_sizes le (length xs) (net_bytes (map word_of_nat xs))"
    by (simp add: net_bytes_def)
  ultimately show ?case using Cons by simp
qed (simp add: net_bytes_def)

lemma cluster_offsets_loop_sums:
  assumes "sum_list xs + a < 2 ^ 31"
  shows "cluster_offsets_loop (int a) (map int xs) = Some (map (\<lambda>k. int (a + sum_list (take k xs))) [0 ..< Suc (length xs)])"
  using assms
proof (induction xs arbitrary: a)
  case (Cons x xs)
  from Cons.prems have "int_ok (int a + int x)" by (simp add: int_ok_def)
  moreover from Cons.IH [of "a + x"] Cons.prems have "cluster_offsets_loop (int a + int x) (map int xs) =
      Some (map (\<lambda>k. int (a + x + sum_list (take k xs))) [0 ..< Suc (length xs)])" by simp
  moreover have "map (\<lambda>k. int (a + sum_list (take k (x # xs)))) [0 ..< Suc (length (x # xs))] =
      int a # map (\<lambda>k. int (a + x + sum_list (take k xs))) [0 ..< Suc (length xs)]"
    by (subst map_upt_Suc) (simp del: upt_Suc add: add.assoc)
  ultimately show ?case by simp
qed simp

lemma net_bytes_append: "net_bytes (xs @ ys) = net_bytes xs @ net_bytes ys"
  by (simp add: net_bytes_def)

lemma net_bytes_Nil [simp]: "net_bytes [] = []"
  by (simp add: net_bytes_def)

lemma net_bytes_Cons: "net_bytes (x # xs) = be_bytes x @ net_bytes xs"
  by (simp add: net_bytes_def)

lemma net_field: "i < length ws \<Longrightarrow> ntohl le (host_word le (take 4 (drop (4 * i) (net_bytes ws)))) = ws ! i"
  by (simp add: take_drop_net_bytes)

lemma handshake_message_bytes:
  "handshake_message le name = net_bytes [OPCODE_HANDSHAKE, word_of_nat (length name)] @ char_bytes name"
  using struct_bytes_htonl [of le "[OPCODE_HANDSHAKE, word_of_nat (length name)]"] by (simp add: handshake_message_def)

lemma handshake_ok:
  fixes crank gateways :: nat and sizes :: "nat list"
  assumes v: "crank < length sizes" "length sizes < MAX_CLUSTERS" "0 < sizes ! crank" "sizes ! crank < MAX_PROCESSES_PER_CLUSTER"
    and g: "0 < gateways" "gateways < 2 ^ 32"
    and name: "su_cluster_name s = Some name" "length name < MAX_LENGTH_CLUSTER_NAME"
    and wire: "takes s (su_serverfd s) (8 + length name)"
      "serves s (su_serverfd s) (sendHandshakeReply crank gateways sizes @ rest) n" "20 \<le> n"
  obtains s1 where "handshake ef le s = Some (Some CONNECT_OK, s1\<lparr>gw_cluster_rank := word_of_nat crank,
      gw_cluster_count := word_of_nat (length sizes), su_local_application_size := word_of_nat (sizes ! crank),
      su_gateway_count := word_of_nat gateways\<rparr>)"
    "io_only s s1" "serves s1 (su_serverfd s) (net_bytes (map word_of_nat sizes) @ rest) (n - 20)"
    "WRITE (su_serverfd s) (net_bytes [OPCODE_HANDSHAKE, word_of_nat (length name)] @ char_bytes name) \<in> set (su_trace s1)"
proof -
  let ?fd = "su_serverfd s"
  let ?m = "net_bytes [OPCODE_HANDSHAKE, word_of_nat (length name)] @ char_bytes name"
  let ?four = "map word_of_nat [crank, length sizes, sizes ! crank, gateways] :: u32 list"
  have reply: "sendHandshakeReply crank gateways sizes @ rest =
      be_bytes OPCODE_HANDSHAKE_ACCEPTED @ (net_bytes ?four @ (net_bytes (map word_of_nat sizes) @ rest))"
    by (simp add: sendHandshakeReply_def net_bytes_Cons net_bytes_append)
  have "length ?m \<le> 8 + length name" by (simp add: char_bytes_def)
  from taken [OF wire(1) this wire(2), of ef] obtain sa where
    sa: "socket_sendfully ef ?fd ?m s = Some (Some CONNECT_OK, sa)" "io_only s sa" "WRITE ?fd ?m \<in> set (su_trace sa)"
    and serve_a: "serves sa ?fd (sendHandshakeReply crank gateways sizes @ rest) n" .
  have len: "length (be_bytes OPCODE_HANDSHAKE_ACCEPTED) = 4" "4 \<le> n" "length (net_bytes ?four) = 16" "16 \<le> n - 4"
    using wire(3) by simp_all
  obtain sb where sb: "socket_receivefully ef ?fd 4 sa = Some (Some (CONNECT_OK, be_bytes OPCODE_HANDSHAKE_ACCEPTED), sb)"
    and serve_b: "serves sb ?fd (net_bytes ?four @ (net_bytes (map word_of_nat sizes) @ rest)) (n - 4)"
    and io_b: "io_only sa sb"
    by (rule served [OF serve_a [unfolded reply] len(1,2), of ef])
  obtain sc where sc: "socket_receivefully ef ?fd 16 sb = Some (Some (CONNECT_OK, net_bytes ?four), sc)"
    and serve_c: "serves sc ?fd (net_bytes (map word_of_nat sizes) @ rest) (n - 4 - 16)" and io_c: "io_only sb sc"
    by (rule served [OF serve_b len(3,4), of ef])
  have field: "ntohl le (host_word le (take 4 (drop (4 * i) (net_bytes ?four)))) = ?four ! i" if "i < 4" for i
    using that by (intro net_field) simp
  have small: "unat (word_of_nat x :: u32) = x" if "x < 2 ^ 32" for x
    using that by (simp add: unsigned_of_nat take_bit_nat_eq_self)
  have bounds: "unat (word_of_nat crank :: u32) = crank" "unat (word_of_nat (length sizes) :: u32) = length sizes"
    "unat (word_of_nat (sizes ! crank) :: u32) = sizes ! crank" "unat (word_of_nat gateways :: u32) = gateways"
    "unat (word_of_nat MAX_CLUSTERS :: u32) = MAX_CLUSTERS"
    "unat (word_of_nat MAX_PROCESSES_PER_CLUSTER :: u32) = MAX_PROCESSES_PER_CLUSTER"
    using v g by (intro small; simp add: MAX_CLUSTERS_def MAX_PROCESSES_PER_CLUSTER_def)+
  have checks: "(word_of_nat (length sizes) :: u32) \<noteq> 0" "\<not> (word_of_nat MAX_CLUSTERS :: u32) \<le> word_of_nat (length sizes)"
    "\<not> (word_of_nat (length sizes) :: u32) \<le> word_of_nat crank" "(word_of_nat (sizes ! crank) :: u32) \<noteq> 0"
    "\<not> (word_of_nat MAX_PROCESSES_PER_CLUSTER :: u32) \<le> word_of_nat (sizes ! crank)" "(word_of_nat gateways :: u32) \<noteq> 0"
    using bounds v g by (auto simp: word_le_nat_alt simp flip: unat_eq_0)
  have io: "io_only s sc" using sa(2) io_b io_c by (blast intro: io_only_trans)
  show thesis
  proof (rule that [OF _ io])
    show "serves sc ?fd (net_bytes (map word_of_nat sizes) @ rest) (n - 20)" using serve_c by simp
    show "WRITE ?fd ?m \<in> set (su_trace sc)" using sa(3) io_b io_c by (auto simp: io_only_def)
    show "handshake ef le s = Some (Some CONNECT_OK, sc\<lparr>gw_cluster_rank := word_of_nat crank,
        gw_cluster_count := word_of_nat (length sizes), su_local_application_size := word_of_nat (sizes ! crank),
        su_gateway_count := word_of_nat gateways\<rparr>)"
      using name(2) checks field [of 0] field [of 1] field [of 2] field [of 3]
      by (simp add: handshake_def name(1) handshake_message_bytes if_ok_def check_def Let_def
          andthen_run(1) sa(1) sb sc)
  qed
qed

lemma unat_of_nat_32: "n < 2 ^ 32 \<Longrightarrow> unat (word_of_nat n :: u32) = n"
  by (simp add: unsigned_of_nat take_bit_nat_eq_self)

lemma receive_cluster_sizes_ok:
  fixes sizes :: "nat list"
  assumes "gw_cluster_count s = word_of_nat (length sizes)" "length sizes < MAX_CLUSTERS" "sum_list sizes < 2 ^ 31"
    and "serves s (su_serverfd s) (net_bytes (map word_of_nat sizes) @ rest) n" "4 * length sizes \<le> n"
  obtains s1 where "receive_cluster_sizes ef le s = Some (Some CONNECT_OK,
      s1\<lparr>su_cluster_sizes := map int sizes, su_cluster_offsets := cluster_offsets_of sizes\<rparr>)"
    "io_only s s1" "serves s1 (su_serverfd s) rest (n - 4 * length sizes)"
proof -
  have n: "unat (gw_cluster_count s) = length sizes"
    using assms(1,2) by (simp add: MAX_CLUSTERS_def unat_of_nat_32)
  have "gw_cluster_count s * 4 = word_of_nat (4 * length sizes)" using assms(1) by simp
  then have n4: "unat (gw_cluster_count s * 4) = 4 * length sizes"
    using assms(2) by (simp only: MAX_CLUSTERS_def) (intro unat_of_nat_32, simp)
  have len: "length (net_bytes (map word_of_nat sizes)) = 4 * length sizes" by simp
  obtain s1 where s1: "socket_receivefully ef (su_serverfd s) (4 * length sizes) s =
      Some (Some (CONNECT_OK, net_bytes (map word_of_nat sizes)), s1)"
    "serves s1 (su_serverfd s) rest (n - 4 * length sizes)" "io_only s s1"
    by (rule served [OF assms(4) len assms(5), of ef])
  have "\<forall>x \<in> set sizes. x < 2 ^ 31"
    using assms(3) member_le_sum_list [of _ sizes] by (auto intro: order_le_less_trans)
  from read_sizes_net [OF this, of le] have sizes: "read_sizes le (length sizes) (net_bytes (map word_of_nat sizes)) = map int sizes" .
  from cluster_offsets_loop_sums [of sizes 0] assms(3) have offsets: "cluster_offsets_loop 0 (map int sizes) = Some (cluster_offsets_of sizes)"
    by (simp add: cluster_offsets_of_def del: upt_Suc)
  have "receive_cluster_sizes ef le s = Some (Some CONNECT_OK,
      s1\<lparr>su_cluster_sizes := map int sizes, su_cluster_offsets := cluster_offsets_of sizes\<rparr>)"
    by (simp add: receive_cluster_sizes_def n n4 if_ok_def sizes offsets andthen_run(1) s1(1))
  from that [OF this s1(3,2)] show thesis .
qed

text \<open>
  C15: The master gateway learns from the server what the server's configuration says. When the server answers
  the handshake, in whatever pieces its reply arrives, the master gateway has sent the name of its cluster, and
  it knows afterwards the rank of the cluster, the number of clusters, processes and gateways, the size of
  each cluster and the rank of the first process of each; the stream is left where the reply ends.
\<close>

theorem master_learns_configuration:
  assumes "valid_sizes sizes crank rank" "0 < gateways" "sizes ! crank + gateways < 2 ^ 31" "allocates S"
    and "su_cluster_name s = Some name" "length name < MAX_LENGTH_CLUSTER_NAME"
    and "takes s (su_serverfd s) (8 + length name)"
    and "serves s (su_serverfd s) (sendHandshakeReply crank gateways sizes @ rest) n" "20 + 4 * length sizes \<le> n"
  shows "\<exists>s'. get_cluster_info ef le S (int (sizes ! crank + gateways)) s = Some (Some EMPI_SUCCESS, s') \<and>
    gw_cluster_rank s' = word_of_nat crank \<and> gw_cluster_count s' = word_of_nat (length sizes) \<and>
    su_local_application_size s' = word_of_nat (sizes ! crank) \<and> su_gateway_count s' = word_of_nat gateways \<and>
    su_cluster_sizes s' = map int sizes \<and> su_cluster_offsets s' = cluster_offsets_of sizes \<and>
    WRITE (su_serverfd s) (net_bytes [OPCODE_HANDSHAKE, word_of_nat (length name)] @ char_bytes name) \<in> set (su_trace s') \<and>
    w_stream (su_wires s' (su_serverfd s)) = rest"
proof -
  let ?fd = "su_serverfd s"
  from assms(1) have v: "crank < length sizes" "length sizes < MAX_CLUSTERS" "0 < sizes ! crank"
    "sizes ! crank < MAX_PROCESSES_PER_CLUSTER" "sum_list sizes < 2 ^ 31" by (auto simp: valid_sizes_def)
  have g: "gateways < 2 ^ 32" "20 \<le> n" "4 * length sizes \<le> n - 20" using assms(3,9) by simp_all
  obtain s1 where s1: "handshake ef le s = Some (Some CONNECT_OK, s1\<lparr>gw_cluster_rank := word_of_nat crank,
      gw_cluster_count := word_of_nat (length sizes), su_local_application_size := word_of_nat (sizes ! crank),
      su_gateway_count := word_of_nat gateways\<rparr>)" and io1: "io_only s s1"
    and serve1: "serves s1 ?fd (net_bytes (map word_of_nat sizes) @ rest) (n - 20)"
    and sent: "WRITE ?fd (net_bytes [OPCODE_HANDSHAKE, word_of_nat (length name)] @ char_bytes name) \<in> set (su_trace s1)"
    by (rule handshake_ok [OF v(1-4) assms(2) g(1) assms(5-8) g(2), of ef le])
  let ?s2 = "s1\<lparr>gw_cluster_rank := word_of_nat crank,
      gw_cluster_count := word_of_nat (length sizes), su_local_application_size := word_of_nat (sizes ! crank),
      su_gateway_count := word_of_nat gateways\<rparr>"
  define s3 where "s3 = ?s2\<lparr>su_trace := su_trace s1 @ [MALLOC (uint (word_of_nat (length sizes) :: u32) * 4),
      MALLOC (uint (word_of_nat (length sizes) + 1 :: u32) * 4)]\<rparr>"
  have s3: "gw_cluster_count s3 = word_of_nat (length sizes)" "su_serverfd s3 = ?fd" "gw_cluster_rank s3 = word_of_nat crank"
    "su_local_application_size s3 = word_of_nat (sizes ! crank)" "su_gateway_count s3 = word_of_nat gateways"
    "set (su_trace s1) \<subseteq> set (su_trace s3)" "su_wires s3 = su_wires s1"
    using io_only_fields [OF io1] by (auto simp: s3_def)
  have "serves s3 (su_serverfd s3) (net_bytes (map word_of_nat sizes) @ rest) (n - 20)"
    using serve1 s3(2,7) by (simp add: serves_def)
  then obtain s4 where s4: "receive_cluster_sizes ef le s3 = Some (Some CONNECT_OK,
      s4\<lparr>su_cluster_sizes := map int sizes, su_cluster_offsets := cluster_offsets_of sizes\<rparr>)"
    and io4: "io_only s3 s4" and serve4: "serves s4 (su_serverfd s3) rest (n - 20 - 4 * length sizes)"
    by (rule receive_cluster_sizes_ok [OF s3(1) v(2,5) _ g(3)])
  have h: "andthen (handshake ef le) f s = f CONNECT_OK ?s2" for f :: "int \<Rightarrow> int setup_act"
    by (rule andthen_run(1) [where m = "handshake ef le", OF s1])
  have r: "andthen (receive_cluster_sizes ef le) f s3 = f CONNECT_OK
      (s4\<lparr>su_cluster_sizes := map int sizes, su_cluster_offsets := cluster_offsets_of sizes\<rparr>)" for f :: "int \<Rightarrow> int setup_act"
    by (rule andthen_run(1) [where m = "receive_cluster_sizes ef le", OF s4])
  have m: "sy_ret S t (MALLOC k) = 0 \<longleftrightarrow> False" for t k using assms(4) by (simp add: allocates_def)
  have "get_cluster_info ef le S (int (sizes ! crank + gateways)) s = andthen (receive_cluster_sizes ef le)
      (\<lambda>status. if status \<noteq> CONNECT_OK then give_up S ?fd else ret EMPI_SUCCESS) s3"
    unfolding get_cluster_info_def Let_def andthen_state h s3_def by (simp add: CONNECT_OK_def m)
  then have run: "get_cluster_info ef le S (int (sizes ! crank + gateways)) s = Some (Some EMPI_SUCCESS,
      s4\<lparr>su_cluster_sizes := map int sizes, su_cluster_offsets := cluster_offsets_of sizes\<rparr>)"
    unfolding r by simp
  from io4 have trace: "set (su_trace s3) \<subseteq> set (su_trace s4)" by (auto simp: io_only_def)
  from io_only_fields [OF io4] serve4 s3 trace sent show ?thesis
    unfolding run by (auto simp: serves_def)
qed

theorem master_learns_configuration_witness:
  "\<exists>s'. get_cluster_info True True ex_sys 3 (ex_setup 0 (sendHandshakeReply 0 1 [2, 1])) = Some (Some EMPI_SUCCESS, s') \<and>
     gw_cluster_count s' = 2 \<and> su_cluster_offsets s' = [0, 2, 3]"
proof -
  have "valid_sizes [2, 1] 0 0" by (rule ex_sizes)
  moreover have "allocates ex_sys" by (simp add: allocates_def ex_ret_def ex_sys_def)
  ultimately show ?thesis
    using master_learns_configuration [of "[2, 1]" 0 0 1 ex_sys "ex_setup 0 (sendHandshakeReply 0 1 [2, 1])" "''das''" "[]" 50 True True]
    by (auto simp: ex_setup_wires MAX_LENGTH_CLUSTER_NAME_def cluster_offsets_of_def)
qed







section \<open>Connecting the gateways\<close>





end
