(* ===== verification/Start_Properties.thy ===== *)
theory Start_Properties
  imports Init_Properties
begin

text \<open>
  The properties of the start of a process: what an application process knows and has when
  \<open>EMPI_Init\<close> returns.
\<close>

section \<open>The configuration reaches every process\<close>



lemma bcasts_simps [simp]:
  "bcasts [] = 0" "bcasts (BCAST xs # t) = Suc (bcasts t)" "bcasts (MALLOC n # t) = bcasts t"
  "bcasts (MPI_INIT # t) = bcasts t" "bcasts (MPI_RANK # t) = bcasts t" "bcasts (MPI_SIZE # t) = bcasts t"
  "bcasts (s @ t) = bcasts s + bcasts t"
  by (simp_all add: bcasts_def)






section \<open>An application process\<close>





section \<open>The registries\<close>













end
