(* ===== verification/Point_To_Point.thy ===== *)
theory Point_To_Point
  imports Process_State
begin

text \<open>
  The point-to-point entry points of \<^verbatim>\<open>src/backend/empi.c\<close>: sending and receiving, the requests that
  non-blocking calls leave behind, testing and waiting for them, and the accessors of a status. What
  stays in the cluster of the process goes to the local MPI library, the rest to the messaging layer.

  A blocking call is given the contents of its buffer and yields the new ones; a non-blocking call is
  given the address of its buffer. A call that polls until something happens has the number of its
  turns as argument (\<open>n\<close>); when they are used up it still waits.
\<close>

abbreviation (input) EMPI_ERR_IN_STATUS :: int where "EMPI_ERR_IN_STATUS \<equiv> 18"

section \<open>Sending and receiving\<close>

definition tag2mpi :: "('a, 'w) env \<Rightarrow> int \<Rightarrow> int" where
  "tag2mpi E tag = (if tag = EMPI_ANY_TAG then e_ANY_TAG E else tag)"

definition mpi2tag :: "('a, 'w) env \<Rightarrow> int \<Rightarrow> int" where
  "mpi2tag E tag = (if tag = e_ANY_TAG E then EMPI_ANY_TAG else tag)"

text \<open>The function \<^verbatim>\<open>do_send\<close> of \<^verbatim>\<open>empi.c\<close>.\<close>

definition api_do_send ::
  "('a, 'w) env \<Rightarrow> 'a list \<Rightarrow> int \<Rightarrow> datatype_s \<Rightarrow> int \<Rightarrow> int \<Rightarrow> communicator \<Rightarrow> (int, 'a, 'w) proc_act" where
  "api_do_send E buf count t dest tag c =
     andthen (lift (rank_is_local (e_cluster_rank E) c dest)) (\<lambda>local.
     andthen
       (if local then
          andthen (lift (get_local_rank c dest)) (\<lambda>l.
          andthen (pmpi E (Point_To_Point (PMPI_Send buf count (dt_type t) l (tag2mpi E tag) (c_comm c)))) (\<lambda>a.
          ret (an_error a)))
        else wa_send E buf count t dest tag c) (\<lambda>error.
     if error \<noteq> EMPI_SUCCESS then after_ERROR (e_ef E) (ret error) else ret error))"

definition flag_int :: "bool \<Rightarrow> int" where
  "flag_int b = (if b then 1 else 0)"

text \<open>The result: the error code and the status.\<close>

definition translate_status ::
  "('a, 'w) env \<Rightarrow> communicator \<Rightarrow> datatype_s \<Rightarrow> status option \<Rightarrow> mpi_status option
    \<Rightarrow> (int \<times> status option, 'a, 'w) proc_act" where
  "translate_status E c t st mst =
     (case (st, mst) of
        (None, _) \<Rightarrow> ret (EMPI_SUCCESS, st)
      | (Some _, None) \<Rightarrow> ret (EMPI_SUCCESS, clear_status st)
      | (Some _, Some ms) \<Rightarrow>
          andthen (lift (get_global_rank c (uint (e_cluster_rank E)) (ms_source ms))) (\<lambda>source.
          andthen (pmpi E (Request (PMPI_Test_cancelled ms))) (\<lambda>a.
          if an_error a \<noteq> EMPI_SUCCESS then ret (an_error a, st)
          else
            andthen
              (if an_flag a then ret (EMPI_SUCCESS, 0)
               else andthen (pmpi E (Request (PMPI_Get_count ms (dt_type t)))) (\<lambda>b. ret (an_error b, an_value b)))
              (\<lambda>(error, count).
            if error \<noteq> EMPI_SUCCESS then ret (error, st)
            else
              andthen (lift (set_status st source (mpi2tag E (ms_tag ms)) (ms_error ms) (Some t) count
                         (flag_int (an_flag a)))) (\<lambda>st'.
              ret (EMPI_SUCCESS, st'))))))"

text \<open>The function \<^verbatim>\<open>do_recv\<close>; the result: the error code, the data received, and the status.\<close>

definition api_do_recv ::
  "('a, 'w) env \<Rightarrow> int \<Rightarrow> datatype_s \<Rightarrow> int \<Rightarrow> int \<Rightarrow> status option \<Rightarrow> addr \<Rightarrow> communicator
    \<Rightarrow> (int \<times> 'a list option \<times> status option, 'a, 'w) proc_act" where
  "api_do_recv E count t source tag st p c =
     (if source = EMPI_ANY_SOURCE then lift (FATAL (Some (EMPI_ERR_INTERN, None, st)))
      else
        andthen (lift (rank_is_local (e_cluster_rank E) c source)) (\<lambda>local.
        andthen
          (if local then
             andthen (lift (get_local_rank c source)) (\<lambda>l.
             andthen (pmpi E (Point_To_Point (PMPI_Recv count (dt_type t) l (tag2mpi E tag) (c_comm c)))) (\<lambda>a.
             if an_error a = EMPI_SUCCESS then
               andthen (translate_status E c t st (Some (an_status a))) (\<lambda>(error, st').
               ret (error, Some (an_data a), st'))
             else ret (an_error a, None, st)))
           else wa_receive E count t source tag st p) (\<lambda>(error, data, st').
        if error \<noteq> EMPI_SUCCESS then after_ERROR (e_ef E) (ret (error, data, st')) else ret (error, data, st'))))"

definition EMPI_Send ::
  "('a, 'w) env \<Rightarrow> 'a list \<Rightarrow> int \<Rightarrow> int \<Rightarrow> int \<Rightarrow> int \<Rightarrow> int \<Rightarrow> (int, 'a, 'w) proc_act" where
  "EMPI_Send E buf count typ dest tag comm =
     H2C E comm EMPI_ERR_COMM (\<lambda>p c. H2T E typ EMPI_ERR_TYPE (\<lambda>tp t. api_do_send E buf count t dest tag c))"

definition EMPI_Ssend ::
  "('a, 'w) env \<Rightarrow> 'a list \<Rightarrow> int \<Rightarrow> int \<Rightarrow> int \<Rightarrow> int \<Rightarrow> int \<Rightarrow> (int, 'a, 'w) proc_act" where
  "EMPI_Ssend E buf count typ dest tag comm =
     H2C E comm EMPI_ERR_COMM (\<lambda>p c. H2T E typ EMPI_ERR_TYPE (\<lambda>tp t.
     if comm_is_local c then
       andthen (pmpi E (Point_To_Point (PMPI_Ssend buf count (dt_type t) dest (tag2mpi E tag) (c_comm c)))) (\<lambda>a.
       ret (an_error a))
     else
       andthen (lift (rank_is_local (e_cluster_rank E) c dest)) (\<lambda>local.
       if local then
         andthen (lift (get_local_rank c dest)) (\<lambda>l.
         andthen (pmpi E (Point_To_Point (PMPI_Ssend buf count (dt_type t) l (tag2mpi E tag) (c_comm c)))) (\<lambda>a.
         ret (an_error a)))
       else wa_send E buf count t dest tag c)))"

definition EMPI_Rsend ::
  "('a, 'w) env \<Rightarrow> 'a list \<Rightarrow> int \<Rightarrow> int \<Rightarrow> int \<Rightarrow> int \<Rightarrow> int \<Rightarrow> (int, 'a, 'w) proc_act" where
  "EMPI_Rsend E buf count typ dest tag comm = EMPI_Ssend E buf count typ dest tag comm"

text \<open>A receive from any source is local when the communicator is.\<close>

definition receives_locally :: "('a, 'w) env \<Rightarrow> communicator \<Rightarrow> int \<Rightarrow> bool run" where
  "receives_locally E c source =
     (if source = EMPI_ANY_SOURCE then Some (comm_is_local c) else rank_is_local (e_cluster_rank E) c source)"

definition local_source_of :: "('a, 'w) env \<Rightarrow> communicator \<Rightarrow> int \<Rightarrow> int run" where
  "local_source_of E c source =
     (if source = EMPI_ANY_SOURCE then Some (e_ANY_SOURCE E) else get_local_rank c source)"

definition EMPI_Recv ::
  "('a, 'w) env \<Rightarrow> int \<Rightarrow> int \<Rightarrow> int \<Rightarrow> int \<Rightarrow> int \<Rightarrow> status option
    \<Rightarrow> (int \<times> 'a list option \<times> status option, 'a, 'w) proc_act" where
  "EMPI_Recv E count typ source tag comm st =
     H2C E comm (EMPI_ERR_COMM, None, st) (\<lambda>p c. H2T E typ (EMPI_ERR_TYPE, None, st) (\<lambda>tp t.
     andthen (lift (receives_locally E c source)) (\<lambda>local.
     if local then
       andthen (lift (local_source_of E c source)) (\<lambda>l.
       andthen (pmpi E (Point_To_Point (PMPI_Recv count (dt_type t) l (tag2mpi E tag) (c_comm c)))) (\<lambda>a.
       if an_error a = EMPI_SUCCESS \<and> st \<noteq> None then
         andthen (translate_status E c t st (Some (an_status a))) (\<lambda>(error, st').
         ret (error, Some (an_data a), st'))
       else ret (an_error a, (if an_error a = EMPI_SUCCESS then Some (an_data a) else None), st)))
     else if source = EMPI_ANY_SOURCE then after_IERROR (ret (EMPI_ERR_RANK, None, st))
     else wa_receive E count t source tag st p)))"

definition EMPI_Sendrecv ::
  "('a, 'w) env \<Rightarrow> 'a list \<Rightarrow> int \<Rightarrow> int \<Rightarrow> int \<Rightarrow> int \<Rightarrow> int \<Rightarrow> int \<Rightarrow> int \<Rightarrow> int \<Rightarrow> int \<Rightarrow> status option
    \<Rightarrow> (int \<times> 'a list option \<times> status option, 'a, 'w) proc_act" where
  "EMPI_Sendrecv E sendbuf sendcount sendtype dest sendtag recvcount recvtype source recvtag comm st =
     H2C E comm (EMPI_ERR_COMM, None, st) (\<lambda>p c.
     H2T E sendtype (EMPI_ERR_TYPE, None, st) (\<lambda>stp stype.
     H2T E recvtype (EMPI_ERR_TYPE, None, st) (\<lambda>rtp rtype.
     if comm_is_local c then
       andthen (lift (local_source_of E c source)) (\<lambda>l.
       andthen (pmpi E (Point_To_Point (PMPI_Sendrecv sendbuf sendcount (dt_type stype) dest (tag2mpi E sendtag)
                  recvcount (dt_type rtype) l (tag2mpi E recvtag) (c_comm c)))) (\<lambda>a.
       if an_error a = EMPI_SUCCESS \<and> st \<noteq> None then
         andthen (translate_status E c rtype st (Some (an_status a))) (\<lambda>(error, st').
         ret (error, Some (an_data a), st'))
       else ret (an_error a, (if an_error a = EMPI_SUCCESS then Some (an_data a) else None), st)))
     else after_IERROR
       (if c_global_rank c mod 2 = 0 then
          andthen (api_do_send E sendbuf sendcount stype dest sendtag c) (\<lambda>error.
          if error \<noteq> EMPI_SUCCESS then ret (error, None, st)
          else api_do_recv E recvcount rtype source recvtag st p c)
        else
          andthen (api_do_recv E recvcount rtype source recvtag st p c) (\<lambda>(error, data, st').
          if error \<noteq> EMPI_SUCCESS then ret (error, data, st')
          else andthen (api_do_send E sendbuf sendcount stype dest sendtag c) (\<lambda>error'. ret (error', data, st')))))))"

section \<open>Requests\<close>

text \<open>The contents of a buffer that is sent; a null pointer has none.\<close>

definition read_memory :: "addr option \<Rightarrow> ('a list, 'a, 'w) proc_act" where
  "read_memory po s = (case po of None \<Rightarrow> ret [] s | Some p \<Rightarrow> lift (ps_memory s p) s)"

definition new_request ::
  "('a, 'w) env \<Rightarrow> u32 \<Rightarrow> addr option \<Rightarrow> int \<Rightarrow> addr \<Rightarrow> int \<Rightarrow> int \<Rightarrow> addr \<Rightarrow> (addr option, 'a, 'w) proc_act" where
  "new_request E flags buf count tp dest tag p =
     andthen (malloc E) (\<lambda>new s. do {
       (q, rr) \<leftarrow> create_request (e_ef E) new (e_junk E) flags buf count (Some tp) dest tag (Some p) (ps_requests s);
       Some (Some q, s\<lparr>ps_requests := rr\<rparr>)
     })"

definition get_request :: "addr \<Rightarrow> (request, 'a, 'w) proc_act" where
  "get_request q s = map_option (\<lambda>rq. (Some rq, s)) (heap (ps_requests s) q)"

definition update_request :: "addr \<Rightarrow> (request \<Rightarrow> request) \<Rightarrow> (unit, 'a, 'w) proc_act" where
  "update_request q f s = map_option (\<lambda>rr. (Some (), s\<lparr>ps_requests := rr\<rparr>)) (set_request q f (ps_requests s))"

definition get_type :: "addr option \<Rightarrow> (datatype_s, 'a, 'w) proc_act" where
  "get_type tpo s = do { tp \<leftarrow> tpo; t \<leftarrow> heap (ps_types s) tp; Some (Some t, s) }"

definition get_comm :: "addr option \<Rightarrow> (communicator, 'a, 'w) proc_act" where
  "get_comm po s = do { p \<leftarrow> po; c \<leftarrow> heap (ps_comms s) p; Some (Some c, s) }"

text \<open>The function \<^verbatim>\<open>free_request\<close> with its call of the local library.\<close>

definition release_request :: "('a, 'w) env \<Rightarrow> addr \<Rightarrow> (unit, 'a, 'w) proc_act" where
  "release_request E q =
     andthen (get_request q) (\<lambda>rq.
     andthen (if rq_req rq \<noteq> None then andthen (pmpi E (Request (PMPI_Request_free (rq_req rq)))) (\<lambda>a. ret ())
              else ret ()) (\<lambda>u s. do {
       rr \<leftarrow> free_request (Some q) (ps_requests s);
       Some (Some (), s\<lparr>ps_requests := rr\<rparr>)
     }))"

text \<open>
  \<^verbatim>\<open>EMPI_Isend\<close> and \<^verbatim>\<open>EMPI_Issend\<close> only differ in the call they make of the local library. The result: the
  error code and what was stored through \<open>req\<close>, if anything.
\<close>

definition isend_with ::
  "('a, 'w) env \<Rightarrow> ('a list \<Rightarrow> int \<Rightarrow> mpi_object \<Rightarrow> int \<Rightarrow> int \<Rightarrow> mpi_handle \<Rightarrow> 'a p2p_call)
    \<Rightarrow> addr option \<Rightarrow> int \<Rightarrow> int \<Rightarrow> int \<Rightarrow> int \<Rightarrow> int \<Rightarrow> (int \<times> int option, 'a, 'w) proc_act" where
  "isend_with E call buf count typ dest tag comm =
     H2C E comm (EMPI_ERR_COMM, None) (\<lambda>p c. H2T E typ (EMPI_ERR_TYPE, None) (\<lambda>tp t.
     andthen (lift (rank_is_local (e_cluster_rank E) c dest)) (\<lambda>local.
     andthen (new_request E (if local then REQUEST_FLAG_SEND OR REQUEST_FLAG_LOCAL else REQUEST_FLAG_SEND)
                buf count tp dest tag p) (\<lambda>ro.
     case ro of
       None \<Rightarrow> lift (FATAL (Some (EMPI_ERR_INTERN, None)))
     | Some q \<Rightarrow>
         andthen (read_memory buf) (\<lambda>data.
         andthen
           (if local then
              andthen (lift (get_local_rank c dest)) (\<lambda>l.
              andthen (pmpi E (Point_To_Point (call data count (dt_type t) l (tag2mpi E tag) (c_comm c)))) (\<lambda>a.
              andthen (update_request q (\<lambda>rq. rq\<lparr>rq_req := an_handle a\<rparr>)) (\<lambda>u. ret (an_error a))))
            else wa_send E data count t dest tag c) (\<lambda>error.
         if error \<noteq> EMPI_SUCCESS then
           andthen (release_request E q) (\<lambda>u. after_ERROR (e_ef E) (ret (error, Some EMPI_REQUEST_NULL)))
         else andthen (get_request q) (\<lambda>rq. ret (EMPI_SUCCESS, Some (rq_handle rq)))))))))"

definition EMPI_Isend ::
  "('a, 'w) env \<Rightarrow> addr option \<Rightarrow> int \<Rightarrow> int \<Rightarrow> int \<Rightarrow> int \<Rightarrow> int \<Rightarrow> (int \<times> int option, 'a, 'w) proc_act" where
  "EMPI_Isend E buf count typ dest tag comm = isend_with E PMPI_Isend buf count typ dest tag comm"

definition EMPI_Irsend ::
  "('a, 'w) env \<Rightarrow> addr option \<Rightarrow> int \<Rightarrow> int \<Rightarrow> int \<Rightarrow> int \<Rightarrow> int \<Rightarrow> (int \<times> int option, 'a, 'w) proc_act" where
  "EMPI_Irsend E buf count typ dest tag comm = EMPI_Isend E buf count typ dest tag comm"

definition EMPI_Issend ::
  "('a, 'w) env \<Rightarrow> addr option \<Rightarrow> int \<Rightarrow> int \<Rightarrow> int \<Rightarrow> int \<Rightarrow> int \<Rightarrow> (int \<times> int option, 'a, 'w) proc_act" where
  "EMPI_Issend E buf count typ dest tag comm = isend_with E PMPI_Issend buf count typ dest tag comm"

definition EMPI_Irecv ::
  "('a, 'w) env \<Rightarrow> addr option \<Rightarrow> int \<Rightarrow> int \<Rightarrow> int \<Rightarrow> int \<Rightarrow> int \<Rightarrow> (int \<times> int option, 'a, 'w) proc_act" where
  "EMPI_Irecv E buf count typ source tag comm =
     H2C E comm (EMPI_ERR_COMM, None) (\<lambda>p c. H2T E typ (EMPI_ERR_TYPE, None) (\<lambda>tp t.
     andthen (lift (receives_locally E c source)) (\<lambda>local.
     andthen (new_request E (if local then REQUEST_FLAG_RECEIVE OR REQUEST_FLAG_LOCAL else REQUEST_FLAG_RECEIVE)
                buf count tp source tag p) (\<lambda>ro.
     case ro of
       None \<Rightarrow> after_IERROR (ret (EMPI_ERR_INTERN, None))
     | Some q \<Rightarrow>
         andthen
           (if local \<or> source = EMPI_ANY_SOURCE then
              andthen (lift (if local then local_source_of E c source else Some (e_ANY_SOURCE E))) (\<lambda>l.
              andthen (pmpi E (Point_To_Point (PMPI_Irecv buf count (dt_type t) l (tag2mpi E tag) (c_comm c)))) (\<lambda>a.
              andthen (update_request q (\<lambda>rq. rq\<lparr>rq_req := an_handle a\<rparr>)) (\<lambda>u. ret (an_error a))))
            else andthen (wa_probe_receive E q False) (\<lambda>error. ret EMPI_SUCCESS)) (\<lambda>error.
         if error \<noteq> EMPI_SUCCESS then
           after_ERROR (e_ef E) (andthen (release_request E q) (\<lambda>u. ret (error, Some EMPI_REQUEST_NULL)))
         else (\<lambda>s. do {
           h \<leftarrow> request_to_handle (e_ef E) (ps_requests s) (Some q);
           Some (Some (EMPI_SUCCESS, Some h), s)
         }))))))"

section \<open>Testing and waiting\<close>

text \<open>
  A completed receive over the wide area is unpacked, or its error goes to the status. This piece of
  code is in \<^verbatim>\<open>probe_request\<close> (twice) and in \<^verbatim>\<open>EMPI_Request_get_status\<close>.
\<close>

definition complete_receive :: "('a, 'w) env \<Rightarrow> addr \<Rightarrow> status option \<Rightarrow> (status option, 'a, 'w) proc_act" where
  "complete_receive E q st =
     andthen (get_request q) (\<lambda>rq.
     if rq_error rq = EMPI_SUCCESS then
       andthen (wa_finalize_receive E q st) (\<lambda>(error, st').
       andthen (update_request q (\<lambda>rq. rq\<lparr>rq_error := error\<rparr>)) (\<lambda>u. ret st'))
     else
       (\<lambda>s. do {
         st' \<leftarrow> set_status_error st (rq_source_or_dest rq) (rq_tag rq) (rq_error rq)
                 (Option.bind (rq_type rq) (heap (ps_types s)));
         Some (Some st', s)
       }))"

text \<open>
  The local library has finished a receive: its data are in the buffer, and its status is translated.
\<close>

definition local_receive_done ::
  "('a, 'w) env \<Rightarrow> request \<Rightarrow> 'a answer \<Rightarrow> status option \<Rightarrow> (int \<times> status option, 'a, 'w) proc_act" where
  "local_receive_done E rq a st =
     andthen (write_memory (rq_buf rq) (an_data a)) (\<lambda>u.
     andthen (get_type (rq_type rq)) (\<lambda>t.
     andthen (pmpi E (Request (PMPI_Get_count (an_status a) (dt_type t)))) (\<lambda>b.
     andthen (get_comm (rq_c rq)) (\<lambda>c.
     translate_status E c t st (Some (an_status a))))))"

text \<open>The status of a finished send; the kinds of request, each of which yields the error code, the flag and the status.\<close>

definition send_status :: "request \<Rightarrow> status option \<Rightarrow> (status option, 'a, 'w) proc_act" where
  "send_status rq st =
     (if st = None then ret None
      else andthen (get_type (rq_type rq)) (\<lambda>t.
        lift (set_status st (rq_source_or_dest rq) (rq_tag rq) EMPI_SUCCESS (Some t) (rq_count rq) 0)))"

definition probe_local ::
  "('a, 'w) env \<Rightarrow> addr \<Rightarrow> bool \<Rightarrow> int \<Rightarrow> status option \<Rightarrow> (int \<times> int \<times> status option, 'a, 'w) proc_act" where
  "probe_local E q blocking flag st =
     andthen (get_request q) (\<lambda>rq.
     andthen (pmpi E (Request (if blocking then PMPI_Wait (rq_req rq) else PMPI_Test (rq_req rq)))) (\<lambda>a.
     andthen (update_request q (\<lambda>rq. rq\<lparr>rq_error := an_error a, rq_req := an_handle a\<rparr>)) (\<lambda>u.
     let flag' = (if blocking then 1 else flag_int (an_flag a)) in
     if an_error a = EMPI_SUCCESS \<and> flag' = 1 then
       if request_send rq \<noteq> 0 then
         andthen (send_status rq st) (\<lambda>st'. ret (EMPI_SUCCESS, flag', st'))
       else andthen (local_receive_done E rq a st) (\<lambda>(error, st'). ret (error, flag', st'))
     else ret (EMPI_SUCCESS, flag', st))))"

definition probe_wa_send ::
  "addr \<Rightarrow> status option \<Rightarrow> (int \<times> int \<times> status option, 'a, 'w) proc_act" where
  "probe_wa_send q st =
     andthen (get_request q) (\<lambda>rq.
     andthen (send_status rq st) (\<lambda>st'.
     andthen (update_request q (\<lambda>rq. rq\<lparr>rq_error := EMPI_SUCCESS\<rparr>)) (\<lambda>u.
     ret (EMPI_SUCCESS, 1, st'))))"

definition probe_wa_receive ::
  "('a, 'w) env \<Rightarrow> addr \<Rightarrow> bool \<Rightarrow> int \<Rightarrow> status option \<Rightarrow> (int \<times> int \<times> status option, 'a, 'w) proc_act" where
  "probe_wa_receive E q blocking flag st =
     andthen (wa_probe_receive E q blocking) (\<lambda>error.
     andthen (get_request q) (\<lambda>rq.
     if request_completed rq \<noteq> 0 then
       andthen (complete_receive E q st) (\<lambda>st'. ret (EMPI_SUCCESS, 1, st'))
     else ret (EMPI_SUCCESS, flag, st)))"

fun probe_mixed_loop ::
  "('a, 'w) env \<Rightarrow> nat \<Rightarrow> addr \<Rightarrow> bool \<Rightarrow> status option \<Rightarrow> (int \<times> int \<times> status option, 'a, 'w) proc_act" where
  "probe_mixed_loop E 0 q blocking st = wait_more"
| "probe_mixed_loop E (Suc n) q blocking st =
     andthen (get_request q) (\<lambda>rq.
     andthen (pmpi E (Request (PMPI_Test (rq_req rq)))) (\<lambda>a.
     andthen (update_request q (\<lambda>rq. rq\<lparr>rq_error := an_error a, rq_req := an_handle a\<rparr>)) (\<lambda>u.
     andthen
       (if an_error a = EMPI_SUCCESS \<and> an_flag a then
          andthen (local_receive_done E rq a st) (\<lambda>(error, st'). ret (error, 1, st'))
        else
          andthen (wa_probe_receive E q False) (\<lambda>error.
          andthen (update_request q (\<lambda>rq. rq\<lparr>rq_error := error\<rparr>)) (\<lambda>u.
          andthen (get_request q) (\<lambda>rq1.
          if request_completed rq1 \<noteq> 0 then
            andthen (complete_receive E q st) (\<lambda>st'.
            andthen (pmpi E (Request (PMPI_Cancel (rq_req rq1)))) (\<lambda>b.
            if an_error b \<noteq> EMPI_SUCCESS then ret (an_error b, 1, st')
            else
              andthen (pmpi E (Request (PMPI_Request_free (rq_req rq1)))) (\<lambda>d.
              andthen (update_request q (\<lambda>rq. rq\<lparr>rq_req := an_handle d\<rparr>)) (\<lambda>u.
              ret (an_error d, 1, st')))))
          else ret (EMPI_SUCCESS, flag_int (an_flag a), st))))) (\<lambda>(error, flag', st').
     andthen (get_request q) (\<lambda>rq2.
     if blocking \<and> flag' = 0 \<and> rq_error rq2 = EMPI_SUCCESS then probe_mixed_loop E n q blocking st'
     else ret (error, flag', st'))))))"

text \<open>
  \<open>reqp\<close>: the handle behind the pointer, \<open>None\<close> for a null pointer. The result: the error code, the
  handle, the flag and the status after the call.
\<close>

definition probe_request ::
  "('a, 'w) env \<Rightarrow> nat \<Rightarrow> int option \<Rightarrow> bool \<Rightarrow> int \<Rightarrow> status option
    \<Rightarrow> (int \<times> int option \<times> int \<times> status option, 'a, 'w) proc_act" where
  "probe_request E n reqp blocking flag st =
     (case reqp of
        None \<Rightarrow> ret (EMPI_SUCCESS, None, 1, clear_status st)
      | Some h \<Rightarrow>
          if h = EMPI_REQUEST_NULL then ret (EMPI_SUCCESS, Some h, 1, clear_status st)
          else H2R E h (EMPI_ERR_REQUEST, Some h, flag, st) (\<lambda>q rq.
            if request_persistent rq \<noteq> 0 then
              lift (FATAL (Some (EMPI_ERR_REQUEST, Some EMPI_REQUEST_NULL, 1, clear_status st)))
            else
              andthen
                (if request_local rq \<noteq> 0 then probe_local E q blocking flag st
                 else if request_send rq \<noteq> 0 then probe_wa_send q st
                 else if rq_source_or_dest rq \<noteq> EMPI_ANY_SOURCE then probe_wa_receive E q blocking flag st
                 else if request_completed rq \<noteq> 0 then ret (EMPI_SUCCESS, 1, st)
                 else probe_mixed_loop E n q blocking st) (\<lambda>(error, flag', st').
              if flag' = 1 then
                andthen (get_request q) (\<lambda>rq'.
                andthen (release_request E q) (\<lambda>u.
                ret (rq_error rq', Some EMPI_REQUEST_NULL, 1, st')))
              else ret (error, Some h, flag', st'))))"

definition EMPI_Test ::
  "('a, 'w) env \<Rightarrow> nat \<Rightarrow> int option \<Rightarrow> int \<Rightarrow> status option
    \<Rightarrow> (int \<times> int option \<times> int \<times> status option, 'a, 'w) proc_act" where
  "EMPI_Test E n reqp flag st =
     andthen (probe_request E n reqp False flag st) (\<lambda>(error, reqp', flag', st').
     if error \<noteq> EMPI_SUCCESS then after_IERROR (ret (error, reqp', flag', st'))
     else ret (error, reqp', flag', st'))"

definition EMPI_Wait ::
  "('a, 'w) env \<Rightarrow> nat \<Rightarrow> int option \<Rightarrow> status option \<Rightarrow> (int \<times> int option \<times> status option, 'a, 'w) proc_act" where
  "EMPI_Wait E n reqp st =
     andthen (probe_request E n reqp True 0 st) (\<lambda>(error, reqp', flag', st').
     if error \<noteq> EMPI_SUCCESS then after_IERROR (ret (error, reqp', st')) else ret (error, reqp', st'))"

text \<open>
  One pass of \<^verbatim>\<open>EMPI_Waitany\<close> over the requests from index \<open>i\<close> on. \<open>Inl\<close>: the call returns with this error
  code and index; \<open>Inr\<close>: the number of null requests.
\<close>

fun waitany_scan ::
  "('a, 'w) env \<Rightarrow> nat \<Rightarrow> nat \<Rightarrow> int \<Rightarrow> int list \<Rightarrow> int \<Rightarrow> int \<Rightarrow> status option
    \<Rightarrow> ((int \<times> int + int \<times> int) \<times> int list \<times> status option, 'a, 'w) proc_act" where
  "waitany_scan E n 0 i hs undef flag st = ret (Inr (undef, flag), hs, st)"
| "waitany_scan E n (Suc k) i hs undef flag st =
     andthen (lift (arr_read hs i)) (\<lambda>h.
     if h \<noteq> EMPI_REQUEST_NULL then
       andthen (EMPI_Test E n (Some h) flag st) (\<lambda>(error, reqp', flag', st').
       andthen (lift (do { h' \<leftarrow> reqp'; arr_write hs i h' })) (\<lambda>hs'.
       if error \<noteq> EMPI_SUCCESS then ret (Inl (EMPI_ERR_IN_STATUS, i), hs', st')
       else if flag' \<noteq> 0 then ret (Inl (EMPI_SUCCESS, i), hs', st')
       else waitany_scan E n k (i + 1) hs' undef flag' st'))
     else waitany_scan E n k (i + 1) hs (undef + 1) flag st)"

fun waitany_loop ::
  "('a, 'w) env \<Rightarrow> nat \<Rightarrow> nat \<Rightarrow> int \<Rightarrow> int list \<Rightarrow> int \<Rightarrow> status option
    \<Rightarrow> (int \<times> int \<times> int list \<times> status option, 'a, 'w) proc_act" where
  "waitany_loop E n 0 count hs flag st = wait_more"
| "waitany_loop E n (Suc turns) count hs flag st =
     andthen (waitany_scan E n (nat count) 0 hs 0 flag st) (\<lambda>(r, hs', st').
     case r of
       Inl (error, i) \<Rightarrow> ret (error, i, hs', st')
     | Inr (undef, flag') \<Rightarrow>
         if undef = count then ret (EMPI_SUCCESS, EMPI_UNDEFINED, hs', clear_status st')
         else waitany_loop E n turns count hs' flag' st')"

definition EMPI_Waitany ::
  "('a, 'w) env \<Rightarrow> nat \<Rightarrow> int \<Rightarrow> int list \<Rightarrow> status option
    \<Rightarrow> (int \<times> int \<times> int list \<times> status option, 'a, 'w) proc_act" where
  "EMPI_Waitany E n count hs st = waitany_loop E n n count hs 0 st"

text \<open>
  \<^verbatim>\<open>&array_of_statuses[i]\<close>: of the null pointer \<^verbatim>\<open>EMPI_STATUSES_IGNORE\<close> (\<open>None\<close>) only element 0 is a null
  pointer again; the address of another element has no defined value.
\<close>

definition status_at :: "status list option \<Rightarrow> int \<Rightarrow> status option run" where
  "status_at sts i =
     (case sts of None \<Rightarrow> (if i = 0 then Some None else None)
      | Some xs \<Rightarrow> map_option Some (arr_read xs i))"

definition set_status_at :: "status list option \<Rightarrow> int \<Rightarrow> status option \<Rightarrow> status list option run" where
  "set_status_at sts i st =
     (case (sts, st) of
        (Some xs, Some x) \<Rightarrow> map_option Some (arr_write xs i x)
      | _ \<Rightarrow> Some sts)"

fun waitall_pass ::
  "('a, 'w) env \<Rightarrow> nat \<Rightarrow> nat \<Rightarrow> int \<Rightarrow> int list \<Rightarrow> status list option \<Rightarrow> int \<Rightarrow> int
    \<Rightarrow> (int list \<times> status list option \<times> int \<times> int, 'a, 'w) proc_act" where
  "waitall_pass E n 0 i hs sts finished errors = ret (hs, sts, finished, errors)"
| "waitall_pass E n (Suc k) i hs sts finished errors =
     andthen (lift (arr_read hs i)) (\<lambda>h.
     if h \<noteq> EMPI_REQUEST_NULL then
       andthen (lift (status_at sts i)) (\<lambda>st.
       andthen (EMPI_Test E n (Some h) 0 st) (\<lambda>(error, reqp', flag', st').
       andthen (lift (set_status_at sts i st')) (\<lambda>sts'.
       andthen (lift (do { h' \<leftarrow> reqp'; arr_write hs i (if flag' = 1 then EMPI_REQUEST_NULL else h') })) (\<lambda>hs'.
       waitall_pass E n k (i + 1) hs' sts' (if flag' = 1 then finished + 1 else finished)
         (if error \<noteq> EMPI_SUCCESS then errors + 1 else errors)))))
     else waitall_pass E n k (i + 1) hs sts finished errors)"

fun waitall_loop ::
  "('a, 'w) env \<Rightarrow> nat \<Rightarrow> nat \<Rightarrow> int \<Rightarrow> int list \<Rightarrow> status list option \<Rightarrow> int \<Rightarrow> int
    \<Rightarrow> (int \<times> int list \<times> status list option, 'a, 'w) proc_act" where
  "waitall_loop E n turns count hs sts finished errors =
     (if finished < count then
        (case turns of
           0 \<Rightarrow> wait_more
         | Suc turns' \<Rightarrow>
             andthen (waitall_pass E n (nat count) 0 hs sts finished errors) (\<lambda>(hs', sts', finished', errors').
             waitall_loop E n turns' count hs' sts' finished' errors'))
      else ret (if errors \<noteq> 0 then EMPI_ERR_IN_STATUS else EMPI_SUCCESS, hs, sts))"

fun count_null :: "int list \<Rightarrow> nat \<Rightarrow> int \<Rightarrow> int \<Rightarrow> int run" where
  "count_null hs 0 i finished = Some finished"
| "count_null hs (Suc k) i finished = do {
     h \<leftarrow> arr_read hs i;
     count_null hs k (i + 1) (if h = EMPI_REQUEST_NULL then finished + 1 else finished)
   }"

definition EMPI_Waitall ::
  "('a, 'w) env \<Rightarrow> nat \<Rightarrow> int \<Rightarrow> int list \<Rightarrow> status list option
    \<Rightarrow> (int \<times> int list \<times> status list option, 'a, 'w) proc_act" where
  "EMPI_Waitall E n count hs sts =
     andthen (lift (count_null hs (nat count) 0 0)) (\<lambda>finished.
     waitall_loop E n n count hs sts finished 0)"

definition EMPI_Request_free ::
  "('a, 'w) env \<Rightarrow> int option \<Rightarrow> (int \<times> int option, 'a, 'w) proc_act" where
  "EMPI_Request_free E reqp =
     (case reqp of
        None \<Rightarrow> ret (EMPI_SUCCESS, None)
      | Some h \<Rightarrow>
          if h = EMPI_REQUEST_NULL then ret (EMPI_SUCCESS, Some h)
          else H2R E h (EMPI_ERR_REQUEST, Some h) (\<lambda>q rq.
            andthen
              (if rq_req rq \<noteq> None then
                 andthen (pmpi E (Request (PMPI_Request_free (rq_req rq)))) (\<lambda>a.
                 andthen (update_request q (\<lambda>rq. rq\<lparr>rq_req := an_handle a\<rparr>)) (\<lambda>u. ret (an_error a)))
               else ret EMPI_SUCCESS) (\<lambda>error.
            andthen (release_request E q) (\<lambda>u.
            ret (error, Some EMPI_REQUEST_NULL)))))"

text \<open>The result: the error code, the flag and the status.\<close>

definition EMPI_Request_get_status ::
  "('a, 'w) env \<Rightarrow> int \<Rightarrow> int \<Rightarrow> status option \<Rightarrow> (int \<times> int \<times> status option, 'a, 'w) proc_act" where
  "EMPI_Request_get_status E h flag st0 =
     (let st = clear_status st0 in
      if h = EMPI_REQUEST_NULL then ret (EMPI_SUCCESS, 1, st)
      else H2R E h (EMPI_ERR_REQUEST, flag, st) (\<lambda>q rq.
        if request_persistent rq \<noteq> 0 then after_IERROR (ret (EMPI_ERR_REQUEST, 1, st))
        else if request_local rq \<noteq> 0 then
          andthen (pmpi E (Request (PMPI_Request_get_status (rq_req rq)))) (\<lambda>a.
          if an_error a = EMPI_SUCCESS \<and> st \<noteq> None then
            andthen (get_type (rq_type rq)) (\<lambda>t.
            andthen (get_comm (rq_c rq)) (\<lambda>c.
            andthen (translate_status E c t st (Some (an_status a))) (\<lambda>(error, st').
            ret (error, flag_int (an_flag a), st'))))
          else ret (an_error a, flag_int (an_flag a), st))
        else if request_send rq \<noteq> 0 then
          andthen (send_status rq st) (\<lambda>st'. ret (EMPI_SUCCESS, 1, st'))
        else
          andthen (if request_completed rq = 0 then andthen (wa_probe_receive E q False) (\<lambda>e. ret ()) else ret ()) (\<lambda>u.
          andthen (get_request q) (\<lambda>rq1.
          if request_completed rq1 \<noteq> 0 then
            andthen (complete_receive E q st) (\<lambda>st'.
            andthen (get_request q) (\<lambda>rq2.
            ret (rq_error rq2, 1, st')))
          else ret (EMPI_SUCCESS, 0, st)))))"

section \<open>The accessors of a status\<close>

text \<open>The error code and the count.\<close>

definition EMPI_Get_count :: "status option \<Rightarrow> int \<Rightarrow> int \<times> int option" where
  "EMPI_Get_count st t =
     (case st of
        None \<Rightarrow> (EMPI_ERR_ARG, None)
      | Some x \<Rightarrow>
          if st_type x = EMPI_DATATYPE_NULL then
            if t = EMPI_DATATYPE_NULL then
              (EMPI_SUCCESS, Some (if st_count x = 0 then 0 else EMPI_UNDEFINED))
            else (EMPI_ERR_TYPE, None)
          else if st_type x \<noteq> t then (EMPI_ERR_TYPE, None)
          else (EMPI_SUCCESS, Some (st_count x)))"

definition EMPI_Get_elements :: "status option \<Rightarrow> int \<Rightarrow> int \<times> int option" where
  "EMPI_Get_elements st t = EMPI_Get_count st t"

definition EMPI_Status_set_elements ::
  "('a, 'w) env \<Rightarrow> status option \<Rightarrow> int \<Rightarrow> int \<Rightarrow> (int \<times> status option, 'a, 'w) proc_act" where
  "EMPI_Status_set_elements E st typ count =
     (if st = None then ret (EMPI_ERR_ARG, st)
      else H2T E typ (EMPI_ERR_TYPE, st) (\<lambda>tp t. ret (EMPI_SUCCESS, set_status_count st (Some t) count)))"

definition EMPI_Status_set_cancelled :: "status option \<Rightarrow> int \<Rightarrow> int \<times> status option" where
  "EMPI_Status_set_cancelled st flag =
     (if st = None then (EMPI_ERR_ARG, st) else (EMPI_SUCCESS, set_status_cancelled st flag))"

end
