(* ===== verification/Communicator_Api.thy ===== *)
theory Communicator_Api
  imports Point_To_Point
begin

text \<open>
  The entry points of \<^verbatim>\<open>src/backend/empi.c\<close> on communicators and groups. A new communicator is agreed on
  with the server, which hands out its handle and, for \<^verbatim>\<open>EMPI_Comm_create\<close> and \<^verbatim>\<open>EMPI_Comm_split\<close>, its
  members; the part of it that lies in the own cluster is made with the local MPI library.
\<close>

section \<open>Queries\<close>

definition EMPI_Comm_size :: "('a, 'w) env \<Rightarrow> int \<Rightarrow> (int \<times> int option, 'a, 'w) proc_act" where
  "EMPI_Comm_size E comm = H2C E comm (EMPI_ERR_COMM, None) (\<lambda>p c. ret (EMPI_SUCCESS, Some (c_global_size c)))"

definition EMPI_Comm_rank :: "('a, 'w) env \<Rightarrow> int \<Rightarrow> (int \<times> int option, 'a, 'w) proc_act" where
  "EMPI_Comm_rank E comm = H2C E comm (EMPI_ERR_COMM, None) (\<lambda>p c. ret (EMPI_SUCCESS, Some (c_global_rank c)))"

section \<open>New communicators\<close>

text \<open>The exchange with the server, and the request that was handed to its gateway.\<close>

definition server_call :: "('a, 'w) env \<Rightarrow> (int \<times> (nat \<Rightarrow> bool) \<times> mpi_recv, 'a, 'w) proc_act" where
  "server_call E s = (let (x, w) = e_server E (ps_world s) in Some (Some x, s\<lparr>ps_world := w\<rparr>))"

definition requested :: "byte list option \<Rightarrow> (unit, 'a, 'w) proc_act" where
  "requested sent s =
     Some (Some (), s\<lparr>ps_requested := ps_requested s @ (case sent of None \<Rightarrow> [] | Some bs \<Rightarrow> [bs])\<rparr>)"

text \<open>\<^verbatim>\<open>copy_int_array\<close> of \<^verbatim>\<open>empi.c\<close>, \<open>ok\<close>: the array was allocated; and its use: a failure stops the
  process.\<close>

definition api_copy_int_array :: "bool \<Rightarrow> 'b list \<Rightarrow> int \<Rightarrow> 'b list option run" where
  "api_copy_int_array ok src sz =
     (if \<not> ok then Some None
      else if 0 \<le> sz \<and> sz \<le> int (length src) then Some (Some (take (nat sz) src)) else None)"

definition with_copy ::
  "('a, 'w) env \<Rightarrow> 'b list \<Rightarrow> int \<Rightarrow> 'r \<Rightarrow> ('b list \<Rightarrow> ('r, 'a, 'w) proc_act) \<Rightarrow> ('r, 'a, 'w) proc_act" where
  "with_copy E src sz bad k =
     andthen (malloc E) (\<lambda>new.
     andthen (lift (api_copy_int_array (new \<noteq> None) src sz)) (\<lambda>r.
     case r of None \<Rightarrow> after_IERROR (ret bad) | Some xs \<Rightarrow> k xs))"

text \<open>
  Registering a communicator; \<open>x\<close> has the arguments of \<^verbatim>\<open>create_communicator\<close> in its fields. The result:
  the error code and the handle stored through \<open>newcomm\<close>.
\<close>

definition register_communicator ::
  "('a, 'w) env \<Rightarrow> int \<Rightarrow> communicator \<Rightarrow> (int \<times> int option, 'a, 'w) proc_act" where
  "register_communicator E h x =
     andthen (malloc E) (\<lambda>new s. do {
       (error, out, r) \<leftarrow> create_communicator (e_ef E) (e_cluster_rank E) new (e_junk_int E) h x (ps_comms s);
       let s' = s\<lparr>ps_comms := r\<rparr>;
       if error \<noteq> EMPI_SUCCESS then after_IERROR (ret (error, None)) s'
       else do { p \<leftarrow> out; y \<leftarrow> heap r p; Some (Some (EMPI_SUCCESS, Some (c_handle y)), s') }
     })"

definition EMPI_Comm_dup :: "('a, 'w) env \<Rightarrow> int \<Rightarrow> (int \<times> int option, 'a, 'w) proc_act" where
  "EMPI_Comm_dup E comm =
     H2C E comm (EMPI_ERR_COMM, None) (\<lambda>p c.
     andthen (server_call E) (\<lambda>(send_error, ok, rv).
     andthen (lift (messaging_comm_dup_send (e_ef E) (e_le E) (e_my_pid E) send_error c)) (\<lambda>(error, sent).
     andthen (requested sent) (\<lambda>u.
     if error \<noteq> EMPI_SUCCESS then after_IERROR (ret (error, None))
     else
       andthen (lift (messaging_comm_dup_receive (e_ef E) (e_le E) (rv_error rv) (rv_data rv))) (\<lambda>reply.
       case reply of
         Inl error \<Rightarrow> after_IERROR (ret (error, None))
       | Inr newComm \<Rightarrow>
           andthen (pmpi E (Comm (PMPI_Comm_dup (c_comm c)))) (\<lambda>a.
           if an_error a \<noteq> EMPI_SUCCESS then after_IERROR (ret (an_error a, None))
           else
             with_copy E (c_members c) (c_global_size c) (EMPI_SUCCESS, None) (\<lambda>members.
             with_copy E (c_coordinators c) (c_cluster_count c) (EMPI_SUCCESS, None) (\<lambda>coordinators.
             with_copy E (c_cluster_sizes c) (c_cluster_count c) (EMPI_SUCCESS, None) (\<lambda>sizes.
             with_copy E (c_cluster_ranks c) (c_cluster_count c) (EMPI_SUCCESS, None) (\<lambda>ranks.
             with_copy E (c_member_cluster_index c) (c_global_size c) (EMPI_SUCCESS, None) (\<lambda>mci.
             with_copy E (c_local_ranks c) (c_global_size c) (EMPI_SUCCESS, None) (\<lambda>lrs.
             register_communicator E newComm
               \<lparr>c_handle = newComm, c_flags = c_flags c, c_comm = an_handle a, c_local_rank = c_local_rank c,
                c_local_size = c_local_size c, c_global_rank = c_global_rank c, c_global_size = c_global_size c,
                c_my_coordinator = 0, c_coordinators = coordinators, c_cluster_count = c_cluster_count c,
                c_cluster_ranks = ranks, c_cluster_sizes = sizes, c_members = members,
                c_member_cluster_index = mci, c_local_ranks = lrs, c_queue = []\<rparr>))))))))))))"

text \<open>The process ranks of the members of a group that are in cluster \<open>crank\<close>.\<close>

fun local_members :: "u32 \<Rightarrow> u32 list \<Rightarrow> nat \<Rightarrow> int \<Rightarrow> int list run" where
  "local_members crank ms 0 i = Some []"
| "local_members crank ms (Suc n) i = do {
     m \<leftarrow> arr_read ms i;
     rest \<leftarrow> local_members crank ms n (i + 1);
     Some (if GET_CLUSTER_RANK m = crank then uint (GET_PROCESS_RANK m) # rest else rest)
   }"

text \<open>The result: the error code and the new communicator of the local library.\<close>

definition local_comm_create ::
  "('a, 'w) env \<Rightarrow> communicator \<Rightarrow> group_s \<Rightarrow> (int \<times> mpi_handle, 'a, 'w) proc_act" where
  "local_comm_create E c g =
     andthen (malloc E) (\<lambda>new.
     if new = None then after_IERROR (ret (EMPI_ERR_INTERN, None))
     else
       andthen (lift (local_members (e_cluster_rank E) (g_members g) (nat (g_size g)) 0)) (\<lambda>ms.
       if ms = [] then ret (EMPI_SUCCESS, None)
       else
         andthen (\<lambda>s. do {
           po \<leftarrow> handle_to_communicator (e_ef E) (ps_comms s) EMPI_COMM_WORLD;
           p \<leftarrow> po;
           w \<leftarrow> heap (ps_comms s) p;
           Some (Some w, s) }) (\<lambda>world.
         andthen (pmpi E (Comm (PMPI_Comm_group (c_comm world)))) (\<lambda>a.
         if an_error a \<noteq> EMPI_SUCCESS then after_IERROR (ret (an_error a, None))
         else
           andthen (pmpi E (Comm (PMPI_Group_incl (an_handle a) ms))) (\<lambda>b.
           if an_error b \<noteq> EMPI_SUCCESS then after_IERROR (ret (an_error b, None))
           else if an_handle b = None then ret (EMPI_SUCCESS, None)
           else
             andthen (pmpi E (Comm (PMPI_Comm_create (c_comm c) (an_handle b)))) (\<lambda>d.
             if an_error d \<noteq> EMPI_SUCCESS then after_IERROR (ret (an_error d, an_handle d))
             else ret (EMPI_SUCCESS, an_handle d)))))))"

text \<open>
  The end of \<^verbatim>\<open>EMPI_Comm_create\<close> and of \<^verbatim>\<open>EMPI_Comm_split\<close>: with the local part \<open>tmp\<close> of the new
  communicator and the arguments that the reply of the server holds.
\<close>

definition comm_from_reply ::
  "('a, 'w) env \<Rightarrow> mpi_handle \<Rightarrow> int \<Rightarrow> int \<Rightarrow> int \<Rightarrow> int \<Rightarrow> int \<Rightarrow> reply_arrays \<Rightarrow> (int \<times> int option, 'a, 'w) proc_act" where
  "comm_from_reply E tmp newComm rank sz cc flags arrays =
     (if tmp = None then ret (EMPI_SUCCESS, Some EMPI_COMM_NULL)
      else
        andthen (pmpi E (Comm (PMPI_Comm_rank tmp))) (\<lambda>a.
        if an_error a \<noteq> EMPI_SUCCESS then after_IERROR (ret (an_error a, None))
        else
          andthen (pmpi E (Comm (PMPI_Comm_size tmp))) (\<lambda>b.
          if an_error b \<noteq> EMPI_SUCCESS then after_IERROR (ret (an_error b, None))
          else
            register_communicator E newComm
              \<lparr>c_handle = newComm, c_flags = word_of_int flags, c_comm = tmp, c_local_rank = an_value a,
               c_local_size = an_value b, c_global_rank = rank, c_global_size = sz,
               c_my_coordinator = 0, c_coordinators = ra_coordinators arrays, c_cluster_count = cc,
               c_cluster_ranks = ra_cluster_ranks arrays, c_cluster_sizes = ra_cluster_sizes arrays,
               c_members = ra_members arrays, c_member_cluster_index = ra_member_cluster_index arrays,
               c_local_ranks = ra_local_ranks arrays, c_queue = []\<rparr>)))"

definition EMPI_Comm_create :: "('a, 'w) env \<Rightarrow> int \<Rightarrow> int \<Rightarrow> (int \<times> int option, 'a, 'w) proc_act" where
  "EMPI_Comm_create E mc mg =
     H2C E mc (EMPI_ERR_COMM, None) (\<lambda>p c. H2G E mg (EMPI_ERR_OP, None) (\<lambda>gp g.
     andthen (server_call E) (\<lambda>(send_error, ok, rv).
     andthen (lift (messaging_comm_create_send (e_ef E) (e_le E) (e_my_pid E) send_error (ok 6) c g)) (\<lambda>(error, sent).
     andthen (requested sent) (\<lambda>u.
     if error \<noteq> EMPI_SUCCESS then after_IERROR (ret (error, None))
     else
       andthen (lift (messaging_comm_create_receive (e_ef E) (e_le E) ok rv)) (\<lambda>reply.
       case reply of
         Inl error \<Rightarrow> after_IERROR (ret (error, None))
       | Inr x \<Rightarrow>
           if gr_type x = GROUP_TYPE_IDLE then ret (EMPI_SUCCESS, Some EMPI_COMM_NULL)
           else
             andthen (local_comm_create E c g) (\<lambda>(error, tmp).
             if error \<noteq> EMPI_SUCCESS then after_IERROR (ret (error, None))
             else comm_from_reply E tmp (gr_newComm x) (gr_rank x) (gr_size x) (gr_cluster_count x) (gr_flags x)
                    (gr_arrays x))))))))"

definition EMPI_Comm_split :: "('a, 'w) env \<Rightarrow> int \<Rightarrow> int \<Rightarrow> int \<Rightarrow> (int \<times> int option, 'a, 'w) proc_act" where
  "EMPI_Comm_split E comm color0 key0 =
     H2C E comm (EMPI_ERR_COMM, None) (\<lambda>p c.
     let (color, key) = (if color0 = e_UNDEFINED E then (-1, -1) else (color0, key0)) in
     andthen (server_call E) (\<lambda>(send_error, ok, rv).
     andthen (lift (messaging_comm_split_send (e_ef E) (e_le E) (e_my_pid E) send_error c color key)) (\<lambda>(error, sent).
     andthen (requested sent) (\<lambda>u.
     if error \<noteq> EMPI_SUCCESS then after_IERROR (ret (error, None))
     else
       andthen (lift (messaging_comm_split_receive (e_ef E) (e_le E) ok rv)) (\<lambda>reply.
       case reply of
         Inl error \<Rightarrow> after_IERROR (ret (error, None))
       | Inr x \<Rightarrow>
           let (color', key') = (if cr_color x < 0 then (EMPI_UNDEFINED, 0) else (cr_color x, cr_key x)) in
           andthen (pmpi E (Comm (PMPI_Comm_split (c_comm c) color' key'))) (\<lambda>a.
           if an_error a \<noteq> EMPI_SUCCESS then after_IERROR (ret (an_error a, None))
           else comm_from_reply E (an_handle a) (cr_newComm x) (cr_rank x) (cr_size x) (cr_cluster_count x) (cr_flags x)
                  (cr_arrays x)))))))"

text \<open>A communicator is never freed.\<close>

definition EMPI_Comm_free :: "('a, 'w) env \<Rightarrow> int \<Rightarrow> (int \<times> int, 'a, 'w) proc_act" where
  "EMPI_Comm_free E comm =
     (if comm = EMPI_COMM_WORLD then ret (EMPI_SUCCESS, comm)
      else if comm = EMPI_COMM_NULL then after_ERROR (e_ef E) (ret (EMPI_ERR_COMM, comm))
      else H2C E comm (EMPI_ERR_COMM, comm) (\<lambda>p c. ret (EMPI_SUCCESS, EMPI_COMM_NULL)))"

section \<open>Groups\<close>

text \<open>An operation that makes a group; the result: the error code and the handle of the group.\<close>

definition new_group_call ::
  "('a, 'w) env \<Rightarrow> (bool \<Rightarrow> group_alloc \<Rightarrow> group_reg \<Rightarrow> (int \<times> addr option \<times> group_reg) run)
    \<Rightarrow> (int \<times> int option, 'a, 'w) proc_act" where
  "new_group_call E f s =
     (let ((tmp_ok, al), w) = e_group E (ps_world s) in do {
        (error, out, r) \<leftarrow> f tmp_ok al (ps_groups s);
        let s' = s\<lparr>ps_world := w, ps_groups := r\<rparr>;
        if error = EMPI_SUCCESS then do {
          p \<leftarrow> out;
          g \<leftarrow> heap r p;
          Some (Some (error, Some (g_handle g)), s')
        }
        else after_ERROR (e_ef E) (ret (error, None)) s'
      })"

definition EMPI_Comm_group :: "('a, 'w) env \<Rightarrow> int \<Rightarrow> (int \<times> int option, 'a, 'w) proc_act" where
  "EMPI_Comm_group E comm =
     H2C E comm (EMPI_ERR_COMM, None) (\<lambda>p c. new_group_call E (\<lambda>tmp al. group_comm_group (e_ef E) al (Some c)))"

definition EMPI_Group_rank :: "('a, 'w) env \<Rightarrow> int \<Rightarrow> (int \<times> int option, 'a, 'w) proc_act" where
  "EMPI_Group_rank E mg =
     H2G E mg (EMPI_ERR_OP, None) (\<lambda>p g s. do { r \<leftarrow> group_rank (Some p) (ps_groups s); Some (Some r, s) })"

definition EMPI_Group_size :: "('a, 'w) env \<Rightarrow> int \<Rightarrow> (int \<times> int option, 'a, 'w) proc_act" where
  "EMPI_Group_size E mg =
     H2G E mg (EMPI_ERR_OP, None) (\<lambda>p g s. do { r \<leftarrow> group_size (Some p) (ps_groups s); Some (Some r, s) })"

definition EMPI_Group_incl :: "('a, 'w) env \<Rightarrow> int \<Rightarrow> int \<Rightarrow> int list \<Rightarrow> (int \<times> int option, 'a, 'w) proc_act" where
  "EMPI_Group_incl E mg n ranks =
     H2G E mg (EMPI_ERR_OP, None) (\<lambda>p g.
     new_group_call E (\<lambda>tmp al. group_incl (e_ef E) (e_my_pid E) al (Some p) n ranks))"

definition EMPI_Group_range_incl ::
  "('a, 'w) env \<Rightarrow> int \<Rightarrow> int \<Rightarrow> (int \<times> int \<times> int) list \<Rightarrow> (int \<times> int option, 'a, 'w) proc_act" where
  "EMPI_Group_range_incl E mg n ranges =
     H2G E mg (EMPI_ERR_OP, None) (\<lambda>p g.
     new_group_call E (\<lambda>tmp al. group_range_incl (e_ef E) (e_my_pid E) tmp al (Some p) n ranges))"

definition EMPI_Group_range_excl ::
  "('a, 'w) env \<Rightarrow> int \<Rightarrow> int \<Rightarrow> (int \<times> int \<times> int) list \<Rightarrow> (int \<times> int option, 'a, 'w) proc_act" where
  "EMPI_Group_range_excl E mg n ranges =
     H2G E mg (EMPI_ERR_OP, None) (\<lambda>p g.
     new_group_call E (\<lambda>tmp al. group_range_excl (e_ef E) (Some p) n ranges))"

definition EMPI_Group_union :: "('a, 'w) env \<Rightarrow> int \<Rightarrow> int \<Rightarrow> (int \<times> int option, 'a, 'w) proc_act" where
  "EMPI_Group_union E group1 group2 =
     H2G E group1 (EMPI_ERR_OP, None) (\<lambda>p1 g1. H2G E group2 (EMPI_ERR_OP, None) (\<lambda>p2 g2.
     new_group_call E (\<lambda>tmp al. group_union (e_ef E) (e_my_pid E) tmp al p1 p2)))"

text \<open>
  The inner loop of \<^verbatim>\<open>EMPI_Group_translate_ranks\<close>, \<^verbatim>\<open>for (j=0;i<in2->size;j++)\<close>: its condition does not
  depend on \<open>j\<close>, so that it only ends at a match, or reads past the members.
\<close>

fun translate_search :: "u32 \<Rightarrow> u32 list \<Rightarrow> int \<Rightarrow> int run" where
  "translate_search pid [] j = None"
| "translate_search pid (m # ms) j = (if m = pid then Some j else translate_search pid ms (j + 1))"

fun translate_loop ::
  "bool \<Rightarrow> group_s \<Rightarrow> group_s \<Rightarrow> int list \<Rightarrow> nat \<Rightarrow> int \<Rightarrow> int list \<Rightarrow> (int \<times> int list) run" where
  "translate_loop ef in1 in2 ranks1 0 i ranks2 = Some (EMPI_SUCCESS, ranks2)"
| "translate_loop ef in1 in2 ranks1 (Suc n) i ranks2 = do {
     rank \<leftarrow> arr_read ranks1 i;
     if rank < 0 \<or> rank \<ge> g_size in1 then ERROR ef (Some (EMPI_ERR_RANK, ranks2))
     else do {
       pid \<leftarrow> arr_read (g_members in1) rank;
       k \<leftarrow> (if i < g_size in2 then translate_search pid (g_members in2) 0 else Some EMPI_UNDEFINED);
       ranks2' \<leftarrow> arr_write ranks2 i k;
       translate_loop ef in1 in2 ranks1 n (i + 1) ranks2'
     }
   }"

definition EMPI_Group_translate_ranks ::
  "('a, 'w) env \<Rightarrow> int \<Rightarrow> int \<Rightarrow> int list \<Rightarrow> int \<Rightarrow> int list \<Rightarrow> (int \<times> int list, 'a, 'w) proc_act" where
  "EMPI_Group_translate_ranks E group1 n ranks1 group2 ranks2 =
     H2G E group1 (EMPI_ERR_OP, ranks2) (\<lambda>p1 in1. H2G E group2 (EMPI_ERR_OP, ranks2) (\<lambda>p2 in2.
     lift (translate_loop (e_ef E) in1 in2 ranks1 (nat n) 0 ranks2)))"

end
