(* ===== verification/Object_Api.thy ===== *)
theory Object_Api
  imports Communicator_Api
begin

text \<open>
  The entry points of \<^verbatim>\<open>src/backend/empi.c\<close> on datatypes, files, info objects and operations, packing,
  and the end of a run. Each looks its handles up, calls the local MPI library, and registers or removes
  the object.
\<close>

abbreviation (input) EMPI_ERR_FILE :: int where "EMPI_ERR_FILE \<equiv> 30"
abbreviation (input) EMPI_ERR_INFO :: int where "EMPI_ERR_INFO \<equiv> 34"

section \<open>More handles\<close>

definition H2F ::
  "('a, 'w) env \<Rightarrow> int \<Rightarrow> 'r \<Rightarrow> (addr \<Rightarrow> file_s \<Rightarrow> ('r, 'a, 'w) proc_act) \<Rightarrow> ('r, 'a, 'w) proc_act" where
  "H2F E h bad k s = do {
     po \<leftarrow> handle_to_file (e_ef E) (ps_files s) h;
     case po of
       None \<Rightarrow> ERROR (e_ef E) (Some (Some bad, s))
     | Some p \<Rightarrow> do { x \<leftarrow> heap (ps_files s) p; k p x s }
   }"

definition H2I ::
  "('a, 'w) env \<Rightarrow> int \<Rightarrow> 'r \<Rightarrow> (addr \<Rightarrow> info_s \<Rightarrow> ('r, 'a, 'w) proc_act) \<Rightarrow> ('r, 'a, 'w) proc_act" where
  "H2I E h bad k s = do {
     po \<leftarrow> handle_to_info (e_ef E) (ps_infos s) h;
     case po of
       None \<Rightarrow> ERROR (e_ef E) (Some (Some bad, s))
     | Some p \<Rightarrow> do { x \<leftarrow> heap (ps_infos s) p; k p x s }
   }"

text \<open>A call whose error code is returned, with a log entry in between when it is an error.\<close>

definition checked :: "('a, 'w) env \<Rightarrow> 'a answer \<Rightarrow> 'r \<Rightarrow> ('r, 'a, 'w) proc_act" where
  "checked E a r = (if an_error a \<noteq> EMPI_SUCCESS then after_ERROR (e_ef E) (ret r) else ret r)"

section \<open>Datatypes\<close>

text \<open>The datatype object at \<open>tp\<close> after the local library was given the address of its \<^verbatim>\<open>type\<close>.\<close>

definition set_type :: "addr \<Rightarrow> mpi_object \<Rightarrow> (unit, 'a, 'w) proc_act" where
  "set_type tp m s = do {
     t \<leftarrow> heap (ps_types s) tp;
     Some (Some (), s\<lparr>ps_types := (ps_types s)\<lparr>heap := (heap (ps_types s))(tp \<mapsto> t\<lparr>dt_type := m\<rparr>)\<rparr>\<rparr>)
   }"

text \<open>The result: the error code and the handle afterwards.\<close>

definition EMPI_Type_free :: "('a, 'w) env \<Rightarrow> int \<Rightarrow> (int \<times> int, 'a, 'w) proc_act" where
  "EMPI_Type_free E h =
     H2T E h (EMPI_ERR_TYPE, h) (\<lambda>tp t.
     andthen (pmpi E (Object (PMPI_Type_free (dt_type t)))) (\<lambda>a.
     andthen (set_type tp (an_type a)) (\<lambda>u.
     andthen (checked E a ()) (\<lambda>u s. do {
       (error, r) \<leftarrow> free_datatype (e_ef E) (Some tp) (ps_types s);
       Some (Some (an_error a, EMPI_DATATYPE_NULL), s\<lparr>ps_types := r\<rparr>)
     }))))"

definition EMPI_Type_get_envelope :: "('a, 'w) env \<Rightarrow> int \<Rightarrow> (int \<times> int list option, 'a, 'w) proc_act" where
  "EMPI_Type_get_envelope E h =
     H2T E h (EMPI_ERR_TYPE, None) (\<lambda>tp t.
     andthen (pmpi E (Object (PMPI_Type_get_envelope (dt_type t)))) (\<lambda>a. ret (an_error a, Some (an_values a))))"

text \<open>The five constructors of datatypes: the call of the local library, then a new handle.\<close>

definition new_type_call ::
  "('a, 'w) env \<Rightarrow> int \<Rightarrow> (mpi_object \<Rightarrow> object_call) \<Rightarrow> (int \<times> int option, 'a, 'w) proc_act" where
  "new_type_call E h call =
     H2T E h (EMPI_ERR_TYPE, None) (\<lambda>tp t.
     andthen (pmpi E (Object (call (dt_type t)))) (\<lambda>a.
     if an_error a \<noteq> EMPI_SUCCESS then after_ERROR (e_ef E) (ret (an_error a, None))
     else
       andthen (malloc E) (\<lambda>new s. do {
         (po, r) \<leftarrow> add_datatype (e_ef E) new (an_type a) (ps_types s);
         let s' = s\<lparr>ps_types := r\<rparr>;
         if po = None then after_ERROR (e_ef E) (ret (EMPI_ERR_INTERN, None)) s'
         else do { k \<leftarrow> datatype_to_handle (e_ef E) r po; Some (Some (EMPI_SUCCESS, Some k), s') }
       })))"

definition EMPI_Type_create_indexed_block ::
  "('a, 'w) env \<Rightarrow> int \<Rightarrow> int \<Rightarrow> int list \<Rightarrow> int \<Rightarrow> (int \<times> int option, 'a, 'w) proc_act" where
  "EMPI_Type_create_indexed_block E count blocklength disps oldtype =
     new_type_call E oldtype (PMPI_Type_create_indexed_block count blocklength disps)"

definition EMPI_Type_contiguous :: "('a, 'w) env \<Rightarrow> int \<Rightarrow> int \<Rightarrow> (int \<times> int option, 'a, 'w) proc_act" where
  "EMPI_Type_contiguous E count oldtype = new_type_call E oldtype (PMPI_Type_contiguous count)"

definition EMPI_Type_hvector ::
  "('a, 'w) env \<Rightarrow> int \<Rightarrow> int \<Rightarrow> int \<Rightarrow> int \<Rightarrow> (int \<times> int option, 'a, 'w) proc_act" where
  "EMPI_Type_hvector E count blocklen stride oldtype =
     new_type_call E oldtype (PMPI_Type_hvector count blocklen stride)"

definition EMPI_Type_indexed ::
  "('a, 'w) env \<Rightarrow> int \<Rightarrow> int list \<Rightarrow> int list \<Rightarrow> int \<Rightarrow> (int \<times> int option, 'a, 'w) proc_act" where
  "EMPI_Type_indexed E count blocklens indices oldtype =
     new_type_call E oldtype (PMPI_Type_indexed count blocklens indices)"

definition EMPI_Type_commit :: "('a, 'w) env \<Rightarrow> int \<Rightarrow> (int, 'a, 'w) proc_act" where
  "EMPI_Type_commit E h =
     H2T E h EMPI_ERR_TYPE (\<lambda>tp t.
     andthen (pmpi E (Object (PMPI_Type_commit (dt_type t)))) (\<lambda>a.
     andthen (set_type tp (an_type a)) (\<lambda>u. checked E a (an_error a))))"

definition EMPI_Type_get_name :: "('a, 'w) env \<Rightarrow> int \<Rightarrow> (int \<times> (string \<times> int) option, 'a, 'w) proc_act" where
  "EMPI_Type_get_name E h =
     H2T E h (EMPI_ERR_TYPE, None) (\<lambda>tp t.
     andthen (pmpi E (Object (PMPI_Type_get_name (dt_type t)))) (\<lambda>a.
     checked E a (an_error a, Some (an_name a, an_value a))))"

definition EMPI_Type_size :: "('a, 'w) env \<Rightarrow> int \<Rightarrow> (int \<times> int option, 'a, 'w) proc_act" where
  "EMPI_Type_size E h =
     H2T E h (EMPI_ERR_TYPE, None) (\<lambda>tp t.
     andthen (pmpi E (Object (PMPI_Type_size (dt_type t)))) (\<lambda>a. checked E a (an_error a, Some (an_value a))))"

text \<open>The result goes into an \<^verbatim>\<open>int\<close>, so the \<^verbatim>\<open>MPI_Aint\<close> of the local library is taken to be no wider.\<close>

definition EMPI_Type_ub :: "('a, 'w) env \<Rightarrow> int \<Rightarrow> (int \<times> int option, 'a, 'w) proc_act" where
  "EMPI_Type_ub E h =
     H2T E h (EMPI_ERR_TYPE, None) (\<lambda>tp t.
     andthen (pmpi E (Object (PMPI_Type_ub (dt_type t)))) (\<lambda>a. ret (an_error a, Some (an_value a))))"

section \<open>Files\<close>

text \<open>The info object of the local library behind a handle; \<open>None\<close>: the handle is unknown.\<close>

definition info_of_handle :: "('a, 'w) env \<Rightarrow> int \<Rightarrow> (mpi_handle option, 'a, 'w) proc_act" where
  "info_of_handle E inh =
     (if inh = EMPI_INFO_NULL then ret (Some None) else H2I E inh None (\<lambda>p x. ret (Some (in_info x))))"

definition EMPI_File_open ::
  "('a, 'w) env \<Rightarrow> int \<Rightarrow> string \<Rightarrow> int \<Rightarrow> int \<Rightarrow> (int \<times> int option, 'a, 'w) proc_act" where
  "EMPI_File_open E comm filename amode inh =
     H2C E comm (EMPI_ERR_COMM, None) (\<lambda>p c.
     if comm_is_local c then
       andthen (info_of_handle E inh) (\<lambda>io.
       case io of
         None \<Rightarrow> ret (EMPI_ERR_INFO, None)
       | Some mi \<Rightarrow>
           andthen (pmpi E (IO (PMPI_File_open (c_comm c) filename amode mi))) (\<lambda>a.
           if an_error a \<noteq> EMPI_SUCCESS then after_ERROR (e_ef E) (ret (an_error a, None))
           else
             andthen (malloc E) (\<lambda>new s. do {
               (po, r) \<leftarrow> add_file new (Some p) (an_handle a) (ps_files s);
               let s' = s\<lparr>ps_files := r\<rparr>;
               if po = None then after_ERROR (e_ef E) (ret (EMPI_ERR_INTERN, None)) s'
               else do { k \<leftarrow> file_to_handle (e_ef E) r po; Some (Some (EMPI_SUCCESS, Some k), s') }
             })))
     else after_ERROR (e_ef E) (ret (EMPI_ERR_INTERN, None)))"

text \<open>The result: the error code and the handle afterwards.\<close>

definition EMPI_File_close :: "('a, 'w) env \<Rightarrow> int \<Rightarrow> (int \<times> int, 'a, 'w) proc_act" where
  "EMPI_File_close E fh =
     H2F E fh (EMPI_ERR_FILE, fh) (\<lambda>p x.
     andthen (pmpi E (IO (PMPI_File_close (fl_file x)))) (\<lambda>a.
     andthen (\<lambda>s. do { r \<leftarrow> remove_file fh (ps_files s); Some (Some (), s\<lparr>ps_files := r\<rparr>) }) (\<lambda>u.
     checked E a (an_error a, EMPI_FILE_NULL))))"

text \<open>
  Reading and writing: the call of the local library, then the status is translated; its error code is
  ignored. The result: the error code, the data read, and the status.
\<close>

definition file_call ::
  "('a, 'w) env \<Rightarrow> int \<Rightarrow> int \<Rightarrow> status option \<Rightarrow> (mpi_handle \<Rightarrow> mpi_object \<Rightarrow> bool \<Rightarrow> 'a io_call)
    \<Rightarrow> (int \<times> 'a list option \<times> status option, 'a, 'w) proc_act" where
  "file_call E fh typ st call =
     H2F E fh (EMPI_ERR_FILE, None, st) (\<lambda>p x. H2T E typ (EMPI_ERR_TYPE, None, st) (\<lambda>tp t.
     andthen (pmpi E (IO (call (fl_file x) (dt_type t) (st \<noteq> None)))) (\<lambda>a.
     if an_error a \<noteq> EMPI_SUCCESS then after_ERROR (e_ef E) (ret (an_error a, None, st))
     else if st \<noteq> None then
       andthen (get_comm (fl_comm x)) (\<lambda>c.
       andthen (translate_status E c t st (Some (an_status a))) (\<lambda>(e, st').
       ret (an_error a, Some (an_data a), st')))
     else ret (an_error a, Some (an_data a), st))))"

definition EMPI_File_read_all ::
  "('a, 'w) env \<Rightarrow> int \<Rightarrow> int \<Rightarrow> int \<Rightarrow> status option \<Rightarrow> (int \<times> 'a list option \<times> status option, 'a, 'w) proc_act" where
  "EMPI_File_read_all E fh count typ st =
     file_call E fh typ st (\<lambda>f t with_status. PMPI_File_read_all f count t with_status)"

definition EMPI_File_read_at ::
  "('a, 'w) env \<Rightarrow> int \<Rightarrow> int \<Rightarrow> int \<Rightarrow> int \<Rightarrow> status option
    \<Rightarrow> (int \<times> 'a list option \<times> status option, 'a, 'w) proc_act" where
  "EMPI_File_read_at E fh offset count typ st =
     file_call E fh typ st (\<lambda>f t with_status. PMPI_File_read_at f offset count t with_status)"

definition EMPI_File_write_at ::
  "('a, 'w) env \<Rightarrow> int \<Rightarrow> int \<Rightarrow> 'a list \<Rightarrow> int \<Rightarrow> int \<Rightarrow> status option
    \<Rightarrow> (int \<times> 'a list option \<times> status option, 'a, 'w) proc_act" where
  "EMPI_File_write_at E fh offset buf count typ st =
     file_call E fh typ st (\<lambda>f t with_status. PMPI_File_write_at f offset buf count t with_status)"

definition EMPI_File_write_all ::
  "('a, 'w) env \<Rightarrow> int \<Rightarrow> 'a list \<Rightarrow> int \<Rightarrow> int \<Rightarrow> status option
    \<Rightarrow> (int \<times> 'a list option \<times> status option, 'a, 'w) proc_act" where
  "EMPI_File_write_all E fh buf count typ st =
     file_call E fh typ st (\<lambda>f t with_status. PMPI_File_write_all f buf count t with_status)"

definition EMPI_File_set_view ::
  "('a, 'w) env \<Rightarrow> int \<Rightarrow> int \<Rightarrow> int \<Rightarrow> int \<Rightarrow> string \<Rightarrow> int \<Rightarrow> (int, 'a, 'w) proc_act" where
  "EMPI_File_set_view E fh disp etype filetype datarep inh =
     H2F E fh EMPI_ERR_FILE (\<lambda>p x. H2T E etype EMPI_ERR_TYPE (\<lambda>tp1 t1. H2T E filetype EMPI_ERR_TYPE (\<lambda>tp2 t2.
     andthen (info_of_handle E inh) (\<lambda>io.
     case io of
       None \<Rightarrow> ret EMPI_ERR_INFO
     | Some mi \<Rightarrow>
         andthen (pmpi E (IO (PMPI_File_set_view (fl_file x) disp (dt_type t1) (dt_type t2) datarep mi))) (\<lambda>a.
         checked E a (an_error a))))))"

section \<open>Info objects\<close>

definition EMPI_Info_create :: "('a, 'w) env \<Rightarrow> (int \<times> int option, 'a, 'w) proc_act" where
  "EMPI_Info_create E =
     andthen (pmpi E (Other PMPI_Info_create)) (\<lambda>a.
     if an_error a \<noteq> EMPI_SUCCESS then after_ERROR (e_ef E) (ret (an_error a, None))
     else
       andthen (malloc E) (\<lambda>new s. do {
         (po, r) \<leftarrow> add_info new (an_handle a) (ps_infos s);
         let s' = s\<lparr>ps_infos := r\<rparr>;
         if po = None then
           after_ERROR (e_ef E)
             (andthen (pmpi E (Other (PMPI_Info_free (an_handle a)))) (\<lambda>b. ret (EMPI_ERR_INTERN, None))) s'
         else do { k \<leftarrow> info_to_handle (e_ef E) r po; Some (Some (EMPI_SUCCESS, Some k), s') }
       }))"

definition EMPI_Info_delete :: "('a, 'w) env \<Rightarrow> int \<Rightarrow> string \<Rightarrow> (int, 'a, 'w) proc_act" where
  "EMPI_Info_delete E inh key =
     H2I E inh EMPI_ERR_INFO (\<lambda>p x.
     andthen (pmpi E (Other (PMPI_Info_delete (in_info x) key))) (\<lambda>a. checked E a (an_error a)))"

definition EMPI_Info_set :: "('a, 'w) env \<Rightarrow> int \<Rightarrow> string \<Rightarrow> string \<Rightarrow> (int, 'a, 'w) proc_act" where
  "EMPI_Info_set E inh key value =
     H2I E inh EMPI_ERR_INFO (\<lambda>p x.
     andthen (pmpi E (Other (PMPI_Info_set (in_info x) key value))) (\<lambda>a. checked E a (an_error a)))"

text \<open>The result: the error code and the handle afterwards.\<close>

definition EMPI_Info_free :: "('a, 'w) env \<Rightarrow> int \<Rightarrow> (int \<times> int, 'a, 'w) proc_act" where
  "EMPI_Info_free E inh =
     H2I E inh (EMPI_ERR_INFO, inh) (\<lambda>p x.
     andthen (pmpi E (Other (PMPI_Info_free (in_info x)))) (\<lambda>a.
     andthen (checked E a ()) (\<lambda>u s. do {
       r \<leftarrow> remove_info inh (ps_infos s);
       Some (Some (an_error a, EMPI_INFO_NULL), s\<lparr>ps_infos := r\<rparr>)
     })))"

section \<open>Operations, packing, and the rest\<close>

definition EMPI_Intercomm_create :: "('a, 'w) env \<Rightarrow> (int, 'a, 'w) proc_act" where
  "EMPI_Intercomm_create E = after_ERROR (e_ef E) (ret EMPI_ERR_INTERN)"

definition EMPI_Intercomm_merge :: "('a, 'w) env \<Rightarrow> (int, 'a, 'w) proc_act" where
  "EMPI_Intercomm_merge E = after_ERROR (e_ef E) (ret EMPI_ERR_INTERN)"

text \<open>\<open>local_err_intern\<close>: the constant \<^verbatim>\<open>MPI_ERR_INTERN\<close> of the local library, which the code returns here.\<close>

definition EMPI_Op_create ::
  "('a, 'w) env \<Rightarrow> int \<Rightarrow> op_function \<Rightarrow> int \<Rightarrow> (int \<times> int option, 'a, 'w) proc_act" where
  "EMPI_Op_create E local_err_intern f commute =
     andthen (pmpi E (Other (PMPI_Op_create f commute))) (\<lambda>a.
     if an_error a \<noteq> EMPI_SUCCESS then after_ERROR (e_ef E) (ret (an_error a, None))
     else
       andthen (malloc E) (\<lambda>new s. do {
         (po, r) \<leftarrow> create_operation (e_ef E) new f (an_type a) commute (ps_ops s);
         let s' = s\<lparr>ps_ops := r\<rparr>;
         if po = None then after_ERROR (e_ef E) (ret (local_err_intern, None)) s'
         else do { k \<leftarrow> operation_to_handle (e_ef E) r po; Some (Some (EMPI_SUCCESS, Some k), s') }
       }))"

text \<open>Packing yields the error code, the new contents of the buffer and the new position.\<close>

definition EMPI_Pack ::
  "('a, 'w) env \<Rightarrow> 'a list \<Rightarrow> int \<Rightarrow> int \<Rightarrow> 'a list \<Rightarrow> int \<Rightarrow> int \<Rightarrow> int \<Rightarrow> (int \<times> 'a list \<times> int, 'a, 'w) proc_act" where
  "EMPI_Pack E inbuf incount typ outbuf outcount position comm =
     H2T E typ (EMPI_ERR_TYPE, outbuf, position) (\<lambda>tp t. H2C E comm (EMPI_ERR_COMM, outbuf, position) (\<lambda>p c.
     andthen (pmpi E (Other (PMPI_Pack inbuf incount (dt_type t) outcount position (c_comm c)))) (\<lambda>a.
     andthen (lift (put_cells outbuf position (an_data a))) (\<lambda>outbuf'.
     ret (an_error a, outbuf', an_value a)))))"

definition EMPI_Pack_size :: "('a, 'w) env \<Rightarrow> int \<Rightarrow> int \<Rightarrow> int \<Rightarrow> (int \<times> int option, 'a, 'w) proc_act" where
  "EMPI_Pack_size E incount typ comm =
     H2T E typ (EMPI_ERR_TYPE, None) (\<lambda>tp t. H2C E comm (EMPI_ERR_COMM, None) (\<lambda>p c.
     andthen (pmpi E (Other (PMPI_Pack_size incount (dt_type t) (c_comm c)))) (\<lambda>a.
     ret (an_error a, Some (an_value a)))))"

definition EMPI_Unpack ::
  "('a, 'w) env \<Rightarrow> 'a list \<Rightarrow> int \<Rightarrow> int \<Rightarrow> 'a list \<Rightarrow> int \<Rightarrow> int \<Rightarrow> int \<Rightarrow> (int \<times> 'a list \<times> int, 'a, 'w) proc_act" where
  "EMPI_Unpack E inbuf insize position outbuf outcount typ comm =
     H2T E typ (EMPI_ERR_TYPE, outbuf, position) (\<lambda>tp t. H2C E comm (EMPI_ERR_COMM, outbuf, position) (\<lambda>p c.
     andthen (pmpi E (Other (PMPI_Unpack inbuf insize position outcount (dt_type t) (c_comm c)))) (\<lambda>a.
     andthen (lift (put_cells outbuf 0 (an_data a))) (\<lambda>outbuf'.
     ret (an_error a, outbuf', an_value a)))))"

definition EMPI_Abort :: "('a, 'w) env \<Rightarrow> int \<Rightarrow> int \<Rightarrow> (int, 'a, 'w) proc_act" where
  "EMPI_Abort E comm errorcode =
     H2C E comm EMPI_ERR_COMM (\<lambda>p c.
     andthen (pmpi E (Other (PMPI_Abort (c_comm c) errorcode))) (\<lambda>a. checked E a (an_error a)))"

definition EMPI_Initialized :: "('a, 'w) env \<Rightarrow> (int \<times> int, 'a, 'w) proc_act" where
  "EMPI_Initialized E =
     andthen (pmpi E (Other PMPI_Initialized)) (\<lambda>a. ret (an_error a, flag_int (an_flag a)))"

definition EMPI_Finalized :: "('a, 'w) env \<Rightarrow> (int \<times> int, 'a, 'w) proc_act" where
  "EMPI_Finalized E =
     andthen (pmpi E (Other PMPI_Finalized)) (\<lambda>a. ret (an_error a, flag_int (an_flag a)))"

text \<open>The error code, the text, and its length; the error strings are those of the local library.\<close>

definition EMPI_Error_string :: "('a, 'w) env \<Rightarrow> int \<Rightarrow> (int \<times> string \<times> int, 'a, 'w) proc_act" where
  "EMPI_Error_string E errorcode =
     andthen (pmpi E (Other (PMPI_Error_string errorcode))) (\<lambda>a. ret (an_error a, an_name a, an_value a))"

definition EMPI_Get_processor_name :: "('a, 'w) env \<Rightarrow> (int \<times> string \<times> int, 'a, 'w) proc_act" where
  "EMPI_Get_processor_name E =
     andthen (pmpi E (Other PMPI_Get_processor_name)) (\<lambda>a. ret (an_error a, an_name a, an_value a))"

text \<open>\<open>finalize_error\<close>: what \<^verbatim>\<open>PMPI_Finalize\<close> returns.\<close>

definition EMPI_Finalize :: "('a, 'w) env \<Rightarrow> int \<Rightarrow> (int, 'a, 'w) proc_act" where
  "EMPI_Finalize E finalize_error =
     andthen (server_call E) (\<lambda>(send_error, ok, rv).
     andthen (\<lambda>s. do {
       (error, sent) \<leftarrow> messaging_finalize (e_ef E) (e_le E) (e_my_pid E) send_error (rv_error rv) finalize_error
                          (ps_comms s);
       Some (Some (error, sent), s) }) (\<lambda>(error, sent).
     andthen (requested sent) (\<lambda>u.
     if error \<noteq> EMPI_SUCCESS then after_ERROR (e_ef E) (ret error) else ret EMPI_SUCCESS)))"

end
