(* ===== verification/Collectives.thy ===== *)
theory Collectives
  imports Point_To_Point Reduce_Ops
begin

text \<open>
  The collective entry points of \<^verbatim>\<open>src/backend/empi.c\<close>. On a communicator within one cluster each is the
  call of the local MPI library; on one that spans clusters it is built from local calls and messages
  between processes. Buffers are given by their contents; an entry point that has a receive buffer
  yields its new contents beside the error code. The library writes to a buffer what its answer holds,
  nothing where a process is not meant to receive.
\<close>

definition BARRIER_TAG :: int where "BARRIER_TAG = MAX_TAG - 2"
definition REDUCE_TAG :: int where "REDUCE_TAG = MAX_TAG - 3"
definition SCAN_TAG :: int where "SCAN_TAG = MAX_TAG - 4"
definition GATHERV_TAG :: int where "GATHERV_TAG = MAX_TAG - 5"
definition SCATTERV_TAG :: int where "SCATTERV_TAG = MAX_TAG - 6"
definition ALLGATHERV_TAG :: int where "ALLGATHERV_TAG = MAX_TAG - 7"
definition ALLTOALLV_TAG :: int where "ALLTOALLV_TAG = MAX_TAG - 8"

text \<open>A call of the local library that writes to a receive buffer.\<close>

definition local_call ::
  "('a, 'w) env \<Rightarrow> 'a pmpi \<Rightarrow> 'a list \<Rightarrow> (int \<times> 'a list, 'a, 'w) proc_act" where
  "local_call E call recvbuf =
     andthen (pmpi E call) (\<lambda>a.
     andthen (lift (put_cells recvbuf 0 (an_data a))) (\<lambda>recvbuf'.
     ret (an_error a, recvbuf')))"

text \<open>Data that a receive brought, if any, written at an offset.\<close>

definition put_received :: "'a list \<Rightarrow> int \<Rightarrow> 'a list option \<Rightarrow> 'a list run" where
  "put_received buf off data = (case data of None \<Rightarrow> Some buf | Some xs \<Rightarrow> put_cells buf off xs)"

definition check_local :: "('a, 'w) env \<Rightarrow> int \<times> 'b \<Rightarrow> (int \<times> 'b, 'a, 'w) proc_act" where
  "check_local E r = (if fst r \<noteq> EMPI_SUCCESS then after_ERROR (e_ef E) (ret r) else ret r)"

section \<open>Barrier\<close>

fun barrier_collect ::
  "('a, 'w) env \<Rightarrow> datatype_s \<Rightarrow> addr \<Rightarrow> communicator \<Rightarrow> nat \<Rightarrow> int \<Rightarrow> (int, 'a, 'w) proc_act" where
  "barrier_collect E t p c 0 i = ret EMPI_SUCCESS"
| "barrier_collect E t p c (Suc n) i =
     andthen (lift (arr_read (c_coordinators c) i)) (\<lambda>k.
     andthen (wa_receive E 1 t k BARRIER_TAG None p) (\<lambda>(error, data, st).
     if error \<noteq> EMPI_SUCCESS then after_ERROR (e_ef E) (ret EMPI_ERR_INTERN)
     else barrier_collect E t p c n (i + 1)))"

fun barrier_report ::
  "('a, 'w) env \<Rightarrow> datatype_s \<Rightarrow> addr \<Rightarrow> communicator \<Rightarrow> int \<Rightarrow> nat \<Rightarrow> int \<Rightarrow> (int, 'a, 'w) proc_act" where
  "barrier_report E t p c k0 0 i = ret EMPI_SUCCESS"
| "barrier_report E t p c k0 (Suc n) i =
     andthen (lift (arr_read (c_coordinators c) i)) (\<lambda>k.
     if c_global_rank c = k then
       andthen (wa_send E (e_byte E) 1 t k0 BARRIER_TAG c) (\<lambda>error.
       if error \<noteq> EMPI_SUCCESS then after_ERROR (e_ef E) (ret EMPI_ERR_INTERN)
       else
         andthen (wa_bcast_receive E 1 t k0 p) (\<lambda>(error, data).
         if error \<noteq> EMPI_SUCCESS then after_ERROR (e_ef E) (ret EMPI_ERR_INTERN)
         else barrier_report E t p c k0 n (i + 1)))
     else barrier_report E t p c k0 n (i + 1))"

definition EMPI_Barrier :: "('a, 'w) env \<Rightarrow> int \<Rightarrow> (int, 'a, 'w) proc_act" where
  "EMPI_Barrier E comm =
     H2C E comm EMPI_ERR_COMM (\<lambda>p c.
     if comm_is_local c then
       andthen (pmpi E (Collective (PMPI_Barrier (c_comm c)))) (\<lambda>a. ret (an_error a))
     else H2T E EMPI_BYTE EMPI_ERR_TYPE (\<lambda>tp t.
       andthen (pmpi E (Collective (PMPI_Barrier (c_comm c)))) (\<lambda>a.
       if an_error a \<noteq> EMPI_SUCCESS then after_ERROR (e_ef E) (ret EMPI_ERR_INTERN)
       else
         andthen (lift (arr_read (c_coordinators c) 0)) (\<lambda>k0.
         andthen
           (if c_global_rank c = k0 then
              andthen (barrier_collect E t p c (nat (c_cluster_count c - 1)) 1) (\<lambda>error.
              if error \<noteq> EMPI_SUCCESS then ret error
              else
                andthen (wa_bcast E (e_byte E) 1 t c) (\<lambda>error.
                if error \<noteq> EMPI_SUCCESS then after_ERROR (e_ef E) (ret EMPI_ERR_INTERN) else ret EMPI_SUCCESS))
            else barrier_report E t p c k0 (nat (c_cluster_count c - 1)) 1) (\<lambda>error.
         if error \<noteq> EMPI_SUCCESS then ret error
         else
           andthen (pmpi E (Collective (PMPI_Barrier (c_comm c)))) (\<lambda>b.
           if an_error b \<noteq> EMPI_SUCCESS then after_ERROR (e_ef E) (ret EMPI_ERR_INTERN)
           else ret EMPI_SUCCESS))))))"

section \<open>Broadcast\<close>

definition local_bcast ::
  "('a, 'w) env \<Rightarrow> 'a list \<Rightarrow> int \<Rightarrow> datatype_s \<Rightarrow> int \<Rightarrow> communicator \<Rightarrow> (int \<times> 'a list, 'a, 'w) proc_act" where
  "local_bcast E buf count t root c =
     local_call E (Collective (PMPI_Bcast buf count (dt_type t) root (c_comm c))) buf"

definition EMPI_Bcast ::
  "('a, 'w) env \<Rightarrow> 'a list \<Rightarrow> int \<Rightarrow> int \<Rightarrow> int \<Rightarrow> int \<Rightarrow> (int \<times> 'a list, 'a, 'w) proc_act" where
  "EMPI_Bcast E buf count typ root comm =
     H2C E comm (EMPI_ERR_COMM, buf) (\<lambda>p c. H2T E typ (EMPI_ERR_TYPE, buf) (\<lambda>tp t.
     if comm_is_local c then andthen (local_bcast E buf count t root c) (check_local E)
     else if c_global_rank c = root then
       andthen (wa_bcast E buf count t c) (\<lambda>error.
       if error \<noteq> EMPI_SUCCESS then after_ERROR (e_ef E) (ret (error, buf))
       else andthen (local_bcast E buf count t (c_local_rank c) c) (check_local E))
     else
       andthen (lift (rank_is_local (e_cluster_rank E) c root)) (\<lambda>local.
       if local then
         andthen (lift (get_local_rank c root)) (\<lambda>l.
         andthen (local_bcast E buf count t l c) (check_local E))
       else
         andthen
           (if c_global_rank c = c_my_coordinator c then
              andthen (wa_bcast_receive E count t root p) (\<lambda>(error, data).
              andthen (lift (put_received buf 0 data)) (\<lambda>buf'.
              if error \<noteq> EMPI_SUCCESS then after_ERROR (e_ef E) (ret (error, buf')) else ret (error, buf')))
            else ret (EMPI_SUCCESS, buf)) (\<lambda>(error, buf').
         if error \<noteq> EMPI_SUCCESS then ret (error, buf')
         else
           andthen (lift (get_local_rank c (c_my_coordinator c))) (\<lambda>l.
           andthen (local_bcast E buf' count t l c) (check_local E))))))"

section \<open>Gather\<close>

text \<open>The loop of the root: what process \<open>i\<close> sends goes to \<open>displs[i]\<close>.\<close>

fun gatherv_loop ::
  "('a, 'w) env \<Rightarrow> int \<Rightarrow> 'a list \<Rightarrow> int list \<Rightarrow> int list \<Rightarrow> datatype_s \<Rightarrow> int \<Rightarrow> addr \<Rightarrow> communicator
    \<Rightarrow> nat \<Rightarrow> int \<Rightarrow> 'a list \<Rightarrow> (int \<times> 'a list, 'a, 'w) proc_act" where
  "gatherv_loop E extent sendbuf recvcounts displs rt root p c 0 i recvbuf = ret (EMPI_SUCCESS, recvbuf)"
| "gatherv_loop E extent sendbuf recvcounts displs rt root p c (Suc n) i recvbuf =
     andthen (lift (arr_read recvcounts i)) (\<lambda>k.
     andthen (lift (arr_read displs i)) (\<lambda>d.
     if i = root then
       andthen (lift (do { xs \<leftarrow> get_cells sendbuf 0 (k * extent); put_cells recvbuf (d * extent) xs })) (\<lambda>recvbuf'.
       gatherv_loop E extent sendbuf recvcounts displs rt root p c n (i + 1) recvbuf')
     else
       andthen (api_do_recv E k rt i GATHERV_TAG None p c) (\<lambda>(error, data, st).
       andthen (lift (put_received recvbuf (d * extent) data)) (\<lambda>recvbuf'.
       if error \<noteq> EMPI_SUCCESS then after_ERROR (e_ef E) (ret (error, recvbuf'))
       else gatherv_loop E extent sendbuf recvcounts displs rt root p c n (i + 1) recvbuf'))))"

definition WA_Gatherv ::
  "('a, 'w) env \<Rightarrow> 'a list \<Rightarrow> int \<Rightarrow> datatype_s \<Rightarrow> 'a list \<Rightarrow> int list \<Rightarrow> int list \<Rightarrow> datatype_s \<Rightarrow> int
    \<Rightarrow> addr \<Rightarrow> communicator \<Rightarrow> (int \<times> 'a list, 'a, 'w) proc_act" where
  "WA_Gatherv E sendbuf sendcount stype recvbuf recvcounts displs rtype root p c =
     (if c_global_rank c = root then
        andthen (pmpi E (Request (PMPI_Type_extent (dt_type rtype)))) (\<lambda>a.
        if an_error a \<noteq> EMPI_SUCCESS then after_ERROR (e_ef E) (ret (an_error a, recvbuf))
        else gatherv_loop E (an_value a) sendbuf recvcounts displs rtype root p c (nat (c_global_size c)) 0 recvbuf)
      else
        andthen (api_do_send E sendbuf sendcount stype root GATHERV_TAG c) (\<lambda>error.
        if error \<noteq> EMPI_SUCCESS then after_ERROR (e_ef E) (ret (error, recvbuf))
        else ret (EMPI_SUCCESS, recvbuf)))"

definition EMPI_Gatherv ::
  "('a, 'w) env \<Rightarrow> 'a list \<Rightarrow> int \<Rightarrow> int \<Rightarrow> 'a list \<Rightarrow> int list \<Rightarrow> int list \<Rightarrow> int \<Rightarrow> int \<Rightarrow> int
    \<Rightarrow> (int \<times> 'a list, 'a, 'w) proc_act" where
  "EMPI_Gatherv E sendbuf sendcount sendtype recvbuf recvcounts displs recvtype root comm =
     H2C E comm (EMPI_ERR_COMM, recvbuf) (\<lambda>p c.
     H2T E sendtype (EMPI_ERR_TYPE, recvbuf) (\<lambda>stp stype. H2T E recvtype (EMPI_ERR_TYPE, recvbuf) (\<lambda>rtp rtype.
     if comm_is_local c then
       local_call E (Collective (PMPI_Gatherv sendbuf sendcount (dt_type stype) recvcounts displs (dt_type rtype) root
         (c_comm c))) recvbuf
     else WA_Gatherv E sendbuf sendcount stype recvbuf recvcounts displs rtype root p c)))"

text \<open>
  Two arrays of \<open>int\<close> are allocated and filled, \<open>displs[i] = i * count\<close> and \<open>counts[i] = count\<close>, in front
  of what uses them; \<open>i * count\<close> must not overflow.
\<close>

definition with_counts ::
  "('a, 'w) env \<Rightarrow> int \<Rightarrow> int \<Rightarrow> 'r \<Rightarrow> (int list \<Rightarrow> int list \<Rightarrow> ('r, 'a, 'w) proc_act) \<Rightarrow> ('r, 'a, 'w) proc_act" where
  "with_counts E sz count bad k =
     andthen (malloc E) (\<lambda>new1.
     if new1 = None then after_ERROR (e_ef E) (ret bad)
     else
       andthen (malloc E) (\<lambda>new2.
       if new2 = None then after_ERROR (e_ef E) (ret bad)
       else
         (let displs = map (\<lambda>i. int i * count) [0 ..< nat sz] in
          if list_all int_ok displs then k displs (replicate (nat sz) count) else lift None)))"

definition EMPI_Gather ::
  "('a, 'w) env \<Rightarrow> 'a list \<Rightarrow> int \<Rightarrow> int \<Rightarrow> 'a list \<Rightarrow> int \<Rightarrow> int \<Rightarrow> int \<Rightarrow> int \<Rightarrow> (int \<times> 'a list, 'a, 'w) proc_act" where
  "EMPI_Gather E sendbuf sendcount sendtype recvbuf recvcount recvtype root comm =
     H2C E comm (EMPI_ERR_COMM, recvbuf) (\<lambda>p c.
     H2T E sendtype (EMPI_ERR_TYPE, recvbuf) (\<lambda>stp stype. H2T E recvtype (EMPI_ERR_TYPE, recvbuf) (\<lambda>rtp rtype.
     if comm_is_local c then
       local_call E (Collective (PMPI_Gather sendbuf sendcount (dt_type stype) recvcount (dt_type rtype) root
         (c_comm c))) recvbuf
     else if c_global_rank c = root then
       with_counts E (c_global_size c) recvcount (EMPI_ERR_INTERN, recvbuf) (\<lambda>displs counts.
         WA_Gatherv E sendbuf sendcount stype recvbuf counts displs rtype root p c)
     else WA_Gatherv E sendbuf sendcount stype recvbuf [] [] rtype root p c)))"

section \<open>Gather to all\<close>

fun count_sums_loop :: "communicator \<Rightarrow> int list \<Rightarrow> nat \<Rightarrow> int \<Rightarrow> int list \<Rightarrow> int \<Rightarrow> (int list \<times> int) run" where
  "count_sums_loop c recvcounts 0 i sums tot = Some (sums, tot)"
| "count_sums_loop c recvcounts (Suc n) i sums tot = do {
     k \<leftarrow> arr_read (c_member_cluster_index c) i;
     r \<leftarrow> arr_read recvcounts i;
     x \<leftarrow> arr_read sums (uint k);
     sums' \<leftarrow> arr_write sums (uint k) (x + r);
     count_sums_loop c recvcounts n (i + 1) sums' (tot + r)
   }"

fun offsets_loop :: "int list \<Rightarrow> nat \<Rightarrow> int \<Rightarrow> int list \<Rightarrow> int list run" where
  "offsets_loop sums 0 i offsets = Some offsets"
| "offsets_loop sums (Suc n) i offsets = do {
     o' \<leftarrow> arr_read offsets (i - 1);
     x \<leftarrow> arr_read sums (i - 1);
     offsets' \<leftarrow> arr_write offsets i (o' + x);
     offsets_loop sums n (i + 1) offsets'
   }"

text \<open>The result: the total, the sums per cluster, and the offset of each cluster.\<close>

definition get_count_sums :: "communicator \<Rightarrow> int list \<Rightarrow> (int \<times> int list \<times> int list) run" where
  "get_count_sums c recvcounts = do {
     let cc = nat (c_cluster_count c);
     (sums, tot) \<leftarrow> count_sums_loop c recvcounts (nat (c_global_size c)) 0 (replicate cc 0) 0;
     offsets \<leftarrow> arr_write (replicate cc 0) 0 0;
     offsets' \<leftarrow> offsets_loop sums (cc - 1) 1 offsets;
     Some (tot, sums, offsets')
   }"

text \<open>The coordinator collects the data of its cluster, from \<open>offset\<close> on.\<close>

fun allgatherv_local ::
  "('a, 'w) env \<Rightarrow> int \<Rightarrow> 'a list \<Rightarrow> int list \<Rightarrow> datatype_s \<Rightarrow> communicator \<Rightarrow> nat \<Rightarrow> int \<Rightarrow> int \<Rightarrow> 'a list
    \<Rightarrow> (int \<times> 'a list, 'a, 'w) proc_act" where
  "allgatherv_local E extent sendbuf recvcounts rt c 0 i offset buffer = ret (EMPI_SUCCESS, buffer)"
| "allgatherv_local E extent sendbuf recvcounts rt c (Suc n) i offset buffer =
     andthen (lift (rank_is_local (e_cluster_rank E) c i)) (\<lambda>local.
     if local then
       andthen (lift (arr_read recvcounts i)) (\<lambda>k.
       if i = c_global_rank c then
         andthen (lift (do { xs \<leftarrow> get_cells sendbuf 0 (k * extent); put_cells buffer (offset * extent) xs })) (\<lambda>buffer'.
         allgatherv_local E extent sendbuf recvcounts rt c n (i + 1) (offset + k) buffer')
       else
         andthen (lift (get_local_rank c i)) (\<lambda>l.
         andthen (pmpi E (Point_To_Point (PMPI_Recv k (dt_type rt) l ALLGATHERV_TAG (c_comm c)))) (\<lambda>a.
         if an_error a \<noteq> EMPI_SUCCESS then after_ERROR (e_ef E) (ret (an_error a, buffer))
         else
           andthen (lift (put_cells buffer (offset * extent) (an_data a))) (\<lambda>buffer'.
           allgatherv_local E extent sendbuf recvcounts rt c n (i + 1) (offset + k) buffer'))))
     else allgatherv_local E extent sendbuf recvcounts rt c n (i + 1) offset buffer)"

text \<open>The coordinators exchange the data of their clusters.\<close>

fun allgatherv_exchange ::
  "('a, 'w) env \<Rightarrow> int \<Rightarrow> int list \<Rightarrow> int list \<Rightarrow> datatype_s \<Rightarrow> addr \<Rightarrow> communicator \<Rightarrow> nat \<Rightarrow> int \<Rightarrow> 'a list
    \<Rightarrow> (int \<times> 'a list, 'a, 'w) proc_act" where
  "allgatherv_exchange E extent sums offsets rt p c 0 i buffer = ret (EMPI_SUCCESS, buffer)"
| "allgatherv_exchange E extent sums offsets rt p c (Suc n) i buffer =
     andthen (lift (arr_read (c_coordinators c) i)) (\<lambda>k.
     andthen (lift (arr_read offsets i)) (\<lambda>off.
     andthen (lift (arr_read sums i)) (\<lambda>count.
     if k = c_global_rank c then
       andthen (lift (cells_from buffer (off * extent))) (\<lambda>data.
       andthen (wa_bcast E data count rt c) (\<lambda>error.
       if error \<noteq> EMPI_SUCCESS then after_ERROR (e_ef E) (ret (error, buffer))
       else allgatherv_exchange E extent sums offsets rt p c n (i + 1) buffer))
     else
       andthen (wa_bcast_receive E count rt k p) (\<lambda>(error, data).
       andthen (lift (put_received buffer (off * extent) data)) (\<lambda>buffer'.
       if error \<noteq> EMPI_SUCCESS then after_ERROR (e_ef E) (ret (error, buffer'))
       else allgatherv_exchange E extent sums offsets rt p c n (i + 1) buffer')))))"

text \<open>The collected data, grouped by cluster, are copied to where the caller wants them.\<close>

fun allgatherv_copy ::
  "communicator \<Rightarrow> int \<Rightarrow> int list \<Rightarrow> int list \<Rightarrow> 'a list \<Rightarrow> nat \<Rightarrow> int \<Rightarrow> int list \<Rightarrow> 'a list \<Rightarrow> 'a list run" where
  "allgatherv_copy c extent recvcounts displs buffer 0 i offsets recvbuf = Some recvbuf"
| "allgatherv_copy c extent recvcounts displs buffer (Suc n) i offsets recvbuf = do {
     k \<leftarrow> arr_read (c_member_cluster_index c) i;
     off \<leftarrow> arr_read offsets (uint k);
     count \<leftarrow> arr_read recvcounts i;
     d \<leftarrow> arr_read displs i;
     xs \<leftarrow> get_cells buffer (off * extent) (count * extent);
     recvbuf' \<leftarrow> put_cells recvbuf (d * extent) xs;
     offsets' \<leftarrow> arr_write offsets (uint k) (off + count);
     allgatherv_copy c extent recvcounts displs buffer n (i + 1) offsets' recvbuf'
   }"

definition EMPI_Allgatherv ::
  "('a, 'w) env \<Rightarrow> 'a list \<Rightarrow> int \<Rightarrow> int \<Rightarrow> 'a list \<Rightarrow> int list \<Rightarrow> int list \<Rightarrow> int \<Rightarrow> int
    \<Rightarrow> (int \<times> 'a list, 'a, 'w) proc_act" where
  "EMPI_Allgatherv E sendbuf sendcount sendtype recvbuf recvcounts displs recvtype comm =
     H2C E comm (EMPI_ERR_COMM, recvbuf) (\<lambda>p c.
     H2T E sendtype (EMPI_ERR_TYPE, recvbuf) (\<lambda>stp stype. H2T E recvtype (EMPI_ERR_TYPE, recvbuf) (\<lambda>rtp rtype.
     if comm_is_local c then
       local_call E (Collective (PMPI_Allgatherv sendbuf sendcount (dt_type stype) recvcounts displs (dt_type rtype)
         (c_comm c))) recvbuf
     else
       andthen (pmpi E (Request (PMPI_Type_extent (dt_type rtype)))) (\<lambda>a.
       if an_error a \<noteq> EMPI_SUCCESS then after_ERROR (e_ef E) (ret (an_error a, recvbuf))
       else
         (let extent = an_value a in
         andthen (malloc E) (\<lambda>new1.
         if new1 = None then after_ERROR (e_ef E) (ret (EMPI_ERR_INTERN, recvbuf))
         else
         andthen (malloc E) (\<lambda>new2.
         if new2 = None then after_ERROR (e_ef E) (ret (EMPI_ERR_INTERN, recvbuf))
         else
         andthen (lift (get_count_sums c recvcounts)) (\<lambda>(tot, sums, offsets).
         andthen (malloc_cells E (tot * extent)) (\<lambda>block.
         case block of
           None \<Rightarrow> after_ERROR (e_ef E) (ret (EMPI_ERR_INTERN, recvbuf))
         | Some buffer \<Rightarrow>
             andthen
               (if c_global_rank c = c_my_coordinator c then
                  andthen (lift (do {
                    k \<leftarrow> arr_read (c_member_cluster_index c) (c_global_rank c);
                    arr_read offsets (uint k) })) (\<lambda>offset.
                  andthen (allgatherv_local E extent sendbuf recvcounts rtype c (nat (c_global_size c)) 0 offset buffer)
                    (\<lambda>(error, buffer1).
                  if error \<noteq> EMPI_SUCCESS then ret (error, buffer1)
                  else allgatherv_exchange E extent sums offsets rtype p c (nat (c_cluster_count c)) 0 buffer1))
                else
                  andthen (lift (get_local_rank c (c_my_coordinator c))) (\<lambda>l.
                  andthen (pmpi E (Point_To_Point (PMPI_Send sendbuf sendcount (dt_type stype) l ALLGATHERV_TAG (c_comm c))))
                    (\<lambda>b.
                  if an_error b \<noteq> EMPI_SUCCESS then after_ERROR (e_ef E) (ret (an_error b, buffer))
                  else ret (EMPI_SUCCESS, buffer)))) (\<lambda>(error, buffer2).
             if error \<noteq> EMPI_SUCCESS then ret (error, recvbuf)
             else
               andthen (lift (get_local_rank c (c_my_coordinator c))) (\<lambda>l.
               andthen (local_bcast E buffer2 tot rtype l c) (\<lambda>(error, buffer3).
               if error \<noteq> EMPI_SUCCESS then after_ERROR (e_ef E) (ret (error, recvbuf))
               else
                 andthen (lift (allgatherv_copy c extent recvcounts displs buffer3 (nat (c_global_size c)) 0 offsets
                            recvbuf)) (\<lambda>recvbuf'.
                 ret (EMPI_SUCCESS, recvbuf'))))))))))))))"

definition EMPI_Allgather ::
  "('a, 'w) env \<Rightarrow> 'a list \<Rightarrow> int \<Rightarrow> int \<Rightarrow> 'a list \<Rightarrow> int \<Rightarrow> int \<Rightarrow> int \<Rightarrow> (int \<times> 'a list, 'a, 'w) proc_act" where
  "EMPI_Allgather E sendbuf sendcount sendtype recvbuf recvcount recvtype comm =
     H2C E comm (EMPI_ERR_COMM, recvbuf) (\<lambda>p c.
     H2T E sendtype (EMPI_ERR_TYPE, recvbuf) (\<lambda>stp stype. H2T E recvtype (EMPI_ERR_TYPE, recvbuf) (\<lambda>rtp rtype.
     if comm_is_local c then
       local_call E (Collective (PMPI_Allgather sendbuf sendcount (dt_type stype) recvcount (dt_type rtype) (c_comm c)))
         recvbuf
     else
       with_counts E (c_global_size c) recvcount (EMPI_ERR_INTERN, recvbuf) (\<lambda>displs counts.
         EMPI_Allgatherv E sendbuf sendcount sendtype recvbuf counts displs recvtype comm))))"

section \<open>Scatter\<close>

fun scatterv_loop ::
  "('a, 'w) env \<Rightarrow> int \<Rightarrow> 'a list \<Rightarrow> int list \<Rightarrow> int list \<Rightarrow> datatype_s \<Rightarrow> int \<Rightarrow> communicator
    \<Rightarrow> nat \<Rightarrow> int \<Rightarrow> 'a list \<Rightarrow> (int \<times> 'a list, 'a, 'w) proc_act" where
  "scatterv_loop E extent sendbuf sendcounts displs st recvcount c 0 i recvbuf = ret (EMPI_SUCCESS, recvbuf)"
| "scatterv_loop E extent sendbuf sendcounts displs st recvcount c (Suc n) i recvbuf =
     andthen (lift (arr_read displs i)) (\<lambda>d.
     if i = c_global_rank c then
       andthen (lift (do { xs \<leftarrow> get_cells sendbuf (d * extent) (recvcount * extent); put_cells recvbuf 0 xs })) (\<lambda>recvbuf'.
       scatterv_loop E extent sendbuf sendcounts displs st recvcount c n (i + 1) recvbuf')
     else
       andthen (lift (do { k \<leftarrow> arr_read sendcounts i; xs \<leftarrow> cells_from sendbuf (d * extent); Some (k, xs) })) (\<lambda>(k, xs).
       andthen (api_do_send E xs k st i SCATTERV_TAG c) (\<lambda>error.
       if error \<noteq> EMPI_SUCCESS then after_ERROR (e_ef E) (ret (error, recvbuf))
       else scatterv_loop E extent sendbuf sendcounts displs st recvcount c n (i + 1) recvbuf)))"

definition WA_Scatterv ::
  "('a, 'w) env \<Rightarrow> 'a list \<Rightarrow> int list \<Rightarrow> int list \<Rightarrow> datatype_s \<Rightarrow> 'a list \<Rightarrow> int \<Rightarrow> datatype_s \<Rightarrow> int
    \<Rightarrow> addr \<Rightarrow> communicator \<Rightarrow> (int \<times> 'a list, 'a, 'w) proc_act" where
  "WA_Scatterv E sendbuf sendcounts displs stype recvbuf recvcount rtype root p c =
     (if c_global_rank c = root then
        andthen (pmpi E (Request (PMPI_Type_extent (dt_type stype)))) (\<lambda>a.
        if an_error a \<noteq> EMPI_SUCCESS then after_ERROR (e_ef E) (ret (an_error a, recvbuf))
        else scatterv_loop E (an_value a) sendbuf sendcounts displs stype recvcount c (nat (c_global_size c)) 0 recvbuf)
      else
        andthen (api_do_recv E recvcount rtype root SCATTERV_TAG None p c) (\<lambda>(error, data, st).
        andthen (lift (put_received recvbuf 0 data)) (\<lambda>recvbuf'.
        if error \<noteq> EMPI_SUCCESS then after_ERROR (e_ef E) (ret (error, recvbuf'))
        else ret (EMPI_SUCCESS, recvbuf'))))"

definition EMPI_Scatter ::
  "('a, 'w) env \<Rightarrow> 'a list \<Rightarrow> int \<Rightarrow> int \<Rightarrow> 'a list \<Rightarrow> int \<Rightarrow> int \<Rightarrow> int \<Rightarrow> int \<Rightarrow> (int \<times> 'a list, 'a, 'w) proc_act" where
  "EMPI_Scatter E sendbuf sendcount sendtype recvbuf recvcount recvtype root comm =
     H2C E comm (EMPI_ERR_COMM, recvbuf) (\<lambda>p c.
     H2T E sendtype (EMPI_ERR_TYPE, recvbuf) (\<lambda>stp stype. H2T E recvtype (EMPI_ERR_TYPE, recvbuf) (\<lambda>rtp rtype.
     if comm_is_local c then
       local_call E (Collective (PMPI_Scatter sendbuf sendcount (dt_type stype) recvcount (dt_type rtype) root
         (c_comm c))) recvbuf
     else if c_global_rank c = root then
       with_counts E (c_global_size c) sendcount (EMPI_ERR_INTERN, recvbuf) (\<lambda>displs counts.
         WA_Scatterv E sendbuf counts displs stype recvbuf recvcount rtype root p c)
     else WA_Scatterv E sendbuf [] [] stype recvbuf recvcount rtype root p c)))"

definition EMPI_Scatterv ::
  "('a, 'w) env \<Rightarrow> 'a list \<Rightarrow> int list \<Rightarrow> int list \<Rightarrow> int \<Rightarrow> 'a list \<Rightarrow> int \<Rightarrow> int \<Rightarrow> int \<Rightarrow> int
    \<Rightarrow> (int \<times> 'a list, 'a, 'w) proc_act" where
  "EMPI_Scatterv E sendbuf sendcounts displs sendtype recvbuf recvcount recvtype root comm =
     H2C E comm (EMPI_ERR_COMM, recvbuf) (\<lambda>p c.
     H2T E sendtype (EMPI_ERR_TYPE, recvbuf) (\<lambda>stp stype. H2T E recvtype (EMPI_ERR_TYPE, recvbuf) (\<lambda>rtp rtype.
     if comm_is_local c then
       local_call E (Collective (PMPI_Scatterv sendbuf sendcounts displs (dt_type stype) recvcount (dt_type rtype) root
         (c_comm c))) recvbuf
     else WA_Scatterv E sendbuf sendcounts displs stype recvbuf recvcount rtype root p c)))"

section \<open>Reductions\<close>

type_synonym 'f user_functions = "nat \<Rightarrow> 'f elem list \<Rightarrow> 'f elem list \<Rightarrow> int \<Rightarrow> int \<Rightarrow> 'f elem list run"

text \<open>The root merges the results of the other clusters, one cluster after the other.\<close>

fun reduce_collect ::
  "('f elem, 'w) env \<Rightarrow> 'f floats \<Rightarrow> 'f user_functions \<Rightarrow> int \<Rightarrow> datatype_s \<Rightarrow> int \<Rightarrow> operation \<Rightarrow> addr \<Rightarrow> communicator
    \<Rightarrow> nat \<Rightarrow> int \<Rightarrow> 'f elem list \<Rightarrow> 'f elem list \<Rightarrow> (int \<times> 'f elem list, 'f elem, 'w) proc_act" where
  "reduce_collect E fp user count t typ x p c 0 i buffer recvbuf = ret (EMPI_SUCCESS, recvbuf)"
| "reduce_collect E fp user count t typ x p c (Suc n) i buffer recvbuf =
     andthen (lift (do {
       k \<leftarrow> arr_read (c_coordinators c) i;
       skip \<leftarrow> (if c_global_rank c \<noteq> k then rank_is_local (e_cluster_rank E) c k else Some True);
       Some (k, skip) })) (\<lambda>(k, skip).
     if skip then reduce_collect E fp user count t typ x p c n (i + 1) buffer recvbuf
     else
       andthen (wa_receive E count t k REDUCE_TAG None p) (\<lambda>(error, data, st).
       andthen (lift (put_received buffer 0 data)) (\<lambda>buffer'.
       if error \<noteq> EMPI_SUCCESS then after_ERROR (e_ef E) (ret (error, recvbuf))
       else
         andthen (lift (reduce fp user (op_function x) buffer' recvbuf count typ)) (\<lambda>recvbuf'.
         reduce_collect E fp user count t typ x p c n (i + 1) buffer' recvbuf'))))"

definition EMPI_Reduce ::
  "('f elem, 'w) env \<Rightarrow> 'f floats \<Rightarrow> 'f user_functions \<Rightarrow> 'f elem list \<Rightarrow> 'f elem list \<Rightarrow> int \<Rightarrow> int \<Rightarrow> int \<Rightarrow> int \<Rightarrow> int
    \<Rightarrow> (int \<times> 'f elem list, 'f elem, 'w) proc_act" where
  "EMPI_Reduce E fp user sendbuf recvbuf count typ oper root comm =
     H2C E comm (EMPI_ERR_COMM, recvbuf) (\<lambda>p c.
     H2T E typ (EMPI_ERR_TYPE, recvbuf) (\<lambda>tp t. H2O E oper (EMPI_ERR_OP, recvbuf) (\<lambda>xp x.
     if comm_is_local c then
       local_call E (Reduction (PMPI_Reduce sendbuf count (dt_type t) (op_op x) root (c_comm c))) recvbuf
     else
       andthen (lift (rank_is_local (e_cluster_rank E) c root)) (\<lambda>root_in_cluster.
       let local_root = (if root_in_cluster then root else c_my_coordinator c) in
       andthen
         (if c_global_rank c = root \<or> c_global_rank c = c_my_coordinator c then
            andthen (pmpi E (Request (PMPI_Type_extent (dt_type t)))) (\<lambda>a.
            if an_error a \<noteq> EMPI_SUCCESS then after_ERROR (e_ef E) (ret (Inl (an_error a)))
            else
              andthen (malloc_cells E (count * an_value a)) (\<lambda>block.
              case block of
                None \<Rightarrow> after_ERROR (e_ef E) (ret (Inl EMPI_ERR_INTERN))
              | Some b \<Rightarrow> ret (Inr (b, an_value a))))
          else ret (Inr ([], 0))) (\<lambda>r.
       case r of
         Inl error \<Rightarrow> ret (error, recvbuf)
       | Inr (buffer, extent) \<Rightarrow>
           andthen (lift (get_local_rank c local_root)) (\<lambda>l.
           andthen (local_call E (Reduction (PMPI_Reduce sendbuf count (dt_type t) (op_op x) l (c_comm c))) buffer)
             (\<lambda>(error, buffer1).
           if error \<noteq> EMPI_SUCCESS then after_ERROR (e_ef E) (ret (error, recvbuf))
           else if c_global_rank c = root then
             andthen (lift (do { xs \<leftarrow> get_cells buffer1 0 (count * extent); put_cells recvbuf 0 xs })) (\<lambda>recvbuf1.
             reduce_collect E fp user count t typ x p c (nat (c_cluster_count c)) 0 buffer1 recvbuf1)
           else if \<not> root_in_cluster \<and> c_global_rank c = c_my_coordinator c then
             andthen (wa_send E buffer1 count t root REDUCE_TAG c) (\<lambda>error.
             if error \<noteq> EMPI_SUCCESS then after_ERROR (e_ef E) (ret (error, recvbuf))
             else ret (EMPI_SUCCESS, recvbuf))
           else ret (EMPI_SUCCESS, recvbuf))))))))"

definition EMPI_Accumulate :: "('a, 'w) env \<Rightarrow> (int, 'a, 'w) proc_act" where
  "EMPI_Accumulate E = after_ERROR (e_ef E) (ret EMPI_ERR_INTERN)"

text \<open>A coordinator merges the results that the other coordinators broadcast.\<close>

fun allreduce_collect ::
  "('f elem, 'w) env \<Rightarrow> 'f floats \<Rightarrow> 'f user_functions \<Rightarrow> int \<Rightarrow> datatype_s \<Rightarrow> int \<Rightarrow> operation \<Rightarrow> addr \<Rightarrow> communicator
    \<Rightarrow> nat \<Rightarrow> int \<Rightarrow> 'f elem list \<Rightarrow> 'f elem list \<Rightarrow> (int \<times> 'f elem list, 'f elem, 'w) proc_act" where
  "allreduce_collect E fp user count t typ x p c 0 i buffer recvbuf = ret (EMPI_SUCCESS, recvbuf)"
| "allreduce_collect E fp user count t typ x p c (Suc n) i buffer recvbuf =
     andthen (lift (arr_read (c_coordinators c) i)) (\<lambda>k.
     if k \<noteq> c_global_rank c then
       andthen (wa_bcast_receive E count t k p) (\<lambda>(error, data).
       andthen (lift (put_received buffer 0 data)) (\<lambda>buffer'.
       if error \<noteq> EMPI_SUCCESS then after_ERROR (e_ef E) (ret (error, recvbuf))
       else
         andthen (lift (reduce fp user (op_function x) buffer' recvbuf count typ)) (\<lambda>recvbuf'.
         allreduce_collect E fp user count t typ x p c n (i + 1) buffer' recvbuf')))
     else allreduce_collect E fp user count t typ x p c n (i + 1) buffer recvbuf)"

definition EMPI_Allreduce ::
  "('f elem, 'w) env \<Rightarrow> 'f floats \<Rightarrow> 'f user_functions \<Rightarrow> 'f elem list \<Rightarrow> 'f elem list \<Rightarrow> int \<Rightarrow> int \<Rightarrow> int \<Rightarrow> int
    \<Rightarrow> (int \<times> 'f elem list, 'f elem, 'w) proc_act" where
  "EMPI_Allreduce E fp user sendbuf recvbuf count typ0 oper comm =
     (let typ = (if oper = 10 \<and> typ0 = 28 then 24 else typ0) in
     H2C E comm (EMPI_ERR_COMM, recvbuf) (\<lambda>p c.
     H2T E typ (EMPI_ERR_TYPE, recvbuf) (\<lambda>tp t. H2O E oper (EMPI_ERR_OP, recvbuf) (\<lambda>xp x.
     if comm_is_local c then
       local_call E (Reduction (PMPI_Allreduce sendbuf count (dt_type t) (op_op x) (c_comm c))) recvbuf
     else
       andthen (lift (get_local_rank c (c_my_coordinator c))) (\<lambda>l.
       andthen (local_call E (Reduction (PMPI_Reduce sendbuf count (dt_type t) (op_op x) l (c_comm c))) recvbuf)
         (\<lambda>(error, recvbuf1).
       if error \<noteq> EMPI_SUCCESS then after_ERROR (e_ef E) (ret (error, recvbuf1))
       else
         andthen
           (if c_global_rank c = c_my_coordinator c then
              andthen (pmpi E (Request (PMPI_Type_extent (dt_type t)))) (\<lambda>a.
              if an_error a \<noteq> EMPI_SUCCESS then after_ERROR (e_ef E) (ret (an_error a, recvbuf1))
              else
                andthen (malloc_cells E (count * an_value a)) (\<lambda>block.
                case block of
                  None \<Rightarrow> after_ERROR (e_ef E) (ret (EMPI_ERR_INTERN, recvbuf1))
                | Some buffer \<Rightarrow>
                    andthen (wa_bcast E recvbuf1 count t c) (\<lambda>error.
                    if error \<noteq> EMPI_SUCCESS then after_ERROR (e_ef E) (ret (error, recvbuf1))
                    else allreduce_collect E fp user count t typ x p c (nat (c_cluster_count c)) 0 buffer recvbuf1)))
            else ret (EMPI_SUCCESS, recvbuf1)) (\<lambda>(error, recvbuf2).
         if error \<noteq> EMPI_SUCCESS then ret (error, recvbuf2)
         else andthen (local_bcast E recvbuf2 count t 0 c) (check_local E))))))))"

fun scan_loop ::
  "('f elem, 'w) env \<Rightarrow> 'f floats \<Rightarrow> 'f user_functions \<Rightarrow> 'f elem list \<Rightarrow> int \<Rightarrow> datatype_s \<Rightarrow> int \<Rightarrow> operation \<Rightarrow> addr
    \<Rightarrow> communicator \<Rightarrow> nat \<Rightarrow> int \<Rightarrow> 'f elem list \<Rightarrow> 'f elem list \<Rightarrow> (int \<times> 'f elem list, 'f elem, 'w) proc_act" where
  "scan_loop E fp user sendbuf count t typ x p c 0 i buffer recvbuf = ret (EMPI_SUCCESS, recvbuf)"
| "scan_loop E fp user sendbuf count t typ x p c (Suc n) i buffer recvbuf =
     andthen (lift (arr_read (c_members c) i)) (\<lambda>member.
     if i > c_global_rank c then
       andthen (api_do_send E sendbuf count t i SCAN_TAG c) (\<lambda>error.
       if error \<noteq> EMPI_SUCCESS then after_ERROR (e_ef E) (ret (error, recvbuf))
       else scan_loop E fp user sendbuf count t typ x p c n (i + 1) buffer recvbuf)
     else if i < c_global_rank c then
       andthen (api_do_recv E count t i SCAN_TAG None p c) (\<lambda>(error, data, st).
       andthen (lift (put_received buffer 0 data)) (\<lambda>buffer'.
       if error \<noteq> EMPI_SUCCESS then after_ERROR (e_ef E) (ret (error, recvbuf))
       else
         andthen (lift (reduce fp user (op_function x) buffer' recvbuf count typ)) (\<lambda>recvbuf'.
         scan_loop E fp user sendbuf count t typ x p c n (i + 1) buffer' recvbuf')))
     else scan_loop E fp user sendbuf count t typ x p c n (i + 1) buffer recvbuf)"

text \<open>When the temporary buffer cannot be allocated the code returns the error code of the call before.\<close>

definition EMPI_Scan ::
  "('f elem, 'w) env \<Rightarrow> 'f floats \<Rightarrow> 'f user_functions \<Rightarrow> 'f elem list \<Rightarrow> 'f elem list \<Rightarrow> int \<Rightarrow> int \<Rightarrow> int \<Rightarrow> int
    \<Rightarrow> (int \<times> 'f elem list, 'f elem, 'w) proc_act" where
  "EMPI_Scan E fp user sendbuf recvbuf count typ oper comm =
     H2C E comm (EMPI_ERR_COMM, recvbuf) (\<lambda>p c.
     H2T E typ (EMPI_ERR_TYPE, recvbuf) (\<lambda>tp t. H2O E oper (EMPI_ERR_OP, recvbuf) (\<lambda>xp x.
     if comm_is_local c then
       local_call E (Reduction (PMPI_Scan sendbuf count (dt_type t) (op_op x) (c_comm c))) recvbuf
     else
       andthen (pmpi E (Request (PMPI_Type_extent (dt_type t)))) (\<lambda>a.
       if an_error a \<noteq> EMPI_SUCCESS then after_ERROR (e_ef E) (ret (an_error a, recvbuf))
       else
         andthen (malloc_cells E (count * an_value a)) (\<lambda>block.
         case block of
           None \<Rightarrow> after_ERROR (e_ef E) (ret (an_error a, recvbuf))
         | Some buffer \<Rightarrow>
             andthen (lift (do { xs \<leftarrow> get_cells sendbuf 0 (count * an_value a); put_cells recvbuf 0 xs })) (\<lambda>recvbuf1.
             scan_loop E fp user sendbuf count t typ x p c (nat (c_global_size c)) 0 buffer recvbuf1))))))"

section \<open>All to all\<close>

fun alltoallv_receive ::
  "('a, 'w) env \<Rightarrow> int \<Rightarrow> int \<Rightarrow> 'a list \<Rightarrow> int list \<Rightarrow> int list \<Rightarrow> int list \<Rightarrow> datatype_s \<Rightarrow> addr \<Rightarrow> communicator
    \<Rightarrow> nat \<Rightarrow> int \<Rightarrow> 'a list \<Rightarrow> (int \<times> 'a list, 'a, 'w) proc_act" where
  "alltoallv_receive E sextent rextent sendbuf sdispls recvcounts rdispls rt p c 0 j recvbuf = ret (EMPI_SUCCESS, recvbuf)"
| "alltoallv_receive E sextent rextent sendbuf sdispls recvcounts rdispls rt p c (Suc n) j recvbuf =
     andthen (lift (arr_read recvcounts j)) (\<lambda>k.
     andthen (lift (arr_read rdispls j)) (\<lambda>d.
     if j = c_global_rank c then
       andthen (lift (do {
         sd \<leftarrow> arr_read sdispls j;
         src \<leftarrow> cells_from sendbuf (sextent * sd);
         xs \<leftarrow> get_cells src 0 (k * rextent);
         put_cells recvbuf (rextent * d) xs })) (\<lambda>recvbuf'.
       alltoallv_receive E sextent rextent sendbuf sdispls recvcounts rdispls rt p c n (j + 1) recvbuf')
     else
       andthen (api_do_recv E k rt j ALLTOALLV_TAG None p c) (\<lambda>(error, data, st).
       andthen (lift (put_received recvbuf (rextent * d) data)) (\<lambda>recvbuf'.
       if error \<noteq> EMPI_SUCCESS then after_ERROR (e_ef E) (ret (error, recvbuf'))
       else alltoallv_receive E sextent rextent sendbuf sdispls recvcounts rdispls rt p c n (j + 1) recvbuf'))))"

fun alltoallv_loop ::
  "('a, 'w) env \<Rightarrow> int \<Rightarrow> int \<Rightarrow> 'a list \<Rightarrow> int list \<Rightarrow> int list \<Rightarrow> datatype_s \<Rightarrow> int list \<Rightarrow> int list \<Rightarrow> datatype_s \<Rightarrow> addr
    \<Rightarrow> communicator \<Rightarrow> nat \<Rightarrow> int \<Rightarrow> 'a list \<Rightarrow> (int \<times> 'a list, 'a, 'w) proc_act" where
  "alltoallv_loop E sextent rextent sendbuf sendcounts sdispls st recvcounts rdispls rt p c 0 i recvbuf =
     ret (EMPI_SUCCESS, recvbuf)"
| "alltoallv_loop E sextent rextent sendbuf sendcounts sdispls st recvcounts rdispls rt p c (Suc n) i recvbuf =
     (if i = c_global_rank c then
        andthen (alltoallv_receive E sextent rextent sendbuf sdispls recvcounts rdispls rt p c (nat (c_global_size c)) 0
                   recvbuf) (\<lambda>(error, recvbuf').
        if error \<noteq> EMPI_SUCCESS then ret (error, recvbuf')
        else alltoallv_loop E sextent rextent sendbuf sendcounts sdispls st recvcounts rdispls rt p c n (i + 1) recvbuf')
      else
        andthen (lift (do {
          k \<leftarrow> arr_read sendcounts i;
          sd \<leftarrow> arr_read sdispls i;
          xs \<leftarrow> cells_from sendbuf (sd * sextent);
          Some (k, xs) })) (\<lambda>(k, xs).
        andthen (api_do_send E xs k st i ALLTOALLV_TAG c) (\<lambda>error.
        if error \<noteq> EMPI_SUCCESS then after_ERROR (e_ef E) (ret (error, recvbuf))
        else alltoallv_loop E sextent rextent sendbuf sendcounts sdispls st recvcounts rdispls rt p c n (i + 1) recvbuf)))"

definition WA_Alltoallv ::
  "('a, 'w) env \<Rightarrow> 'a list \<Rightarrow> int list \<Rightarrow> int list \<Rightarrow> datatype_s \<Rightarrow> 'a list \<Rightarrow> int list \<Rightarrow> int list \<Rightarrow> datatype_s
    \<Rightarrow> addr \<Rightarrow> communicator \<Rightarrow> (int \<times> 'a list, 'a, 'w) proc_act" where
  "WA_Alltoallv E sendbuf sendcounts sdispls stype recvbuf recvcounts rdispls rtype p c =
     andthen (pmpi E (Request (PMPI_Type_extent (dt_type stype)))) (\<lambda>a.
     if an_error a \<noteq> EMPI_SUCCESS then after_ERROR (e_ef E) (ret (an_error a, recvbuf))
     else
       andthen (pmpi E (Request (PMPI_Type_extent (dt_type rtype)))) (\<lambda>b.
       if an_error b \<noteq> EMPI_SUCCESS then after_ERROR (e_ef E) (ret (an_error b, recvbuf))
       else alltoallv_loop E (an_value a) (an_value b) sendbuf sendcounts sdispls stype recvcounts rdispls rtype p c
              (nat (c_global_size c)) 0 recvbuf))"

definition WA_Alltoallw :: "('a, 'w) env \<Rightarrow> 'a list \<Rightarrow> (int \<times> 'a list, 'a, 'w) proc_act" where
  "WA_Alltoallw E recvbuf = after_ERROR (e_ef E) (ret (EMPI_ERR_INTERN, recvbuf))"

definition EMPI_Alltoall ::
  "('a, 'w) env \<Rightarrow> 'a list \<Rightarrow> int \<Rightarrow> int \<Rightarrow> 'a list \<Rightarrow> int \<Rightarrow> int \<Rightarrow> int \<Rightarrow> (int \<times> 'a list, 'a, 'w) proc_act" where
  "EMPI_Alltoall E sendbuf sendcount sendtype recvbuf recvcount recvtype comm =
     H2C E comm (EMPI_ERR_COMM, recvbuf) (\<lambda>p c.
     H2T E sendtype (EMPI_ERR_TYPE, recvbuf) (\<lambda>stp stype. H2T E recvtype (EMPI_ERR_TYPE, recvbuf) (\<lambda>rtp rtype.
     if comm_is_local c then
       local_call E (Reduction (PMPI_Alltoall sendbuf sendcount (dt_type stype) recvcount (dt_type rtype) (c_comm c)))
         recvbuf
     else
       with_counts E (c_global_size c) sendcount (EMPI_ERR_INTERN, recvbuf) (\<lambda>senddispls sendcounts.
       with_counts E (c_global_size c) recvcount (EMPI_ERR_INTERN, recvbuf) (\<lambda>recvdispls recvcounts.
         WA_Alltoallv E sendbuf sendcounts senddispls stype recvbuf recvcounts recvdispls rtype p c)))))"

definition EMPI_Alltoallv ::
  "('a, 'w) env \<Rightarrow> 'a list \<Rightarrow> int list \<Rightarrow> int list \<Rightarrow> int \<Rightarrow> 'a list \<Rightarrow> int list \<Rightarrow> int list \<Rightarrow> int \<Rightarrow> int
    \<Rightarrow> (int \<times> 'a list, 'a, 'w) proc_act" where
  "EMPI_Alltoallv E sendbuf sendcounts sdispls sendtype recvbuf recvcounts rdispls recvtype comm =
     H2C E comm (EMPI_ERR_COMM, recvbuf) (\<lambda>p c.
     H2T E sendtype (EMPI_ERR_TYPE, recvbuf) (\<lambda>stp stype. H2T E recvtype (EMPI_ERR_TYPE, recvbuf) (\<lambda>rtp rtype.
     if comm_is_local c then
       local_call E (Reduction (PMPI_Alltoallv sendbuf sendcounts sdispls (dt_type stype) recvcounts rdispls (dt_type rtype)
         (c_comm c))) recvbuf
     else WA_Alltoallv E sendbuf sendcounts sdispls stype recvbuf recvcounts rdispls rtype p c)))"

text \<open>The datatypes of an array of handles, up to the first that is unknown.\<close>

fun types_of_handles ::
  "('a, 'w) env \<Rightarrow> int list \<Rightarrow> nat \<Rightarrow> int \<Rightarrow> datatype_s list \<Rightarrow> (datatype_s list option, 'a, 'w) proc_act" where
  "types_of_handles E hs 0 i ts = ret (Some ts)"
| "types_of_handles E hs (Suc n) i ts =
     andthen (lift (arr_read hs i)) (\<lambda>h.
     H2T E h None (\<lambda>tp t. types_of_handles E hs n (i + 1) (ts @ [t])))"

definition EMPI_Alltoallw ::
  "('a, 'w) env \<Rightarrow> 'a list \<Rightarrow> int list \<Rightarrow> int list \<Rightarrow> int list \<Rightarrow> 'a list \<Rightarrow> int list \<Rightarrow> int list \<Rightarrow> int list \<Rightarrow> int
    \<Rightarrow> (int \<times> 'a list, 'a, 'w) proc_act" where
  "EMPI_Alltoallw E sendbuf sendcounts sdispls sendtypes recvbuf recvcounts rdispls recvtypes comm =
     H2C E comm (EMPI_ERR_COMM, recvbuf) (\<lambda>p c.
     andthen (malloc E) (\<lambda>new1.
     if new1 = None then after_ERROR (e_ef E) (ret (EMPI_ERR_INTERN, recvbuf))
     else
       andthen (malloc E) (\<lambda>new2.
       if new2 = None then after_ERROR (e_ef E) (ret (EMPI_ERR_INTERN, recvbuf))
       else
         andthen (types_of_handles E sendtypes (nat (c_global_size c)) 0 []) (\<lambda>sts.
         case sts of
           None \<Rightarrow> ret (EMPI_ERR_TYPE, recvbuf)
         | Some sts \<Rightarrow>
             andthen (types_of_handles E recvtypes (nat (c_global_size c)) 0 []) (\<lambda>rts.
             case rts of
               None \<Rightarrow> ret (EMPI_ERR_TYPE, recvbuf)
             | Some rts \<Rightarrow>
                 if comm_is_local c then
                   local_call E (Reduction (PMPI_Alltoallw sendbuf sendcounts sdispls (map dt_type sts) recvcounts rdispls
                     (map dt_type rts) (c_comm c))) recvbuf
                 else WA_Alltoallw E recvbuf)))))"

end
