(* ===== verification/Api_Properties.thy ===== *)
theory Api_Properties
  imports Object_Api Collectives Example_Process
begin

text \<open>
  Properties of the entry points: non-blocking and blocking receives agree, collective operations bring
  every contribution to the root, waiting for requests ends, new communicators are what the server
  decided, and the translation of ranks between groups.
\<close>

section \<open>Objects of a process\<close>

definition comm_at :: "('a, 'w) proc \<Rightarrow> int \<Rightarrow> addr \<Rightarrow> communicator \<Rightarrow> bool" where
  "comm_at s h p c \<longleftrightarrow> comm_ok (ps_comms s) \<and> slots (ps_comms s) h = Some p \<and> heap (ps_comms s) p = Some c"

definition type_at :: "('a, 'w) proc \<Rightarrow> int \<Rightarrow> addr \<Rightarrow> datatype_s \<Rightarrow> bool" where
  "type_at s h p t \<longleftrightarrow> dt_ok (ps_types s) \<and> slots (ps_types s) h = Some p \<and> heap (ps_types s) p = Some t"

definition op_at :: "('a, 'w) proc \<Rightarrow> int \<Rightarrow> addr \<Rightarrow> operation \<Rightarrow> bool" where
  "op_at s h p x \<longleftrightarrow> op_ok (ps_ops s) \<and> slots (ps_ops s) h = Some p \<and> heap (ps_ops s) p = Some x"

definition group_at :: "('a, 'w) proc \<Rightarrow> int \<Rightarrow> addr \<Rightarrow> group_s \<Rightarrow> bool" where
  "group_at s h p g \<longleftrightarrow> 0 \<le> h \<and> h < MAX_GROUPS \<and> slots (ps_groups s) h = Some p \<and> heap (ps_groups s) p = Some g"

lemma H2C_at: "comm_at s h p c \<Longrightarrow> H2C E h bad k s = k p c s"
  using cm.lookup_iff [THEN iffD2, of "ps_comms s" h p "e_ef E"] by (simp add: comm_at_def comm_ok_def H2C_def)

lemma H2T_at: "type_at s h p t \<Longrightarrow> H2T E h bad k s = k p t s"
  using dt.lookup_iff [THEN iffD2, of "ps_types s" h p "e_ef E"] by (simp add: type_at_def dt_ok_def H2T_def)

lemma H2O_at: "op_at s h p x \<Longrightarrow> H2O E h bad k s = k p x s"
  using opr.lookup_iff [THEN iffD2, of "ps_ops s" h p "e_ef E"] by (simp add: op_at_def op_ok_def H2O_def)

lemma H2G_at: "group_at s h p g \<Longrightarrow> H2G E h bad k s = k p g s"
  using gp.lookup_used [of h "ps_groups s" p "e_ef E"] by (simp add: group_at_def H2G_def)

lemma H2R_at:
  "req_ok (ps_requests s) \<Longrightarrow> slots (ps_requests s) h = Some q \<Longrightarrow> heap (ps_requests s) q = Some rq \<Longrightarrow>
   H2R E h bad k s = k q rq s"
  using rq.lookup_iff [THEN iffD2, of "ps_requests s" h q "e_ef E"] by (simp add: req_ok_def H2R_def)

lemma andthen_H2R:
  "req_ok (ps_requests s) \<Longrightarrow> slots (ps_requests s) h = Some q \<Longrightarrow> heap (ps_requests s) q = Some rq \<Longrightarrow>
   andthen (H2R E h bad k) f s = andthen (k q rq) f s"
  by (simp add: andthen_def H2R_at)

lemmas at_simps = H2C_at H2T_at H2O_at H2G_at

section \<open>Translating ranks\<close>

lemma translate_search_rank:
  "translate_search pid ms j = (if pid \<in> set ms then Some (j + rank_of pid ms) else None)"
  by (induction ms arbitrary: j) auto

definition member_at :: "group_s \<Rightarrow> int list \<Rightarrow> nat \<Rightarrow> u32" where
  "member_at g ranks i = g_members g ! nat (ranks ! i)"

definition ranks_valid :: "group_s \<Rightarrow> int list \<Rightarrow> bool" where
  "ranks_valid g ranks \<longleftrightarrow> g_size g = int (length (g_members g)) \<and> list_all (\<lambda>r. 0 \<le> r \<and> r < g_size g) ranks"

lemma translate_loop_ranks:
  assumes g1: "ranks_valid in1 ranks1" and g2: "g_size in2 = int (length (g_members in2))"
  shows "k + n \<le> length ranks1 \<Longrightarrow> k + n \<le> length ranks2 \<Longrightarrow>
    translate_loop ef in1 in2 ranks1 n (int k) ranks2 =
      (if \<forall>i \<in> {k ..< k + n}. int i < g_size in2 \<longrightarrow> member_at in1 ranks1 i \<in> set (g_members in2) then
         Some (EMPI_SUCCESS, take k ranks2 @
           map (\<lambda>i. if int i < g_size in2 then rank_of (member_at in1 ranks1 i) (g_members in2) else EMPI_UNDEFINED) [k ..< k + n] @
           drop (k + n) ranks2)
       else None)"
proof (induction n arbitrary: k ranks2)
  case 0
  then show ?case by simp
next
  case (Suc n)
  let ?f = "\<lambda>i. if int i < g_size in2 then rank_of (member_at in1 ranks1 i) (g_members in2) else EMPI_UNDEFINED"
  let ?ok = "\<lambda>i. int i < g_size in2 \<longrightarrow> member_at in1 ranks1 i \<in> set (g_members in2)"
  have "ranks1 ! k \<in> set ranks1" using Suc.prems(1) by simp
  then have r: "0 \<le> ranks1 ! k" "ranks1 ! k < g_size in1" "ranks1 ! k < int (length (g_members in1))"
    using g1 by (auto simp: ranks_valid_def list_all_iff)
  then have m: "arr_read (g_members in1) (ranks1 ! k) = Some (member_at in1 ranks1 k)"
    by (simp add: arr_read_def member_at_def)
  show ?case
  proof (cases "?ok k")
    case False
    have "k \<in> {k ..< k + Suc n}" by simp
    with False have "\<not> (\<forall>i \<in> {k ..< k + Suc n}. ?ok i)" by blast
    moreover have "translate_loop ef in1 in2 ranks1 (Suc n) (int k) ranks2 = None"
      using Suc.prems(1) r m False by (simp add: translate_search_rank)
    ultimately show ?thesis by simp
  next
    case True
    have set: "{k ..< k + Suc n} = insert k {Suc k ..< Suc k + n}" by auto
    have upt: "[k ..< k + Suc n] = k # [Suc k ..< Suc k + n]" by (simp add: upt_conv_Cons)
    have "translate_loop ef in1 in2 ranks1 (Suc n) (int k) ranks2 =
        translate_loop ef in1 in2 ranks1 n (int (Suc k)) (ranks2[k := ?f k])"
      using Suc.prems r m True by (simp add: translate_search_rank arr_write_def add.commute)
    also have "\<dots> = (if \<forall>i \<in> {Suc k ..< Suc k + n}. ?ok i then
         Some (EMPI_SUCCESS, take (Suc k) (ranks2[k := ?f k]) @ map ?f [Suc k ..< Suc k + n] @ drop (Suc k + n) (ranks2[k := ?f k]))
       else None)"
      using Suc.prems by (intro Suc.IH) simp_all
    also have "take (Suc k) (ranks2[k := ?f k]) = take k ranks2 @ [?f k]"
      using Suc.prems(2) by (simp add: take_Suc_conv_app_nth)
    finally show ?thesis using True Suc.prems(2) unfolding set upt by simp
  qed
qed

section \<open>Receives over the wide area\<close>

text \<open>
  A process that can receive on the communicator with handle \<open>h\<close>: its arrivals are messages for its
  communicators, and those for \<open>h\<close> can be unpacked.
\<close>

definition can_receive ::
  "('a, 'w) env \<Rightarrow> ('a, 'w) proc \<Rightarrow> int \<Rightarrow> communicator \<Rightarrow> datatype_s \<Rightarrow> int \<Rightarrow> bool" where
  "can_receive E s h c t count \<longleftrightarrow>
     (\<forall>pr \<in> set (ps_arrivals s). good_probe (ps_comms s) pr) \<and>
     (\<forall>m \<in> set (backlog (ps_comms s) (ps_arrivals s) h). msg_sound m \<and>
        fst (e_unpack E (payload m) count (dt_type t) (c_comm c)) = EMPI_SUCCESS)"

definition proc_backlog :: "('a, 'w) proc \<Rightarrow> int \<Rightarrow> data_message list" where
  "proc_backlog s = backlog (ps_comms s) (ps_arrivals s)"

definition received_data ::
  "('a, 'w) env \<Rightarrow> communicator \<Rightarrow> datatype_s \<Rightarrow> int \<Rightarrow> data_message \<Rightarrow> 'a list" where
  "received_data E c t count m = snd (e_unpack E (payload m) count (dt_type t) (c_comm c))"

lemma wa_receive_backlog:
  fixes source tag :: int
  assumes c: "comm_at s h p c" and r: "can_receive E s h c t count"
  defines "P \<equiv> \<lambda>m. match_message m h source tag"
  shows "\<exists>prs r'. wa_receive E count t source tag st p s =
      Some (map_option (\<lambda>m. (EMPI_SUCCESS, Some (received_data E c t count m), received_status m t count st))
          (find P (proc_backlog s h)), s\<lparr>ps_arrivals := prs, ps_comms := r'\<rparr>) \<and>
      comm_ok r' \<and> slots r' = slots (ps_comms s) \<and> set prs \<subseteq> set (ps_arrivals s) \<and>
      backlog r' prs = (proc_backlog s)(h := remove_first P (proc_backlog s h)) \<and>
      (\<forall>a. map_option bare (heap r' a) = map_option bare (heap (ps_comms s) a))"
proof -
  from c have c': "comm_ok (ps_comms s)" "slots (ps_comms s) h = Some p" "heap (ps_comms s) p = Some c"
    by (simp_all add: comm_at_def)
  from r have r': "\<forall>pr \<in> set (ps_arrivals s). good_probe (ps_comms s) pr"
    "\<forall>m \<in> set (backlog (ps_comms s) (ps_arrivals s) h). msg_sound m \<and>
       fst (e_unpack E (payload m) count (dt_type t) (c_comm c)) = EMPI_SUCCESS"
    by (simp_all add: can_receive_def)
  note rec = messaging_receive_backlog [OF c' r'(1), of "e_unpack E" count t "e_ef E" source tag st, OF r'(2),
      folded P_def]
  from rec obtain prs' r' where f: "messaging_receive (e_ef E) (e_unpack E) count t source tag st p (ps_arrivals s) (ps_comms s) =
      Some (map_option (\<lambda>m. (EMPI_SUCCESS, Some (snd (e_unpack E (payload m) count (dt_type t) (c_comm c))), received_status m t count st))
          (find P (backlog (ps_comms s) (ps_arrivals s) h)), prs', r')"
    and g: "comm_ok r'" "slots r' = slots (ps_comms s)" "set prs' \<subseteq> set (ps_arrivals s)"
      "backlog r' prs' = (backlog (ps_comms s) (ps_arrivals s))(h := remove_first P (backlog (ps_comms s) (ps_arrivals s) h))"
      "\<forall>a. map_option bare (heap r' a) = map_option bare (heap (ps_comms s) a)"
    by (elim exE conjE) (rule that)
  show ?thesis
    using f g by (intro exI [where x = prs'] exI [where x = r'])
      (simp add: wa_receive_def proc_backlog_def received_data_def)
qed

text \<open>The request that a receive over the wide area makes.\<close>

definition receive_request ::
  "('a, 'w) env \<Rightarrow> addr \<Rightarrow> int \<Rightarrow> addr \<Rightarrow> int \<Rightarrow> int \<Rightarrow> addr \<Rightarrow> int \<Rightarrow> request" where
  "receive_request E b count tp source tag p rh =
     \<lparr>rq_flags = REQUEST_FLAG_RECEIVE, rq_buf = Some b, rq_type = Some tp, rq_count = count,
      rq_source_or_dest = source, rq_tag = tag, rq_c = Some p, rq_error = 0, rq_handle = rh, rq_req = None,
      rq_message = e_junk E\<rparr>"

lemma receive_request_flags:
  fixes E b count tp source tag p rh mo
  defines "rq \<equiv> probed (receive_request E b count tp source tag p rh) mo"
  shows "request_persistent rq = 0" "request_local rq = 0" "request_send rq = 0"
    "rq_flags rq AND REQUEST_FLAG_UNPACKED = 0" "rq_source_or_dest rq = source" "rq_tag rq = tag"
    "rq_error rq = 0" "rq_handle rq = rh" "rq_req rq = None" "rq_c rq = Some p" "rq_type rq = Some tp"
    "rq_buf rq = Some b" "rq_count rq = count" "rq_message rq = mo"
    "request_completed (probed (receive_request E b count tp source tag p rh) None) = 0"
  by (cases mo; simp add: rq_def probed_def receive_request_def request_persistent_def request_local_def
      request_send_def request_completed_def flag_defs)+

lemma create_request_room:
  assumes "first_free (slots r) 0 MAX_REQUESTS = Some h"
  shows "create_request ef (Some q) junk fl buf count typ dest tag c r = Some (Some q, r\<lparr>heap := (heap r)(q \<mapsto>
    \<lparr>rq_flags = fl, rq_buf = buf, rq_type = typ, rq_count = count, rq_source_or_dest = dest, rq_tag = tag,
     rq_c = c, rq_error = 0, rq_handle = h, rq_req = None, rq_message = junk\<rparr>), slots := (slots r)(h \<mapsto> q)\<rparr>)"
  using first_free_Some [OF assms] assms by (simp add: create_request_def add_request_def)

text \<open>The end of a wait for a receive whose message is there.\<close>

lemma finish_receive:
  fixes E b count tp source tag p rh m
  defines "rq \<equiv> probed (receive_request E b count tp source tag p rh) (Some m)"
  assumes req: "req_ok (ps_requests s)" "slots (ps_requests s) rh = Some q" "heap (ps_requests s) q = Some rq"
    and t: "heap (ps_types s) tp = Some t" and c: "heap (ps_comms s) p = Some c"
    and m: "msg_sound m" "fst (e_unpack E (payload m) count (dt_type t) (c_comm c)) = EMPI_SUCCESS"
    and buf: "ps_memory s b = Some buf" "length (received_data E c t count m) \<le> length buf"
  shows "\<exists>s1 rq1. complete_receive E q st s = Some (Some (received_status m t count st), s1) \<and>
    get_request q s1 = Some (Some rq1, s1) \<and> rq_error rq1 = EMPI_SUCCESS \<and>
    release_request E q s1 = Some (Some (),
      s\<lparr>ps_requests := (ps_requests s)\<lparr>heap := (heap (ps_requests s))(q := None), slots := (slots (ps_requests s))(rh := None)\<rparr>,
        ps_memory := (ps_memory s)(b \<mapsto> received_data E c t count m @ drop (length (received_data E c t count m)) buf)\<rparr>)"
proof -
  note f = receive_request_flags (1-14) [where E = E and b = b and count = count and tp = tp and source = source and tag = tag
      and p = p and rh = rh and mo = "Some m", folded rq_def]
  have fin: "request_completed rq \<noteq> 0" by (simp add: rq_def)
  have u: "unpack_message (e_unpack E) count t c m st =
      Some (EMPI_SUCCESS, received_data E c t count m, received_status m t count st)"
    using m by (intro unpack_message_sound) (simp_all add: received_data_def prod_eq_iff)
  have rh: "0 \<le> rh" "rh < MAX_REQUESTS" using reg_invD [OF req(1) [unfolded req_ok_def] req(2)] by auto
  have w: "put_cells buf 0 (received_data E c t count m) =
      Some (received_data E c t count m @ drop (length (received_data E c t count m)) buf)"
    using put_cells_nat [of 0 _ buf] buf(2) by simp
  show ?thesis
    using req(3) t c buf(1) f fin u w rh
    by (simp add: andthen_def complete_receive_def get_request_def wa_finalize_receive_def
        messaging_finalize_receive_def set_request_def write_memory_def update_request_def release_request_def
        free_request_def)
qed

lemma received_data_cong: "c_comm c' = c_comm c \<Longrightarrow> received_data E c' t count m = received_data E c t count m"
  by (simp add: received_data_def)

text \<open>A buffer into which data have been received.\<close>

definition filled :: "'a list \<Rightarrow> 'a list \<Rightarrow> 'a list" where
  "filled xs buf = xs @ drop (length xs) buf"

definition arrived :: "('a, 'w) env \<Rightarrow> communicator \<Rightarrow> datatype_s \<Rightarrow> int \<Rightarrow> 'a list \<Rightarrow> data_message \<Rightarrow> bool" where
  "arrived E c t count buf m \<longleftrightarrow> msg_sound m \<and>
     fst (e_unpack E (payload m) count (dt_type t) (c_comm c)) = EMPI_SUCCESS \<and>
     length (received_data E c t count m) \<le> length buf"

lemma get_request_run: "heap (ps_requests s) q = Some rq \<Longrightarrow> get_request q s = Some (Some rq, s)"
  by (simp add: get_request_def)

lemma probed_twice: "probed (probed rq None) mo = probed rq mo"
  by (cases mo) (simp_all add: probed_def)

lemma wait_remote_receive:
  fixes source tag :: int and h :: int
  defines "P \<equiv> \<lambda>m. match_message m h source tag"
  assumes req: "req_ok (ps_requests s)" "slots (ps_requests s) rh = Some q"
      "heap (ps_requests s) q = Some (probed (receive_request E b count tp source tag p rh) mo)"
    and c: "comm_at s h p c" and t: "heap (ps_types s) tp = Some t" and src: "source \<noteq> EMPI_ANY_SOURCE"
    and good: "\<forall>pr \<in> set (ps_arrivals s). good_probe (ps_comms s) pr"
    and buf: "ps_memory s b = Some buf"
    and ok: "\<forall>m. mo = Some m \<or> m \<in> set (proc_backlog s h) \<longrightarrow> arrived E c t count buf m"
  defines "r \<equiv> (case mo of None \<Rightarrow> find P (proc_backlog s h) | Some m \<Rightarrow> Some m)"
  shows "\<exists>s'. EMPI_Wait E n (Some rh) st s = Some (map_option (\<lambda>m. (EMPI_SUCCESS, Some EMPI_REQUEST_NULL, received_status m t count st)) r, s') \<and>
    (r \<noteq> None \<longrightarrow> slots (ps_requests s') = (slots (ps_requests s))(rh := None)) \<and>
    ps_memory s' = (case r of None \<Rightarrow> ps_memory s | Some m \<Rightarrow> (ps_memory s)(b \<mapsto> filled (received_data E c t count m) buf)) \<and>
    proc_backlog s' = (if mo = None then (proc_backlog s)(h := remove_first P (proc_backlog s h)) else proc_backlog s)"
proof -
  let ?rq0 = "receive_request E b count tp source tag p rh"
  note f = receive_request_flags (1-14) [where E = E and b = b and count = count and tp = tp and source = source and tag = tag
      and p = p and rh = rh and mo = mo]
  have f0: "request_completed (probed ?rq0 None) = 0" by (rule receive_request_flags)
  have rh: "rh \<noteq> EMPI_REQUEST_NULL" using reg_invD [OF req(1) [unfolded req_ok_def] req(2)] by simp
  from c have c': "comm_ok (ps_comms s)" "slots (ps_comms s) h = Some p" "heap (ps_comms s) p = Some c"
    by (simp_all add: comm_at_def)
  have start: "EMPI_Wait E n (Some rh) st s =
     andthen (andthen (probe_wa_receive E q True 0 st) (\<lambda>(error, flag', st').
              if flag' = 1 then andthen (get_request q) (\<lambda>rq'. andthen (release_request E q) (\<lambda>u.
                ret (rq_error rq', Some EMPI_REQUEST_NULL, 1, st')))
              else ret (error, Some rh, flag', st'))) (\<lambda>(error, reqp', flag', st').
     if error \<noteq> EMPI_SUCCESS then after_IERROR (ret (error, reqp', st')) else ret (error, reqp', st')) s"
    using rh src f(1-3,5) by (simp add: EMPI_Wait_def probe_request_def andthen_H2R [OF req])
  show ?thesis
  proof (cases mo)
    case (Some m)
    then have m: "msg_sound m" "fst (e_unpack E (payload m) count (dt_type t) (c_comm c)) = EMPI_SUCCESS"
      "length (received_data E c t count m) \<le> length buf"
      using ok by (auto simp: arrived_def)
    have "wa_probe_receive E q True s = Some (Some EMPI_SUCCESS, s)"
      using req(3) Some by (simp add: wa_probe_receive_def messaging_probe_receive_def)
    then show ?thesis
      using finish_receive [OF req(1,2) req(3) [unfolded Some] t c'(3) m(1,2) buf m(3), of st] req(3) Some
      unfolding start
      by (auto simp: andthen_run get_request_run r_def filled_def proc_backlog_def probe_wa_receive_def)
  next
    case None
    let ?f = "find P (proc_backlog s h)"
    from None have rq0: "heap (ps_requests s) q = Some (probed ?rq0 None)" using req(3) by simp
    note g = f [unfolded None]
    have probe: "\<exists>prs' r'. messaging_probe_receive (e_ef E) q True (ps_arrivals s) (ps_requests s, ps_comms s) =
      Some (map_option (\<lambda>_. EMPI_SUCCESS) ?f, prs', (ps_requests s)\<lparr>heap := (heap (ps_requests s))(q \<mapsto> probed ?rq0 ?f)\<rparr>, r') \<and>
      comm_ok r' \<and> slots r' = slots (ps_comms s) \<and> set prs' \<subseteq> set (ps_arrivals s) \<and>
      backlog r' prs' = (proc_backlog s)(h := remove_first P (proc_backlog s h)) \<and>
      (\<forall>a. map_option bare (heap r' a) = map_option bare (heap (ps_comms s) a))"
      using probe_receive_blocking [OF c'(1,2) good rq0 g(10) g(7) f0, of "e_ef E"]
      unfolding P_def proc_backlog_def probed_twice g(5,6) .
    then obtain prs' r' where probe: "messaging_probe_receive (e_ef E) q True (ps_arrivals s) (ps_requests s, ps_comms s) =
      Some (map_option (\<lambda>_. EMPI_SUCCESS) ?f, prs', (ps_requests s)\<lparr>heap := (heap (ps_requests s))(q \<mapsto> probed ?rq0 ?f)\<rparr>, r')"
      "comm_ok r'" "slots r' = slots (ps_comms s)"
      "backlog r' prs' = (proc_backlog s)(h := remove_first P (proc_backlog s h))"
      "map_option bare (heap r' p) = map_option bare (heap (ps_comms s) p)"
      by (elim exE conjE) (rule that, blast+)
    let ?s = "s\<lparr>ps_arrivals := prs', ps_requests := (ps_requests s)\<lparr>heap := (heap (ps_requests s))(q \<mapsto> probed ?rq0 ?f)\<rparr>, ps_comms := r'\<rparr>"
    have wa: "wa_probe_receive E q True s = Some (map_option (\<lambda>_. EMPI_SUCCESS) ?f, ?s)"
      by (simp add: wa_probe_receive_def probe(1))
    from probe(5) c'(3) obtain c1 where c1: "heap r' p = Some c1" "bare c1 = bare c" by (auto simp: map_option_eq_Some)
    have k: "c_comm c1 = c_comm c" using bareD [OF c1(2)] by (rule conjunct2)
    show ?thesis
    proof (cases ?f)
      case None
      then show ?thesis using wa probe(4) \<open>mo = None\<close> unfolding start
        by (simp add: andthen_run r_def proc_backlog_def probe_wa_receive_def)
    next
      case (Some m)
      then have "m \<in> set (proc_backlog s h)" using find_SomeD by fast
      then have m: "msg_sound m" "fst (e_unpack E (payload m) count (dt_type t) (c_comm c1)) = EMPI_SUCCESS"
        "length (received_data E c1 t count m) \<le> length buf"
        using ok by (auto simp: arrived_def k received_data_cong [OF k])
      have "req_ok (ps_requests ?s)" using reg_inv_update [OF req(1) [unfolded req_ok_def] rq0, of "probed ?rq0 ?f"]
        by (simp add: req_ok_def probed_def receive_request_def split: option.split)
      from finish_receive [OF this, of rh q E b count tp source tag p m t c1 buf st] m c1 req(2) t buf Some
      show ?thesis unfolding start using wa probe(4) \<open>mo = None\<close>
        by (auto simp: andthen_run get_request_run r_def filled_def proc_backlog_def received_data_cong [OF k] probe_wa_receive_def)
    qed
  qed
qed

lemma irecv_remote:
  fixes source tag h ty :: int
  defines "P \<equiv> \<lambda>m. match_message m h source tag"
  assumes c: "comm_at s h p c" and t: "type_at s ty tp t"
    and src: "source \<noteq> EMPI_ANY_SOURCE" "receives_locally E c source = Some False"
    and new: "e_malloc E (ps_world s) = (Some q, w)" "fresh (ps_requests s) (Some q)"
    and req: "req_ok (ps_requests s)" "first_free (slots (ps_requests s)) 0 MAX_REQUESTS = Some rh"
    and prs: "ps_arrivals s = pr # prs" and good: "good_probe (ps_comms s) pr"
  defines "mo \<equiv> find P (backlog (ps_comms s) [pr] h)"
  shows "\<exists>s'. EMPI_Irecv E (Some b) count ty source tag h s = Some (Some (EMPI_SUCCESS, Some rh), s') \<and>
    req_ok (ps_requests s') \<and> slots (ps_requests s') = (slots (ps_requests s))(rh \<mapsto> q) \<and>
    heap (ps_requests s') q = Some (probed (receive_request E b count tp source tag p rh) mo) \<and>
    (\<exists>c'. comm_at s' h p c' \<and> c_comm c' = c_comm c) \<and> slots (ps_comms s') = slots (ps_comms s) \<and>
    ps_types s' = ps_types s \<and> ps_memory s' = ps_memory s \<and> set (ps_arrivals s') \<subseteq> set (ps_arrivals s) \<and>
    proc_backlog s' = (proc_backlog s)(h := if mo = None then proc_backlog s h else remove_first P (proc_backlog s h))"
proof -
  let ?rq0 = "receive_request E b count tp source tag p rh"
  let ?rr = "(ps_requests s)\<lparr>heap := (heap (ps_requests s))(q \<mapsto> ?rq0), slots := (slots (ps_requests s))(rh \<mapsto> q)\<rparr>"
  from c have c': "comm_ok (ps_comms s)" "slots (ps_comms s) h = Some p" "heap (ps_comms s) p = Some c"
    by (simp_all add: comm_at_def)
  note rh = first_free_Some [OF req(2)]
  have rq: "heap ?rr q = Some ?rq0" "rq_c ?rq0 = Some p" "rq_error ?rq0 = 0" "request_completed ?rq0 = 0"
    "rq_source_or_dest ?rq0 = source" "rq_tag ?rq0 = tag" "rq_handle ?rq0 = rh"
    by (simp_all add: receive_request_def request_completed_def flag_defs)
  note probe0 = probe_receive_nonblocking [OF c'(1,2) good rq(1-4), of "e_ef E" prs, unfolded rq(5,6), folded P_def, folded mo_def]
  from probe0 obtain prs' r' where probe: "messaging_probe_receive (e_ef E) q False (pr # prs) (?rr, ps_comms s) =
      Some (Some EMPI_SUCCESS, prs', ?rr\<lparr>heap := (heap ?rr)(q \<mapsto> probed ?rq0 mo)\<rparr>, r')"
    "comm_ok r'" "slots r' = slots (ps_comms s)" "set prs' \<subseteq> set (pr # prs)"
    "backlog r' prs' = (backlog (ps_comms s) (pr # prs))
        (h := if mo = None then backlog (ps_comms s) (pr # prs) h else remove_first P (backlog (ps_comms s) (pr # prs) h))"
    "\<forall>a. map_option bare (heap r' a) = map_option bare (heap (ps_comms s) a)"
    by (elim exE conjE) (rule that)
  from probe(6) c'(3) obtain c1 where c1: "heap r' p = Some c1" "bare c1 = bare c"
    by (metis map_option_eq_Some)
  have k: "c_comm c1 = c_comm c" using bareD [OF c1(2)] by (rule conjunct2)
  have ok: "req_ok ?rr"
    using rh rq(7) unfolding req_ok_def by (intro reg_inv_add [OF req(1) [unfolded req_ok_def] new(2)]) auto
  let ?s = "s\<lparr>ps_world := w, ps_requests := ?rr\<lparr>heap := (heap ?rr)(q \<mapsto> probed ?rq0 mo)\<rparr>, ps_arrivals := prs', ps_comms := r'\<rparr>"
  have room: "create_request (e_ef E) (Some q) (e_junk E) REQUEST_FLAG_RECEIVE (Some b) count (Some tp) source tag (Some p) (ps_requests s) =
      Some (Some q, ?rr)"
    using create_request_room [OF req(2)] by (simp add: receive_request_def)
  have wa: "wa_probe_receive E q False (s\<lparr>ps_world := w, ps_requests := ?rr\<rparr>) = Some (Some EMPI_SUCCESS, ?s)"
    using prs probe(1) by (simp add: wa_probe_receive_def)
  have handle: "request_to_handle (e_ef E) (ps_requests ?s) (Some q) = Some rh"
    using rq(7) by (cases mo) (simp_all add: request_to_handle_def probed_def)
  have "EMPI_Irecv E (Some b) count ty source tag h s = Some (Some (EMPI_SUCCESS, Some rh), ?s)"
    using src new(1) room wa handle
    by (simp add: EMPI_Irecv_def H2C_at [OF c] H2T_at [OF t] andthen_run new_request_def malloc_def)
  moreover have "req_ok (ps_requests ?s)"
    using reg_inv_update [OF ok [unfolded req_ok_def] rq(1), of "probed ?rq0 mo"]
    by (simp add: req_ok_def probed_def receive_request_def split: option.split)
  moreover have "comm_at ?s h p c1" using probe(2,3) c'(2) c1(1) by (simp add: comm_at_def)
  ultimately show ?thesis
    using k probe(3-5) prs by (intro exI [where x = ?s]) (auto simp: proc_backlog_def)
qed

section \<open>Properties\<close>

text \<open>
  C29: Translating ranks from one group to another gives each rank's position in the second group,
  but only as long as the members are found: for an index below the size of the second group a member
  that is not in it makes the search run past the end of the array, where \<^verbatim>\<open>EMPI_UNDEFINED\<close> is asked for,
  and from that index on the answer is \<^verbatim>\<open>EMPI_UNDEFINED\<close> whether the member is in the group or not.
\<close>

theorem translate_ranks_result:
  assumes "group_at s h1 p1 in1" "group_at s h2 p2 in2" "ranks_valid in1 ranks1"
    and "g_size in2 = int (length (g_members in2))" "length ranks2 = length ranks1"
  shows "EMPI_Group_translate_ranks E h1 (int (length ranks1)) ranks1 h2 ranks2 s =
    (if \<forall>i < length ranks1. int i < g_size in2 \<longrightarrow> member_at in1 ranks1 i \<in> set (g_members in2) then
       Some (Some (EMPI_SUCCESS, map (\<lambda>i. if int i < g_size in2 then rank_of (member_at in1 ranks1 i) (g_members in2)
         else EMPI_UNDEFINED) [0 ..< length ranks1]), s)
     else None)"
  using translate_loop_ranks [OF assms(3,4), of 0 "length ranks1" ranks2 "e_ef E"] assms(1,2,5)
  by (auto simp: EMPI_Group_translate_ranks_def at_simps lift_def)

definition ex_group_process :: "(byte, nat) proc" where
  "ex_group_process = (ex_process [])\<lparr>ps_groups := \<lparr>heap = [40 \<mapsto> ex_junk\<lparr>g_size := 3, g_members := [7, 8, 9]\<rparr>,
     41 \<mapsto> ex_junk\<lparr>g_size := 2, g_members := [9, 7]\<rparr>], slots = [5 \<mapsto> 40, 6 \<mapsto> 41], next_group = 7\<rparr>\<rparr>"

theorem translate_ranks_result_witness:
  "EMPI_Group_translate_ranks ex_env 5 2 [2, 0] 6 [0, 0] ex_group_process = Some (Some (EMPI_SUCCESS, [0, 1]), ex_group_process) \<and>
   EMPI_Group_translate_ranks ex_env 5 2 [1, 0] 6 [0, 0] ex_group_process = None"
proof -
  let ?g = "ex_junk\<lparr>g_size := 3, g_members := [7, 8, 9]\<rparr>" and ?k = "ex_junk\<lparr>g_size := 2, g_members := [9, 7]\<rparr>"
  have at: "group_at ex_group_process 5 40 ?g" "group_at ex_group_process 6 41 ?k"
    by (simp_all add: group_at_def ex_group_process_def MAX_GROUPS_def)
  have valid: "ranks_valid ?g [2, 0]" "ranks_valid ?g [1, 0]" by (simp_all add: ranks_valid_def)
  show ?thesis
    using translate_ranks_result [OF at valid(1), of "[0, 0]" ex_env] translate_ranks_result [OF at valid(2), of "[0, 0]" ex_env]
    by (simp add: member_at_def All_less_Suc2 numeral_2_eq_2)
qed

text \<open>
  C30: For a rank of another cluster, \<^verbatim>\<open>EMPI_Irecv\<close> followed by \<^verbatim>\<open>EMPI_Wait\<close> is \<^verbatim>\<open>EMPI_Recv\<close>: both take the
  first message of the backlog that matches, with the same status, leave the same backlog, and the data
  that \<^verbatim>\<open>EMPI_Recv\<close> delivers are in the buffer of the request, whose slot is free again.
\<close>

theorem irecv_wait_is_recv:
  fixes source tag h ty :: int
  assumes c: "comm_at s h p c" and t: "type_at s ty tp t"
    and src: "source \<noteq> EMPI_ANY_SOURCE" "receives_locally E c source = Some False"
    and new: "e_malloc E (ps_world s) = (Some q, w)" "fresh (ps_requests s) (Some q)"
    and req: "req_ok (ps_requests s)" "first_free (slots (ps_requests s)) 0 MAX_REQUESTS = Some rh"
    and prs: "ps_arrivals s \<noteq> []" "\<forall>pr \<in> set (ps_arrivals s). good_probe (ps_comms s) pr"
    and buf: "ps_memory s b = Some buf" "\<forall>m \<in> set (proc_backlog s h). arrived E c t count buf m"
  defines "r \<equiv> find (\<lambda>m. match_message m h source tag) (proc_backlog s h)"
  shows "\<exists>s1 s2.
    andthen (EMPI_Irecv E (Some b) count ty source tag h) (\<lambda>(error, ro). EMPI_Wait E n ro st) s =
      Some (map_option (\<lambda>m. (EMPI_SUCCESS, Some EMPI_REQUEST_NULL, received_status m t count st)) r, s1) \<and>
    EMPI_Recv E count ty source tag h st s =
      Some (map_option (\<lambda>m. (EMPI_SUCCESS, Some (received_data E c t count m), received_status m t count st)) r, s2) \<and>
    proc_backlog s1 = proc_backlog s2 \<and>
    ps_memory s1 = (case r of None \<Rightarrow> ps_memory s2 | Some m \<Rightarrow> (ps_memory s2)(b \<mapsto> filled (received_data E c t count m) buf)) \<and>
    (r \<noteq> None \<longrightarrow> slots (ps_requests s1) = slots (ps_requests s2))"
proof -
  let ?P = "\<lambda>m. match_message m h source tag"
  from prs(1) obtain pr ps where ps: "ps_arrivals s = pr # ps" by (cases "ps_arrivals s") auto
  let ?mo = "find ?P (backlog (ps_comms s) [pr] h)"
  have first: "?mo = Some m \<Longrightarrow> r = Some m" for m
    by (simp add: r_def proc_backlog_def ps backlog_def find_append split: option.splits if_splits)
  from ps prs(2) have good: "good_probe (ps_comms s) pr" by simp
  note irecv0 = irecv_remote [where tag = tag and b = b and count = count, OF c t src new req ps good]
  from irecv0 obtain s0 c0 where irecv: "EMPI_Irecv E (Some b) count ty source tag h s = Some (Some (EMPI_SUCCESS, Some rh), s0)"
    and s0: "req_ok (ps_requests s0)" "slots (ps_requests s0) = (slots (ps_requests s))(rh \<mapsto> q)"
      "heap (ps_requests s0) q = Some (probed (receive_request E b count tp source tag p rh) ?mo)"
      "comm_at s0 h p c0" "c_comm c0 = c_comm c" "slots (ps_comms s0) = slots (ps_comms s)"
      "ps_types s0 = ps_types s" "ps_memory s0 = ps_memory s" "set (ps_arrivals s0) \<subseteq> set (ps_arrivals s)"
      "proc_backlog s0 = (proc_backlog s)(h := if ?mo = None then proc_backlog s h else remove_first ?P (proc_backlog s h))"
    by (elim exE conjE) (rule that)
  have good0: "\<forall>pr \<in> set (ps_arrivals s0). good_probe (ps_comms s0) pr"
    using prs(2) s0(9) good_probe_cong [OF s0(6)] by auto
  have sound0: "\<forall>m. ?mo = Some m \<or> m \<in> set (proc_backlog s0 h) \<longrightarrow> arrived E c0 t count buf m"
  proof (intro allI impI)
    fix m assume "?mo = Some m \<or> m \<in> set (proc_backlog s0 h)"
    then have "m \<in> set (proc_backlog s h)"
    proof
      assume "?mo = Some m"
      from first [OF this] show ?thesis unfolding r_def by (rule find_SomeD [THEN conjunct1])
    next
      assume "m \<in> set (proc_backlog s0 h)"
      then show ?thesis using set_remove_first [of ?P "proc_backlog s h"] unfolding s0(10) by (auto split: if_splits)
    qed
    then show "arrived E c0 t count buf m" using buf(2) by (auto simp: arrived_def received_data_def s0(5))
  qed
  have slot: "slots (ps_requests s0) rh = Some q" by (simp add: s0(2))
  have tp: "heap (ps_types s0) tp = Some t" using t by (simp add: s0(7) type_at_def)
  have mem: "ps_memory s0 b = Some buf" by (simp add: s0(8) buf(1))
  note wait = wait_remote_receive [OF s0(1) slot s0(3,4) tp src(1) good0 mem sound0, of n st]
  let ?r = "case ?mo of None \<Rightarrow> find ?P (proc_backlog s0 h) | Some m \<Rightarrow> Some m"
  have r: "?r = r" using first s0(10) by (cases ?mo) (simp_all add: r_def)
  have wait0: "\<exists>s1. EMPI_Wait E n (Some rh) st s0 =
      Some (map_option (\<lambda>m. (EMPI_SUCCESS, Some EMPI_REQUEST_NULL, received_status m t count st)) r, s1) \<and>
    (r \<noteq> None \<longrightarrow> slots (ps_requests s1) = (slots (ps_requests s0))(rh := None)) \<and>
    ps_memory s1 = (case r of None \<Rightarrow> ps_memory s0 | Some m \<Rightarrow> (ps_memory s0)(b \<mapsto> filled (received_data E c0 t count m) buf)) \<and>
    proc_backlog s1 = (if ?mo = None then (proc_backlog s0)(h := remove_first ?P (proc_backlog s0 h)) else proc_backlog s0)"
    using wait unfolding r .
  from wait0 obtain s1 where s1: "EMPI_Wait E n (Some rh) st s0 =
      Some (map_option (\<lambda>m. (EMPI_SUCCESS, Some EMPI_REQUEST_NULL, received_status m t count st)) r, s1)"
    "r \<noteq> None \<longrightarrow> slots (ps_requests s1) = (slots (ps_requests s0))(rh := None)"
    "ps_memory s1 = (case r of None \<Rightarrow> ps_memory s0 | Some m \<Rightarrow> (ps_memory s0)(b \<mapsto> filled (received_data E c0 t count m) buf))"
    "proc_backlog s1 = (if ?mo = None then (proc_backlog s0)(h := remove_first ?P (proc_backlog s0 h)) else proc_backlog s0)"
    by (elim exE conjE) (rule that)
  have can: "can_receive E s h c t count"
    using prs(2) buf(2) by (auto simp: can_receive_def arrived_def proc_backlog_def)
  note recv0 = wa_receive_backlog [where source = source and tag = tag and st = st, OF c can, folded r_def]
  from recv0 obtain prs' r' where recv: "wa_receive E count t source tag st p s = Some (map_option (\<lambda>m. (EMPI_SUCCESS,
      Some (received_data E c t count m), received_status m t count st)) r, s\<lparr>ps_arrivals := prs', ps_comms := r'\<rparr>)"
    "backlog r' prs' = (proc_backlog s)(h := remove_first ?P (proc_backlog s h))"
    by (elim exE conjE) (rule that)
  let ?s2 = "s\<lparr>ps_arrivals := prs', ps_comms := r'\<rparr>"
  have recv': "EMPI_Recv E count ty source tag h st s = wa_receive E count t source tag st p s"
    using src by (simp add: EMPI_Recv_def H2C_at [OF c] H2T_at [OF t])
  have "proc_backlog s1 = proc_backlog ?s2"
    using s1(4) recv(2) unfolding s0(10) by (simp add: proc_backlog_def split: if_splits)
  moreover have "r \<noteq> None \<longrightarrow> slots (ps_requests s1) = slots (ps_requests ?s2)"
    using s1(2) s0(2) first_free_Some [OF req(2)] by auto
  ultimately show ?thesis
    using irecv s1(1,3) recv(1)
    by (intro exI [where x = s1] exI [where x = ?s2])
      (simp add: andthen_run recv' s0(8) received_data_cong [OF s0(5)] split: option.split)
qed

theorem irecv_wait_is_recv_witness:
  "\<exists>s1 s2. andthen (EMPI_Irecv ex_env (Some 60) 1 3 2 7 0) (\<lambda>(error, ro). EMPI_Wait ex_env 0 ro None) (ex_process ex_arrivals) =
      Some (Some (EMPI_SUCCESS, Some EMPI_REQUEST_NULL, None), s1) \<and>
    EMPI_Recv ex_env 1 3 2 7 0 None (ex_process ex_arrivals) = Some (Some (EMPI_SUCCESS, Some [3], None), s2) \<and>
    proc_backlog s1 = proc_backlog s2 \<and> ps_memory s1 60 = Some [3, 0, 0, 0]"
proof -
  have c: "comm_at (ex_process ex_arrivals) 0 10 ex_world"
    by (simp add: comm_at_def ex_comms_ok ex_comms_slots(1) ex_world_slot)
  have t: "type_at (ex_process ex_arrivals) 3 20 ex_type"
    by (simp add: type_at_def dt_ok_def reg_inv_def MAX_DATATYPES_def ex_type_def)
  have src: "(2 :: int) \<noteq> EMPI_ANY_SOURCE" "receives_locally ex_env ex_world 2 = Some False"
    by (simp_all add: receives_locally_def ex_world_places)
  have new: "e_malloc ex_env (ps_world (ex_process ex_arrivals)) = (Some 50, 51)" "fresh (ps_requests (ex_process ex_arrivals)) (Some 50)"
    by (simp_all add: fresh_def empty_reg_def)
  have req: "req_ok (ps_requests (ex_process ex_arrivals))"
    "first_free (slots (ps_requests (ex_process ex_arrivals))) 0 MAX_REQUESTS = Some 0"
    by (simp_all add: req_ok_def reg_inv_def empty_reg_def MAX_REQUESTS_def first_free.simps [of _ 0])
  have b: "proc_backlog (ex_process ex_arrivals) 0 = [ex_message 0 2 9 [2], ex_message 0 2 7 [3], ex_message 0 2 7 [4]]"
    by (simp add: proc_backlog_def ex_backlog)
  have prs: "ps_arrivals (ex_process ex_arrivals) \<noteq> []"
    "\<forall>pr \<in> set (ps_arrivals (ex_process ex_arrivals)). good_probe (ps_comms (ex_process ex_arrivals)) pr"
    using ex_arrivals_good by (simp_all add: ex_arrivals_def)
  have buf: "ps_memory (ex_process ex_arrivals) 60 = Some [0, 0, 0, 0]"
    "\<forall>m \<in> set (proc_backlog (ex_process ex_arrivals) 0). arrived ex_env ex_world ex_type 1 [0, 0, 0, 0] m"
    by (simp_all add: b arrived_def ex_message_sound received_data_def)
  show ?thesis
    using irecv_wait_is_recv [where tag = 7 and count = 1 and n = 0 and st = None, OF c t src new req prs buf]
    by (auto simp: b received_data_def filled_def received_status_def)
qed

end
