(* ===== verification/Wait_Properties.thy ===== *)
theory Wait_Properties
  imports Api_Properties
begin

text \<open>
  Waiting for sends over the wide area ends: such a send is complete when its call returns, so that one
  turn over the requests finishes them all.
\<close>

section \<open>Sends over the wide area\<close>

text \<open>The status that a finished send reports.\<close>

definition sent_status :: "('a, 'w) proc \<Rightarrow> int \<Rightarrow> status run" where
  "sent_status s h = do {
     q \<leftarrow> slots (ps_requests s) h;
     rq \<leftarrow> heap (ps_requests s) q;
     tp \<leftarrow> rq_type rq;
     t \<leftarrow> heap (ps_types s) tp;
     if request_persistent rq = 0 \<and> request_local rq = 0 \<and> request_send rq \<noteq> 0 \<and> rq_req rq = None then
       Some \<lparr>st_source = rq_source_or_dest rq, st_tag = rq_tag rq, st_error = EMPI_SUCCESS, st_count = rq_count rq,
         st_cancelled = 0, st_type = dt_handle t\<rparr>
     else None
   }"

definition finished_status :: "('a, 'w) proc \<Rightarrow> int \<Rightarrow> status \<Rightarrow> status" where
  "finished_status s h st = (case sent_status s h of None \<Rightarrow> st | Some st' \<Rightarrow> st')"

text \<open>The process once the requests with the handles \<open>hs\<close> are gone.\<close>

definition request_gone :: "int \<Rightarrow> ('a, 'w) proc \<Rightarrow> ('a, 'w) proc" where
  "request_gone h s = (case slots (ps_requests s) h of
     None \<Rightarrow> s
   | Some q \<Rightarrow> s\<lparr>ps_requests := (ps_requests s)\<lparr>heap := (heap (ps_requests s))(q := None), slots := (slots (ps_requests s))(h := None)\<rparr>\<rparr>)"

lemma test_wa_send:
  assumes ok: "req_ok (ps_requests s)" and sent: "sent_status s h = Some st1"
  shows "EMPI_Test E n (Some h) flag (Some st) s = Some (Some (EMPI_SUCCESS, Some EMPI_REQUEST_NULL, 1, Some st1), request_gone h s)"
    "h \<noteq> EMPI_REQUEST_NULL" "req_ok (ps_requests (request_gone h s))"
proof -
  from sent obtain q rq tp t where q: "slots (ps_requests s) h = Some q" "heap (ps_requests s) q = Some rq" "rq_type rq = Some tp"
    "heap (ps_types s) tp = Some t"
    and f: "request_persistent rq = 0" "request_local rq = 0" "request_send rq \<noteq> 0" "rq_req rq = None"
    and st1: "st1 = \<lparr>st_source = rq_source_or_dest rq, st_tag = rq_tag rq, st_error = EMPI_SUCCESS, st_count = rq_count rq,
         st_cancelled = 0, st_type = dt_handle t\<rparr>"
    by (auto simp: sent_status_def bind_eq_Some_conv split: if_splits)
  note h = reg_invD [OF ok [unfolded req_ok_def] q(1)]
  from h(1) show null: "h \<noteq> EMPI_REQUEST_NULL" by simp
  have "rq_handle rq = h" using h q(2) by auto
  then have "EMPI_Test E n (Some h) flag (Some st) s = Some (Some (EMPI_SUCCESS, Some EMPI_REQUEST_NULL, 1, Some st1), s\<lparr>ps_requests :=
       (ps_requests s)\<lparr>heap := (heap (ps_requests s))(q := None), slots := (slots (ps_requests s))(h := None)\<rparr>\<rparr>)"
    using null q f h(1,2)
    by (simp add: EMPI_Test_def probe_request_def H2R_at [OF ok q(1,2)] probe_wa_send_def send_status_def get_request_def
        get_type_def update_request_def set_request_def set_status_def release_request_def free_request_def andthen_def st1)
  then show "EMPI_Test E n (Some h) flag (Some st) s = Some (Some (EMPI_SUCCESS, Some EMPI_REQUEST_NULL, 1, Some st1), request_gone h s)"
    by (simp add: request_gone_def q(1))
  show "req_ok (ps_requests (request_gone h s))"
    using req_ok_free [OF ok q(1)] by (simp add: request_gone_def q(1))
qed

lemma request_gone_other:
  assumes "req_ok (ps_requests s)" "h' \<noteq> h"
  shows "sent_status (request_gone h s) h' = sent_status s h'"
proof (cases "slots (ps_requests s) h")
  case None
  then show ?thesis by (simp add: request_gone_def)
next
  case (Some q)
  have "q' \<noteq> q" if "slots (ps_requests s) h' = Some q'" for q'
    using that Some assms reg_inv_inj unfolding req_ok_def by metis
  then show ?thesis using Some assms(2)
    by (cases "slots (ps_requests s) h'") (simp_all add: sent_status_def request_gone_def)
qed

lemma request_gone_slots: "slots (ps_requests (request_gone h s)) h' = (if h' = h then None else slots (ps_requests s) h')"
  by (simp add: request_gone_def split: option.split)

text \<open>Every handle is null or that of a send over the wide area, and no two are the same.\<close>

definition sends_only :: "('a, 'w) proc \<Rightarrow> int list \<Rightarrow> bool" where
  "sends_only s hs \<longleftrightarrow> req_ok (ps_requests s) \<and> distinct (filter (\<lambda>h. h \<noteq> EMPI_REQUEST_NULL) hs) \<and>
     (\<forall>h \<in> set hs. h \<noteq> EMPI_REQUEST_NULL \<longrightarrow> sent_status s h \<noteq> None)"

lemma waitall_pass_sends:
  assumes "sends_only s hs" "length sts = length hs" "length spre = length pre"
  shows "\<exists>s'. waitall_pass E n (length hs) (int (length pre)) (pre @ hs) (Some (spre @ sts)) finished errors s =
      Some (Some (pre @ replicate (length hs) EMPI_REQUEST_NULL,
        Some (spre @ map2 (\<lambda>h st. if h = EMPI_REQUEST_NULL then st else finished_status s h st) hs sts),
        finished + int (length (filter (\<lambda>h. h \<noteq> EMPI_REQUEST_NULL) hs)), errors), s') \<and>
    (\<forall>h. slots (ps_requests s') h = (if h \<in> set hs \<and> h \<noteq> EMPI_REQUEST_NULL then None else slots (ps_requests s) h))"
  using assms
proof (induction hs arbitrary: pre spre sts finished s)
  case Nil
  then show ?case by simp
next
  case (Cons h hs)
  from Cons.prems(2) obtain st sts1 where sts: "sts = st # sts1" "length sts1 = length hs" by (cases sts) auto
  have read: "arr_read (pre @ h # hs) (int (length pre)) = Some h" by (simp add: arr_read_def)
  have len: "length (spre @ [x]) = length (pre @ [y])" for x :: status and y :: int using Cons.prems(3) by simp
  have next_i: "int (length pre) + 1 = int (length (pre @ [y]))" for y :: int by simp
  show ?case
  proof (cases "h = EMPI_REQUEST_NULL")
    case True
    then have "sends_only s hs" using Cons.prems(1) by (simp add: sends_only_def)
    from Cons.IH [OF this sts(2), where spre = "spre @ [st]" and pre = "pre @ [EMPI_REQUEST_NULL]" and finished = finished, OF len] read True show ?thesis
      by (elim exE, intro exI) (auto simp: sts(1) next_i [symmetric] add.commute)
  next
    case False
    from Cons.prems(1) have ok: "req_ok (ps_requests s)" and d: "h \<notin> set hs" and rest: "sends_only s hs"
      using False by (auto simp: sends_only_def)
    from Cons.prems(1) False obtain st1 where sent: "sent_status s h = Some st1" by (auto simp: sends_only_def)
    note test = test_wa_send [OF ok sent]
    let ?s = "request_gone h s"
    have same: "sent_status ?s h' = sent_status s h'" if "h' \<in> set hs" for h'
      using that d by (intro request_gone_other [OF ok]) auto
    then have "sends_only ?s hs" using rest test(3) by (auto simp: sends_only_def)
    note IH = Cons.IH [OF this sts(2), where spre = "spre @ [st1]" and pre = "pre @ [EMPI_REQUEST_NULL]" and finished = "finished + 1", OF len]
    have eq: "map2 (\<lambda>h st. if h = EMPI_REQUEST_NULL then st else finished_status ?s h st) hs sts1 =
        map2 (\<lambda>h st. if h = EMPI_REQUEST_NULL then st else finished_status s h st) hs sts1"
      by (rule map_cong [OF refl]) (auto simp: finished_status_def same dest: set_zip_leftD)
    have wr: "arr_write (pre @ h # hs) (int (length pre)) v = Some (pre @ v # hs)"
      "status_at (Some (spre @ st # sts1)) (int (length pre)) = Some (Some st)"
      "set_status_at (Some (spre @ st # sts1)) (int (length pre)) (Some x) = Some (Some (spre @ x # sts1))" for v x
      using Cons.prems(3)
      by (simp_all add: arr_write_def arr_read_def status_at_def set_status_at_def list_update_append nth_append)
    have "waitall_pass E n (length (h # hs)) (int (length pre)) (pre @ h # hs) (Some (spre @ sts)) finished errors s =
        waitall_pass E n (length hs) (int (length pre) + 1) (pre @ EMPI_REQUEST_NULL # hs) (Some (spre @ st1 # sts1)) (finished + 1)
          errors ?s"
      using False read test(1) by (simp add: sts(1) wr andthen_def)
    with IH show ?thesis using False d
      by (elim exE, intro exI) (auto simp: sts(1) next_i [symmetric] eq request_gone_slots finished_status_def sent add.commute)
  qed
qed

lemma count_null_filter:
  "count_null (pre @ hs) (length hs) (int (length pre)) finished =
     Some (finished + int (length (filter (\<lambda>h. h = EMPI_REQUEST_NULL) hs)))"
proof (induction hs arbitrary: pre finished)
  case Nil
  then show ?case by simp
next
  case (Cons h hs)
  have "arr_read (pre @ h # hs) (int (length pre)) = Some h" by (simp add: arr_read_def)
  with Cons.IH [of "pre @ [h]"] show ?case by (simp add: add.commute)
qed

section \<open>Properties\<close>

text \<open>
  C31: Waiting for any number of sends over the wide area ends, after one turn: every request is finished
  and its handle free again, all the caller's handles are null, every status is the one of its send, and
  no other request is touched.
\<close>

theorem waitall_sends_ends:
  assumes "sends_only s hs" "length sts = length hs" "0 < n"
  shows "\<exists>s'. EMPI_Waitall E n (int (length hs)) hs (Some sts) s =
      Some (Some (EMPI_SUCCESS, replicate (length hs) EMPI_REQUEST_NULL,
        Some (map2 (\<lambda>h st. if h = EMPI_REQUEST_NULL then st else finished_status s h st) hs sts)), s') \<and>
    (\<forall>h. slots (ps_requests s') h = (if h \<in> set hs \<and> h \<noteq> EMPI_REQUEST_NULL then None else slots (ps_requests s) h))"
proof -
  let ?nulls = "filter (\<lambda>h. h = EMPI_REQUEST_NULL) hs" and ?sends = "filter (\<lambda>h. h \<noteq> EMPI_REQUEST_NULL) hs"
  have n: "int (length ?nulls) + int (length ?sends) = int (length hs)"
    using sum_length_filter_compl [of "\<lambda>h. h = EMPI_REQUEST_NULL" hs] by linarith
  obtain n' where n': "n = Suc n'" using assms(3) by (cases n) auto
  from waitall_pass_sends [OF assms(1,2), of "[]" "[]" E n "int (length ?nulls)" 0]
  obtain s' where s': "waitall_pass E n (length hs) 0 hs (Some sts) (int (length ?nulls)) 0 s =
      Some (Some (replicate (length hs) EMPI_REQUEST_NULL,
        Some (map2 (\<lambda>h st. if h = EMPI_REQUEST_NULL then st else finished_status s h st) hs sts), int (length hs), 0), s')"
    "\<forall>h. slots (ps_requests s') h = (if h \<in> set hs \<and> h \<noteq> EMPI_REQUEST_NULL then None else slots (ps_requests s) h)"
    unfolding n by auto
  have start: "EMPI_Waitall E n (int (length hs)) hs (Some sts) s =
      waitall_loop E n n (int (length hs)) hs (Some sts) (int (length ?nulls)) 0 s"
    using count_null_filter [of "[]" hs 0] by (simp add: EMPI_Waitall_def del: waitall_loop.simps)
  show ?thesis
  proof (cases "?sends = []")
    case True
    then have null: "\<forall>h \<in> set hs. h = EMPI_REQUEST_NULL" by (simp add: filter_empty_conv)
    have "hs = replicate (length hs) EMPI_REQUEST_NULL" using null by (simp add: replicate_length_same)
    moreover have "map2 (\<lambda>h st. if h = EMPI_REQUEST_NULL then st else finished_status s h st) hs sts = map snd (zip hs sts)"
      using null by (intro map_cong [OF refl]) (auto dest: set_zip_leftD)
    moreover have "int (length ?nulls) = int (length hs)" using n True by simp
    ultimately show ?thesis using null assms(2) unfolding start by (intro exI [where x = s]) auto
  next
    case False
    then have "int (length ?nulls) < int (length hs)" using n by (cases "?sends") auto
    then show ?thesis using s' unfolding start unfolding n' by (simp add: andthen_run)
  qed
qed

definition ex_send :: "int \<Rightarrow> int \<Rightarrow> request" where
  "ex_send h tag = \<lparr>rq_flags = REQUEST_FLAG_SEND, rq_buf = Some 60, rq_type = Some 20, rq_count = 1, rq_source_or_dest = 2,
     rq_tag = tag, rq_c = Some 10, rq_error = 0, rq_handle = h, rq_req = None, rq_message = None\<rparr>"

definition ex_sends :: "(byte, nat) proc" where
  "ex_sends = (ex_process [])\<lparr>ps_requests := \<lparr>heap = [70 \<mapsto> ex_send 0 7, 71 \<mapsto> ex_send 4 8], slots = [0 \<mapsto> 70, 4 \<mapsto> 71]\<rparr>\<rparr>"

definition ex_status :: "int \<Rightarrow> status" where
  "ex_status tag = \<lparr>st_source = 2, st_tag = tag, st_error = 0, st_count = 1, st_cancelled = 0, st_type = 3\<rparr>"

theorem waitall_sends_ends_witness:
  "\<exists>s'. EMPI_Waitall ex_env 1 3 [4, EMPI_REQUEST_NULL, 0] (Some [ex_status 0, ex_status 1, ex_status 2]) ex_sends =
      Some (Some (EMPI_SUCCESS, [EMPI_REQUEST_NULL, EMPI_REQUEST_NULL, EMPI_REQUEST_NULL],
        Some [ex_status 8, ex_status 1, ex_status 7]), s') \<and> slots (ps_requests s') 0 = None \<and> slots (ps_requests s') 4 = None"
proof -
  have sent: "sent_status ex_sends 0 = Some (ex_status 7)" "sent_status ex_sends 4 = Some (ex_status 8)"
    by (simp_all add: sent_status_def ex_sends_def ex_send_def ex_status_def ex_type_def request_persistent_def request_local_def
        request_send_def flag_defs)
  have "sends_only ex_sends [4, EMPI_REQUEST_NULL, 0]"
    by (simp add: sends_only_def sent) (simp add: ex_sends_def req_ok_def reg_inv_def ex_send_def MAX_REQUESTS_def)
  from waitall_sends_ends [OF this, of "[ex_status 0, ex_status 1, ex_status 2]" 1 ex_env] show ?thesis
    by (auto simp: finished_status_def sent numeral_3_eq_3)
qed

end
