(* ===== verification/Collective_Properties.thy ===== *)
theory Collective_Properties
  imports Api_Properties Reduce_Properties
begin

text \<open>
  Properties of the collective entry points on a communicator that spans clusters: what the root of a
  gather ends up with, and that waiting for sends over the wide area ends.
\<close>

section \<open>One receive of a collective operation\<close>

text \<open>
  A receive of \<open>count\<close> elements from process \<open>i\<close> brings \<open>xs\<close>: from another cluster the first matching
  message of the backlog holds them, from the own cluster the local library delivers them.
\<close>

definition brings ::
  "('a, 'w) env \<Rightarrow> communicator \<Rightarrow> datatype_s \<Rightarrow> int \<Rightarrow> int \<Rightarrow> int \<Rightarrow> ('a, 'w) proc \<Rightarrow> int \<Rightarrow> 'a list \<Rightarrow> bool" where
  "brings E c t count tag h s i xs \<longleftrightarrow>
     rank_is_local (e_cluster_rank E) c i = Some False \<and>
       map_option (received_data E c t count) (find (\<lambda>m. match_message m h i tag) (proc_backlog s h)) = Some xs \<or>
     rank_is_local (e_cluster_rank E) c i = Some True \<and>
       (\<exists>l. get_local_rank c i = Some l \<and>
          (\<forall>w. let a = fst (e_call E (Point_To_Point (PMPI_Recv count (dt_type t) l (tag2mpi E tag) (c_comm c))) w) in
            an_error a = EMPI_SUCCESS \<and> an_data a = xs))"

text \<open>The process is ready to receive on the communicator \<open>c\<close>, whose queue may have changed.\<close>

definition ready :: "('a, 'w) env \<Rightarrow> ('a, 'w) proc \<Rightarrow> int \<Rightarrow> addr \<Rightarrow> communicator \<Rightarrow> datatype_s \<Rightarrow> int \<Rightarrow> bool" where
  "ready E s h p c t count \<longleftrightarrow> (\<exists>c'. comm_at s h p c' \<and> c_comm c' = c_comm c) \<and> can_receive E s h c t count"

lemma find_remove_first:
  "(\<And>x. x \<in> set xs \<Longrightarrow> P x \<Longrightarrow> \<not> Q x) \<Longrightarrow> find Q (remove_first P xs) = find Q xs"
  by (induction xs) auto

lemma receive_brings:
  assumes r: "ready E s h p c t count" and b: "brings E c t count tag h s i xs" and i: "i \<noteq> EMPI_ANY_SOURCE"
  shows "\<exists>s'. api_do_recv E count t i tag None p c s = Some (Some (EMPI_SUCCESS, Some xs, None), s') \<and>
    ready E s' h p c t count \<and> (\<forall>j ys. j \<noteq> i \<longrightarrow> j \<noteq> EMPI_ANY_SOURCE \<longrightarrow> brings E c t count tag h s j ys \<longrightarrow> brings E c t count tag h s' j ys)"
proof (cases "rank_is_local (e_cluster_rank E) c i = Some True")
  case True
  with b obtain l where l: "get_local_rank c i = Some l"
    "\<And>w. an_error (fst (e_call E (Point_To_Point (PMPI_Recv count (dt_type t) l (tag2mpi E tag) (c_comm c))) w)) = EMPI_SUCCESS"
    "\<And>w. an_data (fst (e_call E (Point_To_Point (PMPI_Recv count (dt_type t) l (tag2mpi E tag) (c_comm c))) w)) = xs"
    unfolding brings_def Let_def by auto
  obtain a w where a: "e_call E (Point_To_Point (PMPI_Recv count (dt_type t) l (tag2mpi E tag) (c_comm c))) (ps_world s) = (a, w)"
    by fastforce
  have "api_do_recv E count t i tag None p c s = Some (Some (EMPI_SUCCESS, Some xs, None), s\<lparr>ps_world := w\<rparr>)"
    using True i a l(1) l(2,3) [of "ps_world s"]
    by (simp add: api_do_recv_def andthen_def pmpi_def translate_status_def)
  moreover have "ready E (s\<lparr>ps_world := w\<rparr>) h p c t count"
    using r by (simp add: ready_def comm_at_def can_receive_def)
  ultimately show ?thesis by (auto simp: brings_def proc_backlog_def)
next
  case False
  let ?P = "\<lambda>m. match_message m h i tag"
  from False b obtain m where m: "rank_is_local (e_cluster_rank E) c i = Some False"
    "find ?P (proc_backlog s h) = Some m" "received_data E c t count m = xs"
    by (auto simp: brings_def)
  from r obtain c' where c': "comm_at s h p c'" "c_comm c' = c_comm c" and can: "can_receive E s h c t count"
    by (auto simp: ready_def)
  have can': "can_receive E s h c' t count" using can by (simp add: can_receive_def c'(2))
  note recv0 = wa_receive_backlog [where source = i and tag = tag and st = None, OF c'(1) can']
  from recv0 obtain prs r1 where recv: "wa_receive E count t i tag None p s =
      Some (map_option (\<lambda>m. (EMPI_SUCCESS, Some (received_data E c' t count m), received_status m t count None))
          (find ?P (proc_backlog s h)), s\<lparr>ps_arrivals := prs, ps_comms := r1\<rparr>)"
    "comm_ok r1" "slots r1 = slots (ps_comms s)" "set prs \<subseteq> set (ps_arrivals s)"
    "backlog r1 prs = (proc_backlog s)(h := remove_first ?P (proc_backlog s h))"
    "\<forall>a. map_option bare (heap r1 a) = map_option bare (heap (ps_comms s) a)"
    by (elim exE conjE) (rule that)
  let ?s = "s\<lparr>ps_arrivals := prs, ps_comms := r1\<rparr>"
  have "api_do_recv E count t i tag None p c s = Some (Some (EMPI_SUCCESS, Some xs, None), ?s)"
    using i m recv(1) [unfolded received_data_cong [OF c'(2)]]
    by (simp add: api_do_recv_def andthen_def received_status_def)
  moreover have "ready E ?s h p c t count"
  proof -
    from recv(6) c'(1) obtain c1 where c1: "heap r1 p = Some c1" "bare c1 = bare c'"
      by (auto simp: comm_at_def map_option_eq_Some dest!: spec [where x = p])
    have "c_comm c1 = c_comm c" using bareD [OF c1(2)] c'(2) by simp
    moreover have "comm_at ?s h p c1" using recv(2,3) c'(1) c1(1) by (simp add: comm_at_def)
    moreover have "can_receive E ?s h c t count"
      using can recv(4) good_probe_cong [OF recv(3)] set_remove_first [of ?P "proc_backlog s h"]
      by (auto simp: can_receive_def recv(5) proc_backlog_def)
    ultimately show ?thesis unfolding ready_def by blast
  qed
  moreover have "\<forall>j ys. j \<noteq> i \<longrightarrow> j \<noteq> EMPI_ANY_SOURCE \<longrightarrow> brings E c t count tag h s j ys \<longrightarrow> brings E c t count tag h ?s j ys"
  proof (intro allI impI)
    fix j ys assume j: "j \<noteq> i" "j \<noteq> EMPI_ANY_SOURCE" "brings E c t count tag h s j ys"
    have "proc_backlog ?s h = remove_first ?P (proc_backlog s h)"
      using recv(5) by (simp add: proc_backlog_def)
    moreover have "find (\<lambda>m. match_message m h j tag) (remove_first ?P (proc_backlog s h)) =
        find (\<lambda>m. match_message m h j tag) (proc_backlog s h)"
      using i j(1,2) by (intro find_remove_first) (auto simp: match_message_def)
    ultimately show "brings E c t count tag h ?s j ys" using j(3) unfolding brings_def by simp
  qed
  ultimately show ?thesis by blast
qed

section \<open>Gather\<close>

text \<open>What every process contributes, the root itself from its send buffer.\<close>

definition contributed ::
  "('a, 'w) env \<Rightarrow> communicator \<Rightarrow> datatype_s \<Rightarrow> int \<Rightarrow> int \<Rightarrow> ('a, 'w) proc \<Rightarrow> int \<Rightarrow> 'a list \<Rightarrow> (nat \<Rightarrow> 'a list) \<Rightarrow> nat \<Rightarrow> bool" where
  "contributed E c t count h s root sendbuf contrib i \<longleftrightarrow>
     (if int i = root then \<exists>rest. sendbuf = contrib i @ rest
      else brings E c t count GATHERV_TAG h s (int i) (contrib i))"

lemma gatherv_loop_collects:
  assumes len: "\<And>i. i < N \<Longrightarrow> length (contrib i) = k * e"
  defines "counts \<equiv> replicate N (int k)" and "displs \<equiv> map (\<lambda>i. int i * int k) [0 ..< N]"
  shows "i + n \<le> N \<Longrightarrow> (i + n) * (k * e) \<le> length buf \<Longrightarrow> ready E s h p c t (int k) \<Longrightarrow>
    \<forall>j \<in> {i ..< i + n}. contributed E c t (int k) h s root sendbuf contrib j \<Longrightarrow>
    \<exists>s'. gatherv_loop E (int e) sendbuf counts displs t root p c n (int i) buf s =
      Some (Some (EMPI_SUCCESS, take (i * (k * e)) buf @ concat (map contrib [i ..< i + n]) @ drop ((i + n) * (k * e)) buf), s')"
proof (induction n arbitrary: i buf s)
  case 0
  then show ?case by simp
next
  case (Suc n)
  let ?K = "k * e"
  let ?buf = "take (i * ?K) buf @ contrib i @ drop (i * ?K + ?K) buf"
  from Suc.prems(1) have i: "i < N" by simp
  have kd: "arr_read counts (int i) = Some (int k)" "arr_read displs (int i) = Some (int i * int k)"
    using i by (simp_all add: arr_read_def counts_def displs_def)
  have off: "int i * int k * int e = int (i * ?K)" by (simp add: mult.assoc)
  have split: "(i + Suc n) * ?K = i * ?K + (?K + n * ?K)" by (simp add: algebra_simps)
  have room: "i * ?K + length (contrib i) \<le> length buf"
    using Suc.prems(2) len [OF i] unfolding split by simp
  have put: "put_cells buf (int i * int k * int e) (contrib i) = Some ?buf"
    using put_cells_nat [OF room] len [OF i] unfolding off by simp
  have buf: "take (Suc i * ?K) ?buf = take (i * ?K) buf @ contrib i" "drop ((Suc i + n) * ?K) ?buf = drop ((i + Suc n) * ?K) buf"
    "length ?buf = length buf"
    using room len [OF i] by (simp_all add: add.commute algebra_simps)
  have upt: "[i ..< i + Suc n] = i # [Suc i ..< Suc i + n]" by (simp add: upt_conv_Cons)
  have step: "\<exists>s1. gatherv_loop E (int e) sendbuf counts displs t root p c (Suc n) (int i) buf s =
      gatherv_loop E (int e) sendbuf counts displs t root p c n (int (Suc i)) ?buf s1 \<and>
      ready E s1 h p c t (int k) \<and> (\<forall>j \<in> {Suc i ..< Suc i + n}. contributed E c t (int k) h s1 root sendbuf contrib j)"
  proof (cases "int i = root")
    case True
    have "contributed E c t (int k) h s root sendbuf contrib i" using Suc.prems(4) by simp
    with True obtain rest where "sendbuf = contrib i @ rest" by (auto simp: contributed_def)
    then have "get_cells sendbuf 0 (int k * int e) = Some (contrib i)"
      using get_cells_nat [of 0 ?K sendbuf] len [OF i] by simp
    then have "gatherv_loop E (int e) sendbuf counts displs t root p c (Suc n) (int i) buf s =
      gatherv_loop E (int e) sendbuf counts displs t root p c n (int (Suc i)) ?buf s"
      using kd put True [symmetric] by (simp add: add.commute)
    then show ?thesis using Suc.prems(3,4) by auto
  next
    case False
    have "brings E c t (int k) GATHERV_TAG h s (int i) (contrib i)"
      using Suc.prems(4) False by (auto simp: contributed_def)
    from receive_brings [OF Suc.prems(3) this] obtain s1 where
      s1: "api_do_recv E (int k) t (int i) GATHERV_TAG None p c s = Some (Some (EMPI_SUCCESS, Some (contrib i), None), s1)"
      "ready E s1 h p c t (int k)"
      "\<And>j ys. j \<noteq> int i \<Longrightarrow> j \<noteq> EMPI_ANY_SOURCE \<Longrightarrow> brings E c t (int k) GATHERV_TAG h s j ys \<Longrightarrow>
         brings E c t (int k) GATHERV_TAG h s1 j ys"
      by auto
    have "gatherv_loop E (int e) sendbuf counts displs t root p c (Suc n) (int i) buf s =
      gatherv_loop E (int e) sendbuf counts displs t root p c n (int (Suc i)) ?buf s1"
      using kd False put s1(1) by (simp add: andthen_def put_received_def add.commute)
    moreover have "\<forall>j \<in> {Suc i ..< Suc i + n}. contributed E c t (int k) h s1 root sendbuf contrib j"
      using Suc.prems(4) s1(3) by (auto simp: contributed_def)
    ultimately show ?thesis using s1(2) by blast
  qed
  then obtain s1 where s1: "gatherv_loop E (int e) sendbuf counts displs t root p c (Suc n) (int i) buf s =
      gatherv_loop E (int e) sendbuf counts displs t root p c n (int (Suc i)) ?buf s1"
    "ready E s1 h p c t (int k)" "\<forall>j \<in> {Suc i ..< Suc i + n}. contributed E c t (int k) h s1 root sendbuf contrib j"
    by blast
  have "Suc i + n \<le> N" "(Suc i + n) * ?K \<le> length ?buf" using Suc.prems(1,2) buf(3) by simp_all
  from Suc.IH [OF this s1(2,3)] show ?case
    unfolding s1(1) buf(1,2) upt by simp
qed

lemma brings_world: "brings E c t count tag h (s\<lparr>ps_world := w\<rparr>) i xs \<longleftrightarrow> brings E c t count tag h s i xs"
  by (simp add: brings_def proc_backlog_def)

lemma contributed_world:
  "contributed E c t count h (s\<lparr>ps_world := w\<rparr>) root sendbuf contrib i \<longleftrightarrow> contributed E c t count h s root sendbuf contrib i"
  "ready E (s\<lparr>ps_world := w\<rparr>) h p c t count \<longleftrightarrow> ready E s h p c t count"
  by (simp_all add: contributed_def brings_world proc_backlog_def ready_def comm_at_def can_receive_def)

section \<open>Reduce\<close>

text \<open>Merging the results of other clusters, one after the other.\<close>

fun merge_all ::
  "'f floats \<Rightarrow> 'f user_functions \<Rightarrow> op_function \<Rightarrow> int \<Rightarrow> int \<Rightarrow> 'f elem list list \<Rightarrow> 'f elem list \<Rightarrow> 'f elem list run" where
  "merge_all fp user f count ty [] acc = Some acc"
| "merge_all fp user f count ty (b # bs) acc = do {
     acc' \<leftarrow> reduce fp user f b acc count ty;
     merge_all fp user f count ty bs acc'
   }"

definition remote_part :: "('a, 'w) env \<Rightarrow> communicator \<Rightarrow> int \<Rightarrow> bool" where
  "remote_part E c k \<longleftrightarrow> k \<noteq> c_global_rank c \<and> rank_is_local (e_cluster_rank E) c k = Some False"

lemma remote_receive:
  assumes "rank_is_local (e_cluster_rank E) c i = Some False" "i \<noteq> EMPI_ANY_SOURCE"
    and "api_do_recv E count t i tag st p c s = Some (Some (EMPI_SUCCESS, x, st'), s')"
  shows "wa_receive E count t i tag st p s = Some (Some (EMPI_SUCCESS, x, st'), s')"
  using assms by (auto simp: api_do_recv_def andthen_def ERROR_def XERROR_def split: option.splits prod.splits if_splits)

lemma reduce_collect_merges:
  assumes "c_coordinators c = pre @ ks" "distinct ks" "ready E s h p c t count"
    and "\<forall>k \<in> set ks. k \<noteq> EMPI_ANY_SOURCE \<and> (k \<noteq> c_global_rank c \<longrightarrow> rank_is_local (e_cluster_rank E) c k \<noteq> None)"
    and "\<forall>k \<in> set ks. remote_part E c k \<longrightarrow> brings E c t count REDUCE_TAG h s k (contrib k) \<and> length (contrib k) = length buffer"
    and "merge_all fp user (op_function x) count ty (map contrib (filter (remote_part E c) ks)) recvbuf = Some res"
  shows "\<exists>s'. reduce_collect E fp user count t ty x p c (length ks) (int (length pre)) buffer recvbuf s =
    Some (Some (EMPI_SUCCESS, res), s')"
  using assms
proof (induction ks arbitrary: pre s buffer recvbuf)
  case Nil
  then show ?case by simp
next
  case (Cons k ks)
  have read: "arr_read (c_coordinators c) (int (length pre)) = Some k" using Cons.prems(1) by (simp add: arr_read_def)
  have c: "c_coordinators c = (pre @ [k]) @ ks" and d: "distinct ks" "k \<notin> set ks" using Cons.prems(1,2) by simp_all
  have next_i: "int (length pre) + 1 = int (length (pre @ [k]))" by simp
  show ?case
  proof (cases "remote_part E c k")
    case False
    then have "(if c_global_rank c \<noteq> k then rank_is_local (e_cluster_rank E) c k else Some True) = Some True"
      using Cons.prems(4) by (auto simp: remote_part_def)
    then have "reduce_collect E fp user count t ty x p c (length (k # ks)) (int (length pre)) buffer recvbuf s =
        reduce_collect E fp user count t ty x p c (length ks) (int (length (pre @ [k]))) buffer recvbuf s"
      using read by (simp add: next_i [symmetric] add.commute)
    then show ?thesis
      using Cons.IH [OF c d(1) Cons.prems(3)] Cons.prems(4-6) False by simp
  next
    case True
    then have k: "k \<noteq> c_global_rank c" "rank_is_local (e_cluster_rank E) c k = Some False" "k \<noteq> EMPI_ANY_SOURCE"
      "brings E c t count REDUCE_TAG h s k (contrib k)" "length (contrib k) = length buffer"
      using Cons.prems(4,5) by (auto simp: remote_part_def)
    from receive_brings [OF Cons.prems(3) k(4,3)] obtain s1 where
      s1: "api_do_recv E count t k REDUCE_TAG None p c s = Some (Some (EMPI_SUCCESS, Some (contrib k), None), s1)"
      "ready E s1 h p c t count"
      "\<And>j ys. j \<noteq> k \<Longrightarrow> j \<noteq> EMPI_ANY_SOURCE \<Longrightarrow> brings E c t count REDUCE_TAG h s j ys \<Longrightarrow> brings E c t count REDUCE_TAG h s1 j ys"
      by blast
    have put: "put_received buffer 0 (Some (contrib k)) = Some (contrib k)"
      using put_cells_nat [of 0 "contrib k" buffer] k(5) by (simp add: put_received_def)
    from Cons.prems(6) True obtain acc where acc: "reduce fp user (op_function x) (contrib k) recvbuf count ty = Some acc"
      "merge_all fp user (op_function x) count ty (map contrib (filter (remote_part E c) ks)) acc = Some res"
      by (auto simp: bind_eq_Some_conv)
    have "reduce_collect E fp user count t ty x p c (length (k # ks)) (int (length pre)) buffer recvbuf s =
        reduce_collect E fp user count t ty x p c (length ks) (int (length (pre @ [k]))) (contrib k) acc s1"
      using read k(1,2) put acc(1) remote_receive [OF k(2,3) s1(1)]
      by (simp add: next_i [symmetric] andthen_def add.commute)
    moreover have "\<forall>j \<in> set ks. remote_part E c j \<longrightarrow> brings E c t count REDUCE_TAG h s1 j (contrib j) \<and> length (contrib j) = length (contrib k)"
    proof (intro ballI impI)
      fix j assume j: "j \<in> set ks" "remote_part E c j"
      then have "j \<noteq> k" "j \<noteq> EMPI_ANY_SOURCE" "brings E c t count REDUCE_TAG h s j (contrib j)" "length (contrib j) = length buffer"
        using Cons.prems(4,5) d(2) by auto
      then show "brings E c t count REDUCE_TAG h s1 j (contrib j) \<and> length (contrib j) = length (contrib k)"
        using s1(3) k(5) by simp
    qed
    ultimately show ?thesis
      using Cons.IH [OF c d(1) s1(2)] Cons.prems(4) acc(2) by simp
  qed
qed

section \<open>Properties\<close>

text \<open>
  C32: A gather on a communicator that spans clusters leaves the contribution of process \<open>i\<close> at place \<open>i\<close>
  of the root's buffer, whether it comes from the root itself, over the local library or from another
  cluster, and in whatever order the messages of the other clusters have arrived; what the buffer
  holds behind them is untouched.
\<close>

theorem gather_collects:
  assumes c: "comm_at s h p c" "\<not> comm_is_local c" "c_global_rank c = root" "c_global_size c = int N"
    and t: "type_at s sty stp st" "type_at s rty rtp t"
    and room: "e_malloc E (ps_world s) = (Some a1, w1)" "e_malloc E w1 = (Some a2, w2)" "int N * int k < 2 ^ 31"
    and extent: "e_call E (Request (PMPI_Type_extent (dt_type t))) w2 = (a, w3)" "an_error a = EMPI_SUCCESS" "an_value a = int e"
    and recv: "can_receive E s h c t (int k)"
    and contrib: "\<forall>i < N. contributed E c t (int k) h s root sendbuf contrib i \<and> length (contrib i) = k * e"
    and buf: "N * (k * e) \<le> length buf"
  shows "\<exists>s'. EMPI_Gather E sendbuf sendcount sty buf (int k) rty root h s =
    Some (Some (EMPI_SUCCESS, concat (map contrib [0 ..< N]) @ drop (N * (k * e)) buf), s')"
proof -
  have "list_all int_ok (map (\<lambda>i. int i * int k) [0 ..< N])"
  proof -
    have "int i * int k < 2 ^ 31" if "i < N" for i
      using room(3) that mult_right_mono [of "int i" "int N" "int k"] by simp
    then show ?thesis by (simp add: list_all_iff int_ok_def order_trans [of _ 0])
  qed
  then have start: "EMPI_Gather E sendbuf sendcount sty buf (int k) rty root h s =
      gatherv_loop E (int e) sendbuf (replicate N (int k)) (map (\<lambda>i. int i * int k) [0 ..< N]) t root p c N 0 buf (s\<lparr>ps_world := w3\<rparr>)"
    using c(2-4) room extent
    by (simp add: EMPI_Gather_def H2C_at [OF c(1)] H2T_at [OF t(1)] H2T_at [OF t(2)] with_counts_def malloc_def WA_Gatherv_def
        pmpi_def andthen_def)
  have "ready E (s\<lparr>ps_world := w3\<rparr>) h p c t (int k)"
    unfolding contributed_world using c(1) recv by (auto simp: ready_def)
  then show ?thesis
    using gatherv_loop_collects [of N contrib k e 0 N buf E "s\<lparr>ps_world := w3\<rparr>" h p c t root sendbuf] contrib buf
    unfolding start by (simp add: contributed_world)
qed

definition ex_gather :: "(byte, nat) proc" where
  "ex_gather = ex_process [ex_probe (ex_message 0 2 7 [4]), ex_probe (ex_message 0 2 GATHERV_TAG [9])]"

theorem gather_collects_witness:
  "\<exists>s'. EMPI_Gather ex_env [1] 1 3 [0, 0, 0, 5] 1 3 0 0 ex_gather = Some (Some (EMPI_SUCCESS, [1, 101, 9, 5]), s')"
proof -
  have c: "comm_at ex_gather 0 10 ex_world" "\<not> comm_is_local ex_world" "c_global_rank ex_world = 0" "c_global_size ex_world = int 3"
    by (simp_all add: comm_at_def ex_gather_def ex_comms_ok ex_comms_slots(1) ex_world_slot ex_world_places)
  have t: "type_at ex_gather 3 20 ex_type"
    by (simp add: type_at_def ex_gather_def dt_ok_def reg_inv_def MAX_DATATYPES_def ex_type_def)
  have b: "proc_backlog ex_gather 0 = [ex_message 0 2 7 [4], ex_message 0 2 GATHERV_TAG [9]]"
    by (simp add: proc_backlog_def ex_gather_def backlog_def ex_probe_def ex_comms_slots)
  have recv: "can_receive ex_env ex_gather 0 ex_world ex_type (int 1)"
    using b by (simp add: can_receive_def ex_gather_def ex_message_sound good_probe_def ex_probe_def ex_comms_slots proc_backlog_def)
  let ?contrib = "\<lambda>i. [[1], [101], [9 :: byte]] ! i"
  have contrib: "\<forall>i < 3. contributed ex_env ex_world ex_type (int 1) 0 ex_gather 0 [1] ?contrib i \<and> length (?contrib i) = 1 * 1"
    by (simp add: All_less_Suc2 numeral_3_eq_3 contributed_def brings_def ex_world_places b received_data_def ex_answer_def
        GATHERV_TAG_def MAX_TAG_def)
  show ?thesis
    using gather_collects [OF c t t, of ex_env 50 51 51 52 1 "ex_answer [] 1" 52 1 "[1]" ?contrib "[0, 0, 0, 5]" 1] recv contrib
    by (simp add: ex_gather_def ex_answer_def upt_rec)
qed

text \<open>
  C33: The root of a reduction over clusters ends up with the result of its own cluster, merged with the
  result of every other cluster in the order of their coordinators, however the messages that hold them
  have arrived; the merging is \<^verbatim>\<open>reduce\<close> with the operation's function.
\<close>

theorem reduce_merges_clusters:
  fixes E :: "('f elem, 'w) env" and h ty oper :: int
  assumes c: "comm_at s h p c" "\<not> comm_is_local c" "c_global_rank c = root" "c_cluster_count c = int (length (c_coordinators c))"
    and t: "type_at s ty tp t" and x: "op_at s oper xp x"
    and place: "rank_is_local (e_cluster_rank E) c root = Some True" "get_local_rank c root = Some l"
    and extent: "e_call E (Request (PMPI_Type_extent (dt_type t))) (ps_world s) = (a, w1)" "an_error a = EMPI_SUCCESS"
      "count * an_value a = int (length own)"
    and room: "e_block E (count * an_value a) w1 = (Some block, w2)" "length block = length own"
    and own: "e_call E (Reduction (PMPI_Reduce sendbuf count (dt_type t) (op_op x) l (c_comm c))) w2 = (b, w3)"
      "an_error b = EMPI_SUCCESS" "an_data b = own" "length own \<le> length recvbuf"
    and recv: "can_receive E s h c t count" "distinct (c_coordinators c)"
      "\<forall>k \<in> set (c_coordinators c). k \<noteq> EMPI_ANY_SOURCE \<and> (k \<noteq> c_global_rank c \<longrightarrow> rank_is_local (e_cluster_rank E) c k \<noteq> None)"
      "\<forall>k \<in> set (c_coordinators c). remote_part E c k \<longrightarrow>
         brings E c t count REDUCE_TAG h s k (contrib k) \<and> length (contrib k) = length own"
    and merge: "merge_all fp user (op_function x) count ty (map contrib (filter (remote_part E c) (c_coordinators c)))
      (filled own recvbuf) = Some res"
  shows "\<exists>s'. EMPI_Reduce E fp user sendbuf recvbuf count ty oper root h s = Some (Some (EMPI_SUCCESS, res), s')"
proof -
  have put: "put_cells block 0 own = Some own" "put_cells recvbuf 0 own = Some (filled own recvbuf)"
    using put_cells_nat [of 0 own block] put_cells_nat [of 0 own recvbuf] room(2) own(4) by (simp_all add: filled_def)
  have get: "get_cells own 0 (int (length own)) = Some own" using get_cells_nat [of 0 "length own" own] by simp
  have "EMPI_Reduce E fp user sendbuf recvbuf count ty oper root h s =
      reduce_collect E fp user count t ty x p c (length (c_coordinators c)) 0 own (filled own recvbuf) (s\<lparr>ps_world := w3\<rparr>)"
    using c(2-4) place extent room(1) own(1-3) put get
    by (simp add: EMPI_Reduce_def H2C_at [OF c(1)] H2T_at [OF t] H2O_at [OF x] local_call_def malloc_cells_def pmpi_def andthen_def)
  moreover have "ready E (s\<lparr>ps_world := w3\<rparr>) h p c t count"
    unfolding contributed_world using c(1) recv(1) by (auto simp: ready_def)
  ultimately show ?thesis
    using reduce_collect_merges [of c "[]" "c_coordinators c" E "s\<lparr>ps_world := w3\<rparr>" h p t count contrib own fp user x ty
      "filled own recvbuf" res] recv(2-4) merge
    by (simp add: brings_world)
qed

text \<open>Process 0 of the two clusters; its own cluster's sums are 5 and 6, and those of the other one are 3 and 4.\<close>

definition ex_reduce_answer :: "int elem list \<Rightarrow> int \<Rightarrow> int elem answer" where
  "ex_reduce_answer data k = \<lparr>an_error = 0, an_data = data, an_status = \<lparr>ms_source = 0, ms_tag = 0, ms_error = 0\<rparr>,
     an_flag = True, an_value = k, an_values = [], an_name = [], an_handle = None, an_type = Predef ''MPI_INT''\<rparr>"

fun ex_reduce_call :: "int elem pmpi \<Rightarrow> unit \<Rightarrow> int elem answer \<times> unit" where
  "ex_reduce_call (Reduction (PMPI_Reduce xs n t op l c)) w = (ex_reduce_answer [S (SI 5), S (SI 6)] 0, w)"
| "ex_reduce_call call w = (ex_reduce_answer [] 1, w)"

definition ex_reduce_env :: "(int elem, unit) env" where
  "ex_reduce_env = \<lparr>e_ef = False, e_le = True, e_my_pid = SET_PID 0 0, e_my_gateway = 0, e_cluster_rank = 0,
     e_cluster_count = 2, e_ANY_TAG = -11, e_ANY_SOURCE = -12, e_UNDEFINED = -13, e_junk = None, e_junk_int = 0,
     e_call = ex_reduce_call,
     e_pack = (\<lambda>xs n t c w. (\<lambda>i. \<lparr>mp_size_error = 0, mp_alloc = True, mp_pack_error = 0, mp_data = [], mp_send_error = 0\<rparr>, w)),
     e_unpack = (\<lambda>bs n t c. (0, map (\<lambda>b. S (SI (uint b))) bs)), e_malloc = (\<lambda>w. (Some 50, w)),
     e_block = (\<lambda>n w. (Some (replicate (nat n) (S (SI 0))), w)),
     e_server = (\<lambda>w. ((0, \<lambda>_. True, \<lparr>rv_probe_error = 0, rv_count_error = 0, rv_alloc = True, rv_nomem = 16,
       rv_error = 0, rv_data = []\<rparr>), w)),
     e_group = (\<lambda>w. ((True, \<lparr>ga_new = Some 50, ga_members_ok = True, ga_junk = ex_junk, ga_fill = \<lambda>_. 0\<rparr>), w)),
     e_byte = []\<rparr>"

definition ex_reduce :: "(int elem, unit) proc" where
  "ex_reduce = \<lparr>ps_comms = ex_comms, ps_types = \<lparr>heap = [20 \<mapsto> ex_type], slots = [3 \<mapsto> 20]\<rparr>,
     ps_ops = \<lparr>heap = [30 \<mapsto> \<lparr>op_handle = 3, op_function = EMPI_REDUCE_SUM, op_commute = 1, op_op = Predef ''MPI_SUM''\<rparr>],
       slots = [3 \<mapsto> 30], next_operation = 4\<rparr>, ps_groups = \<lparr>heap = \<lambda>_. None, slots = \<lambda>_. None, next_group = 0\<rparr>,
     ps_requests = empty_reg, ps_files = \<lparr>heap = \<lambda>_. None, slots = \<lambda>_. None, next_file = 0\<rparr>,
     ps_infos = \<lparr>heap = \<lambda>_. None, slots = \<lambda>_. None, next_info = 0\<rparr>, ps_memory = \<lambda>_. None,
     ps_arrivals = [ex_probe (ex_message 0 2 7 [9]), ex_probe (ex_message 0 2 REDUCE_TAG [3, 4])],
     ps_sent = [], ps_requested = [], ps_world = ()\<rparr>"

lemma ex_reduce_fields [simp]:
  "e_cluster_rank ex_reduce_env = 0" "e_call ex_reduce_env = ex_reduce_call"
  "e_unpack ex_reduce_env bs n ty comm = (0, map (\<lambda>b. S (SI (uint b))) bs)"
  "e_block ex_reduce_env k w = (Some (replicate (nat k) (S (SI 0))), w)"
  "an_error (ex_reduce_answer data k) = 0" "an_data (ex_reduce_answer data k) = data" "an_value (ex_reduce_answer data k) = k"
  by (simp_all add: ex_reduce_env_def ex_reduce_answer_def)

theorem reduce_merges_clusters_witness:
  "\<exists>s'. EMPI_Reduce ex_reduce_env ex_floats (\<lambda>_ _ _ _ _. None) [S (SI 1), S (SI 1)] [S (SI 0), S (SI 0)] 2 3 3 0 0 ex_reduce =
     Some (Some (EMPI_SUCCESS, [S (SI 8), S (SI 10)]), s')"
proof -
  let ?op = "\<lparr>op_handle = 3, op_function = EMPI_REDUCE_SUM, op_commute = 1, op_op = Predef ''MPI_SUM''\<rparr>"
  have c: "comm_at ex_reduce 0 10 ex_world" "\<not> comm_is_local ex_world" "c_global_rank ex_world = 0"
    "c_cluster_count ex_world = int (length (c_coordinators ex_world))"
    by (simp_all add: comm_at_def ex_reduce_def ex_comms_ok ex_comms_slots(1) ex_world_slot ex_world_places) code_simp
  have t: "type_at ex_reduce 3 20 ex_type"
    by (simp add: type_at_def ex_reduce_def dt_ok_def reg_inv_def MAX_DATATYPES_def ex_type_def)
  have x: "op_at ex_reduce 3 30 ?op"
    by (simp add: op_at_def ex_reduce_def op_ok_def reg_inv_def MAX_OPERATIONS_def)
  have place: "rank_is_local (e_cluster_rank ex_reduce_env) ex_world 0 = Some True" "get_local_rank ex_world 0 = Some 0"
    "c_coordinators ex_world = [0, 2]"
    by code_simp+
  have b: "proc_backlog ex_reduce 0 = [ex_message 0 2 7 [9], ex_message 0 2 REDUCE_TAG [3, 4]]"
    by (simp add: proc_backlog_def ex_reduce_def backlog_def ex_probe_def ex_comms_slots)
  have recv: "can_receive ex_reduce_env ex_reduce 0 ex_world ex_type 2"
    using b by (simp add: can_receive_def ex_reduce_def ex_message_sound good_probe_def ex_probe_def
        ex_comms_slots proc_backlog_def)
  have brings: "brings ex_reduce_env ex_world ex_type 2 REDUCE_TAG 0 ex_reduce 2 [S (SI 3), S (SI 4)]"
    by (simp add: brings_def ex_world_places b received_data_def REDUCE_TAG_def MAX_TAG_def)
  have remote: "remote_part ex_reduce_env ex_world 2" "\<not> remote_part ex_reduce_env ex_world 0"
    by (simp_all add: remote_part_def ex_world_places)
  have merged: "reduce ex_floats (\<lambda>_ _ _ _ _. None) EMPI_REDUCE_SUM [S (SI 3), S (SI 4)] [S (SI 5), S (SI 6)] 2 3 =
     Some [S (SI 8), S (SI 10)]"
    by code_simp
  show ?thesis
    by (rule reduce_merges_clusters [OF c t x place(1,2), where own = "[S (SI 5), S (SI 6)]" and
          contrib = "\<lambda>_. [S (SI 3), S (SI 4)]" and block = "[S (SI 0), S (SI 0)]" and
          a = "ex_reduce_answer [] 1" and b = "ex_reduce_answer [S (SI 5), S (SI 6)] 0"])
      (auto simp: place recv brings remote merged filled_def ex_world_places numeral_2_eq_2 intro: exI [where x = False])
qed

end
