(* ===== verification/Communicator_Properties.thy ===== *)
theory Communicator_Properties
  imports Api_Properties
begin

text \<open>
  The composition of \<^verbatim>\<open>EMPI_Comm_split\<close> with the messages of the server and the registry of
  communicators: the new communicator is the one the server has decided on.
\<close>

text \<open>
  C34: A split of a communicator sends one request with the caller's color and key to the server and
  registers, under the handle that the server chose, a communicator with the rank, the size, the members
  and the clusters of the server's reply, with the local part that the local library made, and with the
  coordinator of the own cluster; every other handle keeps its meaning.
\<close>

theorem comm_split_as_server_decides:
  fixes color key h :: int
  assumes c: "comm_at s h p c"
    and server: "e_server E (ps_world s) = ((0, \<lambda>_. True, rv), w1)" "recv_ok rv" "rv_data rv = SplitReply_write dst x"
      "arrays_fit (cr_cluster_count x) (cr_size x) (cr_arrays x)"
      "\<forall>k \<in> {cr_newComm x, cr_rank x, cr_size x, cr_color x, cr_key x, cr_cluster_count x, cr_flags x}. int_ok k"
    and color: "color \<noteq> e_UNDEFINED E" "0 \<le> cr_color x"
    and split: "e_call E (Comm (PMPI_Comm_split (c_comm c) (cr_color x) (cr_key x))) w1 = (a, w2)" "an_error a = EMPI_SUCCESS"
      "an_handle a = Some g"
    and rank: "e_call E (Comm (PMPI_Comm_rank (Some g))) w2 = (b, w3)" "an_error b = EMPI_SUCCESS"
    and sz: "e_call E (Comm (PMPI_Comm_size (Some g))) w3 = (d, w4)" "an_error d = EMPI_SUCCESS"
    and new: "e_malloc E w4 = (Some q, w5)" "fresh (ps_comms s) (Some q)"
    and free: "3 \<le> cr_newComm x" "cr_newComm x < MAX_COMMUNICATORS" "slots (ps_comms s) (cr_newComm x) = None"
    and coord: "j < length (ra_cluster_ranks (cr_arrays x))" "word_of_int (ra_cluster_ranks (cr_arrays x) ! j) = e_cluster_rank E"
      "\<forall>i < length (ra_cluster_ranks (cr_arrays x)). i \<noteq> j \<longrightarrow> word_of_int (ra_cluster_ranks (cr_arrays x) ! i) \<noteq> e_cluster_rank E"
  shows "\<exists>s' y. EMPI_Comm_split E h color key s = Some (Some (EMPI_SUCCESS, Some (cr_newComm x)), s') \<and>
    ps_requested s' = ps_requested s @ [net_bytes [OPCODE_SPLIT, e_my_pid E, server_pid, 32, word_of_int (c_handle c),
      word_of_int (c_global_rank c), word_of_int color, word_of_int key]] \<and>
    comm_at s' (cr_newComm x) q y \<and> c_members y = ra_members (cr_arrays x) \<and> c_global_rank y = cr_rank x \<and>
    c_global_size y = cr_size x \<and> c_cluster_ranks y = ra_cluster_ranks (cr_arrays x) \<and> c_comm y = Some g \<and>
    c_local_rank y = an_value b \<and> c_local_size y = an_value d \<and> c_queue y = [] \<and>
    c_my_coordinator y = ra_coordinators (cr_arrays x) ! j \<and>
    (\<forall>k. k \<noteq> cr_newComm x \<longrightarrow> slots (ps_comms s') k = slots (ps_comms s) k)"
proof -
  let ?r = "cr_arrays x"
  define y where "y = \<lparr>c_handle = cr_newComm x, c_flags = word_of_int (cr_flags x), c_comm = Some g, c_local_rank = an_value b,
     c_local_size = an_value d, c_global_rank = cr_rank x, c_global_size = cr_size x,
     c_my_coordinator = ra_coordinators ?r ! j, c_coordinators = ra_coordinators ?r, c_cluster_count = cr_cluster_count x,
     c_cluster_ranks = ra_cluster_ranks ?r, c_cluster_sizes = ra_cluster_sizes ?r,
     c_members = ra_members ?r, c_member_cluster_index = ra_member_cluster_index ?r,
     c_local_ranks = ra_local_ranks ?r, c_queue = []\<rparr>"
  let ?r1 = "(ps_comms s)\<lparr>heap := (heap (ps_comms s))(q \<mapsto> y), slots := (slots (ps_comms s))(cr_newComm x \<mapsto> q)\<rparr>"
  have len: "int (length (ra_cluster_ranks ?r)) = cr_cluster_count x" "length (ra_coordinators ?r) = length (ra_cluster_ranks ?r)"
    using server(4) by (simp_all add: arrays_fit_def)
  have find: "find_coordinator (e_cluster_rank E) (ra_cluster_ranks ?r) (ra_coordinators ?r) (nat (cr_cluster_count x)) 0 (e_junk_int E) =
      Some (ra_coordinators ?r ! j)"
  proof -
    have "length (ra_cluster_ranks ?r) = 0 + nat (cr_cluster_count x)" "length (ra_coordinators ?r) = 0 + nat (cr_cluster_count x)"
      "j < 0 + nat (cr_cluster_count x)"
      using len coord(1) by simp_all
    then show ?thesis
      using find_coordinator_unique [of "ra_cluster_ranks ?r" 0 "nat (cr_cluster_count x)" "ra_coordinators ?r" j
          "e_cluster_rank E" "e_junk_int E"] coord(2,3) by auto
  qed
  have create: "create_communicator (e_ef E) (e_cluster_rank E) (Some q) (e_junk_int E) (cr_newComm x) (y\<lparr>c_my_coordinator := 0\<rparr>) (ps_comms s) =
      Some (EMPI_SUCCESS, Some q, ?r1)"
    unfolding create_communicator_def add_communicator_success
  proof (intro conjI exI)
    have "0 < cr_cluster_count x" using coord(1) len(1) by linarith
    then show "(if c_cluster_count (y\<lparr>c_my_coordinator := 0\<rparr>) > 0 then find_coordinator (e_cluster_rank E)
        (c_cluster_ranks (y\<lparr>c_my_coordinator := 0\<rparr>)) (c_coordinators (y\<lparr>c_my_coordinator := 0\<rparr>))
        (nat (c_cluster_count (y\<lparr>c_my_coordinator := 0\<rparr>))) 0 (e_junk_int E) else Some 0) = Some (ra_coordinators ?r ! j)"
      using find by (simp add: y_def)
    have "y\<lparr>c_my_coordinator := 0, c_handle := cr_newComm x, c_my_coordinator := ra_coordinators ?r ! j, c_queue := []\<rparr> = y"
      by (simp add: y_def)
    then show "?r1 = (ps_comms s)\<lparr>heap := (heap (ps_comms s))(q \<mapsto> y\<lparr>c_my_coordinator := 0, c_handle := cr_newComm x,
        c_my_coordinator := ra_coordinators ?r ! j, c_queue := []\<rparr>), slots := (slots (ps_comms s))(cr_newComm x \<mapsto> q)\<rparr>"
      by simp
  qed (use free in simp_all)
  have ok: "comm_ok ?r1"
    using c new(2) create unfolding comm_at_def create_communicator_def by (blast intro: comm_ok_add)
  let ?s = "s\<lparr>ps_world := w5, ps_requested := ps_requested s @ [net_bytes [OPCODE_SPLIT, e_my_pid E, server_pid, 32,
      word_of_int (c_handle c), word_of_int (c_global_rank c), word_of_int color, word_of_int key]], ps_comms := ?r1\<rparr>"
  have "EMPI_Comm_split E h color key s = Some (Some (EMPI_SUCCESS, Some (cr_newComm x)), ?s)"
    using color server(1) split_reply_roundtrip [OF server(2-5), of "e_ef E" "e_le E"] split rank sz new(1) create
    by (simp add: EMPI_Comm_split_def H2C_at [OF c] server_call_def split_request_bytes requested_def comm_from_reply_def
        register_communicator_def pmpi_def malloc_def andthen_def y_def)
  moreover have "comm_at ?s (cr_newComm x) q y" using ok by (simp add: comm_at_def)
  ultimately show ?thesis
    by (intro exI [where x = ?s] exI [where x = y]) (simp add: y_def)
qed

theorem comm_split_as_server_decides_witness:
  "\<exists>s' y. EMPI_Comm_split ex_env 0 1 4 (ex_process []) = Some (Some (EMPI_SUCCESS, Some 3), s') \<and> comm_at s' 3 50 y \<and>
     c_members y = [0, 33554432] \<and> c_global_size y = 2 \<and> c_my_coordinator y = 0 \<and> slots (ps_comms s') 1 = Some 11"
proof -
  have c: "comm_at (ex_process []) 0 10 ex_world"
    by (simp add: comm_at_def ex_comms_ok ex_comms_slots(1) ex_world_slot)
  have rv: "e_server ex_env (ps_world (ex_process [])) = ((0, \<lambda>_. True, ex_recv (SplitReply_write 0 ex_split_reply)), 50)"
    "recv_ok (ex_recv (SplitReply_write 0 ex_split_reply))"
    "rv_data (ex_recv (SplitReply_write 0 ex_split_reply)) = SplitReply_write 0 ex_split_reply"
    "arrays_fit (cr_cluster_count ex_split_reply) (cr_size ex_split_reply) (cr_arrays ex_split_reply)"
    "\<forall>k \<in> {cr_newComm ex_split_reply, cr_rank ex_split_reply, cr_size ex_split_reply, cr_color ex_split_reply,
       cr_key ex_split_reply, cr_cluster_count ex_split_reply, cr_flags ex_split_reply}. int_ok k"
    by (simp_all add: ex_split_reply_def ex_arrays_fit int_ok_def)
  have call: "e_call ex_env (Comm k) w = (ex_answer [] 1, w)" for k w by simp
  have slots: "slots ex_comms 3 = None" "heap ex_comms 50 = None" by (simp_all add: ex_comms_def world_regs_def)
  show ?thesis
    using comm_split_as_server_decides [where color = 1 and key = 4 and g = 6 and q = 50 and ?w5.0 = 51 and j = 0,
        OF c rv _ _ call _ _ call _ call]
    by (fastforce simp: ex_answer_def ex_split_reply_def ex_arrays_def fresh_def slots ex_comms_slots MAX_COMMUNICATORS_def less_2_cases_iff)
qed

end
