(* ===== verification/Profiling.thy ===== *)
theory Profiling
  imports Acts
begin

text \<open>
  The statistics of \<^verbatim>\<open>src/shared/profiling.c\<close>: for each profile (the handle of a communicator) how often
  and for how many ticks each kind of call was made, in the current interval and in total. The
  clock is an argument, and what is printed is a result.
\<close>

definition MAX_PROFILES :: nat where [const_defs]: "MAX_PROFILES = 1024"
definition FIELDS_PER_PROFILE :: nat where [const_defs]: "FIELDS_PER_PROFILE = 33"

section \<open>The state\<close>

text \<open>The static arrays of pointers hold, for each profile, a null pointer or an array.\<close>

record profiling =
  statistic_names :: "string list"
  total_use :: "nat \<Rightarrow> u32 list option"
  total_ticks :: "nat \<Rightarrow> u64 list option"
  current_use :: "nat \<Rightarrow> u32 list option"
  current_ticks :: "nat \<Rightarrow> u64 list option"
  running :: u32
  start_ticks :: u64
  current_start_ticks :: u64
  current_interval :: u32

definition profile_init :: "string list \<Rightarrow> u64 \<Rightarrow> profiling \<Rightarrow> profiling" where
  "profile_init field_names now p =
     p\<lparr>statistic_names := field_names,
       total_use := \<lambda>i. if i < MAX_PROFILES then None else total_use p i,
       total_ticks := \<lambda>i. if i < MAX_PROFILES then None else total_ticks p i,
       current_use := \<lambda>i. if i < MAX_PROFILES then None else current_use p i,
       current_ticks := \<lambda>i. if i < MAX_PROFILES then None else current_ticks p i,
       running := 1, current_interval := 0, start_ticks := now, current_start_ticks := now\<rparr>"

section \<open>Adding to the statistics\<close>

text \<open>
  The arrays of a profile are allocated with its first entry, one after the other; \<open>ok k\<close>: the \<open>k\<close>th
  \<^verbatim>\<open>calloc\<close> succeeds. The result tells whether the function goes on.
\<close>

definition fresh_fields :: "('a::zero) list" where
  "fresh_fields = replicate (FIELDS_PER_PROFILE + 1) 0"

definition allocate_profile :: "bool \<Rightarrow> (nat \<Rightarrow> bool) \<Rightarrow> nat \<Rightarrow> profiling \<Rightarrow> (bool \<times> profiling) run" where
  "allocate_profile ef ok index p =
     (if \<not> ok 1 then ERROR ef (Some (False, p))
      else let p = p\<lparr>current_ticks := (current_ticks p)(index := Some fresh_fields)\<rparr> in
      if \<not> ok 2 then ERROR ef (Some (False, p))
      else let p = p\<lparr>current_use := (current_use p)(index := Some fresh_fields)\<rparr> in
      if \<not> ok 3 then ERROR ef (Some (False, p))
      else let p = p\<lparr>total_ticks := (total_ticks p)(index := Some fresh_fields)\<rparr> in
      if \<not> ok 4 then ERROR ef (Some (False, p))
      else Some (True, p\<lparr>total_use := (total_use p)(index := Some fresh_fields)\<rparr>))"

definition add_at :: "('a::plus) list \<Rightarrow> int \<Rightarrow> 'a \<Rightarrow> 'a list run" where
  "add_at xs i d = do { x \<leftarrow> arr_read xs i; arr_write xs i (x + d) }"

definition profile_add_statistics :: "bool \<Rightarrow> (nat \<Rightarrow> bool) \<Rightarrow> int \<Rightarrow> int \<Rightarrow> u64 \<Rightarrow> profiling \<Rightarrow> profiling run" where
  "profile_add_statistics ef ok profile field ticks p =
     (if running p \<noteq> 1 then Some p
      else if profile < 0 \<or> profile \<ge> int MAX_PROFILES then ERROR ef (Some p)
      else if field < 0 \<or> field \<ge> int FIELDS_PER_PROFILE then ERROR ef (Some p)
      else let index = nat profile in do {
        (go_on, p) \<leftarrow> (if current_ticks p index = None then allocate_profile ef ok index p else Some (True, p));
        if \<not> go_on then Some p
        else do {
          ts \<leftarrow> current_ticks p index;
          ts \<leftarrow> add_at ts field ticks;
          ts \<leftarrow> add_at ts (int FIELDS_PER_PROFILE) ticks;
          us \<leftarrow> current_use p index;
          us \<leftarrow> add_at us field 1;
          us \<leftarrow> add_at us (int FIELDS_PER_PROFILE) 1;
          Some (p\<lparr>current_ticks := (current_ticks p)(index \<mapsto> ts), current_use := (current_use p)(index \<mapsto> us)\<rparr>)
        }
      })"

section \<open>Printing\<close>

text \<open>A row: the profile, and name, ticks and use of each of its fields.\<close>

type_synonym row = "nat \<times> (string \<times> u64 \<times> u32) list"

text \<open>The loop over the fields of one profile that adds the current arrays to the totals, from index \<open>j\<close> on.\<close>

fun add_fields :: "('a::plus) list \<Rightarrow> nat \<Rightarrow> nat \<Rightarrow> 'a list \<Rightarrow> 'a list run" where
  "add_fields cur 0 j tot = Some tot"
| "add_fields cur (Suc n) j tot = do {
     x \<leftarrow> arr_read cur (int j);
     tot \<leftarrow> add_at tot (int j) x;
     add_fields cur n (j + 1) tot
   }"

definition print_fields :: "string list \<Rightarrow> u64 list \<Rightarrow> u32 list \<Rightarrow> (string \<times> u64 \<times> u32) list run" where
  "print_fields names ts us =
     (if length names < FIELDS_PER_PROFILE + 1 \<or> length ts < FIELDS_PER_PROFILE + 1 \<or> length us < FIELDS_PER_PROFILE + 1 then None
      else Some (map (\<lambda>j. (names ! j, ts ! j, us ! j)) [0 ..< FIELDS_PER_PROFILE + 1]))"

text \<open>The totals of profile \<open>i\<close> with its current interval added.\<close>

definition add_current :: "nat \<Rightarrow> profiling \<Rightarrow> profiling run" where
  "add_current i p = do {
     ct \<leftarrow> current_ticks p i;
     tt \<leftarrow> total_ticks p i;
     tt \<leftarrow> add_fields ct (FIELDS_PER_PROFILE + 1) 0 tt;
     cu \<leftarrow> current_use p i;
     tu \<leftarrow> total_use p i;
     tu \<leftarrow> add_fields cu (FIELDS_PER_PROFILE + 1) 0 tu;
     Some (p\<lparr>total_ticks := (total_ticks p)(i \<mapsto> tt), total_use := (total_use p)(i \<mapsto> tu)\<rparr>)
   }"

text \<open>One turn of the loop in \<open>print_and_reset_current_interval\<close>, and of the one in \<open>profile_finalize\<close>.\<close>

definition reset_fields :: "('a::zero) list \<Rightarrow> 'a list" where
  "reset_fields xs = replicate (FIELDS_PER_PROFILE + 1) 0 @ drop (FIELDS_PER_PROFILE + 1) xs"

definition print_and_reset_profile :: "nat \<Rightarrow> profiling \<Rightarrow> ((row \<times> u64 \<times> u32) \<times> profiling) run" where
  "print_and_reset_profile i p = do {
     p \<leftarrow> add_current i p;
     ct \<leftarrow> current_ticks p i;
     cu \<leftarrow> current_use p i;
     cols \<leftarrow> print_fields (statistic_names p) ct cu;
     t \<leftarrow> arr_read ct (int FIELDS_PER_PROFILE);
     u \<leftarrow> arr_read cu (int FIELDS_PER_PROFILE);
     Some (((i, cols), t, u),
       p\<lparr>current_ticks := (current_ticks p)(i \<mapsto> reset_fields ct),
         current_use := (current_use p)(i \<mapsto> reset_fields cu)\<rparr>)
   }"

definition print_total_profile :: "nat \<Rightarrow> profiling \<Rightarrow> ((row \<times> u64 \<times> u32) \<times> profiling) run" where
  "print_total_profile i p = do {
     p \<leftarrow> add_current i p;
     tt \<leftarrow> total_ticks p i;
     tu \<leftarrow> total_use p i;
     cols \<leftarrow> print_fields (statistic_names p) tt tu;
     t \<leftarrow> arr_read tt (int FIELDS_PER_PROFILE);
     u \<leftarrow> arr_read tu (int FIELDS_PER_PROFILE);
     Some (((i, cols), t, u), p)
   }"

text \<open>The loop over the profiles; the result: the rows, and the sums of ticks and use.\<close>

fun print_profiles ::
  "(nat \<Rightarrow> profiling \<Rightarrow> ((row \<times> u64 \<times> u32) \<times> profiling) run) \<Rightarrow> nat list \<Rightarrow> u64 \<Rightarrow> u32 \<Rightarrow> profiling
    \<Rightarrow> ((row list \<times> u64 \<times> u32) \<times> profiling) run" where
  "print_profiles body [] ticks use p = Some (([], ticks, use), p)"
| "print_profiles body (i # is) ticks use p =
     (if current_ticks p i = None then print_profiles body is ticks use p
      else do {
        ((r, t, u), p) \<leftarrow> body i p;
        ((rows, ticks, use), p) \<leftarrow> print_profiles body is (ticks + t) (use + u) p;
        Some ((r # rows, ticks, use), p)
      })"

text \<open>What a report shows: the interval, the rows, the ticks between two readings of the clock, and the sums.\<close>

record report =
  rp_interval :: u32
  rp_rows :: "row list"
  rp_elapsed :: u64
  rp_ticks :: u64
  rp_use :: u32

definition print_and_reset_current_interval :: "u64 \<Rightarrow> u64 \<Rightarrow> profiling \<Rightarrow> (report \<times> profiling) run" where
  "print_and_reset_current_interval current later p = do {
     ((rows, ticks, use), p) \<leftarrow> print_profiles print_and_reset_profile [0 ..< MAX_PROFILES] 0 0 p;
     Some (\<lparr>rp_interval = current_interval p, rp_rows = rows, rp_elapsed = current - current_start_ticks p,
             rp_ticks = ticks, rp_use = use\<rparr>,
           p\<lparr>current_interval := current_interval p + 1, current_start_ticks := later\<rparr>)
   }"

text \<open>No report: the profiling is not running.\<close>

definition profile_finalize :: "u64 \<Rightarrow> profiling \<Rightarrow> (report option \<times> profiling) run" where
  "profile_finalize end_ticks p =
     (if running p \<noteq> 1 then Some (None, p)
      else do {
        ((rows, ticks, use), p) \<leftarrow> print_profiles print_total_profile [0 ..< MAX_PROFILES] 0 0 p;
        Some (Some \<lparr>rp_interval = current_interval p, rp_rows = rows, rp_elapsed = end_ticks - start_ticks p,
             rp_ticks = ticks, rp_use = use\<rparr>, p)
      })"

definition dump_profile_info :: "u64 \<Rightarrow> u64 \<Rightarrow> profiling \<Rightarrow> (report option \<times> profiling) run" where
  "dump_profile_info current later p =
     (if running p \<noteq> 1 then Some (None, p)
      else do { (r, p) \<leftarrow> print_and_reset_current_interval current later p; Some (Some r, p) })"

text \<open>The eight timers for Fortran; the result of stopping one is what is printed.\<close>

definition jason_start_timer :: "nat \<Rightarrow> u64 \<Rightarrow> (nat \<Rightarrow> u64) \<Rightarrow> nat \<Rightarrow> u64" where
  "jason_start_timer k now timers = timers(k := now)"

definition jason_stop_timer :: "nat \<Rightarrow> u64 \<Rightarrow> (nat \<Rightarrow> u64) \<Rightarrow> u64" where
  "jason_stop_timer k now timers = now - timers k"

section \<open>What the arrays hold\<close>

text \<open>A recorded call: profile, field and ticks. The last field of a profile sums up all others.\<close>

type_synonym timed_call = "nat \<times> nat \<times> u64"

definition counted :: "nat \<Rightarrow> nat \<Rightarrow> timed_call \<Rightarrow> bool" where
  "counted i j c \<longleftrightarrow> fst c = i \<and> (fst (snd c) = j \<or> j = FIELDS_PER_PROFILE)"

definition ticks_of :: "timed_call list \<Rightarrow> nat \<Rightarrow> nat \<Rightarrow> u64" where
  "ticks_of cs i j = sum_list (map (snd \<circ> snd) (filter (counted i j) cs))"

definition use_of :: "timed_call list \<Rightarrow> nat \<Rightarrow> nat \<Rightarrow> u32" where
  "use_of cs i j = word_of_nat (length (filter (counted i j) cs))"

definition timed :: "timed_call list \<Rightarrow> nat \<Rightarrow> bool" where
  "timed cs i \<longleftrightarrow> (\<exists>c \<in> set cs. fst c = i)"

lemma counts_append:
  "ticks_of (cs @ ds) i j = ticks_of cs i j + ticks_of ds i j" "use_of (cs @ ds) i j = use_of cs i j + use_of ds i j"
  "timed (cs @ ds) i \<longleftrightarrow> timed cs i \<or> timed ds i"
  by (auto simp: ticks_of_def use_of_def timed_def)

lemma counts_simps [simp]: "ticks_of [] i j = 0" "use_of [] i j = 0" "\<not> timed [] i" "timed [c] i \<longleftrightarrow> fst c = i"
  by (simp_all add: ticks_of_def use_of_def timed_def)

lemma nothing_counted: "ticks_of [] i = (\<lambda>j. 0)" "use_of [] i = (\<lambda>j. 0)"
  by (simp_all add: fun_eq_iff)

lemma counts_none: "\<not> timed cs i \<Longrightarrow> ticks_of cs i j = 0 \<and> use_of cs i j = 0"
  by (induction cs) (auto simp: ticks_of_def use_of_def timed_def counted_def)

definition fields :: "(nat \<Rightarrow> 'a) \<Rightarrow> 'a list" where
  "fields f = map f [0 ..< FIELDS_PER_PROFILE + 1]"

text \<open>The arrays of profile \<open>i\<close> hold these totals and these values for the current interval.\<close>

definition holds :: "profiling \<Rightarrow> nat \<Rightarrow> timed_call list \<Rightarrow> timed_call list \<Rightarrow> bool" where
  "holds p i tot cur \<longleftrightarrow>
     total_ticks p i = Some (fields (ticks_of tot i)) \<and> total_use p i = Some (fields (use_of tot i)) \<and>
     current_ticks p i = Some (fields (ticks_of cur i)) \<and> current_use p i = Some (fields (use_of cur i))"

definition absent :: "profiling \<Rightarrow> nat \<Rightarrow> bool" where
  "absent p i \<longleftrightarrow> total_ticks p i = None \<and> total_use p i = None \<and> current_ticks p i = None \<and> current_use p i = None"

definition records :: "profiling \<Rightarrow> timed_call list \<Rightarrow> timed_call list \<Rightarrow> bool" where
  "records p old new \<longleftrightarrow> running p = 1 \<and>
     (\<forall>i < MAX_PROFILES. if timed (old @ new) i then holds p i old new else absent p i)"

lemma fields_simps [simp]:
  "length (fields f) = FIELDS_PER_PROFILE + 1" "j \<le> FIELDS_PER_PROFILE \<Longrightarrow> fields f ! j = f j"
  "fields (\<lambda>j. 0) = fresh_fields"
  by (simp_all add: fields_def fresh_fields_def map_replicate_const del: upt_Suc)

lemma records_init: "records (profile_init names now p) [] []"
  by (simp add: records_def profile_init_def absent_def)

section \<open>Adding\<close>

lemma add_at_fields:
  "j \<le> FIELDS_PER_PROFILE \<Longrightarrow> add_at (fields f) (int j) d = Some (fields (f(j := f j + d)))"
  by (simp add: add_at_def arr_read_def arr_write_def)
    (rule nth_equalityI, simp_all add: nth_list_update)

lemma add_at_last:
  "add_at (fields f) (int FIELDS_PER_PROFILE) d = Some (fields (f(FIELDS_PER_PROFILE := f FIELDS_PER_PROFILE + d)))"
  by (rule add_at_fields) simp

lemma count_call:
  assumes "f < FIELDS_PER_PROFILE"
  shows "((ticks_of cs i)(f := ticks_of cs i f + t)) (FIELDS_PER_PROFILE := ticks_of cs i FIELDS_PER_PROFILE + t) =
      ticks_of (cs @ [(i, f, t)]) i"
    "((use_of cs i)(f := use_of cs i f + 1)) (FIELDS_PER_PROFILE := use_of cs i FIELDS_PER_PROFILE + 1) =
      use_of (cs @ [(i, f, t)]) i"
  using assms by (auto simp: fun_eq_iff ticks_of_def use_of_def counted_def)

lemma count_other: "c \<noteq> i \<Longrightarrow> ticks_of (cs @ [(c, f, t)]) i = ticks_of cs i" "c \<noteq> i \<Longrightarrow> use_of (cs @ [(c, f, t)]) i = use_of cs i"
  by (simp_all add: fun_eq_iff ticks_of_def use_of_def counted_def)

lemma allocate_profile_run:
  assumes "\<forall>k. ok k"
  shows "allocate_profile ef ok i p =
     Some (True, p\<lparr>current_ticks := (current_ticks p)(i := Some fresh_fields), current_use := (current_use p)(i := Some fresh_fields),
       total_ticks := (total_ticks p)(i := Some fresh_fields), total_use := (total_use p)(i := Some fresh_fields)\<rparr>)"
  using assms by (simp add: allocate_profile_def)

lemma profile_add_run:
  assumes "records p old new" "\<forall>k. ok k" "i < MAX_PROFILES" "f < FIELDS_PER_PROFILE"
  shows "\<exists>p'. profile_add_statistics ef ok (int i) (int f) t p = Some p' \<and> records p' old (new @ [(i, f, t)]) \<and>
    statistic_names p' = statistic_names p"
proof -
  have run: "running p = 1" using assms(1) by (simp add: records_def)
  have alloc: "\<exists>q. (if current_ticks p i = None then allocate_profile ef ok i p else Some (True, p)) = Some (True, q) \<and>
      holds q i old new \<and> (\<forall>j. j \<noteq> i \<longrightarrow> (\<forall>a b. holds q j a b = holds p j a b) \<and> absent q j = absent p j) \<and>
      running q = 1 \<and> statistic_names q = statistic_names p"
  proof (cases "timed (old @ new) i")
    case True
    with assms(1,3) have "holds p i old new" by (simp add: records_def)
    then show ?thesis using run by (auto simp: holds_def)
  next
    case False
    with assms(1,3) have "absent p i" by (simp add: records_def)
    moreover have "ticks_of old i = (\<lambda>j. 0)" "ticks_of new i = (\<lambda>j. 0)" "use_of old i = (\<lambda>j. 0)" "use_of new i = (\<lambda>j. 0)"
      using False counts_none by (auto simp: counts_append fun_eq_iff)
    ultimately show ?thesis using run
      by (simp add: allocate_profile_run [OF assms(2)] absent_def holds_def)
  qed
  then obtain q where q: "(if current_ticks p i = None then allocate_profile ef ok i p else Some (True, p)) = Some (True, q)"
    "holds q i old new" "\<And>j a b. j \<noteq> i \<Longrightarrow> holds q j a b = holds p j a b" "\<And>j. j \<noteq> i \<Longrightarrow> absent q j = absent p j"
    "running q = 1" "statistic_names q = statistic_names p" by blast
  let ?new = "new @ [(i, f, t)]"
  let ?q = "q\<lparr>current_ticks := (current_ticks q)(i \<mapsto> fields (ticks_of ?new i)), current_use := (current_use q)(i \<mapsto> fields (use_of ?new i))\<rparr>"
  have "profile_add_statistics ef ok (int i) (int f) t p = Some ?q"
    using q(1,2) run assms(3,4)
    by (simp add: profile_add_statistics_def holds_def add_at_fields add_at_last count_call [OF assms(4), symmetric])
  moreover have "records ?q old ?new"
  proof -
    have "if timed (old @ ?new) j then holds ?q j old ?new else absent ?q j" if "j < MAX_PROFILES" for j
    proof (cases "j = i")
      case True
      then show ?thesis using q(2) by (simp add: holds_def counts_append)
    next
      case False
      then have "holds ?q j old ?new = holds q j old new" "absent ?q j = absent q j"
        by (simp_all add: holds_def absent_def count_other)
      then show ?thesis using False q(3,4) [of j] assms(1) that by (simp add: records_def counts_append)
    qed
    then show ?thesis using q(5) by (simp add: records_def)
  qed
  ultimately show ?thesis using q(6) by auto
qed

section \<open>Reporting\<close>

lemma add_fields_from:
  "j + n \<le> FIELDS_PER_PROFILE + 1 \<Longrightarrow>
   add_fields (fields g) n j (fields f) = Some (fields (\<lambda>k. if j \<le> k \<and> k < j + n then f k + g k else f k))"
proof (induction n arbitrary: j f)
  case (Suc n)
  let ?f = "f(j := f j + g j)"
  have "arr_read (fields g) (int j) = Some (g j)" using Suc.prems by (simp add: arr_read_def)
  moreover have "add_at (fields f) (int j) (g j) = Some (fields ?f)" using Suc.prems by (intro add_at_fields) simp
  moreover have "add_fields (fields g) n (Suc j) (fields ?f) =
      Some (fields (\<lambda>k. if Suc j \<le> k \<and> k < Suc j + n then ?f k + g k else ?f k))"
    using Suc.prems by (intro Suc.IH) simp
  moreover have "(\<lambda>k. if Suc j \<le> k \<and> k < Suc j + n then ?f k + g k else ?f k) =
      (\<lambda>k. if j \<le> k \<and> k < j + Suc n then f k + g k else f k)" by (auto simp: fun_eq_iff)
  ultimately show ?case by simp
next
  case 0
  have "(\<lambda>k. if j \<le> k \<and> k < j + 0 then f k + g k else f k) = f" by (auto simp: fun_eq_iff)
  then show ?case by simp
qed

lemma fields_cong: "(\<And>j. j \<le> FIELDS_PER_PROFILE \<Longrightarrow> f j = g j) \<Longrightarrow> fields f = fields g"
  by (simp add: fields_def del: upt_Suc)

lemma add_fields_all:
  "add_fields (fields g) (FIELDS_PER_PROFILE + 1) 0 (fields f) = Some (fields (\<lambda>k. f k + g k))"
proof -
  have "add_fields (fields g) (FIELDS_PER_PROFILE + 1) 0 (fields f) =
      Some (fields (\<lambda>k. if 0 \<le> k \<and> k < 0 + (FIELDS_PER_PROFILE + 1) then f k + g k else f k))"
    by (rule add_fields_from) simp
  also have "fields (\<lambda>k. if 0 \<le> k \<and> k < 0 + (FIELDS_PER_PROFILE + 1) then f k + g k else f k) = fields (\<lambda>k. f k + g k)"
    by (rule fields_cong) simp
  finally show ?thesis .
qed

lemma add_current_run:
  assumes "holds p i old new"
  shows "\<exists>q. add_current i p = Some q \<and> holds q i (old @ new) new \<and>
    (\<forall>j. j \<noteq> i \<longrightarrow> (\<forall>a b. holds q j a b = holds p j a b) \<and> absent q j = absent p j) \<and>
    running q = running p \<and> statistic_names q = statistic_names p"
proof -
  let ?q = "p\<lparr>total_ticks := (total_ticks p)(i \<mapsto> fields (ticks_of (old @ new) i)), total_use := (total_use p)(i \<mapsto> fields (use_of (old @ new) i))\<rparr>"
  have "add_current i p = Some ?q"
    using assms by (simp add: add_current_def holds_def add_fields_all counts_append [abs_def] del: One_nat_def add_fields.simps)
  then show ?thesis using assms by (intro exI [of _ ?q]) (simp add: holds_def absent_def)
qed

definition row_of :: "string list \<Rightarrow> timed_call list \<Rightarrow> nat \<Rightarrow> row" where
  "row_of names cs i = (i, map (\<lambda>j. (names ! j, ticks_of cs i j, use_of cs i j)) [0 ..< FIELDS_PER_PROFILE + 1])"

lemma print_fields_run:
  "FIELDS_PER_PROFILE < length names \<Longrightarrow> print_fields names (fields f) (fields g) =
     Some (map (\<lambda>j. (names ! j, f j, g j)) [0 ..< FIELDS_PER_PROFILE + 1])"
  by (simp add: print_fields_def del: upt_Suc)

lemma reset_fields_run [simp]: "reset_fields (fields f) = fresh_fields"
  by (simp add: reset_fields_def fresh_fields_def)

lemma last_field: "arr_read (fields f) (int FIELDS_PER_PROFILE) = Some (f FIELDS_PER_PROFILE)"
  by (simp add: arr_read_def)

definition only_changes :: "nat \<Rightarrow> profiling \<Rightarrow> profiling \<Rightarrow> bool" where
  "only_changes i p q \<longleftrightarrow> (\<forall>j. j \<noteq> i \<longrightarrow> (\<forall>a b. holds q j a b = holds p j a b) \<and> absent q j = absent p j) \<and>
     running q = running p \<and> statistic_names q = statistic_names p"

lemma print_total_profile_run:
  assumes "holds p i old new" "FIELDS_PER_PROFILE < length (statistic_names p)"
  shows "\<exists>q. print_total_profile i p = Some ((row_of (statistic_names p) (old @ new) i,
      ticks_of (old @ new) i FIELDS_PER_PROFILE, use_of (old @ new) i FIELDS_PER_PROFILE), q) \<and>
    holds q i (old @ new) new \<and> only_changes i p q"
proof -
  from add_current_run [OF assms(1)] obtain q where q: "add_current i p = Some q" "holds q i (old @ new) new" "only_changes i p q"
    unfolding only_changes_def by blast
  then have n: "statistic_names q = statistic_names p" by (simp add: only_changes_def)
  have "print_total_profile i p = Some ((row_of (statistic_names p) (old @ new) i,
      ticks_of (old @ new) i FIELDS_PER_PROFILE, use_of (old @ new) i FIELDS_PER_PROFILE), q)"
    using q(1,2) assms(2) by (simp add: print_total_profile_def holds_def n print_fields_run row_of_def last_field del: upt_Suc)
  then show ?thesis using q(2,3) by blast
qed

lemma print_and_reset_profile_run:
  assumes "holds p i old new" "FIELDS_PER_PROFILE < length (statistic_names p)"
  shows "\<exists>q. print_and_reset_profile i p = Some ((row_of (statistic_names p) new i,
      ticks_of new i FIELDS_PER_PROFILE, use_of new i FIELDS_PER_PROFILE), q) \<and>
    holds q i (old @ new) [] \<and> only_changes i p q"
proof -
  from add_current_run [OF assms(1)] obtain q where q: "add_current i p = Some q" "holds q i (old @ new) new" "only_changes i p q"
    unfolding only_changes_def by blast
  then have n: "statistic_names q = statistic_names p" by (simp add: only_changes_def)
  let ?q = "q\<lparr>current_ticks := (current_ticks q)(i \<mapsto> fresh_fields), current_use := (current_use q)(i \<mapsto> fresh_fields)\<rparr>"
  have "print_and_reset_profile i p = Some ((row_of (statistic_names p) new i,
      ticks_of new i FIELDS_PER_PROFILE, use_of new i FIELDS_PER_PROFILE), ?q)"
    using q(1,2) assms(2) by (simp add: print_and_reset_profile_def holds_def n print_fields_run row_of_def last_field del: upt_Suc)
  moreover have "holds ?q i (old @ new) []" using q(2) by (simp add: holds_def nothing_counted)
  moreover have "only_changes i p ?q" using q(3) by (simp add: only_changes_def holds_def absent_def)
  ultimately show ?thesis by blast
qed

text \<open>A loop over profiles whose body is known for those that are in use; \<open>D\<close>: the profiles it has seen.\<close>

lemma print_profiles_run:
  assumes "distinct is" "set is \<inter> D = {}" "I D p"
    and "\<And>i D p. i \<in> set is \<Longrightarrow> i \<notin> D \<Longrightarrow> I D p \<Longrightarrow> used i \<Longrightarrow>
      current_ticks p i \<noteq> None \<and> (\<exists>q. body i p = Some ((r i, t i, u i), q) \<and> I (insert i D) q)"
    and "\<And>i D p. i \<in> set is \<Longrightarrow> i \<notin> D \<Longrightarrow> I D p \<Longrightarrow> \<not> used i \<Longrightarrow> current_ticks p i = None \<and> I (insert i D) p"
  shows "\<exists>q. print_profiles body is ticks use p =
      Some ((map r (filter used is), ticks + (\<Sum>i\<leftarrow>filter used is. t i), use + (\<Sum>i\<leftarrow>filter used is. u i)), q) \<and>
    I (D \<union> set is) q"
  using assms
proof (induction "is" arbitrary: D p ticks use)
  case (Cons i "is")
  have iD: "i \<notin> D" and dis: "distinct is" "set is \<inter> insert i D = {}" using Cons.prems(1,2) by auto
  have set: "insert i D \<union> set is = D \<union> set (i # is)" by simp
  have used: "current_ticks p j \<noteq> None \<and> (\<exists>q. body j p = Some ((r j, t j, u j), q) \<and> I (insert j E) q)"
    if "j \<in> set is" "j \<notin> E" "I E p" "used j" for j E p using Cons.prems(4) [of j E p] that by simp
  have unused: "current_ticks p j = None \<and> I (insert j E) p" if "j \<in> set is" "j \<notin> E" "I E p" "\<not> used j" for j E p
    using Cons.prems(5) [of j E p] that by simp
  show ?case
  proof (cases "used i")
    case True
    with Cons.prems(4) [of i D p] Cons.prems(3) iD obtain q where
      q: "current_ticks p i \<noteq> None" "body i p = Some ((r i, t i, u i), q)" "I (insert i D) q" by auto
    from Cons.IH [OF dis q(3) used unused, of "ticks + t i" "use + u i"] obtain q' where
      "print_profiles body is (ticks + t i) (use + u i) q =
        Some ((map r (filter used is), ticks + t i + (\<Sum>i\<leftarrow>filter used is. t i), use + u i + (\<Sum>i\<leftarrow>filter used is. u i)), q')"
      "I (insert i D \<union> set is) q'" by blast
    then show ?thesis using q True unfolding set by (intro exI [of _ q']) (auto simp: add.assoc)
  next
    case False
    with Cons.prems(5) [of i D p] Cons.prems(3) iD have q: "current_ticks p i = None" "I (insert i D) p" by simp_all
    from Cons.IH [OF dis q(2) used unused, of ticks use] obtain q' where
      "print_profiles body is ticks use p =
        Some ((map r (filter used is), ticks + (\<Sum>i\<leftarrow>filter used is. t i), use + (\<Sum>i\<leftarrow>filter used is. u i)), q')"
      "I (insert i D \<union> set is) q'" by blast
    then show ?thesis using q False unfolding set by (intro exI [of _ q']) simp
  qed
qed simp

text \<open>The sums over all profiles.\<close>

lemma sum_used:
  fixes f :: "nat \<Rightarrow> 'a::comm_monoid_add"
  assumes "\<And>i. \<not> used i \<Longrightarrow> f i = 0"
  shows "(\<Sum>i\<leftarrow>filter used [0 ..< n]. f i) = (\<Sum>i < n. f i)"
proof (induction n)
  case (Suc n)
  then show ?case using assms [of n] by (cases "used n") simp_all
qed simp

lemma ticks_of_Cons: "ticks_of (c # cs) i FIELDS_PER_PROFILE = (if fst c = i then snd (snd c) else 0) + ticks_of cs i FIELDS_PER_PROFILE"
  by (simp add: ticks_of_def counted_def)

lemma use_of_Cons: "use_of (c # cs) i FIELDS_PER_PROFILE = (if fst c = i then 1 else 0) + use_of cs i FIELDS_PER_PROFILE"
  by (simp add: use_of_def counted_def)

lemma sum_all_calls:
  assumes "\<forall>c \<in> set cs. fst c < n"
  shows "(\<Sum>i < n. ticks_of cs i FIELDS_PER_PROFILE) = sum_list (map (snd \<circ> snd) cs)"
    "(\<Sum>i < n. use_of cs i FIELDS_PER_PROFILE) = word_of_nat (length cs)"
proof -
  have one: "(\<Sum>i < n. if k = i then x else 0) = x" if "k < n" for k and x :: "'b::comm_monoid_add"
    using that by (simp add: sum.delta')
  show "(\<Sum>i < n. ticks_of cs i FIELDS_PER_PROFILE) = sum_list (map (snd \<circ> snd) cs)"
    using assms by (induction cs) (simp_all add: ticks_of_Cons sum.distrib one)
  show "(\<Sum>i < n. use_of cs i FIELDS_PER_PROFILE) = word_of_nat (length cs)"
    using assms by (induction cs) (simp_all add: use_of_Cons sum.distrib one)
qed

definition rows_of :: "string list \<Rightarrow> timed_call list \<Rightarrow> timed_call list \<Rightarrow> row list" where
  "rows_of names all shown = map (row_of names shown) (filter (timed all) [0 ..< MAX_PROFILES])"

definition in_range :: "timed_call \<Rightarrow> bool" where
  "in_range c \<longleftrightarrow> fst c < MAX_PROFILES \<and> fst (snd c) < FIELDS_PER_PROFILE"

lemma used_sums:
  assumes "\<forall>c \<in> set cs. in_range c" "\<And>i. timed cs i \<Longrightarrow> timed all i"
  shows "(\<Sum>i\<leftarrow>filter (timed all) [0 ..< MAX_PROFILES]. ticks_of cs i FIELDS_PER_PROFILE) = sum_list (map (snd \<circ> snd) cs)"
    "(\<Sum>i\<leftarrow>filter (timed all) [0 ..< MAX_PROFILES]. use_of cs i FIELDS_PER_PROFILE) = word_of_nat (length cs)"
proof -
  have none: "ticks_of cs i FIELDS_PER_PROFILE = 0" "use_of cs i FIELDS_PER_PROFILE = 0" if "\<not> timed all i" for i
    using assms(2) that counts_none by blast+
  have "\<forall>c \<in> set cs. fst c < MAX_PROFILES" using assms(1) by (simp add: in_range_def)
  note sums = sum_all_calls [OF this]
  show "(\<Sum>i\<leftarrow>filter (timed all) [0 ..< MAX_PROFILES]. ticks_of cs i FIELDS_PER_PROFILE) = sum_list (map (snd \<circ> snd) cs)"
    unfolding sums(1) [symmetric] by (rule sum_used) (rule none)
  show "(\<Sum>i\<leftarrow>filter (timed all) [0 ..< MAX_PROFILES]. use_of cs i FIELDS_PER_PROFILE) = word_of_nat (length cs)"
    unfolding sums(2) [symmetric] by (rule sum_used) (rule none)
qed

text \<open>Both loops keep this: the profiles in \<open>D\<close> hold the new totals, the others what they held before.\<close>

definition halfway :: "string list \<Rightarrow> timed_call list \<Rightarrow> timed_call list \<Rightarrow> timed_call list \<Rightarrow> nat set \<Rightarrow> profiling \<Rightarrow> bool" where
  "halfway names old new left D p \<longleftrightarrow> running p = 1 \<and> statistic_names p = names \<and>
     (\<forall>i < MAX_PROFILES. if timed (old @ new) i then (if i \<in> D then holds p i (old @ new) left else holds p i old new) else absent p i)"

lemma halfway_step:
  assumes "halfway names old new left D p" "i < MAX_PROFILES" "holds q i (old @ new) left" "only_changes i p q" "timed (old @ new) i"
  shows "halfway names old new left (insert i D) q"
  using assms by (auto simp: halfway_def only_changes_def)

lemma halfway_skip: "halfway names old new left D p \<Longrightarrow> \<not> timed (old @ new) i \<Longrightarrow> halfway names old new left (insert i D) p"
  by (auto simp: halfway_def)

lemma halfway_none: "halfway names old new left D p \<Longrightarrow> i < MAX_PROFILES \<Longrightarrow> \<not> timed (old @ new) i \<Longrightarrow> current_ticks p i = None"
  by (auto simp: halfway_def absent_def)

lemma halfway_holds:
  "halfway names old new left D p \<Longrightarrow> i < MAX_PROFILES \<Longrightarrow> timed (old @ new) i \<Longrightarrow> i \<notin> D \<Longrightarrow> holds p i old new"
  by (auto simp: halfway_def)

lemma loop_run:
  assumes "records p old new" "FIELDS_PER_PROFILE < length (statistic_names p)" "\<forall>c \<in> set shown. in_range c"
    and "\<And>i. timed shown i \<Longrightarrow> timed (old @ new) i"
    and body: "\<And>i p. holds p i old new \<Longrightarrow> FIELDS_PER_PROFILE < length (statistic_names p) \<Longrightarrow>
      \<exists>q. body i p = Some ((row_of (statistic_names p) shown i, ticks_of shown i FIELDS_PER_PROFILE, use_of shown i FIELDS_PER_PROFILE), q) \<and>
        holds q i (old @ new) left \<and> only_changes i p q"
  shows "\<exists>q. print_profiles body [0 ..< MAX_PROFILES] 0 0 p =
      Some ((rows_of (statistic_names p) (old @ new) shown, sum_list (map (snd \<circ> snd) shown), word_of_nat (length shown)), q) \<and>
    halfway (statistic_names p) old new left {0 ..< MAX_PROFILES} q"
proof -
  let ?I = "halfway (statistic_names p) old new left"
  have "?I {} p" using assms(1) by (simp add: halfway_def records_def)
  then have "\<exists>q. print_profiles body [0 ..< MAX_PROFILES] 0 0 p =
      Some ((map (row_of (statistic_names p) shown) (filter (timed (old @ new)) [0 ..< MAX_PROFILES]),
        0 + (\<Sum>i\<leftarrow>filter (timed (old @ new)) [0 ..< MAX_PROFILES]. ticks_of shown i FIELDS_PER_PROFILE),
        0 + (\<Sum>i\<leftarrow>filter (timed (old @ new)) [0 ..< MAX_PROFILES]. use_of shown i FIELDS_PER_PROFILE)), q) \<and>
      ?I ({} \<union> set [0 ..< MAX_PROFILES]) q"
  proof (rule print_profiles_run [rotated 2])
    fix i D q assume i: "i \<in> set [0 ..< MAX_PROFILES]" "i \<notin> D" and I: "?I D q"
    then have n: "statistic_names q = statistic_names p" by (simp add: halfway_def)
    show "current_ticks q i = None \<and> ?I (insert i D) q" if "\<not> timed (old @ new) i"
      using I i that by (simp add: halfway_none halfway_skip)
    show "current_ticks q i \<noteq> None \<and> (\<exists>q'. body i q = Some ((row_of (statistic_names p) shown i,
        ticks_of shown i FIELDS_PER_PROFILE, use_of shown i FIELDS_PER_PROFILE), q') \<and> ?I (insert i D) q')" if "timed (old @ new) i"
    proof -
      have h: "holds q i old new" using halfway_holds [OF I] i that by simp
      from body [OF this] assms(2) obtain q' where "body i q = Some ((row_of (statistic_names p) shown i,
          ticks_of shown i FIELDS_PER_PROFILE, use_of shown i FIELDS_PER_PROFILE), q')" "holds q' i (old @ new) left" "only_changes i q q'"
        unfolding n by blast
      then show ?thesis using h halfway_step [OF I] i that by (auto simp: holds_def)
    qed
  qed simp_all
  then show ?thesis by (simp add: rows_of_def used_sums [OF assms(3,4)] atLeast0LessThan)
qed

lemma finalize_run:
  assumes "records p old new" "FIELDS_PER_PROFILE < length (statistic_names p)" "\<forall>c \<in> set (old @ new). in_range c"
  shows "\<exists>q. profile_finalize now p = Some (Some \<lparr>rp_interval = current_interval q,
      rp_rows = rows_of (statistic_names p) (old @ new) (old @ new), rp_elapsed = now - start_ticks q,
      rp_ticks = sum_list (map (snd \<circ> snd) (old @ new)), rp_use = word_of_nat (length (old @ new))\<rparr>, q)"
  using loop_run [OF assms, of print_total_profile new] print_total_profile_run [of _ _ old new] assms(1)
  by (fastforce simp: profile_finalize_def records_def)

text \<open>A dump shows the calls since the last one, and moves them to the totals.\<close>

lemma dump_run:
  assumes "records p old new" "FIELDS_PER_PROFILE < length (statistic_names p)" "\<forall>c \<in> set new. in_range c"
  shows "\<exists>e i q. dump_profile_info now later p = Some (Some \<lparr>rp_interval = i, rp_rows = rows_of (statistic_names p) (old @ new) new,
      rp_elapsed = e, rp_ticks = sum_list (map (snd \<circ> snd) new), rp_use = word_of_nat (length new)\<rparr>, q) \<and>
    records q (old @ new) [] \<and> statistic_names q = statistic_names p"
proof -
  have t: "timed (old @ new) i" if "timed new i" for i using that by (simp add: counts_append)
  from loop_run [OF assms t print_and_reset_profile_run] obtain q where q:
    "print_profiles print_and_reset_profile [0 ..< MAX_PROFILES] 0 0 p =
      Some ((rows_of (statistic_names p) (old @ new) new, sum_list (map (snd \<circ> snd) new), word_of_nat (length new)), q)"
    "halfway (statistic_names p) old new [] {0 ..< MAX_PROFILES} q" by blast
  let ?q = "q\<lparr>current_interval := current_interval q + 1, current_start_ticks := later\<rparr>"
  have "records ?q (old @ new) []"
    using q(2) by (auto simp: halfway_def records_def holds_def absent_def)
  moreover have "statistic_names ?q = statistic_names p" using q(2) by (simp add: halfway_def)
  ultimately show ?thesis using q(1) assms(1)
    by (auto simp: dump_profile_info_def print_and_reset_current_interval_def records_def)
qed

text \<open>The clock and the number of the interval: only a dump changes them.\<close>

definition since :: "profiling \<Rightarrow> u64 \<times> u32" where
  "since p = (start_ticks p, current_interval p)"

lemma since_simps [simp]:
  "since (p\<lparr>current_ticks := a\<rparr>) = since p" "since (p\<lparr>current_use := b\<rparr>) = since p"
  "since (p\<lparr>total_ticks := a\<rparr>) = since p" "since (p\<lparr>total_use := b\<rparr>) = since p"
  by (simp_all add: since_def)

lemma allocate_profile_since: "allocate_profile ef ok i p = Some (go_on, q) \<Longrightarrow> since q = since p"
  unfolding allocate_profile_def Let_def by (auto split: if_splits)

lemma profile_add_since:
  assumes "profile_add_statistics ef ok i f t p = Some q"
  shows "since q = since p"
proof (cases "running p = 1 \<and> 0 \<le> i \<and> i < int MAX_PROFILES \<and> 0 \<le> f \<and> f < int FIELDS_PER_PROFILE")
  case True
  with assms obtain go_on p' where p': "(if current_ticks p (nat i) = None then allocate_profile ef ok (nat i) p else Some (True, p)) = Some (go_on, p')"
    "since q = since p'"
    by (fastforce simp: profile_add_statistics_def bind_eq_Some_conv Let_def simp del: fun_upd_apply split: if_splits)
  then show ?thesis by (auto split: if_splits dest: allocate_profile_since)
next
  case False
  with assms have "q = p" by (auto simp: profile_add_statistics_def not_less not_le split: if_splits)
  then show ?thesis by simp
qed

lemma print_total_profile_since: "print_total_profile i p = Some (r, q) \<Longrightarrow> since q = since p"
  by (auto simp: print_total_profile_def add_current_def bind_eq_Some_conv)

lemma print_total_since: "print_profiles print_total_profile is ticks use p = Some (r, q) \<Longrightarrow> since q = since p"
proof (induction "is" arbitrary: ticks use p r)
  case (Cons i "is")
  show ?case
  proof (cases "current_ticks p i = None")
    case True
    then show ?thesis using Cons.IH Cons.prems by simp
  next
    case False
    with Cons.prems obtain x p' ticks' use' r' where p': "print_total_profile i p = Some (x, p')"
      and r': "print_profiles print_total_profile is ticks' use' p' = Some (r', q)"
      by (auto simp: bind_eq_Some_conv)
    show ?thesis using Cons.IH [OF r'] print_total_profile_since [OF p'] by (rule trans)
  qed
qed simp

lemma profile_finalize_since: "profile_finalize now p = Some (r, q) \<Longrightarrow> since q = since p"
  by (auto simp: profile_finalize_def bind_eq_Some_conv split: if_splits dest: print_total_since)

end
