(* ===== verification/Front_End.thy ===== *)
theory Front_End
  imports Collectives Object_Api Process_Init Profiling
begin

text \<open>
  The functions that an application calls, \<^verbatim>\<open>src/frontend/empi_wrapper.c\<close> up to the \<^verbatim>\<open>#if 0\<close> that
  leaves out the rest of the file. Each calls the function of the backend of the same name; around the call it
  takes the time, when the library is built with profiling, and reports an error, when it is built with
  \<^verbatim>\<open>TRACE_ERRORS\<close>. The arguments and results are those of the backend function. What
  \<^verbatim>\<open>TRACE_CALLS\<close> adds is output only.
\<close>

section \<open>The profiled operations\<close>

definition STATS_BARRIER :: int where [const_defs]: "STATS_BARRIER = 0"
definition STATS_SEND :: int where [const_defs]: "STATS_SEND = 1"
definition STATS_RSEND :: int where [const_defs]: "STATS_RSEND = 2"
definition STATS_BSEND :: int where [const_defs]: "STATS_BSEND = 3"
definition STATS_SSEND :: int where [const_defs]: "STATS_SSEND = 4"
definition STATS_ISEND :: int where [const_defs]: "STATS_ISEND = 5"
definition STATS_IRSEND :: int where [const_defs]: "STATS_IRSEND = 6"
definition STATS_IBSEND :: int where [const_defs]: "STATS_IBSEND = 7"
definition STATS_ISSEND :: int where [const_defs]: "STATS_ISSEND = 8"
definition STATS_RECV :: int where [const_defs]: "STATS_RECV = 9"
definition STATS_IRECV :: int where [const_defs]: "STATS_IRECV = 10"
definition STATS_SEND_RECV :: int where [const_defs]: "STATS_SEND_RECV = 11"
definition STATS_IPROBE :: int where [const_defs]: "STATS_IPROBE = 12"
definition STATS_PROBE :: int where [const_defs]: "STATS_PROBE = 13"
definition STATS_BCAST :: int where [const_defs]: "STATS_BCAST = 14"
definition STATS_SCATTER :: int where [const_defs]: "STATS_SCATTER = 15"
definition STATS_GATHER :: int where [const_defs]: "STATS_GATHER = 16"
definition STATS_ALLGATHER :: int where [const_defs]: "STATS_ALLGATHER = 17"
definition STATS_ALLTOALL :: int where [const_defs]: "STATS_ALLTOALL = 18"
definition STATS_REDUCE :: int where [const_defs]: "STATS_REDUCE = 19"
definition STATS_ALLREDUCE :: int where [const_defs]: "STATS_ALLREDUCE = 20"
definition STATS_REDUCE_SCATTER :: int where [const_defs]: "STATS_REDUCE_SCATTER = 21"
definition STATS_SCAN :: int where [const_defs]: "STATS_SCAN = 22"
definition STATS_EXSCAN :: int where [const_defs]: "STATS_EXSCAN = 23"
definition STATS_WAIT :: int where [const_defs]: "STATS_WAIT = 24"
definition STATS_WAITALL :: int where [const_defs]: "STATS_WAITALL = 25"
definition STATS_WAITANY :: int where [const_defs]: "STATS_WAITANY = 26"
definition STATS_WAITSOME :: int where [const_defs]: "STATS_WAITSOME = 27"
definition STATS_TEST :: int where [const_defs]: "STATS_TEST = 28"
definition STATS_TESTALL :: int where [const_defs]: "STATS_TESTALL = 29"
definition STATS_TESTANY :: int where [const_defs]: "STATS_TESTANY = 30"
definition STATS_TESTSOME :: int where [const_defs]: "STATS_TESTSOME = 31"
definition STATS_MISC :: int where [const_defs]: "STATS_MISC = 32"
definition STATS_TOTAL :: int where [const_defs]: "STATS_TOTAL = 33"

text \<open>The names that the statistics are printed with.\<close>

definition stats_names :: "string list" where
  "stats_names =
    [''barrier'', ''send'', ''rsend'', ''bsend'', ''ssend'', ''isend'', ''irsend'', ''ibsend'',
     ''issend'', ''receive'', ''ireceive'', ''send_receive'', ''ireceive'', ''iprobe'', ''bcast'', ''scatter'',
     ''gather'', ''allgather'', ''alltoall'', ''reduce'', ''allreduce'', ''reduce_scatter'', ''scan'', ''exscan'',
     ''wait'', ''waitall'', ''waitany'', ''waitsome'', ''test'', ''testall'', ''testany'', ''testsome'',
     ''misc'', ''total'']"

section \<open>Around a call\<close>

text \<open>The settings of \<^verbatim>\<open>shared/settings.h\<close>, the readings of the clock, and whether the allocations
  of the statistics succeed.\<close>

record front_env =
  PROFILE_LEVEL :: nat
  TRACE_ERRORS :: bool
  fe_ticks :: "nat \<Rightarrow> u64"
  fe_calloc :: "nat \<Rightarrow> nat \<Rightarrow> bool"

text \<open>The state: that of the backend, the statistics with the reports printed so far, and how often the
  clock has been read.\<close>

record 's front =
  fr_backend :: 's
  fr_profiling :: profiling
  fr_reports :: "report list"
  fr_reads :: nat

type_synonym ('r, 's) front_act = "('r, 's front) act"

definition on_backend :: "('r, 's) act \<Rightarrow> ('r, 's) front_act" where
  "on_backend m s = map_option (\<lambda>(r, b). (r, s\<lparr>fr_backend := b\<rparr>)) (m (fr_backend s))"

definition read_ticks :: "front_env \<Rightarrow> (u64, 's) front_act" where
  "read_ticks W s = Some (Some (fe_ticks W (fr_reads s)), s\<lparr>fr_reads := fr_reads s + 1\<rparr>)"

definition add_statistics :: "front_env \<Rightarrow> bool \<Rightarrow> int \<Rightarrow> int \<Rightarrow> u64 \<Rightarrow> (unit, 's) front_act" where
  "add_statistics W ef comm field ticks s =
     map_option (\<lambda>p. (Some (), s\<lparr>fr_profiling := p\<rparr>))
       (profile_add_statistics ef (fe_calloc W (fr_reads s)) comm field ticks (fr_profiling s))"

definition finalize_statistics :: "front_env \<Rightarrow> (unit, 's) front_act" where
  "finalize_statistics W =
     (if PROFILE_LEVEL W > 0 then
        andthen (read_ticks W) (\<lambda>now s.
        map_option (\<lambda>(r, p). (Some (), s\<lparr>fr_profiling := p, fr_reports := fr_reports s @ (case r of None \<Rightarrow> [] | Some x \<Rightarrow> [x])\<rparr>))
          (profile_finalize now (fr_profiling s)))
      else ret ())"

definition trace_errors :: "front_env \<Rightarrow> bool \<Rightarrow> int \<Rightarrow> ('r, 's) front_act \<Rightarrow> ('r, 's) front_act" where
  "trace_errors W ef error k = (if TRACE_ERRORS W \<and> error \<noteq> EMPI_SUCCESS then after_ERROR ef k else k)"

text \<open>The time is booked on the communicator that \<open>get_comm_of\<close> finds after the clock has been read.\<close>

definition timed_call ::
  "front_env \<Rightarrow> bool \<Rightarrow> (int, 's) act \<Rightarrow> int \<Rightarrow> ('r \<Rightarrow> int) \<Rightarrow> ('r, 's) act \<Rightarrow> ('r, 's) front_act" where
  "timed_call W ef get_comm_of field error_of call =
     (if PROFILE_LEVEL W > 0 then
        andthen (read_ticks W) (\<lambda>profile_start.
        andthen (on_backend get_comm_of) (\<lambda>comm.
        andthen (on_backend call) (\<lambda>r.
        andthen (read_ticks W) (\<lambda>profile_end.
        andthen (add_statistics W ef comm field (profile_end - profile_start)) (\<lambda>_.
        trace_errors W ef (error_of r) (ret r))))))
      else andthen (on_backend call) (\<lambda>r. trace_errors W ef (error_of r) (ret r)))"

definition wrapped :: "front_env \<Rightarrow> bool \<Rightarrow> int \<Rightarrow> int \<Rightarrow> ('r \<Rightarrow> int) \<Rightarrow> ('r, 's) act \<Rightarrow> ('r, 's) front_act" where
  "wrapped W ef comm field error_of call = timed_call W ef (ret comm) field error_of call"

section \<open>The beginning and the end\<close>

text \<open>A gateway process ends inside \<^verbatim>\<open>EMPI_Init\<close>.\<close>

definition MPI_Init :: "front_env \<Rightarrow> bool \<Rightarrow> bool \<Rightarrow> sys \<Rightarrow> init_env \<Rightarrow> string list \<Rightarrow> (outcome, gw_setup \<times> ('a, 'w) proc) front_act" where
  "MPI_Init W ef le sy A argv =
     andthen (on_backend (EMPI_Init ef le sy A argv)) (\<lambda>result.
     case result of
       Exits \<Rightarrow> ret Exits
     | Returns error \<Rightarrow>
         trace_errors W ef error
           (if PROFILE_LEVEL W > 0 then
              andthen (read_ticks W) (\<lambda>now s. Some (Some (Returns error), s\<lparr>fr_profiling := profile_init stats_names now (fr_profiling s)\<rparr>))
            else ret (Returns error)))"

definition MPI_Abort where
  "MPI_Abort W E comm errorcode =
     andthen (on_backend (EMPI_Abort E comm errorcode)) (\<lambda>error.
     andthen (finalize_statistics W) (\<lambda>_. trace_errors W (e_ef E) error (ret error)))"

definition MPI_Finalize where
  "MPI_Finalize W E finalize_error =
     andthen (on_backend (EMPI_Finalize E finalize_error)) (\<lambda>error.
     andthen (finalize_statistics W) (\<lambda>_. trace_errors W (e_ef E) error (ret error)))"

text \<open>Waiting is booked on the communicator of the request (\<open>request_get_comm\<close> of \<^verbatim>\<open>src/backend/request.c\<close>).\<close>

definition request_get_comm :: "('a, 'w) env \<Rightarrow> int option \<Rightarrow> int \<Rightarrow> (int, 'a, 'w) proc_act" where
  "request_get_comm E r def =
     (case r of
        None \<Rightarrow> ret def
      | Some h \<Rightarrow>
          andthen the_state (\<lambda>s.
          andthen (lift (handle_to_request (e_ef E) (ps_requests s) h)) (\<lambda>req.
          case req of
            None \<Rightarrow> ret def
          | Some q \<Rightarrow>
              andthen (lift (heap (ps_requests s) q)) (\<lambda>rq.
              lift (communicator_to_handle (e_ef E) (ps_comms s) (rq_c rq))))))"

definition MPI_Wait where
  "MPI_Wait W E n r s =
     timed_call W (e_ef E) (request_get_comm E r EMPI_COMM_SELF) STATS_WAIT fst (EMPI_Wait E n r s)"

section \<open>Misc. utilities\<close>

definition MPI_Initialized where
  "MPI_Initialized W E =
     wrapped W (e_ef E) EMPI_COMM_SELF STATS_MISC fst (EMPI_Initialized E)"

definition MPI_Finalized where
  "MPI_Finalized W E =
     wrapped W (e_ef E) EMPI_COMM_SELF STATS_MISC fst (EMPI_Finalized E)"

definition MPI_Get_processor_name where
  "MPI_Get_processor_name W E =
     wrapped W (e_ef E) EMPI_COMM_SELF STATS_MISC fst (EMPI_Get_processor_name E)"

definition MPI_Error_string where
  "MPI_Error_string W E errorcode =
     wrapped W (e_ef E) EMPI_COMM_SELF STATS_MISC fst (EMPI_Error_string E errorcode)"

section \<open>Communicators and groups\<close>

definition MPI_Comm_create where
  "MPI_Comm_create W E comm g =
     wrapped W (e_ef E) comm STATS_MISC fst (EMPI_Comm_create E comm g)"

definition MPI_Comm_dup where
  "MPI_Comm_dup W E comm =
     wrapped W (e_ef E) comm STATS_MISC fst (EMPI_Comm_dup E comm)"

definition MPI_Comm_free where
  "MPI_Comm_free W E comm =
     wrapped W (e_ef E) EMPI_COMM_SELF STATS_MISC fst (EMPI_Comm_free E comm)"

definition MPI_Comm_group where
  "MPI_Comm_group W E comm =
     wrapped W (e_ef E) comm STATS_MISC fst (EMPI_Comm_group E comm)"

definition MPI_Comm_rank where
  "MPI_Comm_rank W E comm =
     wrapped W (e_ef E) comm STATS_MISC fst (EMPI_Comm_rank E comm)"

definition MPI_Comm_size where
  "MPI_Comm_size W E comm =
     wrapped W (e_ef E) comm STATS_MISC fst (EMPI_Comm_size E comm)"

definition MPI_Comm_split where
  "MPI_Comm_split W E comm color key =
     wrapped W (e_ef E) comm STATS_MISC fst (EMPI_Comm_split E comm color key)"

definition MPI_Group_rank where
  "MPI_Group_rank W E g =
     wrapped W (e_ef E) EMPI_COMM_SELF STATS_MISC fst (EMPI_Group_rank E g)"

definition MPI_Group_size where
  "MPI_Group_size W E g =
     wrapped W (e_ef E) EMPI_COMM_SELF STATS_MISC fst (EMPI_Group_size E g)"

definition MPI_Group_range_incl where
  "MPI_Group_range_incl W E g n ranges =
     wrapped W (e_ef E) EMPI_COMM_SELF STATS_MISC fst (EMPI_Group_range_incl E g n ranges)"

definition MPI_Group_range_excl where
  "MPI_Group_range_excl W E g n ranges =
     wrapped W (e_ef E) EMPI_COMM_SELF STATS_MISC fst (EMPI_Group_range_excl E g n ranges)"

definition MPI_Group_translate_ranks where
  "MPI_Group_translate_ranks W E group1 n ranks1 group2 ranks2 =
     wrapped W (e_ef E) EMPI_COMM_SELF STATS_MISC fst (EMPI_Group_translate_ranks E group1 n ranks1 group2 ranks2)"

definition MPI_Group_union where
  "MPI_Group_union W E group1 group2 =
     wrapped W (e_ef E) EMPI_COMM_SELF STATS_MISC fst (EMPI_Group_union E group1 group2)"

definition MPI_Group_incl where
  "MPI_Group_incl W E g n ranks =
     wrapped W (e_ef E) EMPI_COMM_SELF STATS_MISC fst (EMPI_Group_incl E g n ranks)"

section \<open>Collectives\<close>

definition MPI_Allgather where
  "MPI_Allgather W E sendbuf sendcount sendtype recvbuf recvcount recvtype comm =
     wrapped W (e_ef E) comm STATS_ALLGATHER fst (EMPI_Allgather E sendbuf sendcount sendtype recvbuf recvcount recvtype comm)"

definition MPI_Allgatherv where
  "MPI_Allgatherv W E sendbuf sendcount sendtype recvbuf recvcounts displs recvtype comm =
     wrapped W (e_ef E) comm STATS_ALLGATHER fst (EMPI_Allgatherv E sendbuf sendcount sendtype recvbuf recvcounts displs recvtype comm)"

definition MPI_Allreduce where
  "MPI_Allreduce W E fp user sendbuf recvbuf count typ oper comm =
     wrapped W (e_ef E) comm STATS_ALLREDUCE fst (EMPI_Allreduce E fp user sendbuf recvbuf count typ oper comm)"

definition MPI_Alltoall where
  "MPI_Alltoall W E sendbuf sendcount sendtype recvbuf recvcount recvtype comm =
     wrapped W (e_ef E) comm STATS_ALLTOALL fst (EMPI_Alltoall E sendbuf sendcount sendtype recvbuf recvcount recvtype comm)"

definition MPI_Alltoallv where
  "MPI_Alltoallv W E sendbuf sendcnts sdispls sendtype recvbuf recvcnts rdispls recvtype comm =
     wrapped W (e_ef E) comm STATS_ALLTOALL fst (EMPI_Alltoallv E sendbuf sendcnts sdispls sendtype recvbuf recvcnts rdispls recvtype comm)"

definition MPI_Alltoallw where
  "MPI_Alltoallw W E sendbuf sendcnts sdispls sendtypes recvbuf recvcnts rdispls recvtypes comm =
     wrapped W (e_ef E) comm STATS_ALLTOALL fst (EMPI_Alltoallw E sendbuf sendcnts sdispls sendtypes recvbuf recvcnts rdispls recvtypes comm)"

definition MPI_Scatter where
  "MPI_Scatter W E sendbuf sendcnt sendtype recvbuf recvcnt recvtype root comm =
     wrapped W (e_ef E) comm STATS_SCATTER fst (EMPI_Scatter E sendbuf sendcnt sendtype recvbuf recvcnt recvtype root comm)"

definition MPI_Scatterv where
  "MPI_Scatterv W E sendbuf sendcnts displs sendtype recvbuf recvcnt recvtype root comm =
     wrapped W (e_ef E) comm STATS_SCATTER fst (EMPI_Scatterv E sendbuf sendcnts displs sendtype recvbuf recvcnt recvtype root comm)"

definition MPI_Barrier where
  "MPI_Barrier W E comm =
     wrapped W (e_ef E) comm STATS_BARRIER id (EMPI_Barrier E comm)"

definition MPI_Bcast where
  "MPI_Bcast W E buffer count typ root comm =
     wrapped W (e_ef E) comm STATS_BCAST fst (EMPI_Bcast E buffer count typ root comm)"

definition MPI_Gather where
  "MPI_Gather W E sendbuf sendcnt sendtype recvbuf recvcnt recvtype root comm =
     wrapped W (e_ef E) comm STATS_GATHER fst (EMPI_Gather E sendbuf sendcnt sendtype recvbuf recvcnt recvtype root comm)"

definition MPI_Gatherv where
  "MPI_Gatherv W E sendbuf sendcnt sendtype recvbuf recvcnts displs recvtype root comm =
     wrapped W (e_ef E) comm STATS_GATHER fst (EMPI_Gatherv E sendbuf sendcnt sendtype recvbuf recvcnts displs recvtype root comm)"

definition MPI_Reduce where
  "MPI_Reduce W E fp user sendbuf recvbuf count typ oper root comm =
     wrapped W (e_ef E) comm STATS_REDUCE fst (EMPI_Reduce E fp user sendbuf recvbuf count typ oper root comm)"

section \<open>Send and receive\<close>

definition MPI_Irecv where
  "MPI_Irecv W E buf count typ source tag comm =
     wrapped W (e_ef E) comm STATS_IRECV fst (EMPI_Irecv E buf count typ source tag comm)"

definition MPI_Irsend where
  "MPI_Irsend W E buf count typ dest tag comm =
     wrapped W (e_ef E) comm STATS_IRSEND fst (EMPI_Irsend E buf count typ dest tag comm)"

definition MPI_Isend where
  "MPI_Isend W E buf count typ dest tag comm =
     wrapped W (e_ef E) comm STATS_ISEND fst (EMPI_Isend E buf count typ dest tag comm)"

definition MPI_Rsend where
  "MPI_Rsend W E buf count typ dest tag comm =
     wrapped W (e_ef E) comm STATS_RSEND id (EMPI_Rsend E buf count typ dest tag comm)"

definition MPI_Send where
  "MPI_Send W E buf count typ dest tag comm =
     wrapped W (e_ef E) comm STATS_SEND id (EMPI_Send E buf count typ dest tag comm)"

definition MPI_Sendrecv where
  "MPI_Sendrecv W E sendbuf sendcount sendtype dest sendtag recvcount recvtype source recvtag comm s =
     wrapped W (e_ef E) comm STATS_SEND_RECV fst (EMPI_Sendrecv E sendbuf sendcount sendtype dest sendtag recvcount recvtype source recvtag comm s)"

definition MPI_Ssend where
  "MPI_Ssend W E buf count typ dest tag comm =
     wrapped W (e_ef E) comm STATS_SSEND id (EMPI_Ssend E buf count typ dest tag comm)"

definition MPI_Issend where
  "MPI_Issend W E buf count typ dest tag comm =
     wrapped W (e_ef E) comm STATS_ISSEND fst (EMPI_Issend E buf count typ dest tag comm)"

definition MPI_Recv where
  "MPI_Recv W E count typ source tag comm s =
     wrapped W (e_ef E) comm STATS_RECV fst (EMPI_Recv E count typ source tag comm s)"

section \<open>Requests and statuses\<close>

definition MPI_Waitall where
  "MPI_Waitall W E n count rs sts =
     wrapped W (e_ef E) EMPI_COMM_SELF STATS_WAITALL fst (EMPI_Waitall E n count rs sts)"

definition MPI_Request_free where
  "MPI_Request_free W E r =
     wrapped W (e_ef E) EMPI_COMM_SELF STATS_MISC fst (EMPI_Request_free E r)"

definition MPI_Waitany where
  "MPI_Waitany W E n count rs s =
     wrapped W (e_ef E) EMPI_COMM_SELF STATS_WAITANY fst (EMPI_Waitany E n count rs s)"

definition MPI_Get_count where
  "MPI_Get_count W E s typ =
     wrapped W (e_ef E) EMPI_COMM_SELF STATS_MISC fst (ret (EMPI_Get_count s typ))"

section \<open>Datatypes\<close>

definition MPI_Type_free where
  "MPI_Type_free W E typ =
     wrapped W (e_ef E) EMPI_COMM_SELF STATS_MISC fst (EMPI_Type_free E typ)"

definition MPI_Type_get_envelope where
  "MPI_Type_get_envelope W E typ =
     wrapped W (e_ef E) EMPI_COMM_SELF STATS_MISC fst (EMPI_Type_get_envelope E typ)"

definition MPI_Type_create_indexed_block where
  "MPI_Type_create_indexed_block W E count blocklength disps oldtype =
     wrapped W (e_ef E) EMPI_COMM_SELF STATS_MISC fst (EMPI_Type_create_indexed_block E count blocklength disps oldtype)"

definition MPI_Type_contiguous where
  "MPI_Type_contiguous W E count oldtype =
     wrapped W (e_ef E) EMPI_COMM_SELF STATS_MISC fst (EMPI_Type_contiguous E count oldtype)"

definition MPI_Type_hvector where
  "MPI_Type_hvector W E count blocklen stride oldtype =
     wrapped W (e_ef E) EMPI_COMM_SELF STATS_MISC fst (EMPI_Type_hvector E count blocklen stride oldtype)"

definition MPI_Type_indexed where
  "MPI_Type_indexed W E count blocklens indices oldtype =
     wrapped W (e_ef E) EMPI_COMM_SELF STATS_MISC fst (EMPI_Type_indexed E count blocklens indices oldtype)"

definition MPI_Type_commit where
  "MPI_Type_commit W E typ =
     wrapped W (e_ef E) EMPI_COMM_SELF STATS_MISC id (EMPI_Type_commit E typ)"

definition MPI_Type_get_name where
  "MPI_Type_get_name W E typ =
     wrapped W (e_ef E) EMPI_COMM_SELF STATS_MISC fst (EMPI_Type_get_name E typ)"

definition MPI_Type_size where
  "MPI_Type_size W E typ =
     wrapped W (e_ef E) EMPI_COMM_SELF STATS_MISC fst (EMPI_Type_size E typ)"

definition MPI_Type_ub where
  "MPI_Type_ub W E typ =
     wrapped W (e_ef E) EMPI_COMM_SELF STATS_MISC fst (EMPI_Type_ub E typ)"

section \<open>Files and info objects\<close>

definition MPI_File_set_view where
  "MPI_File_set_view W E fh disp etype filetype datarep inh =
     wrapped W (e_ef E) EMPI_COMM_SELF STATS_MISC id (EMPI_File_set_view E fh disp etype filetype datarep inh)"

definition MPI_File_open where
  "MPI_File_open W E comm filename amode inh =
     wrapped W (e_ef E) comm STATS_MISC fst (EMPI_File_open E comm filename amode inh)"

definition MPI_File_close where
  "MPI_File_close W E fh =
     wrapped W (e_ef E) EMPI_COMM_SELF STATS_MISC fst (EMPI_File_close E fh)"

definition MPI_File_write_at where
  "MPI_File_write_at W E fh offset buf count typ s =
     wrapped W (e_ef E) EMPI_COMM_SELF STATS_MISC fst (EMPI_File_write_at E fh offset buf count typ s)"

definition MPI_File_read_at where
  "MPI_File_read_at W E fh offset count typ s =
     wrapped W (e_ef E) EMPI_COMM_SELF STATS_MISC fst (EMPI_File_read_at E fh offset count typ s)"

definition MPI_File_read_all where
  "MPI_File_read_all W E fh count typ s =
     wrapped W (e_ef E) EMPI_COMM_SELF STATS_MISC fst (EMPI_File_read_all E fh count typ s)"

definition MPI_File_write_all where
  "MPI_File_write_all W E fh buf count typ s =
     wrapped W (e_ef E) EMPI_COMM_SELF STATS_MISC fst (EMPI_File_write_all E fh buf count typ s)"

definition MPI_Info_create where
  "MPI_Info_create W E =
     wrapped W (e_ef E) EMPI_COMM_SELF STATS_MISC fst (EMPI_Info_create E)"

definition MPI_Info_delete where
  "MPI_Info_delete W E inh key =
     wrapped W (e_ef E) EMPI_COMM_SELF STATS_MISC id (EMPI_Info_delete E inh key)"

definition MPI_Info_set where
  "MPI_Info_set W E inh key value =
     wrapped W (e_ef E) EMPI_COMM_SELF STATS_MISC id (EMPI_Info_set E inh key value)"

definition MPI_Info_free where
  "MPI_Info_free W E inh =
     wrapped W (e_ef E) EMPI_COMM_SELF STATS_MISC fst (EMPI_Info_free E inh)"

section \<open>Intercommunicators, operations, packing\<close>

definition MPI_Intercomm_create where
  "MPI_Intercomm_create W E local_comm =
     wrapped W (e_ef E) local_comm STATS_MISC id (EMPI_Intercomm_create E)"

definition MPI_Intercomm_merge where
  "MPI_Intercomm_merge W E intercomm =
     wrapped W (e_ef E) intercomm STATS_MISC id (EMPI_Intercomm_merge E)"

definition MPI_Op_create where
  "MPI_Op_create W E local_err_intern f commute =
     wrapped W (e_ef E) EMPI_COMM_SELF STATS_MISC fst (EMPI_Op_create E local_err_intern f commute)"

definition MPI_Pack where
  "MPI_Pack W E inbuf incount typ outbuf outcount position comm =
     wrapped W (e_ef E) comm STATS_MISC fst (EMPI_Pack E inbuf incount typ outbuf outcount position comm)"

definition MPI_Pack_size where
  "MPI_Pack_size W E incount typ comm =
     wrapped W (e_ef E) comm STATS_MISC fst (EMPI_Pack_size E incount typ comm)"

definition MPI_Unpack where
  "MPI_Unpack W E inbuf insize position outbuf outcount typ comm =
     wrapped W (e_ef E) comm STATS_MISC fst (EMPI_Unpack E inbuf insize position outbuf outcount typ comm)"

end
