(* ===== verification/Fortran.thy ===== *)
theory Fortran
  imports Front_End
begin

text \<open>
  The functions that a Fortran program calls, \<^verbatim>\<open>src/frontend/empif_wrapper.c\<close> up to the comment that
  takes the rest of the file out. Each gets the addresses of its arguments and hands the values on to the C
  function of the same name; the error code goes to the last argument, which here is part of the result. Two
  constants of Fortran are variables whose addresses stand for the null pointers of C, and indices count from 1.
\<close>

datatype fortran_status = FORTRAN_STATUS_IGNORE | At_status status
datatype fortran_statuses = FORTRAN_STATUSES_IGNORE | At_statuses "status list"

definition c_status :: "fortran_status \<Rightarrow> status option" where
  "c_status stat = (case stat of FORTRAN_STATUS_IGNORE \<Rightarrow> None | At_status s \<Rightarrow> Some s)"

definition c_statuses :: "fortran_statuses \<Rightarrow> status list option" where
  "c_statuses stats = (case stats of FORTRAN_STATUSES_IGNORE \<Rightarrow> None | At_statuses xs \<Rightarrow> Some xs)"

text \<open>Fortran has no arguments of the command line to hand on.\<close>

definition fortran_mpi_init ::
  "front_env \<Rightarrow> bool \<Rightarrow> bool \<Rightarrow> sys \<Rightarrow> init_env \<Rightarrow> (outcome, gw_setup \<times> ('a, 'w) proc) front_act" where
  "fortran_mpi_init W ef le sy A = MPI_Init W ef le sy A []"

text \<open>The index is written when the call succeeds; \<open>None\<close>: it is not.\<close>

definition fortran_mpi_waitany where
  "fortran_mpi_waitany W E n count rs stat =
     andthen (MPI_Waitany W E n count rs (c_status stat)) (\<lambda>(ierr, cindex, rs', s').
     ret (ierr,
       if ierr = EMPI_SUCCESS then Some (if cindex = EMPI_UNDEFINED then EMPI_UNDEFINED else cindex + 1) else None,
       rs', s'))"

section \<open>The other functions\<close>

definition fortran_mpi_initialized where
  "fortran_mpi_initialized W E = MPI_Initialized W E"

definition fortran_mpi_abort where
  "fortran_mpi_abort W E comm errorcode = MPI_Abort W E comm errorcode"

definition fortran_mpi_finalize where
  "fortran_mpi_finalize W E finalize_error = MPI_Finalize W E finalize_error"

definition fortran_mpi_finalized where
  "fortran_mpi_finalized W E = MPI_Finalized W E"

definition fortran_mpi_get_processor_name where
  "fortran_mpi_get_processor_name W E = MPI_Get_processor_name W E"

definition fortran_mpi_error_string where
  "fortran_mpi_error_string W E errorcode = MPI_Error_string W E errorcode"

definition fortran_mpi_comm_create where
  "fortran_mpi_comm_create W E comm g = MPI_Comm_create W E comm g"

definition fortran_mpi_comm_dup where
  "fortran_mpi_comm_dup W E comm = MPI_Comm_dup W E comm"

definition fortran_mpi_comm_free where
  "fortran_mpi_comm_free W E comm = MPI_Comm_free W E comm"

definition fortran_mpi_comm_group where
  "fortran_mpi_comm_group W E comm = MPI_Comm_group W E comm"

definition fortran_mpi_comm_rank where
  "fortran_mpi_comm_rank W E comm = MPI_Comm_rank W E comm"

definition fortran_mpi_comm_size where
  "fortran_mpi_comm_size W E comm = MPI_Comm_size W E comm"

definition fortran_mpi_comm_split where
  "fortran_mpi_comm_split W E comm color key = MPI_Comm_split W E comm color key"

definition fortran_mpi_group_range_incl where
  "fortran_mpi_group_range_incl W E g n ranges = MPI_Group_range_incl W E g n ranges"

definition fortran_mpi_group_incl where
  "fortran_mpi_group_incl W E g n ranks = MPI_Group_incl W E g n ranks"

definition fortran_mpi_group_range_excl where
  "fortran_mpi_group_range_excl W E g n ranges = MPI_Group_range_excl W E g n ranges"

definition fortran_mpi_group_union where
  "fortran_mpi_group_union W E group1 group2 = MPI_Group_union W E group1 group2"

definition fortran_mpi_group_translate_ranks where
  "fortran_mpi_group_translate_ranks W E group1 n ranks1 group2 ranks2 = MPI_Group_translate_ranks W E group1 n ranks1 group2 ranks2"

definition fortran_mpi_group_rank where
  "fortran_mpi_group_rank W E g = MPI_Group_rank W E g"

definition fortran_mpi_group_size where
  "fortran_mpi_group_size W E g = MPI_Group_size W E g"

definition fortran_mpi_allgather where
  "fortran_mpi_allgather W E sendbuf sendcount sendtype recvbuf recvcount recvtype comm = MPI_Allgather W E sendbuf sendcount sendtype recvbuf recvcount recvtype comm"

definition fortran_mpi_allgatherv where
  "fortran_mpi_allgatherv W E sendbuf sendcount sendtype recvbuf recvcounts displs recvtype comm = MPI_Allgatherv W E sendbuf sendcount sendtype recvbuf recvcounts displs recvtype comm"

definition fortran_mpi_allreduce where
  "fortran_mpi_allreduce W E fp user sendbuf recvbuf count typ oper comm = MPI_Allreduce W E fp user sendbuf recvbuf count typ oper comm"

definition fortran_mpi_alltoall where
  "fortran_mpi_alltoall W E sendbuf sendcount sendtype recvbuf recvcount recvtype comm = MPI_Alltoall W E sendbuf sendcount sendtype recvbuf recvcount recvtype comm"

definition fortran_mpi_alltoallv where
  "fortran_mpi_alltoallv W E sendbuf sendcnts sdispls sendtype recvbuf recvcnts rdispls recvtype comm = MPI_Alltoallv W E sendbuf sendcnts sdispls sendtype recvbuf recvcnts rdispls recvtype comm"

definition fortran_mpi_alltoallw where
  "fortran_mpi_alltoallw W E sendbuf sendcnts sdispls sendtypes recvbuf recvcnts rdispls recvtypes comm = MPI_Alltoallw W E sendbuf sendcnts sdispls sendtypes recvbuf recvcnts rdispls recvtypes comm"

definition fortran_mpi_scatter where
  "fortran_mpi_scatter W E sendbuf sendcnt sendtype recvbuf recvcnt recvtype root comm = MPI_Scatter W E sendbuf sendcnt sendtype recvbuf recvcnt recvtype root comm"

definition fortran_mpi_scatterv where
  "fortran_mpi_scatterv W E sendbuf sendcnts displs sendtype recvbuf recvcnt recvtype root comm = MPI_Scatterv W E sendbuf sendcnts displs sendtype recvbuf recvcnt recvtype root comm"

definition fortran_mpi_barrier where
  "fortran_mpi_barrier W E comm = MPI_Barrier W E comm"

definition fortran_mpi_bcast where
  "fortran_mpi_bcast W E buffer count typ root comm = MPI_Bcast W E buffer count typ root comm"

definition fortran_mpi_gather where
  "fortran_mpi_gather W E sendbuf sendcnt sendtype recvbuf recvcnt recvtype root comm = MPI_Gather W E sendbuf sendcnt sendtype recvbuf recvcnt recvtype root comm"

definition fortran_mpi_gatherv where
  "fortran_mpi_gatherv W E sendbuf sendcnt sendtype recvbuf recvcnts displs recvtype root comm = MPI_Gatherv W E sendbuf sendcnt sendtype recvbuf recvcnts displs recvtype root comm"

definition fortran_mpi_reduce where
  "fortran_mpi_reduce W E fp user sendbuf recvbuf count typ oper root comm = MPI_Reduce W E fp user sendbuf recvbuf count typ oper root comm"

definition fortran_mpi_irecv where
  "fortran_mpi_irecv W E buf count typ source tag comm = MPI_Irecv W E buf count typ source tag comm"

definition fortran_mpi_irsend where
  "fortran_mpi_irsend W E buf count typ dest tag comm = MPI_Irsend W E buf count typ dest tag comm"

definition fortran_mpi_isend where
  "fortran_mpi_isend W E buf count typ dest tag comm = MPI_Isend W E buf count typ dest tag comm"

definition fortran_mpi_rsend where
  "fortran_mpi_rsend W E buf count typ dest tag comm = MPI_Rsend W E buf count typ dest tag comm"

definition fortran_mpi_send where
  "fortran_mpi_send W E buf count typ dest tag comm = MPI_Send W E buf count typ dest tag comm"

definition fortran_mpi_sendrecv where
  "fortran_mpi_sendrecv W E sendbuf sendcount sendtype dest sendtag recvcount recvtype source recvtag comm stat = MPI_Sendrecv W E sendbuf sendcount sendtype dest sendtag recvcount recvtype source recvtag comm (c_status stat)"

definition fortran_mpi_issend where
  "fortran_mpi_issend W E buf count typ dest tag comm = MPI_Issend W E buf count typ dest tag comm"

definition fortran_mpi_ssend where
  "fortran_mpi_ssend W E buf count typ dest tag comm = MPI_Ssend W E buf count typ dest tag comm"

definition fortran_mpi_recv where
  "fortran_mpi_recv W E count typ source tag comm stat = MPI_Recv W E count typ source tag comm (c_status stat)"

definition fortran_mpi_wait where
  "fortran_mpi_wait W E n r stat = MPI_Wait W E n r (c_status stat)"

definition fortran_mpi_waitall where
  "fortran_mpi_waitall W E n count rs stats = MPI_Waitall W E n count rs (c_statuses stats)"

definition fortran_mpi_request_free where
  "fortran_mpi_request_free W E r = MPI_Request_free W E r"

definition fortran_mpi_file_open where
  "fortran_mpi_file_open W E comm filename amode inh = MPI_File_open W E comm filename amode inh"

definition fortran_mpi_file_close where
  "fortran_mpi_file_close W E fh = MPI_File_close W E fh"

definition fortran_mpi_file_read_all where
  "fortran_mpi_file_read_all W E fh count typ stat = MPI_File_read_all W E fh count typ (c_status stat)"

definition fortran_mpi_file_read_at where
  "fortran_mpi_file_read_at W E fh offset count typ stat = MPI_File_read_at W E fh offset count typ (c_status stat)"

definition fortran_mpi_file_write_at where
  "fortran_mpi_file_write_at W E fh offset buf count typ stat = MPI_File_write_at W E fh offset buf count typ (c_status stat)"

definition fortran_mpi_file_set_view where
  "fortran_mpi_file_set_view W E fh disp etype filetype datarep inh = MPI_File_set_view W E fh disp etype filetype datarep inh"

definition fortran_mpi_file_write_all where
  "fortran_mpi_file_write_all W E fh buf count typ stat = MPI_File_write_all W E fh buf count typ (c_status stat)"

definition fortran_mpi_info_set where
  "fortran_mpi_info_set W E inh key value = MPI_Info_set W E inh key value"

definition fortran_mpi_info_create where
  "fortran_mpi_info_create W E = MPI_Info_create W E"

definition fortran_mpi_info_delete where
  "fortran_mpi_info_delete W E inh key = MPI_Info_delete W E inh key"

definition fortran_mpi_info_free where
  "fortran_mpi_info_free W E inh = MPI_Info_free W E inh"

definition fortran_mpi_type_free where
  "fortran_mpi_type_free W E typ = MPI_Type_free W E typ"

definition fortran_mpi_type_commit where
  "fortran_mpi_type_commit W E typ = MPI_Type_commit W E typ"

definition fortran_mpi_type_contiguous where
  "fortran_mpi_type_contiguous W E count oldtype = MPI_Type_contiguous W E count oldtype"

definition fortran_mpi_type_create_indexed_block where
  "fortran_mpi_type_create_indexed_block W E count blocklength disps oldtype = MPI_Type_create_indexed_block W E count blocklength disps oldtype"

definition fortran_mpi_type_get_envelope where
  "fortran_mpi_type_get_envelope W E typ = MPI_Type_get_envelope W E typ"

definition fortran_mpi_type_hvector where
  "fortran_mpi_type_hvector W E count blocklen stride oldtype = MPI_Type_hvector W E count blocklen stride oldtype"

definition fortran_mpi_type_ub where
  "fortran_mpi_type_ub W E typ = MPI_Type_ub W E typ"

definition fortran_mpi_type_indexed where
  "fortran_mpi_type_indexed W E count blocklens indices oldtype = MPI_Type_indexed W E count blocklens indices oldtype"

definition fortran_mpi_get_count where
  "fortran_mpi_get_count W E stat typ = MPI_Get_count W E (c_status stat) typ"

definition fortran_mpi_intercomm_create where
  "fortran_mpi_intercomm_create W E local_comm = MPI_Intercomm_create W E local_comm"

definition fortran_mpi_intercomm_merge where
  "fortran_mpi_intercomm_merge W E intercomm = MPI_Intercomm_merge W E intercomm"

definition fortran_mpi_op_create where
  "fortran_mpi_op_create W E local_err_intern f commute = MPI_Op_create W E local_err_intern f commute"

definition fortran_mpi_pack where
  "fortran_mpi_pack W E inbuf incount typ outbuf outcount position comm = MPI_Pack W E inbuf incount typ outbuf outcount position comm"

definition fortran_mpi_pack_size where
  "fortran_mpi_pack_size W E incount typ comm = MPI_Pack_size W E incount typ comm"

definition fortran_mpi_unpack where
  "fortran_mpi_unpack W E inbuf insize position outbuf outcount typ comm = MPI_Unpack W E inbuf insize position outbuf outcount typ comm"

end
