(* ===== verification/Checksum.thy ===== *)
theory Checksum
  imports Data_Message
begin

text \<open>
  The checksum that \<^verbatim>\<open>src/frontend/empi_wrapper.c\<close> prints for a buffer when calls are traced
  (\<open>gen_crc16\<close>), a cyclic redundancy check that takes the bits of the data one after the other, and what
  makes it one: it is linear, and notices every change within sixteen consecutive bits.
\<close>

definition CRC16 :: u16 where "CRC16 = 0x8005"

text \<open>What both loops do with the register: shift a bit in, and reduce when one has been shifted out.\<close>

definition crc_step :: "bool \<Rightarrow> u16 \<Rightarrow> u16" where
  "crc_step b out =
     (let bit_flag = drop_bit 15 out;
          out' = push_bit 1 out OR of_bool b in
      if bit_flag \<noteq> 0 then out' XOR CRC16 else out')"

text \<open>The loop over the data: \<open>bits_read\<close> bits of the first byte are done.\<close>

function crc_loop :: "byte list \<Rightarrow> nat \<Rightarrow> u16 \<Rightarrow> u16" where
  "crc_loop [] bits_read out = out"
| "crc_loop (d # ds) bits_read out =
     (let out' = crc_step (bit (drop_bit bits_read d AND 1) 0) out in
      if bits_read + 1 > 7 then crc_loop ds 0 out' else crc_loop (d # ds) (bits_read + 1) out')"
  by pat_completeness auto

termination
  by (relation "measures [\<lambda>(ds, bits_read, out). length ds, \<lambda>(ds, bits_read, out). 8 - bits_read]") auto

text \<open>The loop that reverses the register: \<open>k\<close> runs over the bits of \<open>crc\<close>.\<close>

fun crc_reverse :: "nat \<Rightarrow> u16 \<Rightarrow> u16 \<Rightarrow> u16" where
  "crc_reverse 0 out crc = crc"
| "crc_reverse (Suc n) out crc =
     crc_reverse n out (if push_bit n 1 AND out \<noteq> 0 then crc OR push_bit (15 - n) 1 else crc)"

text \<open>The data are the bytes behind the pointer; reading behind them is not defined.\<close>

definition gen_crc16 :: "byte list option \<Rightarrow> int \<Rightarrow> u16 run" where
  "gen_crc16 data sz =
     (case data of
        None \<Rightarrow> Some 0
      | Some bs \<Rightarrow>
          if int (length bs) < sz then None
          else Some (crc_reverse 16 ((crc_step False ^^ 16) (crc_loop (take (nat sz) bs) 0 0)) 0))"

section \<open>The bits of the data\<close>

definition bits_of_byte :: "byte \<Rightarrow> bool list" where
  "bits_of_byte d = map (bit d) [0 ..< 8]"

definition bits_of :: "byte list \<Rightarrow> bool list" where
  "bits_of ds = concat (map bits_of_byte ds)"

lemma length_bits_of [simp]: "length (bits_of ds) = 8 * length ds"
  by (induction ds) (simp_all add: bits_of_def bits_of_byte_def)

lemma bits_of_Cons: "bits_of (d # ds) = bits_of_byte d @ bits_of ds" "length (bits_of_byte d) = 8"
  by (simp_all add: bits_of_def bits_of_byte_def)

lemma bits_of_inj: "bits_of xs = bits_of ys \<Longrightarrow> length xs = length ys \<Longrightarrow> xs = ys"
proof (induction xs ys rule: list_induct2')
  case (4 x xs y ys)
  have "bits_of_byte x = bits_of_byte y" "bits_of xs = bits_of ys"
    using 4(2) by (simp_all add: bits_of_def bits_of_byte_def)
  moreover from this(1) have "x = y"
    by (intro bit_word_eqI) (auto simp: bits_of_byte_def)
  ultimately show ?case using 4 by simp
qed simp_all

lemma crc_loop_byte:
  "k \<le> 7 \<Longrightarrow> crc_loop (d # ds) k out = crc_loop ds 0 (fold crc_step (map (bit d) [k ..< 8]) out)"
proof (induction "7 - k" arbitrary: k out)
  case 0
  then have "k = 7" by simp
  then show ?case by (simp add: Let_def bit_simps)
next
  case (Suc n)
  then have k: "n = 7 - Suc k" "Suc k \<le> 7" by simp_all
  have "[k ..< 8] = k # [Suc k ..< 8]" using k(2) by (simp add: upt_conv_Cons)
  moreover have "crc_loop (d # ds) k out = crc_loop (d # ds) (Suc k) (crc_step (bit d k) out)"
    using k(2) by (subst crc_loop.simps) (simp add: Let_def bit_simps)
  ultimately show ?case using Suc.hyps(1) [OF k] by simp
qed

lemma crc_loop_bits: "crc_loop ds 0 out = fold crc_step (bits_of ds) out"
  by (induction ds arbitrary: out) (simp_all only: crc_loop.simps(1) crc_loop_byte, simp_all add: bits_of_def bits_of_byte_def)

section \<open>Linearity\<close>

lemma crc_flag: "drop_bit 15 (out :: u16) \<noteq> 0 \<longleftrightarrow> bit out 15"
proof -
  have "\<not> bit out (15 + n)" if "0 < n" for n using that bit_imp_le_length [of out "15 + n"] by auto
  then have "drop_bit 15 out = of_bool (bit out 15)"
    by (intro bit_word_eqI) (auto simp: bit_simps, (metis add.right_neutral not_gr_zero)+)
  then show ?thesis by simp
qed

lemma bit_crc_step:
  "n < 16 \<Longrightarrow> bit (crc_step b out) n =
     ((if n = 0 then b else bit out (n - 1)) \<noteq> (bit out 15 \<and> bit CRC16 n))"
  by (auto simp: crc_step_def crc_flag Let_def bit_simps mult.commute [of _ "2 :: u16"] bit_double_iff)

lemma crc_step_xor: "crc_step (a \<noteq> b) (x XOR y) = crc_step a x XOR crc_step b y"
  by (rule bit_word_eqI) (auto simp: bit_crc_step bit_simps)

lemma crc_step_zero [simp]: "crc_step False 0 = 0"
  by (simp add: crc_step_def)

text \<open>Without the bit that comes in the step is injective: the generator has a constant term.\<close>

lemma crc_step_False_nonzero: "x \<noteq> 0 \<Longrightarrow> crc_step False x \<noteq> 0"
proof -
  assume "x \<noteq> 0"
  then obtain n where n: "bit x n" by (auto simp: bit_eq_iff)
  then have n16: "n < 16" using bit_imp_le_length [of x n] by simp
  show ?thesis
  proof (cases "bit x 15")
    case True
    then have "bit (crc_step False x) 0" by (simp add: bit_crc_step CRC16_def)
    then show ?thesis by auto
  next
    case False
    with n n16 have "Suc n < 16" by (cases "n = 15") simp_all
    with n have "bit (crc_step False x) (Suc n)" using False by (simp add: bit_crc_step)
    then show ?thesis by auto
  qed
qed

lemma fold_crc_xor:
  "length xs = length ys \<Longrightarrow>
   fold crc_step (map2 (\<noteq>) xs ys) (x XOR y) = fold crc_step xs x XOR fold crc_step ys y"
  by (induction xs ys arbitrary: x y rule: list_induct2) (simp_all add: crc_step_xor [simplified])

lemma fold_crc_zeros: "fold crc_step (replicate n False) x = (crc_step False ^^ n) x"
  by (induction n arbitrary: x) (simp_all add: funpow_swap1)

lemma crc_zeros_nonzero: "x \<noteq> 0 \<Longrightarrow> (crc_step False ^^ n) x \<noteq> 0"
  by (induction n) (simp_all add: crc_step_False_nonzero)

lemma crc_zeros_zero: "(crc_step False ^^ n) 0 = 0"
  by (induction n) simp_all

lemma crc_zeros_xor: "(crc_step False ^^ n) (x XOR y) = (crc_step False ^^ n) x XOR (crc_step False ^^ n) y"
  using crc_step_xor [of False False] by (induction n) simp_all

text \<open>Up to sixteen bits fill the register without a reduction.\<close>

lemma fold_crc_short:
  "length bs \<le> 16 \<Longrightarrow> n < 16 \<Longrightarrow>
   bit (fold crc_step bs 0) n \<longleftrightarrow> n < length bs \<and> bs ! (length bs - 1 - n)"
proof (induction bs arbitrary: n rule: rev_induct)
  case (snoc b bs)
  have "\<not> bit (fold crc_step bs 0) 15" using snoc.IH [of 15] snoc.prems(1) by simp
  moreover have "bit (fold crc_step bs 0) (n - 1) \<longleftrightarrow> n - 1 < length bs \<and> bs ! (length bs - 1 - (n - 1))"
    using snoc.IH [of "n - 1"] snoc.prems by simp
  ultimately show ?case using snoc.prems(2) by (cases n) (auto simp: bit_crc_step nth_append)
qed simp

lemma fold_crc_burst:
  assumes "length bs \<le> 16" "True \<in> set bs"
  shows "fold crc_step bs 0 \<noteq> 0"
proof -
  from assms(2) obtain k where k: "k < length bs" "bs ! k" by (auto simp: in_set_conv_nth)
  then have "bit (fold crc_step bs 0) (length bs - 1 - k)" using fold_crc_short [OF assms(1), of "length bs - 1 - k"] assms(1) by auto
  then show ?thesis by auto
qed

section \<open>The reversal\<close>

lemma crc_reverse_bit: "push_bit n 1 AND out \<noteq> (0 :: u16) \<longleftrightarrow> n < 16 \<and> bit out n"
proof -
  have "push_bit n 1 AND out = (if n < 16 \<and> bit out n then push_bit n 1 else 0)"
    by (rule bit_word_eqI) (auto simp: bit_simps)
  moreover have "n < 16 \<Longrightarrow> push_bit n (1 :: u16) \<noteq> 0" by (simp add: push_bit_eq_0_iff)
  ultimately show ?thesis by auto
qed

lemma bit_crc_reverse:
  "k \<le> 16 \<Longrightarrow> n < 16 \<Longrightarrow> bit (crc_reverse k out crc) n \<longleftrightarrow> bit crc n \<or> (15 - n < k \<and> bit out (15 - n))"
proof (induction k arbitrary: crc)
  case (Suc k)
  then have n: "k = 15 - n \<longleftrightarrow> n = 15 - k" "k < 16" by auto
  then have "crc_reverse (Suc k) out crc =
      crc_reverse k out (if bit out k then crc OR push_bit (15 - k) 1 else crc)"
    by (simp only: crc_reverse.simps crc_reverse_bit simp_thms)
  with Suc n show ?case by (auto simp: bit_simps less_Suc_eq)
qed simp

lemma crc_reverse_inj: "crc_reverse 16 x 0 = crc_reverse 16 y 0 \<Longrightarrow> x = y"
proof (rule bit_word_eqI)
  fix n assume eq: "crc_reverse 16 x 0 = crc_reverse 16 y 0" and "n < LENGTH(16)"
  then have "n < 16" "15 - n < 16" "15 - (15 - n) = n" by simp_all
  then show "bit x n = bit y n" using bit_crc_reverse [of 16 "15 - n" x 0] bit_crc_reverse [of 16 "15 - n" y 0] eq by simp
qed

section \<open>Changes are noticed\<close>

lemma window_split:
  assumes "\<And>n. n < length bs \<Longrightarrow> n < i \<or> i + 16 \<le> n \<Longrightarrow> \<not> bs ! n" "True \<in> set bs"
  obtains j w k where "bs = replicate j False @ w @ replicate k False" "length w \<le> 16" "True \<in> set w"
proof -
  have "take i bs = replicate (length (take i bs)) False" "drop (i + 16) bs = replicate (length (drop (i + 16) bs)) False"
    using assms(1) by (auto intro!: nth_equalityI)
  moreover have "bs = take i bs @ take 16 (drop i bs) @ drop (i + 16) bs"
    by (metis append_take_drop_id drop_drop add.commute)
  ultimately have split: "bs = replicate (length (take i bs)) False @ take 16 (drop i bs) @ replicate (length (drop (i + 16) bs)) False"
    by metis
  have "True \<in> set (take 16 (drop i bs))"
  proof -
    have "set bs = set (replicate (length (take i bs)) False) \<union> set (take 16 (drop i bs)) \<union>
        set (replicate (length (drop (i + 16) bs)) False)"
      using arg_cong [OF split, of set] by (simp only: set_append Un_assoc)
    with assms(2) show ?thesis by (auto split: if_splits)
  qed
  with split show thesis by (intro that) simp_all
qed

lemma fold_crc_window:
  "fold crc_step (replicate j False @ w @ replicate k False) 0 = (crc_step False ^^ k) (fold crc_step w 0)"
  by (simp only: fold_append comp_apply fold_crc_zeros crc_zeros_zero)

lemma crc_of_difference:
  assumes "length xs = length ys" "xs \<noteq> ys"
    and "\<And>n. n < 8 * length xs \<Longrightarrow> n < i \<or> i + 16 \<le> n \<Longrightarrow> bits_of xs ! n = bits_of ys ! n"
  shows "crc_loop xs 0 0 XOR crc_loop ys 0 0 \<noteq> 0"
proof -
  let ?d = "map2 (\<noteq>) (bits_of xs) (bits_of ys)"
  have len: "length (bits_of xs) = length (bits_of ys)" using assms(1) by simp
  have "bits_of xs \<noteq> bits_of ys" using bits_of_inj assms(1,2) by blast
  with len obtain n where n: "n < length (bits_of xs)" "bits_of xs ! n \<noteq> bits_of ys ! n" by (auto simp: list_eq_iff_nth_eq)
  with len have "n < length ?d" "?d ! n" by simp_all
  then have "True \<in> set ?d" by (metis (full_types) nth_mem)
  moreover have "\<not> ?d ! n" if "n < length ?d" "n < i \<or> i + 16 \<le> n" for n using assms(1,3) that by auto
  ultimately obtain j w k where d: "?d = replicate j False @ w @ replicate k False" "length w \<le> 16" "True \<in> set w"
    using window_split [of ?d i] by blast
  have "crc_loop xs 0 0 XOR crc_loop ys 0 0 = fold crc_step ?d 0"
    unfolding crc_loop_bits fold_crc_xor [OF len, symmetric] by (simp only: xor_self_eq)
  also have "\<dots> = (crc_step False ^^ k) (fold crc_step w 0)"
    unfolding d(1) by (rule fold_crc_window)
  finally show ?thesis using crc_zeros_nonzero [OF fold_crc_burst [OF d(2,3)]] by simp
qed

end
