(* ===== verification/Front_Properties.thy ===== *)
theory Front_Properties
  imports Fortran Checksum Wait_Properties
begin

text \<open>
  What the functions that the application calls add to the backend: the statistics of a run, the indices of
  Fortran, and the checksum of the traces.
\<close>

section \<open>The checksum\<close>

text \<open>
  C35: The checksum that the traces print for a buffer notices every change that lies within sixteen
  consecutive bits (a changed short, two neighbouring bytes, any single bit), wherever it is and however long the
  buffer.
\<close>

theorem crc_detects_bursts:
  assumes "length xs = length ys" "xs \<noteq> ys"
    and "\<forall>n < 8 * length xs. n < i \<or> i + 16 \<le> n \<longrightarrow> bits_of xs ! n = bits_of ys ! n"
  shows "\<exists>a b. gen_crc16 (Some xs) (int (length xs)) = Some a \<and> gen_crc16 (Some ys) (int (length ys)) = Some b \<and> a \<noteq> b"
proof -
  have "(crc_step False ^^ 16) (crc_loop xs 0 0 XOR crc_loop ys 0 0) \<noteq> 0"
    using crc_of_difference [of xs ys i] assms by (intro crc_zeros_nonzero) simp
  then have "(crc_step False ^^ 16) (crc_loop xs 0 0) \<noteq> (crc_step False ^^ 16) (crc_loop ys 0 0)"
    unfolding crc_zeros_xor by auto
  then show ?thesis using crc_reverse_inj by (auto simp: gen_crc16_def)
qed

theorem crc_detects_bursts_witness:
  "\<exists>a b. gen_crc16 (Some [1, 2, 3, 4]) 4 = Some a \<and> gen_crc16 (Some [1, 130, 2, 4]) 4 = Some b \<and> a \<noteq> b"
proof -
  have "\<forall>n < 8 * length [1, 2, 3, 4 :: byte]. n < 8 \<or> 8 + 16 \<le> n \<longrightarrow> bits_of [1, 2, 3, 4] ! n = bits_of [1, 130, 2, 4] ! n"
    by (auto simp: bits_of_Cons nth_append)
  from crc_detects_bursts [OF _ _ this] show ?thesis by simp
qed

section \<open>The statistics\<close>

text \<open>
  What happens to the statistics between their beginning and their end: a call of the library is added, or the
  application asks for the statistics of the current interval (\<open>dump_profile_info\<close>, with two readings of the clock).
\<close>

datatype event = Timed timed_call | Dump u64 u64

fun play :: "bool \<Rightarrow> (nat \<Rightarrow> nat \<Rightarrow> bool) \<Rightarrow> event list \<Rightarrow> profiling \<Rightarrow> (report list \<times> profiling) run" where
  "play ef ok [] p = Some ([], p)"
| "play ef ok (Timed (i, f, t) # es) p = do {
     p \<leftarrow> profile_add_statistics ef (ok (length es)) (int i) (int f) t p;
     play ef ok es p
   }"
| "play ef ok (Dump now later # es) p = do {
     (r, p) \<leftarrow> dump_profile_info now later p;
     (rs, p) \<leftarrow> play ef ok es p;
     Some ((case r of None \<Rightarrow> rs | Some x \<Rightarrow> x # rs), p)
   }"

fun calls :: "event list \<Rightarrow> timed_call list" where
  "calls [] = []"
| "calls (Timed c # es) = c # calls es"
| "calls (Dump a b # es) = calls es"

text \<open>What a report says of these calls, when \<open>all\<close> calls have been made so far.\<close>

definition summary :: "string list \<Rightarrow> timed_call list \<Rightarrow> timed_call list \<Rightarrow> row list \<times> u64 \<times> u32" where
  "summary names all shown = (rows_of names all shown, sum_list (map (snd \<circ> snd) shown), word_of_nat (length shown))"

definition contents :: "report \<Rightarrow> row list \<times> u64 \<times> u32" where
  "contents r = (rp_rows r, rp_ticks r, rp_use r)"

lemma contents_report [simp]:
  "contents \<lparr>rp_interval = i, rp_rows = rows, rp_elapsed = e, rp_ticks = t, rp_use = u\<rparr> = (rows, t, u)"
  by (simp add: contents_def)

text \<open>The dumps: each the calls \<open>new\<close> since the last one.\<close>

fun dumps :: "string list \<Rightarrow> timed_call list \<Rightarrow> timed_call list \<Rightarrow> event list \<Rightarrow> (row list \<times> u64 \<times> u32) list" where
  "dumps names old new [] = []"
| "dumps names old new (Timed c # es) = dumps names old (new @ [c]) es"
| "dumps names old new (Dump a b # es) = summary names (old @ new) new # dumps names (old @ new) [] es"

lemma play_run:
  assumes "records p old new" "FIELDS_PER_PROFILE < length (statistic_names p)" "\<forall>n k. ok n k"
    "\<forall>c \<in> set new. in_range c" "\<forall>c \<in> set (calls es). in_range c"
  shows "\<exists>rs q old' new'. play ef ok es p = Some (rs, q) \<and> map contents rs = dumps (statistic_names p) old new es \<and>
    records q old' new' \<and> old' @ new' = old @ new @ calls es \<and> statistic_names q = statistic_names p"
  using assms
proof (induction ef ok es p arbitrary: old new rule: play.induct)
  case (2 ef ok i f t es p)
  have "i < MAX_PROFILES" "f < FIELDS_PER_PROFILE" using 2(6) by (simp_all add: in_range_def)
  from profile_add_run [OF 2(2) _ this, of "ok (length es)" ef t] 2(4) obtain p' where
    p': "profile_add_statistics ef (ok (length es)) (int i) (int f) t p = Some p'" "records p' old (new @ [(i, f, t)])"
      "statistic_names p' = statistic_names p" by blast
  have "FIELDS_PER_PROFILE < length (statistic_names p')" "\<forall>c \<in> set (new @ [(i, f, t)]). in_range c" "\<forall>c \<in> set (calls es). in_range c"
    using 2(3,5,6) p'(3) by simp_all
  from 2(1) [OF p'(1,2) this(1) 2(4) this(2,3)] show ?case by (simp only: play.simps p'(1,3) bind.bind_lunit dumps.simps calls.simps) simp
next
  case (3 ef ok now later es p)
  from dump_run [OF 3(2,3,5), of now later] obtain e i p' where
    p': "dump_profile_info now later p = Some (Some \<lparr>rp_interval = i, rp_rows = rows_of (statistic_names p) (old @ new) new,
      rp_elapsed = e, rp_ticks = sum_list (map (snd \<circ> snd) new), rp_use = word_of_nat (length new)\<rparr>, p')"
      "records p' (old @ new) []" "statistic_names p' = statistic_names p" by blast
  have "FIELDS_PER_PROFILE < length (statistic_names p')" "\<forall>c \<in> set []. in_range c"
    "\<forall>c \<in> set (calls es). in_range c" using 3(3,6) p'(3) by simp_all
  from 3(1) [OF p'(1) refl p'(2) this(1) 3(4) this(2,3)] p'(3) obtain rs q old' new' where
    "play ef ok es p' = Some (rs, q)" "map contents rs = dumps (statistic_names p) (old @ new) [] es" "records q old' new'"
    "old' @ new' = (old @ new) @ [] @ calls es" "statistic_names q = statistic_names p" by (simp only: append_Nil) blast
  then show ?case by (simp add: p'(1) summary_def) blast
qed auto

text \<open>
  C36: However the calls and the requests for the statistics alternate, each report shows for every communicator
  and kind of call the number of calls and the time spent in the interval it closes, and the last one those of the
  whole run: no call is lost, and none is counted twice.
\<close>

theorem profile_totals:
  assumes "FIELDS_PER_PROFILE < length names" "\<forall>n k. ok n k" "\<forall>c \<in> set (calls es). in_range c"
  shows "\<exists>rs q r q'. play ef ok es (profile_init names start p) = Some (rs, q) \<and> map contents rs = dumps names [] [] es \<and>
    profile_finalize stop q = Some (Some r, q') \<and> contents r = summary names (calls es) (calls es)"
proof -
  have "statistic_names (profile_init names start p) = names" by (simp add: profile_init_def)
  with play_run [OF records_init _ assms(2) _ assms(3), of names start p ef] assms(1) obtain rs q old new where
    q: "play ef ok es (profile_init names start p) = Some (rs, q)" "map contents rs = dumps names [] [] es" "records q old new"
      "old @ new = calls es" "statistic_names q = names" by auto
  with finalize_run [of q old new stop] assms(1,3) show ?thesis by (fastforce simp: summary_def)
qed

definition ex_events :: "event list" where
  "ex_events = [Timed (0, 1, 5), Timed (2, 9, 7), Dump 20 21, Timed (0, 1, 8)]"

theorem profile_totals_witness:
  "\<exists>rs q r q'. play False (\<lambda>_ _. True) ex_events (profile_init stats_names 3
      \<lparr>statistic_names = [], total_use = \<lambda>_. None, total_ticks = \<lambda>_. None, current_use = \<lambda>_. None, current_ticks = \<lambda>_. None,
        running = 0, start_ticks = 0, current_start_ticks = 0, current_interval = 0\<rparr>) = Some (rs, q) \<and>
    map (snd \<circ> contents) rs = [(12, 2)] \<and> profile_finalize 30 q = Some (Some r, q') \<and> snd (contents r) = (20, 3)"
proof -
  have "\<forall>c \<in> set (calls ex_events). in_range c"
    by (simp add: ex_events_def in_range_def FIELDS_PER_PROFILE_def MAX_PROFILES_def)
  from profile_totals [OF _ _ this, of stats_names "\<lambda>_ _. True"] show ?thesis
    by (fastforce simp: stats_names_def FIELDS_PER_PROFILE_def ex_events_def summary_def)
qed

section \<open>A run of an application\<close>















definition ex_front_env :: front_env where
  "ex_front_env = \<lparr>PROFILE_LEVEL = 1, TRACE_ERRORS = True, fe_ticks = (\<lambda>k. word_of_nat (k * k)), fe_calloc = (\<lambda>n k. True)\<rparr>"

definition ex_profiling :: profiling where
  "ex_profiling = \<lparr>statistic_names = [], total_use = \<lambda>_. None, total_ticks = \<lambda>_. None, current_use = \<lambda>_. None,
     current_ticks = \<lambda>_. None, running = 0, start_ticks = 0, current_start_ticks = 0, current_interval = 0\<rparr>"

definition ex_front :: "(byte, nat) proc front" where
  "ex_front = \<lparr>fr_backend = ex_process [], fr_profiling = profile_init stats_names 3 ex_profiling, fr_reports = [], fr_reads = 1\<rparr>"


text \<open>A call that returns has made that of the backend, whatever is profiled and traced.\<close>

lemma trace_errors_Some: "trace_errors W ef e (ret r) s = Some (Some r', s') \<Longrightarrow> r' = r"
  by (auto simp: trace_errors_def split: if_splits)

lemma on_backend_Some: "on_backend m s = Some (Some r, s') \<Longrightarrow> m (fr_backend s) = Some (Some r, fr_backend s')"
  by (auto simp: on_backend_def)

lemma backend_of_wrapped:
  assumes "wrapped W ef comm field error_of call s = Some (Some r, s')"
  shows "\<exists>b b'. call b = Some (Some r, b')"
  using assms
  by (auto simp: wrapped_def timed_call_def andthen_Some split: if_splits dest!: trace_errors_Some on_backend_Some)

section \<open>The indices of Fortran\<close>

text \<open>One pass over the requests: which index it returns, and that requests which are null stay so.\<close>

definition nulls_kept :: "int list \<Rightarrow> int list \<Rightarrow> bool" where
  "nulls_kept hs hs' \<longleftrightarrow> length hs' = length hs \<and> (\<forall>j < length hs. hs ! j = EMPI_REQUEST_NULL \<longrightarrow> hs' ! j = EMPI_REQUEST_NULL)"

lemma nulls_kept_refl [simp]: "nulls_kept hs hs" and
  nulls_kept_trans: "nulls_kept hs hs' \<Longrightarrow> nulls_kept hs' hs'' \<Longrightarrow> nulls_kept hs hs''"
  by (auto simp: nulls_kept_def)

lemma nulls_kept_write: "arr_read hs i = Some h \<Longrightarrow> h \<noteq> EMPI_REQUEST_NULL \<Longrightarrow> arr_write hs i h' = Some hs' \<Longrightarrow> nulls_kept hs hs'"
  by (auto simp: nulls_kept_def arr_read_def arr_write_def nth_list_update split: if_splits)

lemma waitany_scan_index:
  assumes "waitany_scan E n k i hs undef flag st s = Some (Some (r, hs', st'), s')" "0 \<le> i"
  shows "nulls_kept hs hs' \<and> (case r of
      Inl (error, j) \<Rightarrow> i \<le> j \<and> j < i + int k \<and> nat j < length hs \<and> hs ! nat j \<noteq> EMPI_REQUEST_NULL
    | Inr (undef', flag') \<Rightarrow> undef \<le> undef' \<and> undef' \<le> undef + int k \<and>
        (undef' = undef + int k \<longrightarrow> (\<forall>j. i \<le> j \<and> j < i + int k \<longrightarrow> hs ! nat j = EMPI_REQUEST_NULL \<and> nat j < length hs)))"
  using assms
proof (induction k arbitrary: i hs undef flag st s)
  case (Suc k)
  from Suc.prems(1) obtain h where h: "arr_read hs i = Some h" by (cases "arr_read hs i") simp_all
  then have i: "nat i < length hs" "hs ! nat i = h" by (auto simp: arr_read_def split: if_splits)
  show ?case
  proof (cases "h = EMPI_REQUEST_NULL")
    case True
    with Suc.prems(1) h have "waitany_scan E n k (i + 1) hs (undef + 1) flag st s = Some (Some (r, hs', st'), s')" by simp
    from Suc.IH [OF this] Suc.prems(2) have IH: "nulls_kept hs hs' \<and> (case r of
        Inl (error, j) \<Rightarrow> i + 1 \<le> j \<and> j < i + 1 + int k \<and> nat j < length hs \<and> hs ! nat j \<noteq> EMPI_REQUEST_NULL
      | Inr (undef', flag') \<Rightarrow> undef + 1 \<le> undef' \<and> undef' \<le> undef + 1 + int k \<and> (undef' = undef + 1 + int k \<longrightarrow>
          (\<forall>j. i + 1 \<le> j \<and> j < i + 1 + int k \<longrightarrow> hs ! nat j = EMPI_REQUEST_NULL \<and> nat j < length hs)))" by (cases r) (simp_all add: add.assoc)
    show ?thesis
    proof (cases r)
      case (Inl p)
      with IH show ?thesis by (auto split: prod.splits)
    next
      case (Inr p)
      then obtain undef' flag' where r: "r = Inr (undef', flag')" by (cases p) auto
      with IH have later: "hs ! nat j = EMPI_REQUEST_NULL \<and> nat j < length hs"
        if "undef' = undef + int (Suc k)" "i + 1 \<le> j" "j < i + int (Suc k)" for j using that by simp
      have "hs ! nat j = EMPI_REQUEST_NULL \<and> nat j < length hs"
        if "undef' = undef + int (Suc k)" "i \<le> j" "j < i + int (Suc k)" for j
        using later [OF that(1) _ that(3)] that(2) i True by (cases "j = i") simp_all
      with IH show ?thesis unfolding r by simp
    qed
  next
    case False
    with Suc.prems(1) h obtain error h' flag' st1 s1 hs1 where w: "arr_write hs i h' = Some hs1"
      and rest: "(if error \<noteq> EMPI_SUCCESS then ret (Inl (EMPI_ERR_IN_STATUS, i), hs1, st1)
        else if flag' \<noteq> 0 then ret (Inl (EMPI_SUCCESS, i), hs1, st1)
        else waitany_scan E n k (i + 1) hs1 undef flag' st1) s1 = Some (Some (r, hs', st'), s')"
      by (auto simp: andthen_Some lift_def bind_eq_Some_conv)
    have kept: "nulls_kept hs hs1" by (rule nulls_kept_write [OF h False w])
    show ?thesis
    proof (cases "error \<noteq> EMPI_SUCCESS \<or> flag' \<noteq> 0")
      case True
      then show ?thesis using rest kept i False by (auto split: if_splits)
    next
      case False
      with rest have "waitany_scan E n k (i + 1) hs1 undef flag' st1 s1 = Some (Some (r, hs', st'), s')" by simp
      from Suc.IH [OF this] Suc.prems(2) kept show ?thesis
        by (cases r) (auto intro: nulls_kept_trans simp: nulls_kept_def split: prod.splits)
    qed
  qed
qed auto

lemma waitany_loop_index:
  assumes "waitany_loop E n turns count hs flag st s = Some (Some (error, index, hs', st'), s')" "error = EMPI_SUCCESS"
  shows "nulls_kept hs hs' \<and>
    (index = EMPI_UNDEFINED \<and> 0 \<le> count \<and> (\<forall>j < nat count. j < length hs' \<and> hs' ! j = EMPI_REQUEST_NULL) \<or>
     0 \<le> index \<and> index < count \<and> nat index < length hs \<and> hs ! nat index \<noteq> EMPI_REQUEST_NULL)"
  using assms
proof (induction turns arbitrary: hs flag st s)
  case (Suc turns)
  from Suc.prems(1) obtain r hs1 st1 s1 where scan: "waitany_scan E n (nat count) 0 hs 0 flag st s = Some (Some (r, hs1, st1), s1)"
    and rest: "(case r of Inl (error, i) \<Rightarrow> ret (error, i, hs1, st1)
      | Inr (undef, flag') \<Rightarrow>
         if undef = count then ret (EMPI_SUCCESS, EMPI_UNDEFINED, hs1, clear_status st1)
         else waitany_loop E n turns count hs1 flag' st1) s1 = Some (Some (error, index, hs', st'), s')"
    by (auto simp: andthen_Some)
  note pass = waitany_scan_index [OF scan order_refl]
  show ?case
  proof (cases r)
    case (Inl p)
    then show ?thesis using rest pass by (auto split: prod.splits if_splits)
  next
    case (Inr p)
    then obtain undef flag' where r: "r = Inr (undef, flag')" by (cases p) auto
    show ?thesis
    proof (cases "undef = count")
      case True
      have null: "hs ! j = EMPI_REQUEST_NULL \<and> j < length hs" if "j < nat count" "0 \<le> count" for j
        using pass that True unfolding r by (auto dest: spec [of _ "int j"])
      have "0 \<le> count" using pass True unfolding r by (cases "0 \<le> count") auto
      with null True rest pass show ?thesis unfolding r by (auto simp: nulls_kept_def)
    next
      case False
      with rest have "waitany_loop E n turns count hs1 flag' st1 s1 = Some (Some (error, index, hs', st'), s')"
        unfolding r by simp
      from Suc.IH [OF this Suc.prems(2)] pass show ?thesis
        unfolding r by (auto intro: nulls_kept_trans simp: nulls_kept_def)
    qed
  qed
qed simp

text \<open>
  C38: When waiting for any of several requests from Fortran succeeds, the index counts from 1 and is that of
  a request that was active; or it is \<^verbatim>\<open>MPI_UNDEFINED\<close>, and then no request of the array is active any more.
\<close>

theorem fortran_waitany_index:
  assumes "fortran_mpi_waitany W E n count rs stat s = Some (Some (EMPI_SUCCESS, index, rs', stat'), s')"
  shows "(\<exists>j < length rs. index = Some (int j + 1) \<and> int j < count \<and> rs ! j \<noteq> EMPI_REQUEST_NULL) \<or>
    (index = Some EMPI_UNDEFINED \<and> 0 \<le> count \<and> count \<le> int (length rs') \<and> (\<forall>h \<in> set (take (nat count) rs'). h = EMPI_REQUEST_NULL))"
proof -
  from assms obtain cindex s1 where c: "MPI_Waitany W E n count rs (c_status stat) s = Some (Some (EMPI_SUCCESS, cindex, rs', stat'), s1)"
    and index: "index = Some (if cindex = EMPI_UNDEFINED then EMPI_UNDEFINED else cindex + 1)"
    by (auto simp: fortran_mpi_waitany_def andthen_Some)
  from backend_of_wrapped [OF c [unfolded MPI_Waitany_def]] obtain b b' where
    "EMPI_Waitany E n count rs (c_status stat) b = Some (Some (EMPI_SUCCESS, cindex, rs', stat'), b')" by blast
  from waitany_loop_index [OF this [unfolded EMPI_Waitany_def] refl] show ?thesis
  proof (elim conjE disjE)
    assume u: "cindex = EMPI_UNDEFINED" "0 \<le> count" and null: "\<forall>j < nat count. j < length rs' \<and> rs' ! j = EMPI_REQUEST_NULL"
    have "nat count \<le> length rs'"
    proof (rule ccontr)
      assume "\<not> nat count \<le> length rs'"
      then have "length rs' < nat count" by simp
      with null show False by blast
    qed
    with null have "\<forall>h \<in> set (take (nat count) rs'). h = EMPI_REQUEST_NULL" by (auto simp: in_set_conv_nth)
    with u index \<open>nat count \<le> length rs'\<close> show ?thesis by simp
  next
    assume "0 \<le> cindex" "cindex < count" "nat cindex < length rs" "rs ! nat cindex \<noteq> EMPI_REQUEST_NULL"
    with index show ?thesis by (intro disjI1 exI [of _ "nat cindex"]) simp
  qed
qed

theorem fortran_waitany_index_witness:
  "\<exists>j rs' stat' s'. fortran_mpi_waitany (ex_front_env\<lparr>PROFILE_LEVEL := 0\<rparr>) ex_env 1 2 [EMPI_REQUEST_NULL, 4] FORTRAN_STATUS_IGNORE
      (ex_front\<lparr>fr_backend := ex_sends\<rparr>) = Some (Some (EMPI_SUCCESS, Some (int j + 1), rs', stat'), s') \<and>
    j < 2 \<and> [EMPI_REQUEST_NULL, 4] ! j \<noteq> EMPI_REQUEST_NULL"
proof -
  let ?run = "fortran_mpi_waitany (ex_front_env\<lparr>PROFILE_LEVEL := 0\<rparr>) ex_env 1 2 [EMPI_REQUEST_NULL, 4] FORTRAN_STATUS_IGNORE
      (ex_front\<lparr>fr_backend := ex_sends\<rparr>)"
  have "map_option (map_option (\<lambda>(error, index, rest). (error, index)) \<circ> fst) ?run = Some (Some (EMPI_SUCCESS, Some 2))"
    by code_simp
  then obtain rs' stat' s' where run: "?run = Some (Some (EMPI_SUCCESS, Some 2, rs', stat'), s')" by auto
  from fortran_waitany_index [OF run] obtain j where
    "j < 2" "Some 2 = Some (int j + 1)" "[EMPI_REQUEST_NULL, 4] ! j \<noteq> EMPI_REQUEST_NULL"
    by auto
  with run show ?thesis by (intro exI [of _ j] exI [of _ rs'] exI [of _ stat'] exI [of _ s']) simp
qed

end
