(* ===== verification/Trace_Text.thy ===== *)
theory Trace_Text
  imports Prelude
begin

text \<open>
  The texts of the traces: the lines that \<^verbatim>\<open>src/shared/logging.c\<close> prints, and the strings for handles, types,
  operations and lists of ranks that \<^verbatim>\<open>src/frontend/empi_wrapper.c\<close> puts into them (with
  \<^verbatim>\<open>TRACE_CALLS\<close>), which live in a buffer that is used over and over.
\<close>

section \<open>Lines of a log\<close>

text \<open>\<^verbatim>\<open>%d\<close>.\<close>

fun decimal_digits :: "nat \<Rightarrow> string" where
  "decimal_digits n = (if n < 10 then [] else decimal_digits (n div 10)) @ [char_of (48 + n mod 10)]"

declare decimal_digits.simps [simp del]

definition decimal :: "int \<Rightarrow> string" where
  "decimal i = (if i < 0 then ''-'' else []) @ decimal_digits (nat \<bar>i\<bar>)"

text \<open>The indentations: pointers into one string of blanks, \<open>tmp\<close> moving on to its end.\<close>

definition maxindent :: string where "maxindent = ''         ''"

fun indents_from :: "nat \<Rightarrow> string \<Rightarrow> string list \<Rightarrow> string list" where
  "indents_from 0 tmp indents = indents"
| "indents_from (Suc i) tmp indents = indents_from i (tl tmp) (indents[i := tmp])"

definition init_logging :: "string list \<Rightarrow> string list" where
  "init_logging indents = indents_from 10 maxindent indents"

text \<open>What is printed; \<open>msg\<close>: the formatted arguments.\<close>

definition log_head :: "string list \<Rightarrow> int \<Rightarrow> string \<Rightarrow> string \<Rightarrow> string" where
  "log_head indents indent head func =
     indents ! nat (if indent < 0 then 0 else if indent > 9 then 9 else indent) @ head @ '' '' @ func @ '' : ''"

definition log_place :: "string \<Rightarrow> int \<Rightarrow> string" where
  "log_place file ln = '' (at '' @ file @ '':'' @ decimal ln @ '')'' @ [CHR 0x0A]"

definition XLOG :: "string list \<Rightarrow> int \<Rightarrow> bool \<Rightarrow> string \<Rightarrow> string \<Rightarrow> string \<Rightarrow> int \<Rightarrow> string \<Rightarrow> string" where
  "XLOG indents indent verbose head func file ln msg =
     log_head indents indent head func @ msg @ (if verbose then log_place file ln else [CHR 0x0A])"

definition XERROR_text :: "string list \<Rightarrow> int \<Rightarrow> string \<Rightarrow> string \<Rightarrow> string \<Rightarrow> int \<Rightarrow> string \<Rightarrow> string" where
  "XERROR_text indents indent head func file ln msg =
     log_head indents indent head func @ msg @ log_place file ln"

text \<open>\<open>trace\<close>: what \<^verbatim>\<open>backtrace_symbols_fd\<close> prints.\<close>

definition XSTACKTRACE :: "string list \<Rightarrow> int \<Rightarrow> string \<Rightarrow> string \<Rightarrow> string \<Rightarrow> int \<Rightarrow> string \<Rightarrow> string \<Rightarrow> string" where
  "XSTACKTRACE indents indent head func file ln msg trace =
     log_head indents indent head func @ msg @ log_place file ln @ trace"

lemma init_logging_indents:
  assumes "length indents = 10" "i < 10"
  shows "init_logging indents ! i = replicate i (CHR 0x20)"
proof -
  from assms(1) obtain a b c d e f g h k l where "indents = [a, b, c, d, e, f, g, h, k, l]"
    by (auto simp: numeral_eq_Suc length_Suc_conv)
  moreover have "i \<in> {0, 1, 2, 3, 4, 5, 6, 7, 8, 9}" using assms(2) by auto
  ultimately show ?thesis
    by (auto simp: init_logging_def maxindent_def numeral_eq_Suc)
qed

section \<open>The buffer of the strings\<close>

text \<open>Strings end with a zero character; positions stand for pointers into the buffer.\<close>

definition DEBUG_BUF_SIZE :: int where [const_defs]: "DEBUG_BUF_SIZE = 4096"

record debug =
  debug_buf :: "char list"
  debug_buf_pos :: int

definition strcpy_at :: "char list \<Rightarrow> int \<Rightarrow> string \<Rightarrow> char list run" where
  "strcpy_at buf i s =
     (if i < 0 \<or> int (length buf) < i + int (length s) + 1 then None
      else Some (take (nat i) buf @ s @ [CHR 0x00] @ drop (nat i + length s + 1) buf))"

definition string_at :: "char list \<Rightarrow> int \<Rightarrow> string" where
  "string_at buf i = takeWhile (\<lambda>c. c \<noteq> CHR 0x00) (drop (nat i) buf)"

definition copy_to_debug_buf :: "string \<Rightarrow> int \<Rightarrow> debug \<Rightarrow> (int \<times> debug) run" where
  "copy_to_debug_buf tmp len d =
     (if len > DEBUG_BUF_SIZE then Some (debug_buf_pos d, d)
      else let d = (if debug_buf_pos d + len > DEBUG_BUF_SIZE then d\<lparr>debug_buf_pos := 0\<rparr> else d) in do {
        buf \<leftarrow> strcpy_at (debug_buf d) (debug_buf_pos d) tmp;
        Some (debug_buf_pos d, d\<lparr>debug_buf := buf, debug_buf_pos := debug_buf_pos d + len\<rparr>)
      })"

text \<open>A text built in a local array of \<open>n\<close> characters, and copied.\<close>

definition from_local :: "int \<Rightarrow> string \<Rightarrow> debug \<Rightarrow> (int \<times> debug) run" where
  "from_local n tmp d =
     (if n < int (length tmp) + 1 then None else copy_to_debug_buf tmp (int (length tmp) + 1) d)"

definition handle_text :: "int \<Rightarrow> string" where
  "handle_text h = ''<'' @ decimal h @ ''>''"

definition comm_to_string :: "int \<Rightarrow> debug \<Rightarrow> (int \<times> debug) run" where
  "comm_to_string comm =
     from_local 64 (if comm = 0 then ''<WORLD>'' else if comm = 1 then ''<SELF>'' else if comm = 2 then ''<NULL>''
       else handle_text comm)"

definition request_to_string :: "int \<Rightarrow> debug \<Rightarrow> (int \<times> debug) run" where
  "request_to_string r = from_local 64 (if r = -1 then ''<NULL>'' else handle_text r)"

definition group_to_string :: "int \<Rightarrow> debug \<Rightarrow> (int \<times> debug) run" where
  "group_to_string g = from_local 64 (if g = 1 then ''<EMPTY>'' else if g = 0 then ''<NULL>'' else handle_text g)"

text \<open>The \<^verbatim>\<open>switch\<close> statements as tables.\<close>

definition text_of :: "(int \<times> string) list \<Rightarrow> int \<Rightarrow> string" where
  "text_of table k = (case map_of table k of Some t \<Rightarrow> t | None \<Rightarrow> ''UNKNOWN('' @ decimal k @ '')'')"

definition type_texts :: "(int \<times> string) list" where
  "type_texts =
    [(0, ''NULL''), (1, ''CHAR''), (2, ''SHORT''), (3, ''INT''),
     (4, ''LONG''), (5, ''LONG_LONG_INT''), (6, ''SIGNED_CHAR''), (7, ''UNSIGNED_CHAR''),
     (8, ''UNSIGNED_SHORT''), (9, ''UNSIGNED''), (10, ''UNSIGNED_LONG''), (11, ''UNSIGNED_LONG_LONG''),
     (12, ''FLOAT''), (13, ''DOUBLE''), (14, ''LONG_DOUBLE''), (15, ''WCHAR''),
     (16, ''BYTE''), (17, ''PACKED''), (18, ''FLOAT_INT''), (19, ''DOUBLE_INT''),
     (20, ''LONG_INT''), (21, ''2INT''), (22, ''SHORT_INT''), (23, ''LONG_DOUBLE_INT''),
     (24, ''INTEGER''), (25, ''REAL''), (26, ''DOUBLE_PRECISION''), (27, ''COMPLEX''),
     (28, ''LOGICAL''), (29, ''CHARACTER''), (30, ''DOUBLE_COMPLEX''), (31, ''INTEGER1''),
     (32, ''INTEGER2''), (33, ''INTEGER4''), (34, ''INTEGER8''), (35, ''REAL2''),
     (36, ''REAL4''), (37, ''REAL8''), (38, ''REAL16''), (39, ''2REAL''),
     (40, ''2DOUBLE_PRECISION''), (41, ''2INTEGER'')]"

definition op_texts :: "(int \<times> string) list" where
  "op_texts =
    [(0, ''NULL''), (1, ''MAX''), (2, ''MIN''), (3, ''SUM''), (4, ''PROD''), (5, ''MAXLOC''),
     (6, ''MINLOC''), (7, ''BOR''), (8, ''BAND''), (9, ''BXOR''), (10, ''LOR''), (11, ''LAND''),
     (12, ''LXOR'')]"

definition type_to_string :: "int \<Rightarrow> debug \<Rightarrow> (int \<times> debug) run" where
  "type_to_string typ = from_local 1024 (text_of type_texts typ)"

definition op_to_string :: "int \<Rightarrow> debug \<Rightarrow> (int \<times> debug) run" where
  "op_to_string oper = from_local 64 (text_of op_texts oper)"

definition info_to_string :: "int \<Rightarrow> debug \<Rightarrow> (int \<times> debug) run" where
  "info_to_string i = from_local 64 (handle_text i)"

definition file_to_string :: "int \<Rightarrow> debug \<Rightarrow> (int \<times> debug) run" where
  "file_to_string f = from_local 64 (handle_text f)"

definition win_to_string :: "int \<Rightarrow> debug \<Rightarrow> (int \<times> debug) run" where
  "win_to_string w = from_local 64 (handle_text w)"

text \<open>The loops over \<open>n\<close> ranks or ranges, from index \<open>i\<close> on.\<close>

fun ranks_text :: "int list \<Rightarrow> int \<Rightarrow> nat \<Rightarrow> int \<Rightarrow> string run" where
  "ranks_text ranks n 0 i = Some []"
| "ranks_text ranks n (Suc k) i = do {
     r \<leftarrow> arr_read ranks i;
     rest \<leftarrow> ranks_text ranks n k (i + 1);
     Some (decimal r @ (if i \<noteq> n - 1 then '','' else []) @ rest)
   }"

definition ranks_to_string :: "int list \<Rightarrow> int \<Rightarrow> debug \<Rightarrow> (int \<times> debug) run" where
  "ranks_to_string ranks n d = do {
     t \<leftarrow> ranks_text ranks n (nat n) 0;
     from_local 1024 (''['' @ t @ '']'') d
   }"

fun ranges_text :: "(int \<times> int \<times> int) list \<Rightarrow> int \<Rightarrow> nat \<Rightarrow> int \<Rightarrow> string run" where
  "ranges_text ranges n 0 i = Some []"
| "ranges_text ranges n (Suc k) i = do {
     (a, b, c) \<leftarrow> arr_read ranges i;
     rest \<leftarrow> ranges_text ranges n k (i + 1);
     Some (''('' @ decimal a @ '','' @ decimal b @ '','' @ decimal c @ '')'' @ (if i \<noteq> n - 1 then '','' else []) @ rest)
   }"

definition ranges_to_string :: "(int \<times> int \<times> int) list \<Rightarrow> int \<Rightarrow> debug \<Rightarrow> (int \<times> debug) run" where
  "ranges_to_string ranges n d = do {
     t \<leftarrow> ranges_text ranges n (nat n) 0;
     from_local 1024 (''['' @ t @ '']'') d
   }"

section \<open>How long the strings stay readable\<close>

text \<open>Several strings, as for one line of a trace.\<close>

fun copy_all :: "string list \<Rightarrow> debug \<Rightarrow> (int list \<times> debug) run" where
  "copy_all [] d = Some ([], d)"
| "copy_all (t # ts) d = do {
     (p, d) \<leftarrow> copy_to_debug_buf t (int (length t) + 1) d;
     (ps, d) \<leftarrow> copy_all ts d;
     Some (p # ps, d)
   }"

definition chars_needed :: "string list \<Rightarrow> int" where
  "chars_needed ts = (\<Sum>t\<leftarrow>ts. int (length t) + 1)"

definition debug_ok :: "debug \<Rightarrow> bool" where
  "debug_ok d \<longleftrightarrow> int (length (debug_buf d)) = DEBUG_BUF_SIZE + 1 \<and> 0 \<le> debug_buf_pos d \<and> debug_buf_pos d \<le> DEBUG_BUF_SIZE"

lemma chars_needed_simps [simp]: "chars_needed [] = 0" "chars_needed (t # ts) = int (length t) + 1 + chars_needed ts"
  by (simp_all add: chars_needed_def)

lemma chars_needed_nonneg: "0 \<le> chars_needed ts"
  by (induction ts) simp_all

definition holds_at :: "char list \<Rightarrow> int \<Rightarrow> string \<Rightarrow> bool" where
  "holds_at buf p t \<longleftrightarrow> take (length t + 1) (drop (nat p) buf) = t @ [CHR 0x00]"

lemma nth_splice:
  "p + length s \<le> length xs \<Longrightarrow> i < p \<or> p + length s \<le> i \<Longrightarrow> (take p xs @ s @ drop (p + length s) xs) ! i = xs ! i"
  by (auto simp: nth_append)

lemma take_drop_cong:
  assumes "\<And>j. j < n \<Longrightarrow> xs ! (p + j) = ys ! (p + j)" "p + n \<le> length xs" "length ys = length xs"
  shows "take n (drop p xs) = take n (drop p ys)"
  using assms by (intro nth_equalityI) auto

lemma string_at_holds:
  assumes "holds_at buf p t" "CHR 0x00 \<notin> set t"
  shows "string_at buf p = t"
proof -
  have "drop (nat p) buf = (t @ [CHR 0x00]) @ drop (length t + 1) (drop (nat p) buf)"
    using append_take_drop_id [of "length t + 1" "drop (nat p) buf"] assms(1) by (simp add: holds_at_def)
  moreover have "takeWhile (\<lambda>c. c \<noteq> CHR 0x00) ((t @ [CHR 0x00]) @ rest) = t" for rest
    using assms(2) by (induction t) auto
  ultimately show ?thesis unfolding string_at_def by metis
qed

text \<open>One copy: where the string goes, and what stays.\<close>

definition copied_to :: "string \<Rightarrow> debug \<Rightarrow> int" where
  "copied_to t d = (if debug_buf_pos d + int (length t) + 1 > DEBUG_BUF_SIZE then 0 else debug_buf_pos d)"

lemma copy_run:
  assumes "debug_ok d" "int (length t) + 1 \<le> DEBUG_BUF_SIZE"
  shows "\<exists>d'. copy_to_debug_buf t (int (length t) + 1) d = Some (copied_to t d, d') \<and> debug_ok d' \<and>
    debug_buf_pos d' = copied_to t d + int (length t) + 1 \<and> holds_at (debug_buf d') (copied_to t d) t \<and>
    (\<forall>i. int i < copied_to t d \<or> copied_to t d + int (length t) + 1 \<le> int i \<longrightarrow> debug_buf d' ! i = debug_buf d ! i)"
proof -
  let ?p = "copied_to t d" and ?buf = "debug_buf d"
  let ?buf' = "take (nat ?p) ?buf @ (t @ [CHR 0x00]) @ drop (nat ?p + length (t @ [CHR 0x00])) ?buf"
  let ?d' = "d\<lparr>debug_buf := ?buf', debug_buf_pos := ?p + int (length t) + 1\<rparr>"
  have p: "0 \<le> ?p" "?p + int (length t) + 1 \<le> DEBUG_BUF_SIZE" and len: "nat ?p + length (t @ [CHR 0x00]) \<le> length ?buf"
    using assms by (auto simp: copied_to_def debug_ok_def)
  have "strcpy_at ?buf ?p t = Some ?buf'" using p len by (simp add: strcpy_at_def)
  then have "copy_to_debug_buf t (int (length t) + 1) d = Some (?p, ?d')"
    using assms(2) by (auto simp: copy_to_debug_buf_def copied_to_def add.assoc)
  moreover have "debug_ok ?d'" using p len assms(1) by (simp add: debug_ok_def)
  moreover have "?buf' ! i = ?buf ! i" if "int i < ?p \<or> ?p + int (length t) + 1 \<le> int i" for i
    using that p(1) by (intro nth_splice [OF len]) auto
  moreover have "holds_at ?buf' ?p t" using len by (simp add: holds_at_def)
  ultimately show ?thesis by (intro exI [of _ ?d']) simp
qed

text \<open>
  What later copies leave alone, for strings that need at most \<open>m\<close> characters each: what lies so far
  before the position that they do not come round to it, and what lies behind them.
\<close>

definition untouched :: "int \<Rightarrow> string list \<Rightarrow> debug \<Rightarrow> nat \<Rightarrow> bool" where
  "untouched m ts d i \<longleftrightarrow>
     int i < debug_buf_pos d \<and> debug_buf_pos d + chars_needed ts + m \<le> DEBUG_BUF_SIZE + int i \<or>
     debug_buf_pos d + chars_needed ts \<le> int i \<and> debug_buf_pos d + chars_needed ts \<le> DEBUG_BUF_SIZE"

lemma untouched_Cons:
  assumes "untouched m (t # ts) d i" "int (length t) + 1 \<le> m" "chars_needed (t # ts) \<le> DEBUG_BUF_SIZE"
    "debug_buf_pos d' = copied_to t d + int (length t) + 1"
  shows "untouched m ts d' i" "int i < copied_to t d \<or> copied_to t d + int (length t) + 1 \<le> int i"
  using assms chars_needed_nonneg [of ts] by (auto simp: untouched_def copied_to_def split: if_splits)

lemma copy_all_run:
  assumes "debug_ok d" "\<forall>t \<in> set ts. int (length t) + 1 \<le> m" "chars_needed ts + m \<le> DEBUG_BUF_SIZE" "0 \<le> m"
  shows "\<exists>ps d'. copy_all ts d = Some (ps, d') \<and> debug_ok d' \<and> list_all2 (holds_at (debug_buf d')) ps ts \<and>
    (\<forall>i. untouched m ts d i \<longrightarrow> debug_buf d' ! i = debug_buf d ! i)"
  using assms
proof (induction ts arbitrary: d)
  case (Cons t ts)
  have m: "int (length t) + 1 \<le> m" "chars_needed ts + m \<le> DEBUG_BUF_SIZE" "chars_needed (t # ts) \<le> DEBUG_BUF_SIZE"
    using Cons.prems chars_needed_nonneg [of ts] by simp_all
  with chars_needed_nonneg [of ts] have "int (length t) + 1 \<le> DEBUG_BUF_SIZE" by simp
  from copy_run [OF Cons.prems(1) this] obtain d1 where d1: "copy_to_debug_buf t (int (length t) + 1) d = Some (copied_to t d, d1)"
    "debug_ok d1" "debug_buf_pos d1 = copied_to t d + int (length t) + 1" "holds_at (debug_buf d1) (copied_to t d) t"
    "\<forall>i. int i < copied_to t d \<or> copied_to t d + int (length t) + 1 \<le> int i \<longrightarrow> debug_buf d1 ! i = debug_buf d ! i" by blast
  from Cons.IH [OF d1(2) _ m(2) Cons.prems(4)] Cons.prems(2) obtain ps d' where d': "copy_all ts d1 = Some (ps, d')" "debug_ok d'"
    "list_all2 (holds_at (debug_buf d')) ps ts" "\<forall>i. untouched m ts d1 i \<longrightarrow> debug_buf d' ! i = debug_buf d1 ! i" by auto
  let ?p = "nat (copied_to t d)"
  have p: "int ?p = copied_to t d" using Cons.prems(1) by (simp add: copied_to_def debug_ok_def)
  have "take (length t + 1) (drop ?p (debug_buf d')) = take (length t + 1) (drop ?p (debug_buf d1))"
  proof (rule take_drop_cong)
    fix j assume "j < length t + 1"
    then have "untouched m ts d1 (?p + j)" using p Cons.prems(3) by (simp add: untouched_def d1(3))
    with d'(4) show "debug_buf d' ! (?p + j) = debug_buf d1 ! (?p + j)" by blast
  next
    show "?p + (length t + 1) \<le> length (debug_buf d')" "length (debug_buf d1) = length (debug_buf d')"
      using d'(2) d1(2,3) p unfolding debug_ok_def by linarith+
  qed
  with d1(4) have "holds_at (debug_buf d') (copied_to t d) t" by (simp add: holds_at_def)
  moreover have "debug_buf d' ! i = debug_buf d ! i" if "untouched m (t # ts) d i" for i
    using untouched_Cons [OF that m(1,3) d1(3)] d'(4) d1(5) by auto
  ultimately show ?case using d' by (simp add: d1(1))
qed simp

text \<open>The comment in the source asks for less than this, and that is too little: a string may be overwritten.\<close>

lemma total_size_is_not_enough:
  "\<exists>ts d ps d'. debug_ok d \<and> chars_needed ts \<le> DEBUG_BUF_SIZE \<and> (\<forall>t \<in> set ts. CHR 0x00 \<notin> set t) \<and>
    copy_all ts d = Some (ps, d') \<and> map (string_at (debug_buf d')) ps \<noteq> ts"
proof -
  let ?d = "\<lparr>debug_buf = replicate 4097 (CHR 0x00), debug_buf_pos = 100\<rparr>"
  let ?a = "replicate 1999 CHR ''a''" and ?b = "replicate 2049 CHR ''b''"
  have ok: "debug_ok ?d" by (simp add: debug_ok_def DEBUG_BUF_SIZE_def)
  from copy_run [OF ok, of ?a] obtain d1 where d1: "copy_to_debug_buf ?a 2000 ?d = Some (100, d1)" "debug_ok d1" "debug_buf_pos d1 = 2100"
    by (auto simp: DEBUG_BUF_SIZE_def copied_to_def)
  from copy_run [OF d1(2), of ?b] obtain d2 where d2: "copy_to_debug_buf ?b 2050 d1 = Some (0, d2)" "holds_at (debug_buf d2) 0 ?b"
    by (auto simp: DEBUG_BUF_SIZE_def copied_to_def d1(3))
  have "take 1 (drop 100 (take 2050 (debug_buf d2))) = [CHR ''b'']"
    using d2(2) by (simp add: holds_at_def)
  then have "take 1 (drop 100 (debug_buf d2)) = [CHR ''b'']" by (simp add: drop_take min_def)
  then obtain rest where "drop 100 (debug_buf d2) = CHR ''b'' # rest" by (cases "drop 100 (debug_buf d2)") simp_all
  then have "hd (string_at (debug_buf d2) 100) = CHR ''b''" by (simp add: string_at_def)
  moreover have "hd ?a = CHR ''a''" by (rule hd_replicate) simp
  ultimately have "string_at (debug_buf d2) 100 \<noteq> ?a" by auto
  moreover have "copy_all [?a, ?b] ?d = Some ([100, 0], d2)" using d1(1) d2(1) by simp
  ultimately show ?thesis using ok
    by (intro exI [of _ "[?a, ?b]"] exI [of _ ?d] exI [of _ "[100, 0]"] exI [of _ d2]) (simp add: DEBUG_BUF_SIZE_def)
qed

text \<open>
  C39: The strings of one line of a trace can all still be read when the line is printed, wherever in the buffer
  the first of them starts, if together with the longest of them they fit into the buffer; no
  character is written outside it.
\<close>

theorem trace_strings_readable:
  assumes "debug_ok d" "\<forall>t \<in> set ts. CHR 0x00 \<notin> set t \<and> int (length t) + 1 \<le> longest" "0 \<le> longest"
    and "chars_needed ts + longest \<le> DEBUG_BUF_SIZE"
  shows "\<exists>ps d'. copy_all ts d = Some (ps, d') \<and> debug_ok d' \<and> map (string_at (debug_buf d')) ps = ts"
proof -
  from copy_all_run [OF assms(1) _ assms(4,3)] assms(2) obtain ps d' where
    d': "copy_all ts d = Some (ps, d')" "debug_ok d'" "list_all2 (holds_at (debug_buf d')) ps ts" by auto
  from d'(3) assms(2) have "map (string_at (debug_buf d')) ps = ts"
    by (induction ps ts rule: list_all2_induct) (simp_all add: string_at_holds)
  with d' show ?thesis by blast
qed

theorem trace_strings_readable_witness:
  "\<exists>ps d'. copy_all [''<WORLD>'', ''LONG_DOUBLE_INT'', ''SUM''] \<lparr>debug_buf = replicate 4097 (CHR 0x00), debug_buf_pos = 4080\<rparr> =
      Some (ps, d') \<and> map (string_at (debug_buf d')) ps = [''<WORLD>'', ''LONG_DOUBLE_INT'', ''SUM'']"
  using trace_strings_readable [of "\<lparr>debug_buf = replicate 4097 (CHR 0x00), debug_buf_pos = 4080\<rparr>"
      "[''<WORLD>'', ''LONG_DOUBLE_INT'', ''SUM'']" 16]
  by (auto simp: debug_ok_def DEBUG_BUF_SIZE_def)

end
