(* ===== verification/Traces.thy ===== *)
theory Traces
  imports Front_End Checksum Trace_Text Api_Properties
begin

text \<open>
  The checksums that the traces of \<^verbatim>\<open>src/frontend/empi_wrapper.c\<close> print for the buffers of a call: of \<open>count\<close>
  elements, of a piece for each process, and those that only the root takes. They call functions of the library
  themselves, which changes its statistics.
\<close>

definition crc16 :: "('a, 'w) env \<Rightarrow> byte list option \<Rightarrow> int \<Rightarrow> int \<Rightarrow> (u16, ('a, 'w) proc) front_act" where
  "crc16 E data count t =
     andthen (on_backend (EMPI_Type_size E t)) (\<lambda>(error, size).
     if error \<noteq> EMPI_SUCCESS then after_ERROR (e_ef E) (ret 0)
     else lift (do { size \<leftarrow> size; gen_crc16 data (count * size) }))"

text \<open>\<open>piece off\<close>: what lies \<open>off\<close> bytes behind the beginning of the data, \<open>None\<close> for the null pointer.\<close>

fun crc_pieces :: "(int \<Rightarrow> byte list option) \<Rightarrow> int list \<Rightarrow> int list \<Rightarrow> int \<Rightarrow> nat \<Rightarrow> int \<Rightarrow> u16 \<Rightarrow> u16 run" where
  "crc_pieces piece counts displs typesize 0 i result = Some result"
| "crc_pieces piece counts displs typesize (Suc n) i result = do {
     d \<leftarrow> arr_read displs i;
     c \<leftarrow> arr_read counts i;
     tmp \<leftarrow> gen_crc16 (piece (typesize * d)) (typesize * c);
     crc_pieces piece counts displs typesize n (i + 1) (result XOR tmp)
   }"

definition crc16_vect ::
  "front_env \<Rightarrow> ('a, 'w) env \<Rightarrow> (int \<Rightarrow> byte list option) \<Rightarrow> int list \<Rightarrow> int list \<Rightarrow> int \<Rightarrow> int \<Rightarrow> (u16, ('a, 'w) proc) front_act" where
  "crc16_vect W E piece counts displs t comm =
     andthen (MPI_Comm_size W E comm) (\<lambda>(error, size).
     if error \<noteq> EMPI_SUCCESS then after_ERROR (e_ef E) (ret 0)
     else andthen (MPI_Type_size W E t) (\<lambda>(error, typesize).
     if error \<noteq> EMPI_SUCCESS then after_ERROR (e_ef E) (ret 0)
     else lift (do {
       size \<leftarrow> size;
       typesize \<leftarrow> typesize;
       crc_pieces piece counts displs typesize (nat size) 0 0
     })))"

text \<open>Both functions for a root ask for the size of the communicator where they want the rank of the process.\<close>

definition at_root ::
  "front_env \<Rightarrow> ('a, 'w) env \<Rightarrow> int \<Rightarrow> int \<Rightarrow> (int \<Rightarrow> (u16, ('a, 'w) proc) front_act) \<Rightarrow> (u16, ('a, 'w) proc) front_act" where
  "at_root W E root comm k =
     andthen (MPI_Comm_size W E comm) (\<lambda>(error, size).
     if error \<noteq> EMPI_SUCCESS then after_ERROR (e_ef E) (ret 0)
     else andthen (MPI_Comm_size W E comm) (\<lambda>(error, rank).
     if error \<noteq> EMPI_SUCCESS then after_ERROR (e_ef E) (ret 0)
     else andthen (lift size) (\<lambda>size. andthen (lift rank) (\<lambda>rank.
     if rank \<noteq> root then ret 0 else k size))))"

definition crc16_selective_vect ::
  "front_env \<Rightarrow> ('a, 'w) env \<Rightarrow> (int \<Rightarrow> byte list option) \<Rightarrow> int list \<Rightarrow> int list \<Rightarrow> int \<Rightarrow> int \<Rightarrow> int
    \<Rightarrow> (u16, ('a, 'w) proc) front_act" where
  "crc16_selective_vect W E piece counts displs t root comm =
     at_root W E root comm (\<lambda>size.
       andthen (MPI_Type_size W E t) (\<lambda>(error, typesize).
       if error \<noteq> EMPI_SUCCESS then after_ERROR (e_ef E) (ret 0)
       else lift (do { typesize \<leftarrow> typesize; crc_pieces piece counts displs typesize (nat size) 0 0 })))"

text \<open>The number of bytes is \<open>count * size\<close>, with the size of the communicator, not that of the type.\<close>

definition crc16_selective ::
  "front_env \<Rightarrow> ('a, 'w) env \<Rightarrow> byte list option \<Rightarrow> int \<Rightarrow> int \<Rightarrow> int \<Rightarrow> int \<Rightarrow> (u16, ('a, 'w) proc) front_act" where
  "crc16_selective W E data count t root comm =
     at_root W E root comm (\<lambda>size.
       andthen (MPI_Type_size W E t) (\<lambda>(error, typesize).
       if error \<noteq> EMPI_SUCCESS then after_ERROR (e_ef E) (ret 0)
       else lift (gen_crc16 data (count * size))))"

section \<open>The root\<close>

lemma backend_of_call:
  assumes "wrapped W ef comm field error_of call s = Some (Some r, s')"
  shows "call (fr_backend s) = Some (Some r, fr_backend s')"
  using assms
  by (auto simp: wrapped_def timed_call_def andthen_Some read_ticks_def on_backend_def add_statistics_def trace_errors_def
      split: if_splits)

lemma MPI_Comm_size_result:
  assumes "comm_at (fr_backend s) comm p c" "MPI_Comm_size W E comm s = Some (Some r, s')"
  shows "r = (EMPI_SUCCESS, Some (c_global_size c)) \<and> fr_backend s' = fr_backend s"
  using backend_of_call [OF assms(2) [unfolded MPI_Comm_size_def]] by (simp add: EMPI_Comm_size_def H2C_at [OF assms(1)])

text \<open>So the checksums for a root are 0 at every process, the root included: no rank is the size of the communicator.\<close>

lemma at_root_zero:
  assumes "comm_at (fr_backend s) comm p c" "root < c_global_size c" "at_root W E root comm k s = Some (Some r, s')"
  shows "r = 0"
proof -
  from assms(3) obtain x s1 where x: "MPI_Comm_size W E comm s = Some (Some x, s1)"
    "(case x of (error, sz) \<Rightarrow>
       if error \<noteq> EMPI_SUCCESS then after_ERROR (e_ef E) (ret 0)
       else andthen (MPI_Comm_size W E comm) (\<lambda>(error, rank).
         if error \<noteq> EMPI_SUCCESS then after_ERROR (e_ef E) (ret 0)
         else andthen (lift sz) (\<lambda>size. andthen (lift rank) (\<lambda>rank. if rank \<noteq> root then ret 0 else k size)))) s1 = Some (Some r, s')"
    by (auto simp: at_root_def andthen_Some)
  from MPI_Comm_size_result [OF assms(1) x(1)] have x': "x = (EMPI_SUCCESS, Some (c_global_size c))" "fr_backend s1 = fr_backend s" by simp_all
  with x(2) obtain y s2 where y: "MPI_Comm_size W E comm s1 = Some (Some y, s2)"
    "(case y of (error, rank) \<Rightarrow>
         if error \<noteq> EMPI_SUCCESS then after_ERROR (e_ef E) (ret 0)
         else andthen (lift (Some (c_global_size c))) (\<lambda>size. andthen (lift rank) (\<lambda>rank. if rank \<noteq> root then ret 0 else k size))) s2
      = Some (Some r, s')"
    by (auto simp: andthen_Some)
  from MPI_Comm_size_result [OF _ y(1)] assms(1) x'(2) have "y = (EMPI_SUCCESS, Some (c_global_size c))" by simp
  with y(2) assms(2) show ?thesis by simp
qed

lemma crc16_selective_zero:
  assumes "comm_at (fr_backend s) comm p c" "root < c_global_size c"
  shows "crc16_selective W E data count t root comm s = Some (Some r, s') \<Longrightarrow> r = 0"
    "crc16_selective_vect W E piece counts displs t root comm s = Some (Some r, s') \<Longrightarrow> r = 0"
  using at_root_zero [OF assms] by (simp_all add: crc16_selective_def crc16_selective_vect_def)

end
