(* ===== verification/Constants.thy ===== *)
theory Constants
  imports Messaging
begin


section \<open>The backend: \<^verbatim>\<open>src/backend/empi.h\<close>\<close>









section \<open>The constants of the interface: \<^verbatim>\<open>include/empi-constants.h\<close>\<close>









section \<open>The C application: \<^verbatim>\<open>include/mpi.h\<close>\<close>









section \<open>The Fortran application: \<^verbatim>\<open>include/mpif.h\<close>\<close>









section \<open>What a name stands for\<close>





section \<open>Statuses\<close>





section \<open>They agree\<close>


























end
