(* ===== verification/Gateway_Timing.thy ===== *)
theory Gateway_Timing
  imports Gateway
begin

text \<open>
  The timings that a gateway takes of its messages when \<^verbatim>\<open>gateway.c\<close> is built with \<^verbatim>\<open>DETAILED_TIMING\<close>: one
  array for the messages read and one for those written, each printed when it is full and at the end. Both are
  handled by the same code. What is printed is a result: the index and the timing of each line.
\<close>

definition DETAILED_TIMING_COUNT :: int where [const_defs]: "DETAILED_TIMING_COUNT = 8096"

record timing =
  starttime :: u64
  endtime :: u64
  tm_size :: u64

record timings =
  tm_array :: "timing list"
  tm_count :: int

fun print_timings :: "timing list \<Rightarrow> nat \<Rightarrow> int \<Rightarrow> (int \<times> timing) list run" where
  "print_timings ts 0 i = Some []"
| "print_timings ts (Suc n) i = do {
     t \<leftarrow> arr_read ts i;
     rows \<leftarrow> print_timings ts n (i + 1);
     Some ((i, t) # rows)
   }"

definition flush_timings :: "timings \<Rightarrow> ((int \<times> timing) list \<times> timings) run" where
  "flush_timings T = do {
     rows \<leftarrow> print_timings (tm_array T) (nat (tm_count T)) 0;
     Some (rows, T\<lparr>tm_count := 0\<rparr>)
   }"

definition store_timings :: "u64 \<Rightarrow> u64 \<Rightarrow> u64 \<Rightarrow> timings \<Rightarrow> ((int \<times> timing) list \<times> timings) run" where
  "store_timings from until sz T = do {
     (rows, T) \<leftarrow> (if tm_count T \<ge> DETAILED_TIMING_COUNT then flush_timings T else Some ([], T));
     a \<leftarrow> arr_write (tm_array T) (tm_count T) \<lparr>starttime = from, endtime = until, tm_size = sz\<rparr>;
     Some (rows, T\<lparr>tm_array := a, tm_count := tm_count T + 1\<rparr>)
   }"

section \<open>Every timing is printed\<close>

fun store_each :: "timing list \<Rightarrow> timings \<Rightarrow> ((int \<times> timing) list \<times> timings) run" where
  "store_each [] T = flush_timings T"
| "store_each (t # ts) T = do {
     (rows, T) \<leftarrow> store_timings (starttime t) (endtime t) (tm_size t) T;
     (rows', T) \<leftarrow> store_each ts T;
     Some (rows @ rows', T)
   }"

definition waiting :: "timings \<Rightarrow> timing list \<Rightarrow> bool" where
  "waiting T us \<longleftrightarrow> int (length (tm_array T)) = DETAILED_TIMING_COUNT \<and> tm_count T = int (length us) \<and>
     take (length us) (tm_array T) = us \<and> length us \<le> length (tm_array T)"

lemma print_timings_run:
  "i + n \<le> length ts \<Longrightarrow> \<exists>rows. print_timings ts n (int i) = Some rows \<and> map snd rows = take n (drop i ts)"
proof (induction n arbitrary: i)
  case (Suc n)
  then have i: "arr_read ts (int i) = Some (ts ! i)" by (simp add: arr_read_def)
  from Suc.IH [of "Suc i"] Suc.prems obtain rows where "print_timings ts n (int (Suc i)) = Some rows"
    "map snd rows = take n (drop (Suc i) ts)" by auto
  moreover have "drop i ts = ts ! i # drop (Suc i) ts" using Suc.prems by (intro Cons_nth_drop_Suc [symmetric]) simp
  ultimately show ?case by (simp add: i add.commute)
qed simp

lemma flush_timings_run:
  assumes "waiting T us"
  shows "\<exists>rows T'. flush_timings T = Some (rows, T') \<and> map snd rows = us \<and> waiting T' []"
proof -
  from print_timings_run [of 0 "length us" "tm_array T"] assms obtain rows where
    "print_timings (tm_array T) (length us) 0 = Some rows" "map snd rows = us" by (auto simp: waiting_def)
  with assms show ?thesis by (simp add: flush_timings_def waiting_def)
qed

lemma timing_fields: "\<lparr>starttime = starttime t, endtime = endtime t, tm_size = tm_size t\<rparr> = t"
  by (cases t) simp

lemma store_fits:
  assumes "waiting T us" "int (length us) < DETAILED_TIMING_COUNT"
  shows "\<exists>T'. store_timings (starttime t) (endtime t) (tm_size t) T = Some ([], T') \<and> waiting T' (us @ [t])"
proof -
  have len: "length us < length (tm_array T)" using assms by (simp add: waiting_def)
  then have "take (Suc (length us)) ((tm_array T)[length us := t]) = us @ [t]"
    using assms(1) by (simp add: waiting_def take_Suc_conv_app_nth)
  then show ?thesis using assms len by (simp add: store_timings_def waiting_def arr_write_def timing_fields)
qed

lemma store_run:
  assumes "waiting T us"
  shows "\<exists>rows T' us'. store_timings (starttime t) (endtime t) (tm_size t) T = Some (rows, T') \<and> waiting T' us' \<and>
    map snd rows @ us' = us @ [t]"
proof (cases "int (length us) < DETAILED_TIMING_COUNT")
  case True
  from store_fits [OF assms this, of t] show ?thesis by fastforce
next
  case False
  from flush_timings_run [OF assms] obtain rows T1 where T1: "flush_timings T = Some (rows, T1)" "map snd rows = us" "waiting T1 []"
    by blast
  from store_fits [OF T1(3), of t] obtain T' where T': "store_timings (starttime t) (endtime t) (tm_size t) T1 = Some ([], T')"
    "waiting T' [t]" by (auto simp: DETAILED_TIMING_COUNT_def)
  have "store_timings (starttime t) (endtime t) (tm_size t) T = Some (rows, T')"
    using False T' T1 assms by (auto simp: store_timings_def waiting_def DETAILED_TIMING_COUNT_def bind_eq_Some_conv)
  with T1(2) T'(2) show ?thesis by blast
qed

lemma timings_all_printed:
  "waiting T us \<Longrightarrow> \<exists>rows T'. store_each ts T = Some (rows, T') \<and> map snd rows = us @ ts"
proof (induction ts arbitrary: T us)
  case Nil
  then show ?case using flush_timings_run by fastforce
next
  case (Cons t ts)
  from store_run [OF Cons.prems, of t] obtain rows T1 us1 where
    T1: "store_timings (starttime t) (endtime t) (tm_size t) T = Some (rows, T1)" "waiting T1 us1" "map snd rows @ us1 = us @ [t]" by blast
  from Cons.IH [OF T1(2)] obtain rows' T' where "store_each ts T1 = Some (rows', T')" "map snd rows' = us1 @ ts" by blast
  with T1(1,3) show ?case by (simp flip: append.assoc)
qed

section \<open>The statistics of the streams\<close>

text \<open>A line: the own cluster, the gateway, the stream and the other cluster, seconds and milliseconds, and the counters.\<close>

record stream_line =
  sl_cluster :: u32
  sl_gateway :: int
  sl_stream :: nat
  sl_other :: nat
  sl_sec :: u64
  sl_millis :: u64
  sl_in :: "u64 \<times> u64"
  sl_out :: "u64 \<times> u64"
  sl_pending :: "u64 \<times> u64"

definition stream_line_of :: "gateway \<Rightarrow> u64 \<Rightarrow> nat \<Rightarrow> nat \<Rightarrow> socket_info \<Rightarrow> stream_line" where
  "stream_line_of gw deltat i j info =
     \<lparr>sl_cluster = gw_cluster_rank gw, sl_gateway = gw_gateway_rank gw, sl_stream = j, sl_other = i,
       sl_sec = deltat div 1000000, sl_millis = (deltat mod 1000000) div 1000,
       sl_in = (si_in_messages info, si_in_bytes info), sl_out = (si_out_messages info, si_out_bytes info),
       sl_pending = (pending_data_messages (gw_pending gw), pending_data_size (gw_pending gw))\<rparr>"

text \<open>The two loops, over the streams of a connection and over the clusters.\<close>

fun stream_lines :: "gateway \<Rightarrow> u64 \<Rightarrow> nat \<Rightarrow> socket_info list \<Rightarrow> nat \<Rightarrow> nat \<Rightarrow> stream_line list run" where
  "stream_lines gw deltat i sockets 0 j = Some []"
| "stream_lines gw deltat i sockets (Suc n) j = do {
     info \<leftarrow> arr_read sockets (int j);
     rest \<leftarrow> stream_lines gw deltat i sockets n (j + 1);
     Some (stream_line_of gw deltat i j info # rest)
   }"

fun cluster_lines :: "gateway \<Rightarrow> u64 \<Rightarrow> nat \<Rightarrow> nat \<Rightarrow> stream_line list run" where
  "cluster_lines gw deltat 0 i = Some []"
| "cluster_lines gw deltat (Suc n) i = do {
     these \<leftarrow> (if i \<noteq> unat (gw_cluster_rank gw) then do {
       conn \<leftarrow> arr_read (gw_connections gw) (int i);
       stream_lines gw deltat i (gc_sockets conn) (nat (gc_stream_count conn)) 0
     } else Some []);
     rest \<leftarrow> cluster_lines gw deltat n (i + 1);
     Some (these @ rest)
   }"

text \<open>With \<^verbatim>\<open>DETAILED_TIMING\<close> (\<open>detailed\<close>) the timings that are left are printed as well, first those of writing.\<close>

definition print_gateway_statistics ::
  "bool \<Rightarrow> gateway \<Rightarrow> u64 \<Rightarrow> timings \<Rightarrow> timings
    \<Rightarrow> (stream_line list \<times> (int \<times> timing) list \<times> (int \<times> timing) list \<times> timings \<times> timings) run" where
  "print_gateway_statistics detailed gw deltat written got = do {
     ls \<leftarrow> cluster_lines gw deltat (unat (gw_cluster_count gw)) 0;
     if detailed then do {
       (ws, written) \<leftarrow> flush_timings written;
       (rs, got) \<leftarrow> flush_timings got;
       Some (ls, ws, rs, written, got)
     } else Some (ls, [], [], written, got)
   }"

end
