(* ===== verification/Spec2Isabelle.thy ===== *)
theory Spec2Isabelle
  imports Prelude Handles Requests Datatypes Operations Files_Infos Message_Queue Data_Message
    Communicators Messaging Process_Groups Server_Messages Gateway_Properties Reduce_Properties
    Example_Process Start_Properties Wait_Properties Collective_Properties Communicator_Properties
    Front_Properties Traces Constants Gateway_Timing
begin

text \<open>
  eSalsa-MPI runs one MPI application on several clusters. Every cluster has its own MPI; the
  library (\<^verbatim>\<open>src/backend/\<close>, and \<^verbatim>\<open>src/frontend/\<close> in front of it) offers the MPI interface on top of it, keeps its own communicators,
  groups, datatypes and requests, and sends what leaves the cluster to gateway processes, which
  exchange it over sockets. A server (\<^verbatim>\<open>src/server/\<close>, Java) hands out the ranks of the clusters and
  answers the collective requests that create communicators. This development models the C library
  and states what makes it correct.

  \<^bold>\<open>Conventions.\<close> A C function that can stop the process or run into undefined behaviour is a
  function into \<open>'a run\<close>: \<open>None\<close> stands for both, \<open>Some\<close> for a return. \<open>ERROR\<close> stops the process when
  the library is built with \<^verbatim>\<open>ERRORS_ARE_FATAL\<close> (argument \<open>ef\<close>, set in the shipped settings) and
  otherwise goes on to the error return. Global variables are arguments and results. What malloc
  returns is an argument: an address, \<open>None\<close> for failure, or a truth value where the address does not
  matter; fields that malloc leaves indeterminate are arguments too (\<open>junk\<close>). The local MPI, the kernel
  and the peers are arguments that list their answers: \<open>mpi_probe\<close> (arrivals at a process), \<open>gw_probe\<close>
  and \<open>isend\<close> (MPI at a gateway), \<open>read_event\<close> and \<open>write_event\<close> (sockets). A function that waits
  for an arrival and is given none yields \<open>None\<close> in place of its result. An entry point is an act on the
  state of a process (\<open>proc\<close>): it is undefined, waits, or yields a result and the new state; the record
  \<open>env\<close> holds what does not change and the answers of the local library (\<open>e_call\<close>). The start of a process is
  an act on \<open>gw_setup\<close>, whose trace lists the calls of the system and of MPI made so far; the record \<open>sys\<close>
  answers a call from the trace, and \<open>su_wires\<close> holds the bytes and events of each descriptor. Fixed-width integers are
  words where they wrap, are shifted or are sent; ranks, counts and handles are \<open>int\<close>. Byte order is the
  argument \<open>le\<close>.

  \<^bold>\<open>Theories.\<close>
  \<^item> \<open>Prelude\<close>: logging macros, error codes, process ids (\<^verbatim>\<open>shared/settings.h\<close>), arrays, lists.
  \<^item> \<open>Handles\<close>: the locale of a registry of handles (allocate, look up, free) with its laws; the
    registries below are interpretations of it: \<open>Requests\<close> (\<^verbatim>\<open>request.c\<close>), \<open>Datatypes\<close>
    (\<^verbatim>\<open>datatype.c\<close>), \<open>Operations\<close> (\<^verbatim>\<open>operation.c\<close>), \<open>Files_Infos\<close> (\<^verbatim>\<open>file.c\<close>, \<^verbatim>\<open>info.c\<close>),
    \<open>Communicators\<close> (\<^verbatim>\<open>communicator.c\<close>, with the layout of the world), \<open>Process_Groups\<close> (\<^verbatim>\<open>group.c\<close>).
  \<^item> \<open>Message_Queue\<close> (\<^verbatim>\<open>message_queue.c\<close>): the linked list, refining a list.
  \<^item> \<open>Data_Message\<close>, \<open>Messaging\<close>: the data messages of \<^verbatim>\<open>messaging.c\<close> and \<^verbatim>\<open>status.c\<close>: send, receive,
    probe, broadcast.
  \<^item> \<open>Byte_Order\<close>, \<open>Server_Messages\<close>: requests to and replies from the server (\<^verbatim>\<open>messaging.c\<close>), with
    the writers of the Java server.
  \<^item> \<open>Sockets\<close>, \<open>Gateway\<close>, \<open>Gateway_Load\<close>: the gateway (\<^verbatim>\<open>gateway.c\<close>): framing of the byte streams,
    the main loop, and the invariant of its flow control; \<open>Gateway_Properties\<close> states its properties.
  \<^item> \<open>Reduce_Ops\<close>, \<open>Reduce_Properties\<close> (\<^verbatim>\<open>reduce_ops.c\<close>): the macros, the loops made from them and the
    twelve reduction functions with their switches on the datatype.
  \<^item> \<open>Acts\<close>, \<open>Process_State\<close>: acts on a state; the state of a process, the calls of the local library and
    the macros of \<^verbatim>\<open>macros.h\<close>; on top of it the entry points of \<^verbatim>\<open>empi.c\<close>: \<open>Point_To_Point\<close> (sends,
    receives, requests, testing and waiting), \<open>Collectives\<close>, \<open>Communicator_Api\<close> (communicators and groups)
    and \<open>Object_Api\<close> (datatypes, files, infos, operations, packing, the end of a run).
  \<^item> \<open>Api_Properties\<close>, \<open>Wait_Properties\<close>, \<open>Collective_Properties\<close>, \<open>Communicator_Properties\<close>: their
    properties; \<open>Example_Process\<close>: the process their witnesses run on.
  \<^item> \<open>Gateway_Setup\<close>, \<open>Gateway_Init\<close> (\<^verbatim>\<open>gateway.c\<close>), \<open>Process_Init\<close> (\<^verbatim>\<open>messaging_init\<close>, \<^verbatim>\<open>EMPI_Init\<close>): the
    start of a process: configuration, handshake with the server, exchange of the addresses, connections
    between the gateways, registries of an application process, and the end of a gateway.
  \<^item> \<open>Gateway_Links\<close>: which connections a gateway makes and in which order; \<open>Rendezvous\<close>: processes that meet
    in pairs, each following its own list, all finish if the lists come from one order of all meetings.
  \<^item> \<open>Init_Properties\<close>, \<open>Start_Properties\<close>: the properties of the start; \<open>Example_Setup\<close>: the run of
    their witnesses.
  \<^item> \<open>Profiling\<close> (\<^verbatim>\<open>shared/profiling.c\<close>): the statistics of the calls; \<open>Front_End\<close>
    (\<^verbatim>\<open>frontend/empi_wrapper.c\<close>): the functions \<^verbatim>\<open>MPI_*\<close>, which put the time-keeping and the
    reporting of errors around the backend; \<open>Fortran\<close> (\<^verbatim>\<open>frontend/empif_wrapper.c\<close>): the functions for Fortran on
    top of these. \<open>Trace_Text\<close> (with \<^verbatim>\<open>shared/logging.c\<close>): the lines of the log, and the strings of the traces
    in their buffer; \<open>Checksum\<close>, \<open>Traces\<close>: the cyclic redundancy check and the checksums made from it.
    \<open>Front_Properties\<close> states their properties.
  \<^item> \<open>Constants\<close> (\<^verbatim>\<open>include/\<close>, \<^verbatim>\<open>empi.h\<close>): the constants of the backend, of C and of Fortran, and the words
    of a status.
  \<^item> \<open>Gateway_Timing\<close>: the statistics of the streams and the timings of the messages that a gateway prints.

  \<^bold>\<open>What the properties show.\<close> Messages are delivered in order and to the right receiver, whatever
  else is waiting (C1 to C3), from the application through the sockets (C20 to C24); communicators and
  groups translate ranks and process ids consistently (C4 to C10); both ends of the protocol with the
  server agree on every word (C11 and the lemma \<open>group_reply_read_back\<close>); handles lead to their objects for as long as these live
  (the laws of the locale, and the lemmas \<open>communicator_life_cycle\<close> and \<open>predefined_datatypes_reachable\<close>). Starting
  up, the configuration reaches every process as the server has it (C14 to C16, C19), and the gateways meet
  without deadlock and end up with one connection to each other cluster (C12, C13, C17, C18). Reductions
  compute element by element what the
  operation promises, within the integer type, and whatever the order of the contributions (C25 to C28).
  The entry points put these together: ranks are translated (C29), a non-blocking receive that is waited
  for is a blocking one (C30), waiting for sends ends (C31), a gather and a reduction bring every
  contribution to the root (C32, C33), and a split makes the communicator that the server decided on (C34).
  In front of them the checksum of the traces notices bursts (C35), the statistics lose no call (C36), a
  profiled library does what the other one does and reports exactly the calls made (C37), and indices
  reach Fortran counting from 1 (C38). The strings of a trace stay readable (C39), and the
  constants mean the same on both sides of the interface (C40).

  \<^bold>\<open>Bounds.\<close> Loops over counters, lists and events are structural recursions. The reader and the
  writer of a socket and the walk along a linked list recurse as the code does: the first two with a termination proof
  (the reader reads a header at most once, the writer finishes a message in every turn), the last as a
  partial function whose result is shown to exist. The gateway loop consumes one round of its
  environment per turn; an entry point that polls (\<open>EMPI_Waitany\<close>, \<open>EMPI_Waitall\<close>, the mixed receive) has the
  number of its turns as argument, and C31 shows that one turn is enough for sends. The loop that connects a
  socket is a partial function without a value when no attempt is ever accepted, which C13 states.

  \<^bold>\<open>Not modelled.\<close> The two functions that read a clock as a floating-point number (\<^verbatim>\<open>EMPI_Wtime\<close> and its front
  ends), and the conversions for Fortran handles, which are commented out. The older reductions from line 963 of \<^verbatim>\<open>reduce_ops.c\<close> and
  lines 3026 to the end of \<^verbatim>\<open>empi_wrapper.c\<close> are inside \<^verbatim>\<open>#if 0\<close>, and the lines
  of \<^verbatim>\<open>empif_wrapper.c\<close> behind the last function modelled inside a comment. The checks of
  \<^verbatim>\<open>debugging.c\<close> do not compile. Of the traces (\<^verbatim>\<open>TRACE_CALLS\<close>) the strings and checksums are modelled, not
  which call prints them. Of the Java server only the message writers are modelled.
\<close>

section \<open>Receiving messages\<close>

text \<open>
  C1: A receive on a communicator delivers the first matching message of the communicator's
  backlog (the messages stored for it, then the arrivals for it), with its data unpacked and its
  source, tag and the requested count in the status; it waits exactly when no message of the
  backlog matches. The rest of that backlog keeps its order, and the backlog of every other
  communicator is untouched.
\<close>

theorem receive_first_match:
  fixes source tag :: int
  assumes "comm_ok r" "slots r h = Some p" "heap r p = Some c" "\<forall>pr \<in> set prs. good_probe r pr"
    and "\<forall>m \<in> set (backlog r prs h). msg_sound m \<and>
      fst (unpack (payload m) count (dt_type t) (c_comm c)) = EMPI_SUCCESS"
  shows "\<exists>prs' r'. messaging_receive ef unpack count t source tag s p prs r =
      Some (map_option (\<lambda>m. (EMPI_SUCCESS, Some (snd (unpack (payload m) count (dt_type t) (c_comm c))),
          received_status m t count s))
        (find (\<lambda>m. match_message m h source tag) (backlog r prs h)), prs', r') \<and>
      comm_ok r' \<and> backlog r' prs' =
        (backlog r prs)(h := remove_first (\<lambda>m. match_message m h source tag) (backlog r prs h))"
  using messaging_receive_backlog [OF assms(1-4), of unpack count t ef source tag s, OF assms(5)] by blast

theorem receive_first_match_witness:
  "\<exists>prs' r'. messaging_receive False ex_unpack 1 ex_type EMPI_ANY_SOURCE 7 None 10 ex_arrivals ex_comms =
     Some (Some (EMPI_SUCCESS, Some [3], None), prs', r') \<and>
     backlog r' prs' 0 = [ex_message 0 2 9 [2], ex_message 0 2 7 [4]] \<and>
     backlog r' prs' 1 = [ex_message 1 0 7 [1]]"
  using receive_first_match [OF ex_comms_ok ex_comms_slots(1,3) ex_arrivals_good,
    where unpack = ex_unpack and count = 1 and t = ex_type and ef = False and source = EMPI_ANY_SOURCE and tag = 7
      and s = None, OF ex_backlog_sound]
  by (auto simp: ex_backlog received_status_def)

text \<open>
  C2: Messages do not overtake each other: consecutive receives with the same source and tag
  deliver the matching messages of the backlog in the order of the backlog, one each, and wait
  once there are no more.
\<close>

theorem receives_in_order:
  fixes source tag :: int
  assumes "comm_ok r" "slots r h = Some p" "heap r p = Some c" "\<forall>pr \<in> set prs. good_probe r pr"
    and "\<forall>m \<in> set (backlog r prs h). msg_sound m \<and>
      fst (unpack (payload m) count (dt_type t) (c_comm c)) = EMPI_SUCCESS"
  defines "Q \<equiv> filter (\<lambda>m. match_message m h source tag) (backlog r prs h)"
  shows "\<exists>prs' r'. receive_many ef unpack count t source tag p n prs r =
      Some (map (\<lambda>m. Some (EMPI_SUCCESS, Some (snd (unpack (payload m) count (dt_type t) (c_comm c))), None)) (take n Q) @
        replicate (n - length Q) None, prs', r')"
  unfolding Q_def by (rule receive_many_in_order [OF assms(1-4) refl, where unpack = unpack, OF assms(5)])

theorem receives_in_order_witness:
  "\<exists>prs' r'. receive_many False ex_unpack 1 ex_type EMPI_ANY_SOURCE 7 10 3 ex_arrivals ex_comms =
     Some ([Some (EMPI_SUCCESS, Some [3], None), Some (EMPI_SUCCESS, Some [4], None), None], prs', r')"
  using receives_in_order [OF ex_comms_ok ex_comms_slots(1,3) ex_arrivals_good,
    where unpack = ex_unpack and count = 1 and t = ex_type and ef = False and source = EMPI_ANY_SOURCE and tag = 7
      and n = 3, OF ex_backlog_sound]
  by (simp add: ex_backlog)

text \<open>
  A request that receives chooses as a receive does: a blocking probe completes it with the
  first match of the backlog, removes that message and no other, and waits exactly when there is
  no match.
\<close>

lemma probe_blocking_first_match:
  assumes "comm_ok r" "slots r h = Some p" "\<forall>pr \<in> set prs. good_probe r pr"
    and "heap rr q = Some rq" "rq_c rq = Some p" "rq_error rq = 0" "request_completed rq = 0"
  defines "P \<equiv> \<lambda>m. match_message m h (rq_source_or_dest rq) (rq_tag rq)"
  shows "\<exists>prs' r'. messaging_probe_receive ef q True prs (rr, r) =
      Some (map_option (\<lambda>_. EMPI_SUCCESS) (find P (backlog r prs h)), prs',
        rr\<lparr>heap := (heap rr)(q \<mapsto> probed rq (find P (backlog r prs h)))\<rparr>, r') \<and>
      comm_ok r' \<and> backlog r' prs' = (backlog r prs)(h := remove_first P (backlog r prs h))"
  using probe_receive_blocking [OF assms(1-7), of ef] unfolding P_def by blast

definition ex_request :: request where
  "ex_request = \<lparr>rq_flags = REQUEST_FLAG_RECEIVE, rq_buf = Some 1, rq_type = Some 30, rq_count = 1,
     rq_source_or_dest = 2, rq_tag = EMPI_ANY_TAG, rq_c = Some 10, rq_error = 0, rq_handle = 0,
     rq_req = None, rq_message = None\<rparr>"

definition ex_requests :: req_reg where
  "ex_requests = \<lparr>heap = [20 \<mapsto> ex_request], slots = [0 \<mapsto> 20]\<rparr>"

lemma ex_request_fields:
  "heap ex_requests 20 = Some ex_request" "rq_c ex_request = Some 10" "rq_error ex_request = 0"
  "request_completed ex_request = 0"
  by (simp_all add: ex_requests_def ex_request_def request_completed_def flag_defs)

lemma probe_blocking_first_match_witness:
  "\<exists>prs' rr' r'. messaging_probe_receive False 20 True ex_arrivals (ex_requests, ex_comms) =
     Some (Some EMPI_SUCCESS, prs', rr', r') \<and>
     map_option rq_message (heap rr' 20) = Some (Some (ex_message 0 2 9 [2])) \<and>
     backlog r' prs' 0 = [ex_message 0 2 7 [3], ex_message 0 2 7 [4]]"
  using probe_blocking_first_match [OF ex_comms_ok ex_comms_slots(1) ex_arrivals_good ex_request_fields,
    of False]
  by (auto simp: ex_backlog probed_def) (auto simp: ex_request_def)

text \<open>
  A non-blocking probe looks at the stored messages and at one arrival: if the first match is
  among them the request completes with it, and otherwise the request stays incomplete and no
  backlog changes.
\<close>

lemma probe_nonblocking_first_match:
  assumes "comm_ok r" "slots r h = Some p" "good_probe r pr"
    and "heap rr q = Some rq" "rq_c rq = Some p" "rq_error rq = 0" "request_completed rq = 0"
  defines "P \<equiv> \<lambda>m. match_message m h (rq_source_or_dest rq) (rq_tag rq)" and "now \<equiv> backlog r [pr] h"
  shows "\<exists>prs' r'. messaging_probe_receive ef q False (pr # prs) (rr, r) =
      Some (Some EMPI_SUCCESS, prs', rr\<lparr>heap := (heap rr)(q \<mapsto> probed rq (find P now))\<rparr>, r') \<and>
      comm_ok r' \<and> backlog r' prs' = (backlog r (pr # prs))
        (h := if find P now = None then backlog r (pr # prs) h else remove_first P (backlog r (pr # prs) h))"
  using probe_receive_nonblocking [OF assms(1-7), of ef prs] unfolding P_def now_def by blast

lemma probe_nonblocking_first_match_witness:
  "\<exists>prs' rr' r'. messaging_probe_receive False 20 False ex_arrivals (ex_requests, ex_comms) =
     Some (Some EMPI_SUCCESS, prs', rr', r') \<and> map_option request_completed (heap rr' 20) = Some 0 \<and>
     backlog r' prs' = backlog ex_comms ex_arrivals"
proof -
  have first: "good_probe ex_comms (hd ex_arrivals)" using ex_arrivals_good by (simp add: ex_arrivals_def)
  have "ex_arrivals = hd ex_arrivals # tl ex_arrivals" by (simp add: ex_arrivals_def)
  moreover have "backlog ex_comms [hd ex_arrivals] 0 = []"
    by (simp add: backlog_def ex_comms_slots ex_arrivals_def ex_probe_def)
  ultimately show ?thesis
    using probe_nonblocking_first_match [OF ex_comms_ok ex_comms_slots(1) first ex_request_fields,
      of False "tl ex_arrivals"]
    by (auto simp: probed_def) (auto simp: ex_request_def request_completed_def flag_defs)
qed

section \<open>The message queue\<close>

text \<open>
  C3: The linked list of \<^verbatim>\<open>message_queue.c\<close> is a first-in first-out queue from which the oldest
  matching message can be taken: every sequence of enqueues, dequeues and matching dequeues
  returns what it returns on the list of the queued messages, and leaves the queue of the list
  it leaves.
\<close>

theorem message_queue_refines_list:
  assumes "mq_list s xs" "distinct (event_addrs es)" "\<forall>p \<in> set (event_addrs es). fst s p = None"
  shows "\<exists>s'. queue_run message_enqueue message_dequeue data_message_dequeue_matching es s =
      Some (fst (list_run es xs), s') \<and> mq_list s' (snd (list_run es xs))"
  using assms by (rule mq.run_refines)

theorem message_queue_refines_list_witness:
  "\<exists>s'. queue_run message_enqueue message_dequeue data_message_dequeue_matching
      [Enqueue 1 (5::nat), Enqueue 2 6, Enqueue 3 7, Dequeue_matching (\<lambda>m. m > 5), Dequeue]
      (\<lambda>_. None, \<lparr>mq_head = None, mq_tail = None\<rparr>) = Some ([Some 6, Some 5], s') \<and> mq_list s' [7]"
proof -
  have "mq_list (\<lambda>_. None, \<lparr>mq_head = None, mq_tail = None\<rparr>) ([] :: nat list)"
    by (simp add: mq_list_def mq_rep_def)
  from message_queue_refines_list [OF this, of "[Enqueue 1 5, Enqueue 2 6, Enqueue 3 7, Dequeue_matching (\<lambda>m. m > 5), Dequeue]"]
  show ?thesis by simp
qed

section \<open>Communicators\<close>

text \<open>
  C4: With the cluster sizes that the server's handshake admits and enough memory, the
  initialisation of the communicators succeeds and leaves a well-formed registry in which slots
  0, 1 and 2 hold the world, self and null communicators; the world communicator is well formed
  (its members are pairwise distinct processes, the own process is at its global rank) and its
  coordinator is the first process of the own cluster.
\<close>

theorem init_communicators_correct:
  assumes "valid_sizes sizes crank rank" "p0 \<noteq> p1" "p0 \<noteq> p2" "p1 \<noteq> p2"
  shows "\<exists>r w. init_communicators ef (\<lambda>i. True) (Some p0) (Some p1) (Some p2) junk my_pid (int rank) sz world
      (int crank) (int (length sizes)) (map int sizes) (cluster_offsets_of sizes) r0 = Some (EMPI_SUCCESS, r) \<and>
    comm_ok r \<and> slots r = [0 \<mapsto> p0, 1 \<mapsto> p1, 2 \<mapsto> p2] \<and> heap r p0 = Some w \<and>
    comm_wf (word_of_int (int crank)) w \<and> c_global_size w = int (sum_list sizes) \<and>
    c_global_rank w = c_my_coordinator w + int rank \<and> c_my_coordinator w = int (sum_list (take crank sizes))"
proof -
  let ?r = "world_regs sizes crank rank sz world my_pid junk p0 p1 p2 r0"
  let ?w = "(world_of sizes crank rank sz world)\<lparr>c_my_coordinator := int (sum_list (take crank sizes))\<rparr>"
  have "comm_wf (word_of_int (int crank)) ?w"
    using world_wf [OF assms(1), of sz world] by (simp add: comm_wf_def)
  then show ?thesis
    using init_communicators_world [OF assms, of ef junk my_pid sz world r0]
      world_regs_ok [OF assms, of sz world my_pid junk r0] assms(2,3)
    by (intro exI [of _ ?r] exI [of _ ?w])
       (simp add: world_regs_def world_of_def world_communicator_def)
qed

theorem init_communicators_correct_witness:
  "\<exists>r w. init_communicators True (\<lambda>i. True) (Some 10) (Some 11) (Some 12) (\<lambda>i. 0) (SET_PID 1 0) 0 1 (Some 5)
      1 2 [2, 1] [0, 2, 3] \<lparr>heap = \<lambda>_. None, slots = \<lambda>_. None\<rparr> = Some (EMPI_SUCCESS, r) \<and>
    comm_ok r \<and> heap r 10 = Some w \<and> c_global_rank w = 2 \<and> c_my_coordinator w = 2"
proof -
  have v: "valid_sizes [2, 1] 1 0"
    by (simp add: valid_sizes_def MAX_CLUSTERS_def MAX_PROCESSES_PER_CLUSTER_def)
  have "cluster_offsets_of [2, 1] = [0, 2, 3]" by (simp add: cluster_offsets_of_def)
  with init_communicators_correct [OF v, of 10 11 12 True "\<lambda>i. 0" "SET_PID 1 0" 1 "Some 5"
      "\<lparr>heap = \<lambda>_. None, slots = \<lambda>_. None\<rparr>"]
  show ?thesis by auto
qed



text \<open>
  C6: Translating the rank of a member of the own cluster to its local rank and back yields the
  rank again.
\<close>

theorem local_rank_roundtrip:
  assumes "comm_wf crank c" "0 \<le> r" "r < c_global_size c" "rank_is_local crank c r = Some True"
  shows "\<exists>l. get_local_rank c r = Some l \<and> get_global_rank c k l = Some r"
  using assms by (rule local_global_roundtrip)

theorem local_rank_roundtrip_witness:
  "\<exists>l. get_local_rank (world_of [2, 1] 0 0 2 (Some 5)) 1 = Some l \<and>
     get_global_rank (world_of [2, 1] 0 0 2 (Some 5)) 0 l = Some 1"
proof -
  have wf: "comm_wf 0 (world_of [2, 1] 0 0 2 (Some 5))" using world_wf [OF ex_sizes] by simp
  have size: "c_global_size (world_of [2, 1] 0 0 2 (Some 5)) = 3"
    by (simp add: world_of_def world_communicator_def)
  have "rank_is_local 0 (world_of [2, 1] 0 0 2 (Some 5)) 1 = Some True"
    by (simp add: rank_is_local_def arr_read_def world_of_def world_communicator_def cluster_layout_def
        cluster_of_SET_PID upt_rec)
  with wf size show ?thesis by (intro local_rank_roundtrip) simp_all
qed

text \<open>
  Whatever cluster it is asked for, the translation of a local rank to a global one
  yields a member of the cluster of the calling process that has this local rank.
\<close>

lemma global_rank_of_own_cluster:
  assumes "comm_wf crank c" "get_global_rank c k l = Some g"
  shows "0 \<le> g \<and> g < c_global_size c \<and> rank_is_local crank c g = Some True \<and>
    c_local_ranks c ! nat g = word_of_int l"
  using get_global_rank_sound [OF assms] by blast

lemma global_rank_of_own_cluster_witness:
  "get_global_rank (world_of [2, 1] 0 0 2 (Some 5)) 1 0 = Some 0 \<and>
   rank_is_local 0 (world_of [2, 1] 0 0 2 (Some 5)) 0 = Some True"
proof -
  have wf: "comm_wf 0 (world_of [2, 1] 0 0 2 (Some 5))" using world_wf [OF ex_sizes] by simp
  have "get_global_rank (world_of [2, 1] 0 0 2 (Some 5)) 1 0 = Some 0"
    by (simp add: get_global_rank_def arr_read_def world_of_def world_communicator_def cluster_layout_def
        upt_rec numeral_3_eq_3)
  with global_rank_of_own_cluster [OF wf this] show ?thesis by simp
qed

text \<open>
  Life cycle of a communicator: a created one is reached by the handle it was given, and
  freeing it returns the registry to the handles it had before, whatever the local library says.
\<close>

lemma communicator_life_cycle:
  assumes "comm_ok r" "fresh r new"
    and "create_communicator ef crank new junk h c r = Some (EMPI_SUCCESS, Some p, r1)"
  shows "handle_to_communicator ef r1 h = Some (Some p) \<and> communicator_to_handle ef r1 (Some p) = Some h \<and>
    comm_ok r1 \<and> (\<exists>r2. free_communicator e p r1 = Some (e, r2) \<and> slots r2 = slots r \<and> heap r2 p = None \<and> comm_ok r2)"
proof -
  let ?x = "(crank, junk, h, c)"
  have a: "(case ?x of (crank, junk, h, c) \<Rightarrow> \<lambda>r. map_option snd (create_communicator ef crank new junk h c r)) r =
      Some (Some p, r1)"
    using assms(3) by simp
  from assms(3) have s: "slots r1 = (slots r)(h \<mapsto> p)" "slots r h = None"
    unfolding create_communicator_def add_communicator_success by auto
  have ok: "comm_ok r1" using assms comm_ok_add unfolding create_communicator_def by blast
  then have inv: "reg_inv c_handle 0 MAX_COMMUNICATORS r1" by (simp add: comm_ok_def)
  have l: "handle_to_communicator ef r1 h = Some (Some p)" using cm.lookup_iff [OF inv] s by simp
  have "0 \<le> h" using reg_invD(1) [OF inv, of h p] s by simp
  with l have t: "communicator_to_handle ef r1 (Some p) = Some h" using cm.handle_roundtrip [OF inv] by blast
  have "slots r1 h = Some p" using s by simp
  from free_communicator_slot [OF ok this, of e] comm_ok_free [OF ok this] s
  have "\<exists>r2. free_communicator e p r1 = Some (e, r2) \<and> slots r2 = slots r \<and> heap r2 p = None \<and> comm_ok r2"
    by (auto simp: fun_eq_iff)
  with l t ok show ?thesis by blast
qed

lemma communicator_life_cycle_witness:
  "\<exists>r1 r2. create_communicator True 0 (Some 13) 0 7 null_communicator ex_comms = Some (EMPI_SUCCESS, Some 13, r1) \<and>
     handle_to_communicator True r1 7 = Some (Some 13) \<and> free_communicator 0 13 r1 = Some (0, r2) \<and>
     slots r2 = slots ex_comms"
proof -
  have "slots ex_comms 7 = None" "heap ex_comms 13 = None" by (simp_all add: ex_comms_def world_regs_def)
  then have "create_communicator True 0 (Some 13) 0 7 null_communicator ex_comms = Some (EMPI_SUCCESS, Some 13,
      ex_comms\<lparr>heap := (heap ex_comms)(13 \<mapsto> null_communicator\<lparr>c_handle := 7, c_my_coordinator := 0, c_queue := []\<rparr>),
        slots := (slots ex_comms)(7 \<mapsto> 13)\<rparr>)"
    unfolding create_communicator_def add_communicator_success
    by (simp add: MAX_COMMUNICATORS_def null_communicator_def)
  moreover have "fresh ex_comms (Some 13)" using \<open>heap ex_comms 13 = None\<close> by (simp add: fresh_def)
  ultimately show ?thesis using communicator_life_cycle [OF ex_comms_ok, of "Some 13" True 0 0 7 null_communicator 13]
    by blast
qed

section \<open>Broadcast\<close>

text \<open>
  C7: On the world communicator a broadcast to the coordinators sends one message to the first
  process of every other cluster, in the order of the clusters, with the collective's tag, and
  hands each to the process's gateway.
\<close>

theorem bcast_reaches_every_cluster:
  fixes sz :: int and world :: "nat option"
  assumes v: "valid_sizes sizes crank rank" and mp: "\<And>i. pack_ok (mp i)"
  defines "w \<equiv> world_of sizes crank rank sz world"
  shows "\<exists>sent. messaging_bcast ef my_pid gw (int (length sizes)) (int crank) mp count w = Some (EMPI_SUCCESS, sent) \<and>
    map (\<lambda>(g, m). (g, dst_pid (header m), m_tag m, payload m)) sent =
      map (\<lambda>i. (gw, SET_PID (word_of_int (int i)) 0, BCAST_TAG, mp_data (mp (int i))))
        (filter (\<lambda>i. i \<noteq> crank) [0 ..< length sizes])"
proof -
  let ?n = "length sizes"
  have coords: "length (c_coordinators w) = ?n" "\<And>i. i < ?n \<Longrightarrow> c_coordinators w ! i = int (sum_list (take i sizes))"
    by (simp_all add: w_def world_of_def world_communicator_def cluster_offsets_of_def)
  have pos: "0 < sizes ! i" if "i < ?n" for i using v that by (simp add: valid_sizes_def)
  have m: "sum_list (take i sizes) < length (c_members w)"
    "c_members w ! sum_list (take i sizes) = SET_PID (word_of_int (int i)) 0" if "i < ?n" for i
    using world_member [OF v that pos [OF that], where sz = sz and world = world] by (simp_all add: w_def)
  have "\<forall>d \<in> set (c_coordinators w). 0 \<le> d \<and> d < int (length (c_members w))"
    using coords m by (auto simp: in_set_conv_nth)
  then have loop: "messaging_bcast ef my_pid gw (int ?n) (int crank) mp count w =
      Some (EMPI_SUCCESS, map (\<lambda>i. (gw, sent_message my_pid OPCODE_COLLECTIVE_BCAST (mp (int i)) count
        (c_coordinators w ! i) BCAST_TAG w)) (filter (\<lambda>i. int i \<noteq> int crank) [0 ..< ?n]))"
    using bcast_loop_all [of mp w 0 ?n ef my_pid gw "int crank" count "[]", OF mp] coords(1)
    by (simp add: messaging_bcast_def)
  have "map (\<lambda>(g, m). (g, dst_pid (header m), m_tag m, payload m)) (map (\<lambda>i. (gw, sent_message my_pid
        OPCODE_COLLECTIVE_BCAST (mp (int i)) count (c_coordinators w ! i) BCAST_TAG w)) (filter (\<lambda>i. int i \<noteq> int crank) [0 ..< ?n])) =
      map (\<lambda>i. (gw, SET_PID (word_of_int (int i)) 0, BCAST_TAG, mp_data (mp (int i))))
        (filter (\<lambda>i. i \<noteq> crank) [0 ..< ?n])"
    using m coords(2) by (simp add: sent_message_def)
  with loop show ?thesis by blast
qed

definition ex_pack :: mpi_pack where
  "ex_pack = \<lparr>mp_size_error = 0, mp_alloc = True, mp_pack_error = 0, mp_data = [1, 2], mp_send_error = 0\<rparr>"

lemma ex_pack_ok: "pack_ok ex_pack"
  by (simp add: pack_ok_def ex_pack_def)

theorem bcast_reaches_every_cluster_witness:
  "\<exists>sent. messaging_bcast True 0 2 2 0 (\<lambda>i. ex_pack) 1 (world_of [2, 1] 0 0 2 (Some 5)) = Some (EMPI_SUCCESS, sent) \<and>
     map (\<lambda>(g, m). (g, dst_pid (header m), m_tag m, payload m)) sent = [(2, SET_PID 1 0, BCAST_TAG, [1, 2])]"
  using bcast_reaches_every_cluster [OF ex_sizes ex_pack_ok, of True 0 2 1 2 "Some 5"]
  by (simp add: ex_pack_def upt_rec)



section \<open>Process groups\<close>

definition ex_group :: "int \<Rightarrow> u32 list \<Rightarrow> group_s" where
  "ex_group h ms = \<lparr>g_handle = h, g_rank = rank_of (SET_PID 0 0) ms, g_size = int (length ms), g_members = ms\<rparr>"

definition ex_groups :: group_reg where
  "ex_groups = \<lparr>heap = [40 \<mapsto> ex_group 99 [], 41 \<mapsto> ex_group 2 [SET_PID 0 1, SET_PID 0 0],
       42 \<mapsto> ex_group 3 [SET_PID 0 1, SET_PID 1 0]],
     slots = [1 \<mapsto> 40, 2 \<mapsto> 41, 3 \<mapsto> 42], next_group = 4\<rparr>"

definition ex_alloc :: group_alloc where
  "ex_alloc = \<lparr>ga_new = Some 43, ga_members_ok = True, ga_junk = ex_group 0 [], ga_fill = \<lambda>_. 0\<rparr>"

lemma ex_groups_ok: "grp_ok ex_groups"
  by (auto simp: grp_ok_def reg_inv_def ex_groups_def ex_group_def MAX_GROUPS_def split: if_splits)

lemma ex_room: "room ex_alloc 43 ex_groups"
  by (simp add: room_def ex_alloc_def ex_groups_def fresh_def MAX_GROUPS_def)

lemma ex_pids: "SET_PID 0 0 = 0" "SET_PID 0 1 = 1" "SET_PID 1 0 = 16777216"
  by (simp_all add: SET_PID_def)

lemma ex_heap:
  "heap ex_groups 41 = Some (ex_group 2 [SET_PID 0 1, SET_PID 0 0])"
  "heap ex_groups 42 = Some (ex_group 3 [SET_PID 0 1, SET_PID 1 0])"
  by (simp_all add: ex_groups_def)

lemma ex_group_wf: "distinct ms \<Longrightarrow> length ms < 100 \<Longrightarrow> group_wf (SET_PID 0 0) (ex_group h ms)"
  by (simp add: group_wf_def ex_group_def)

lemma ex_wf:
  "group_wf (SET_PID 0 0) (ex_group 2 [SET_PID 0 1, SET_PID 0 0])"
  "group_wf (SET_PID 0 0) (ex_group 3 [SET_PID 0 1, SET_PID 1 0])"
  by (rule ex_group_wf; simp add: ex_pids)+

text \<open>
  C9: The union of two well-formed groups has the members of the first followed by those of the
  second that are not in the first, and the rank of the calling process in it; it is a new group
  (the empty group when both are empty), and every other group is as before.
\<close>

theorem group_union_correct:
  assumes "grp_ok r" "room al p r" "heap r in1 = Some g1" "heap r in2 = Some g2"
    and "group_wf pid g1" "group_wf pid g2" "g_size g1 + g_size g2 < 2 ^ 31"
  defines "ms \<equiv> g_members g1 @ filter (\<lambda>m. m \<notin> set (g_members g1)) (g_members g2)"
  shows "\<exists>q r'. group_union ef pid True al in1 in2 r = Some (EMPI_SUCCESS, Some q, r') \<and>
    built ms (rank_of pid ms) r q r' \<and> distinct ms"
proof -
  have "distinct ms" using assms(5,6) by (auto simp: ms_def group_wf_def)
  then show ?thesis
    using group_union_built [OF assms(1-7), of ef] unfolding ms_def union_members_def by blast
qed

theorem group_union_correct_witness:
  "\<exists>q r' g. group_union True 0 True ex_alloc 41 42 ex_groups = Some (EMPI_SUCCESS, Some q, r') \<and>
     heap r' q = Some g \<and> g_members g = [1, 0, 16777216] \<and> g_rank g = 1"
proof -
  have small: "g_size (ex_group 2 [SET_PID 0 1, SET_PID 0 0]) + g_size (ex_group 3 [SET_PID 0 1, SET_PID 1 0]) < 2 ^ 31"
    by (simp add: ex_group_def)
  show ?thesis
    using group_union_correct [OF ex_groups_ok ex_room ex_heap ex_wf small, of True]
    by (auto simp: built_def ex_group_def ex_pids)
qed

text \<open>
  Inclusion by ranks: with valid ranks of pairwise different members, the new group's member
  with rank \<open>i\<close> is the member with rank \<open>ranks[i]\<close> of the given group, the rank of the calling
  process is its rank there, and every other group is as before.
\<close>

lemma group_incl_correct:
  assumes "grp_ok r" "room al p r" "heap r inp = Some g" "group_wf pid g"
    and "ranks_in (g_size g) ranks" "distinct ranks"
  defines "ms \<equiv> map (\<lambda>k. g_members g ! nat k) ranks"
  shows "\<exists>q r'. group_incl ef pid al (Some inp) (int (length ranks)) ranks r = Some (EMPI_SUCCESS, Some q, r') \<and>
    built ms (rank_of pid ms) r q r'"
proof -
  have "distinct (members_at g ranks)" using assms(4-6) by (rule members_at_distinct)
  from group_incl_built [OF assms(1-5) this, of ef] show ?thesis
    by (simp add: ms_def members_at_def)
qed

lemma group_incl_correct_witness:
  "\<exists>q r' g. group_incl True 0 ex_alloc (Some 41) 2 [1, 0] ex_groups = Some (EMPI_SUCCESS, Some q, r') \<and>
     heap r' q = Some g \<and> g_members g = [0, 1] \<and> g_rank g = 0"
proof -
  have "ranks_in (g_size (ex_group 2 [SET_PID 0 1, SET_PID 0 0])) [1, 0]"
    by (simp add: ex_group_def ranks_in_def)
  from group_incl_correct [OF ex_groups_ok ex_room ex_heap(1) ex_wf(1) this, of True]
  show ?thesis by (auto simp: built_def ex_group_def ex_pids)
qed

text \<open>
  A rank outside the group makes the inclusion fail with \<^verbatim>\<open>EMPI_ERR_RANK\<close> and leaves groups and
  handles as they were; only the slot that the deleted group had is never used again.
\<close>

lemma group_incl_bad_rank:
  assumes "grp_ok r" "room al p r" "heap r inp = Some g" "group_wf pid g" "\<not> ranks_in (g_size g) ranks"
  shows "group_incl False pid al (Some inp) (int (length ranks)) ranks r =
    Some (EMPI_ERR_RANK, None, r\<lparr>next_group := next_group r + 1\<rparr>)"
  using assms by (rule group_incl_error)

lemma group_incl_bad_rank_witness:
  "group_incl False 0 ex_alloc (Some 41) 2 [1, 2] ex_groups =
     Some (EMPI_ERR_RANK, None, ex_groups\<lparr>next_group := 5\<rparr>)"
proof -
  have "\<not> ranks_in (g_size (ex_group 2 [SET_PID 0 1, SET_PID 0 0])) [1, 2]"
    by (simp add: ex_group_def ranks_in_def)
  from group_incl_bad_rank [OF ex_groups_ok ex_room ex_heap(1) ex_wf(1) this]
  show ?thesis by (simp add: ex_pids) (simp add: ex_groups_def)
qed

text \<open>
  C10: Inclusion by ranges is, as documented, inclusion by the expanded ranks: for valid ranges
  that together select at most as many ranks as the group has, the two runs are equal, their
  errors included.
\<close>

theorem group_range_incl_expands:
  assumes "heap r inp = Some g" "group_wf pid g" "0 < g_size g"
    and "ga_new al \<noteq> Some inp" "slots r EMPI_GROUP_EMPTY \<noteq> Some inp"
    and "\<forall>x \<in> set ranges. valid_range (g_size g) x"
    and "int (length (concat (map expand_range ranges))) \<le> g_size g"
  shows "group_range_incl ef pid True al (Some inp) (int (length ranges)) ranges r =
    group_incl ef pid al (Some inp) (int (length (concat (map expand_range ranges))))
      (concat (map expand_range ranges)) r"
  using assms by (rule range_incl_expand)

theorem group_range_incl_expands_witness:
  "group_range_incl True 0 True ex_alloc (Some 41) 1 [(1, 0, -1)] ex_groups =
   group_incl True 0 ex_alloc (Some 41) 2 [1, 0] ex_groups"
proof -
  let ?g = "ex_group 2 [SET_PID 0 1, SET_PID 0 0]"
  have "expand_range (1, 0, -1) = [1, 0]" by (simp add: expand_range_def range_count_def upt_rec)
  moreover have "valid_range (g_size ?g) (1, 0, -1)" by (simp add: valid_range_def ex_group_def)
  moreover have "0 < g_size ?g" "ga_new ex_alloc \<noteq> Some 41" "slots ex_groups 1 \<noteq> Some 41"
    by (simp_all add: ex_group_def ex_alloc_def ex_groups_def)
  ultimately show ?thesis
    using group_range_incl_expands [OF ex_heap(1) ex_wf(1), of ex_alloc "[(1, 0, -1)]" True]
    by (simp add: ex_group_def ex_pids)
qed

text \<open>
  The group of a communicator has its members in the order of their ranks and the calling
  process at its rank.
\<close>

lemma group_of_communicator:
  assumes "grp_ok r" "room al p r" "0 < c_global_size c" "int (length (c_members c)) = c_global_size c"
  shows "\<exists>r'. group_comm_group ef al (Some c) r = Some (EMPI_SUCCESS, Some p, r') \<and>
    built (c_members c) (c_global_rank c) r p r'"
  using assms by (rule group_comm_group_built)

lemma group_of_communicator_witness:
  "\<exists>r' g. group_comm_group True ex_alloc (Some (world_of [2, 1] 0 0 2 (Some 5))) ex_groups =
     Some (EMPI_SUCCESS, Some 43, r') \<and> heap r' 43 = Some g \<and> g_members g = [0, 1, 16777216] \<and> g_rank g = 0"
proof -
  let ?w = "world_of [2, 1] 0 0 2 (Some 5)"
  have "c_members ?w = [SET_PID 0 0, SET_PID 0 1, SET_PID 1 0]" "c_global_size ?w = 3" "c_global_rank ?w = 0"
    by (simp_all add: world_of_def world_communicator_def cluster_layout_def upt_rec)
  with group_of_communicator [OF ex_groups_ok ex_room, of ?w True]
  show ?thesis by (auto simp: built_def ex_pids)
qed

section \<open>Messages of the server\<close>

text \<open>
  C11: A reply to a split request that the server writes is read back field by field, on
  little-endian and big-endian hosts, provided the arrays have the lengths the reply tells.
\<close>

theorem split_reply_read_back:
  assumes "recv_ok rv" "rv_data rv = SplitReply_write dst x"
    and "arrays_fit (cr_cluster_count x) (cr_size x) (cr_arrays x)"
    and "\<forall>k \<in> {cr_newComm x, cr_rank x, cr_size x, cr_color x, cr_key x, cr_cluster_count x, cr_flags x}. int_ok k"
  shows "messaging_comm_split_receive ef le (\<lambda>i. True) rv = Some (Inr x)"
  using assms by (rule split_reply_roundtrip)

theorem split_reply_read_back_witness:
  "messaging_comm_split_receive True True (\<lambda>i. True) (ex_recv (SplitReply_write 0 ex_split_reply)) =
     Some (Inr ex_split_reply)"
  by (rule split_reply_read_back [where dst = 0]) (simp_all add: ex_split_reply_def ex_arrays_fit int_ok_def)

definition ex_group_reply :: group_reply where
  "ex_group_reply = \<lparr>gr_newComm = -1, gr_rank = -1, gr_size = -1, gr_type = GROUP_TYPE_IDLE,
     gr_cluster_count = -1, gr_flags = -1, gr_arrays = no_arrays\<rparr>"

text \<open>
  A reply to the creation of a communicator that the server writes is read back, whether the
  process is a member of the new communicator (then with the arrays) or not (then without).
\<close>

lemma group_reply_read_back:
  assumes "recv_ok rv" "rv_data rv = GroupReply_write dst x"
    and "if gr_type x = GROUP_TYPE_ACTIVE then arrays_fit (gr_cluster_count x) (gr_size x) (gr_arrays x)
      else gr_arrays x = no_arrays"
    and "\<forall>k \<in> {gr_newComm x, gr_rank x, gr_size x, gr_type x, gr_cluster_count x, gr_flags x}. int_ok k"
  shows "messaging_comm_create_receive ef le (\<lambda>i. True) rv = Some (Inr x)"
  using assms by (rule group_reply_roundtrip)

lemma group_reply_read_back_witness:
  "messaging_comm_create_receive True False (\<lambda>i. True) (ex_recv (GroupReply_write 0 ex_group_reply)) =
     Some (Inr ex_group_reply)"
  by (rule group_reply_read_back [where dst = 0]) (simp_all add: ex_group_reply_def int_ok_def)

text \<open>
  The requests to the server are the same bytes on every host: header, communicator, rank
  and the arguments as big-endian words, and the length field tells the number of bytes.
\<close>

lemma request_wire_format:
  "messaging_comm_split_send ef le my_pid 0 c color key = Some (EMPI_SUCCESS, Some (net_bytes
     [OPCODE_SPLIT, my_pid, server_pid, 32, word_of_int (c_handle c), word_of_int (c_global_rank c),
      word_of_int color, word_of_int key])) \<and>
   messaging_comm_dup_send ef le my_pid 0 c = Some (EMPI_SUCCESS, Some (net_bytes
     [OPCODE_DUP, my_pid, server_pid, 24, word_of_int (c_handle c), word_of_int (c_global_rank c)])) \<and>
   messaging_comm_free_send ef le my_pid 0 c = Some (EMPI_SUCCESS, Some (net_bytes
     [OPCODE_FREE, my_pid, server_pid, 24, word_of_int (c_handle c), word_of_int (c_global_rank c)]))"
  using split_request_bytes dup_free_request_bytes by simp

text \<open>
  The request to create a communicator carries the members of the group in order after its
  fixed part, and the length field tells the number of bytes sent.
\<close>

lemma create_request_wire_format:
  assumes "g_size g = int (length (g_members g))"
  shows "\<exists>bs. messaging_comm_create_send ef le my_pid 0 True c g = Some (EMPI_SUCCESS, Some bs) \<and>
    bs = net_bytes ([OPCODE_GROUP, my_pid, server_pid, word_of_int (28 + 4 * g_size g), word_of_int (c_handle c),
       word_of_int (c_global_rank c), word_of_int (g_size g)] @ g_members g) \<and>
    int (length bs) = 28 + 4 * g_size g"
  using group_request_bytes [OF assms] assms by simp

lemma create_request_wire_format_witness:
  "\<exists>bs. messaging_comm_create_send True True 5 0 True null_communicator (ex_group 2 [7, 8]) =
     Some (EMPI_SUCCESS, Some bs) \<and> length bs = 36"
  using create_request_wire_format [of "ex_group 2 [7, 8]" True True 5 null_communicator]
  by (auto simp: ex_group_def)

section \<open>Handles\<close>

text \<open>
  After the initialisation every predefined datatype is reached by its handle, and the
  structure found there carries that handle and the type of the local library.
\<close>

lemma predefined_datatypes_reachable:
  assumes "length news = 41" "distinct news" "None \<notin> set news"
    and "\<And>p. Some p \<in> set news \<Longrightarrow> heap r p = None"
  shows "\<exists>r'. init_datatypes ef news r = Some (EMPI_SUCCESS, r') \<and> dt_ok r' \<and>
    (\<forall>(h, t) \<in> set predefined_datatypes. \<exists>p. handle_to_datatype ef r' h = Some (Some p) \<and>
       heap r' p = Some \<lparr>dt_handle = h, dt_type = t\<rparr>)"
proof -
  have "dt_ok (r\<lparr>slots := \<lambda>i. None\<rparr>)" by (simp add: dt_ok_def reg_inv_def)
  moreover have "0 \<le> h \<and> h < MAX_DATATYPES \<and> slots (r\<lparr>slots := \<lambda>i. None\<rparr>) h = None"
    if "h \<in> fst ` set predefined_datatypes" for h
    using predefined_range [OF that] by (simp add: EMPI_DEFINED_DATATYPES_def MAX_DATATYPES_def)
  ultimately obtain r' where r': "init_datatypes ef news r = Some (EMPI_SUCCESS, r')" "dt_ok r'"
    "\<forall>(h, t) \<in> set predefined_datatypes. \<exists>p. slots r' h = Some p \<and> heap r' p = Some \<lparr>dt_handle = h, dt_type = t\<rparr>"
    using add_predefined_slots [of "r\<lparr>slots := \<lambda>i. None\<rparr>" news predefined_datatypes ef] assms predefined_distinct
    by (auto simp: init_datatypes_def predefined_length)
  moreover have "handle_to_datatype ef r' h = Some (Some p) \<longleftrightarrow> slots r' h = Some p" for h p
    using r'(2) by (intro dt.lookup_iff) (simp add: dt_ok_def)
  ultimately show ?thesis by auto
qed

lemma predefined_datatypes_reachable_witness:
  "\<exists>r' p. init_datatypes True (map Some [0 ..< 41]) \<lparr>heap = \<lambda>_. None, slots = \<lambda>_. None\<rparr> = Some (EMPI_SUCCESS, r') \<and>
     handle_to_datatype True r' EMPI_INT = Some (Some p) \<and>
     heap r' p = Some \<lparr>dt_handle = EMPI_INT, dt_type = Predef ''MPI_INT''\<rparr>"
proof -
  have "(EMPI_INT, Predef ''MPI_INT'') \<in> set predefined_datatypes"
    by (simp add: predefined_datatypes_def c_datatypes_def)
  moreover have "distinct (map Some [0 ..< 41])" by (simp add: distinct_map)
  ultimately show ?thesis
    using predefined_datatypes_reachable [of "map Some [0 ..< 41]" "\<lparr>heap = \<lambda>_. None, slots = \<lambda>_. None\<rparr>" True]
    by fastforce
qed

text \<open>
  Life cycle of a derived datatype: the handle of an added type is not one of a predefined
  type, leads back to it, and freeing the type gives the handle back.
\<close>

lemma datatype_life_cycle:
  assumes "dt_ok r" "fresh r new" "add_datatype ef new t r = Some (Some p, r1)"
  shows "\<exists>h r2. is_derived_datatype h \<and> handle_to_datatype ef r1 h = Some (Some p) \<and>
    datatype_to_handle ef r1 (Some p) = Some h \<and>
    free_datatype ef (Some p) r1 = Some (EMPI_SUCCESS, r2) \<and> slots r2 = slots r \<and> dt_ok r2"
proof -
  from assms(3) obtain h where h: "first_free (slots r) EMPI_DEFINED_DATATYPES MAX_DATATYPES = Some h"
    "slots r1 = (slots r)(h \<mapsto> p)" by (rule add_datatype_Some)
  from first_free_Some [OF h(1)] have free: "EMPI_DEFINED_DATATYPES \<le> h" "slots r h = None" by auto
  have ok: "dt_ok r1" by (rule dt.alloc_ok [OF assms])
  then have inv: "reg_inv dt_handle 0 MAX_DATATYPES r1" by (simp add: dt_ok_def)
  have s: "slots r1 h = Some p" using h(2) by simp
  have l: "handle_to_datatype ef r1 h = Some (Some p)" using dt.lookup_iff [OF inv] s by simp
  have "0 \<le> h" using free(1) by (simp add: EMPI_DEFINED_DATATYPES_def)
  from dt.handle_roundtrip [OF inv this l] have "datatype_to_handle ef r1 (Some p) = Some h" .
  moreover have "(slots r1)(h := None) = slots r" using h(2) free(2) by auto
  ultimately show ?thesis
    using l free(1) free_datatype_slot [OF ok s free(1), of ef] dt_ok_free [OF ok s]
    by (auto simp: is_derived_datatype_def)
qed

lemma datatype_life_cycle_witness:
  "\<exists>r1 h r2. add_datatype True (Some 1) (Predef ''vector'') \<lparr>heap = \<lambda>_. None, slots = \<lambda>_. None\<rparr> = Some (Some 1, r1) \<and>
     datatype_to_handle True r1 (Some 1) = Some h \<and> free_datatype True (Some 1) r1 = Some (EMPI_SUCCESS, r2) \<and>
     slots r2 = (\<lambda>_. None)"
proof -
  let ?r = "\<lparr>heap = \<lambda>_. None, slots = \<lambda>_. None\<rparr> :: dt_reg"
  have "first_free (\<lambda>_. None :: addr option) EMPI_DEFINED_DATATYPES MAX_DATATYPES = Some EMPI_DEFINED_DATATYPES"
    by (subst first_free.simps) (simp add: EMPI_DEFINED_DATATYPES_def MAX_DATATYPES_def)
  then have "\<exists>r1. add_datatype True (Some 1) (Predef ''vector'') ?r = Some (Some 1, r1)"
    by (simp add: add_datatype_def intern_add_datatype_def EMPI_DEFINED_DATATYPES_def MAX_DATATYPES_def)
  then obtain r1 where r1: "add_datatype True (Some 1) (Predef ''vector'') ?r = Some (Some 1, r1)" by blast
  have "dt_ok ?r" "fresh ?r (Some 1)" by (simp_all add: dt_ok_def reg_inv_def fresh_def)
  from datatype_life_cycle [OF this r1] r1 show ?thesis by auto
qed

text \<open>
  Life cycle of a request: a created request is reached by its handle, every other handle
  leads where it led before, and freeing the request returns the registry to the handles it had.
\<close>

lemma request_life_cycle:
  assumes "req_ok r" "fresh r new"
    and "create_request ef new junk fl buf count typ dest tag c r = Some (Some p, r1)"
  shows "\<exists>h r2. request_to_handle ef r1 (Some p) = Some h \<and> handle_to_request ef r1 h = Some (Some p) \<and>
    (\<forall>k q. handle_to_request ef r k = Some (Some q) \<longrightarrow> handle_to_request ef r1 k = Some (Some q)) \<and>
    free_request (Some p) r1 = Some r2 \<and> slots r2 = slots r \<and> heap r2 p = None \<and> req_ok r2"
proof -
  let ?x = "(junk, fl, buf, count, typ, dest, tag, c)"
  let ?create = "\<lambda>ef new (junk, fl, buf, count, typ, dest, tag, c). create_request ef new junk fl buf count typ dest tag c"
  have a: "?create ef new ?x r = Some (Some p, r1)" using assms(3) by simp
  obtain h where h: "request_to_handle ef r1 (Some p) = Some h" "handle_to_request ef r1 h = Some (Some p)"
    by (rule rq.alloc_reachable [OF assms(1,2) a])
  obtain r2 where r2: "free_request (slots r1 h) r1 = Some r2" "slots r2 = slots r" "heap r2 p = None" "req_ok r2"
    using rq.alloc_dealloc [OF assms(1,2) a h(1)] by blast
  have "req_ok r1" using req_ok_create [OF assms] .
  then have "slots r1 h = Some p" using rq.lookup_iff [of r1 ef h p] h(2) by (simp add: req_ok_def)
  with h r2 rq.alloc_keeps [OF assms(1,2) a, of ef] show ?thesis by auto
qed

lemma request_life_cycle_witness:
  "\<exists>r1 h. create_request True (Some 21) None REQUEST_FLAG_SEND None 1 None 0 5 None ex_requests = Some (Some 21, r1) \<and>
     request_to_handle True r1 (Some 21) = Some h \<and> handle_to_request True r1 0 = Some (Some 20)"
proof -
  have "first_free (slots ex_requests) 0 MAX_REQUESTS = Some 1"
    by (simp add: first_free.simps [of _ 0] first_free.simps [of _ 1] ex_requests_def MAX_REQUESTS_def)
  then have "\<exists>r1. create_request True (Some 21) None REQUEST_FLAG_SEND None 1 None 0 5 None ex_requests = Some (Some 21, r1)"
    by (simp add: create_request_def add_request_def)
  then obtain r1 where r1:
    "create_request True (Some 21) None REQUEST_FLAG_SEND None 1 None 0 5 None ex_requests = Some (Some 21, r1)" by blast
  have ok: "req_ok ex_requests" "fresh ex_requests (Some 21)"
    by (auto simp: req_ok_def reg_inv_def fresh_def ex_requests_def ex_request_def MAX_REQUESTS_def split: if_splits)
  have "handle_to_request True ex_requests 0 = Some (Some 20)"
    by (simp add: handle_to_request_def MAX_REQUESTS_def ex_requests_def)
  with request_life_cycle [OF ok r1] r1 show ?thesis by blast
qed

end
